(* ===== verification/Prelude.thy ===== *)
theory Prelude
  imports Main "HOL-Library.Word" "HOL-Library.AList" "HOL-Library.Code_Target_Nat"
begin

text \<open>
  The prelude of the development: the names of the types the components share (bytes, instants,
  Go maps), the collections of simplification rules, and the generic lemmas on lists, options,
  association lists and words that carry the component proofs.

  Conventions.
  \<^item> A Go \<^verbatim>\<open>string\<close> is a sequence of bytes and is modelled by \<^typ>\<open>string\<close>, a list of 8-bit
    characters; \<^verbatim>\<open>[]byte\<close> on the wire is a list of \<^typ>\<open>8 word\<close>.
  \<^item> A Go \<^verbatim>\<open>map\<close> is an association list with distinct keys: its iteration order is one of the orders
    the language allows, and its length is the length of the list.
  \<^item> \<^verbatim>\<open>time.Time\<close> and \<^verbatim>\<open>time.Duration\<close> are integers counting nanoseconds.
  \<^item> A Go \<^verbatim>\<open>int\<close> is an \<^typ>\<open>int\<close>; where an operation can leave the 64-bit range, the wrap-around is
    written out with \<open>wrap64\<close>.
\<close>

type_synonym byte = "8 word"
type_synonym bytes = "byte list"
type_synonym instant = int
type_synonym duration = int
type_synonym ('k, 'v) gomap = "('k \<times> 'v) list"

named_theorems validate_defs \<open>the field validators of the wire and configuration formats\<close>
named_theorems step_defs \<open>the operations of the stateful components\<close>

unbundle bit_operations_syntax

section \<open>Durations\<close>

abbreviation millisecond :: duration where
  "millisecond \<equiv> 1000000"

abbreviation second :: duration where
  "second \<equiv> 1000000000"

abbreviation minute :: duration where
  "minute \<equiv> 60000000000"

abbreviation hour :: duration where
  "hour \<equiv> 3600000000000"

text \<open>The zero \<^verbatim>\<open>time.Time\<close> (January 1 of year 1), in nanoseconds relative to the Unix epoch.\<close>

definition zero_time :: instant where
  "zero_time = -62135596800000000000"

section \<open>Signed 64-bit arithmetic\<close>

text \<open>The value an \<^verbatim>\<open>int64\<close> holds after an operation whose mathematical result is \<open>x\<close>.\<close>

definition wrap64 :: "int \<Rightarrow> int" where
  "wrap64 x = (x + 2 ^ 63) mod 2 ^ 64 - 2 ^ 63"

lemma wrap64_id [simp]: "- (2 ^ 63) \<le> x \<Longrightarrow> x < 2 ^ 63 \<Longrightarrow> wrap64 x = x"
  by (simp add: wrap64_def)

lemma wrap64_range: "- (2 ^ 63) \<le> wrap64 x \<and> wrap64 x < 2 ^ 63"
proof -
  have "0 \<le> (x + 2 ^ 63) mod 2 ^ 64" and "(x + 2 ^ 63) mod 2 ^ 64 < 2 ^ 64"
    by simp_all
  then show ?thesis by (simp add: wrap64_def)
qed

lemma wrap64_add_left [simp]: "wrap64 (wrap64 x + y) = wrap64 (x + y)"
proof -
  have "((x + 2 ^ 63) mod 2 ^ 64 - 2 ^ 63 + y + 2 ^ 63) mod 2 ^ 64
      = ((x + 2 ^ 63) mod 2 ^ 64 + y) mod 2 ^ 64"
    by (simp add: algebra_simps)
  also have "\<dots> = (x + 2 ^ 63 + y) mod 2 ^ 64"
    by (simp add: mod_add_left_eq)
  finally show ?thesis by (simp add: wrap64_def algebra_simps)
qed

section \<open>Go maps as association lists\<close>

abbreviation mget :: "('k, 'v) gomap \<Rightarrow> 'k \<Rightarrow> 'v option" where
  "mget \<equiv> map_of"

abbreviation mput :: "'k \<Rightarrow> 'v \<Rightarrow> ('k, 'v) gomap \<Rightarrow> ('k, 'v) gomap" where
  "mput \<equiv> AList.update"

abbreviation mdel :: "'k \<Rightarrow> ('k, 'v) gomap \<Rightarrow> ('k, 'v) gomap" where
  "mdel \<equiv> AList.delete"

abbreviation mkeys :: "('k, 'v) gomap \<Rightarrow> 'k list" where
  "mkeys m \<equiv> map fst m"

definition mwf :: "('k, 'v) gomap \<Rightarrow> bool" where
  "mwf m \<longleftrightarrow> distinct (map fst m)"

text \<open>Deleting every entry that satisfies a predicate, as a loop with \<^verbatim>\<open>delete\<close> does.\<close>

definition mdel_where :: "('k \<Rightarrow> 'v \<Rightarrow> bool) \<Rightarrow> ('k, 'v) gomap \<Rightarrow> ('k, 'v) gomap" where
  "mdel_where P m = filter (\<lambda>(k, v). \<not> P k v) m"

lemma mwf_Nil [simp, intro]: "mwf []"
  by (simp add: mwf_def)

lemma mwf_mput [simp, intro]: "mwf m \<Longrightarrow> mwf (mput k v m)"
  by (simp add: mwf_def distinct_update)

lemma mwf_mdel [simp, intro]: "mwf m \<Longrightarrow> mwf (mdel k m)"
  by (simp add: mwf_def distinct_delete)

lemma mwf_mdel_where [simp, intro]: "mwf m \<Longrightarrow> mwf (mdel_where P m)"
  by (induction m) (auto simp: mwf_def mdel_where_def)

lemma mget_mput [simp]: "mget (mput k v m) k' = (if k' = k then Some v else mget m k')"
  by (simp add: update_conv')

lemma mget_mdel [simp]: "mget (mdel k m) k' = (if k' = k then None else mget m k')"
  by (simp add: delete_conv')

lemma mget_None_key: "mget m k = None \<longleftrightarrow> k \<notin> set (mkeys m)"
  by (simp add: map_of_eq_None_iff)

lemma mget_mdel_where:
  "mwf m \<Longrightarrow> mget (mdel_where P m) k =
     (case mget m k of None \<Rightarrow> None | Some v \<Rightarrow> if P k v then None else Some v)"
proof (induction m)
  case (Cons a m)
  obtain k' v' where a: "a = (k', v')" by fastforce
  from Cons.prems have wf: "mwf m" and fresh: "k' \<notin> set (mkeys m)"
    by (auto simp: mwf_def a)
  from fresh have "mget m k' = None" by (simp add: mget_None_key)
  then show ?case
    using Cons.IH [OF wf] by (auto simp: a mdel_where_def)
qed (simp add: mdel_where_def)

lemma length_mput: "length (mput k v m) = (if mget m k = None then Suc (length m) else length m)"
  by (induction m) auto

lemma length_mdel_le: "length (mdel k m) \<le> length m"
  by (simp add: AList.delete_eq)

lemma mdel_fresh: "mget m k = None \<Longrightarrow> mdel k m = m"
  by (induction m) (auto split: if_splits)

lemma length_mdel: "mwf m \<Longrightarrow> length (mdel k m) = (if mget m k = None then length m else length m - 1)"
proof (induction m)
  case (Cons a m)
  obtain k' v' where a: "a = (k', v')" by fastforce
  from Cons.prems have wf: "mwf m" and fresh: "mget m k' = None"
    by (auto simp: mwf_def a mget_None_key)
  show ?case
  proof (cases "k' = k")
    case True
    then show ?thesis using fresh by (simp add: a mdel_fresh)
  next
    case False
    have "mget m k \<noteq> None \<Longrightarrow> 0 < length m" by (cases m) auto
    then show ?thesis using Cons.IH [OF wf] False by (auto simp: a)
  qed
qed simp

lemma length_mdel_where_le: "length (mdel_where P m) \<le> length m"
  by (simp add: mdel_where_def)

lemma mget_in_set: "mget m k = Some v \<Longrightarrow> (k, v) \<in> set m"
  by (rule map_of_SomeD)

lemma mwf_mget: "mwf m \<Longrightarrow> (k, v) \<in> set m \<longleftrightarrow> mget m k = Some v"
  by (simp add: mwf_def)

lemma set_mput_subset: "(a, b) \<in> set (mput k v m) \<Longrightarrow> (a, b) = (k, v) \<or> (a, b) \<in> set m"
  by (induction m) (auto split: if_splits)

lemma set_mdel: "set (mdel k m) = {(a, b) \<in> set m. a \<noteq> k}"
  by (auto simp: AList.delete_eq)

lemma set_mdel_where: "set (mdel_where P m) = {(a, b) \<in> set m. \<not> P a b}"
  by (auto simp: mdel_where_def)

lemmas gomap_lengths = length_mput length_mdel length_mdel_le length_mdel_where_le

section \<open>The key-value interface\<close>

text \<open>
  Several components keep a registry: sessions by client, tunnels by id, hosts by name, pending
  pairings by connection id. What they rely on is that a lookup sees the last write and nothing
  else changes. The laws are stated once, and the association lists discharge them.
\<close>

locale kv_store =
  fixes get :: "'s \<Rightarrow> 'k \<Rightarrow> 'v option"
    and put :: "'k \<Rightarrow> 'v \<Rightarrow> 's \<Rightarrow> 's"
    and del :: "'k \<Rightarrow> 's \<Rightarrow> 's"
    and invar :: "'s \<Rightarrow> bool"
  assumes get_put: "invar s \<Longrightarrow> get (put k v s) k' = (if k' = k then Some v else get s k')"
    and get_del: "invar s \<Longrightarrow> get (del k s) k' = (if k' = k then None else get s k')"
    and invar_put: "invar s \<Longrightarrow> invar (put k v s)"
    and invar_del: "invar s \<Longrightarrow> invar (del k s)"
begin

lemma put_then_get: "invar s \<Longrightarrow> get (put k v s) k = Some v"
  by (simp add: get_put)

lemma put_frame: "invar s \<Longrightarrow> k' \<noteq> k \<Longrightarrow> get (put k v s) k' = get s k'"
  by (simp add: get_put)

lemma del_put_fresh:
  "invar s \<Longrightarrow> get s k = None \<Longrightarrow> get (del k (put k v s)) k' = get s k'"
  by (simp add: get_put get_del invar_put)

lemma invar_dels: "invar s \<Longrightarrow> invar (fold del ks s)"
  by (induction ks arbitrary: s) (auto intro: invar_del)

lemma get_dels: "invar s \<Longrightarrow> get (fold del ks s) k' = (if k' \<in> set ks then None else get s k')"
  by (induction ks arbitrary: s) (auto simp: get_del invar_del)

end

interpretation gm: kv_store mget mput mdel mwf
  by unfold_locales auto

section \<open>Lists\<close>

lemma filter_remove1_notin: "x \<notin> set xs \<Longrightarrow> filter (\<lambda>y. y \<noteq> x) xs = xs"
  by (induction xs) auto

lemma distinct_remove1_filter: "distinct xs \<Longrightarrow> remove1 x xs = filter (\<lambda>y. y \<noteq> x) xs"
  by (simp add: distinct_remove1_removeAll removeAll_filter_not_eq) (metis (full_types))

lemma list_all_set: "list_all P xs \<longleftrightarrow> (\<forall>x \<in> set xs. P x)"
  by (simp add: list_all_iff)

end
