(* ===== verification/Session.thy ===== *)
theory Session
  imports Prelude
begin

text \<open>
  \<^verbatim>\<open>internal/session/session.go\<close>: the server-side registry that maps a client id to its one live
  session. The registry holds pointers: a session lives in a heap of sessions (\<open>session_heap\<close>, by
  address), and the registry maps a client id to an address, because the connection handler keeps its
  own pointer after the registry has moved on to a newer session.
\<close>

datatype session_error = ErrExists

text \<open>\<open>Conn\<close> is the control connection's handle, \<^const>\<open>None\<close> for nil.\<close>

record session =
  ClientID :: string
  Conn :: "nat option"
  tunnels :: int
  conns :: int
  lastActive :: instant

type_synonym registry = "(string, nat) gomap"
type_synonym session_heap = "(nat, session) gomap"

definition Touch :: "instant \<Rightarrow> session \<Rightarrow> session" where
  "Touch now s = s\<lparr>lastActive := now\<rparr>"

definition LastActive :: "session \<Rightarrow> instant" where
  "LastActive s = lastActive s"

definition SetTunnels :: "int \<Rightarrow> session \<Rightarrow> session" where
  "SetTunnels n s = s\<lparr>tunnels := n\<rparr>"

definition SetConns :: "int \<Rightarrow> session \<Rightarrow> session" where
  "SetConns n s = s\<lparr>conns := n\<rparr>"

definition NewRegistry :: registry where
  "NewRegistry = []"

definition Register :: "nat \<Rightarrow> session \<Rightarrow> registry \<Rightarrow> session_error + registry" where
  "Register addr s r =
     (if mget r (ClientID s) \<noteq> None then Inl ErrExists else Inr (mput (ClientID s) addr r))"

definition Unregister :: "string \<Rightarrow> registry \<Rightarrow> nat option \<times> registry" where
  "Unregister cid r = (mget r cid, mdel cid r)"

definition Get :: "string \<Rightarrow> registry \<Rightarrow> nat option" where
  "Get cid r = mget r cid"

definition Len :: "registry \<Rightarrow> nat" where
  "Len r = length r"

definition All :: "registry \<Rightarrow> nat list" where
  "All r = map snd r"

section \<open>Lemmas\<close>

lemma Register_Inr:
  "Register addr s r = Inr r' \<Longrightarrow> mwf r \<Longrightarrow>
     mwf r' \<and> Get (ClientID s) r = None \<and> Get (ClientID s) r' = Some addr \<and> Len r' = Suc (Len r)"
  by (auto simp: Register_def Get_def Len_def length_mput split: if_splits)

lemma Register_Inl: "Register addr s r = Inl e \<longleftrightarrow> Get (ClientID s) r \<noteq> None"
  by (cases e) (simp add: Register_def Get_def)

lemma Unregister_Get:
  "Get cid' (snd (Unregister cid r)) = (if cid' = cid then None else Get cid' r)"
  by (simp add: Get_def Unregister_def)

lemma Unregister_Register: "\<exists>r'. Register addr s (snd (Unregister (ClientID s) r)) = Inr r' \<and> Get (ClientID s) r' = Some addr"
  by (simp add: Register_def Unregister_def Get_def)

lemma mwf_Unregister [simp]: "mwf r \<Longrightarrow> mwf (snd (Unregister cid r))"
  by (simp add: Unregister_def)

end
