(* ===== verification/GoStrings.thy ===== *)
theory GoStrings
  imports Prelude
begin

text \<open>
  The functions of Go's \<^verbatim>\<open>strings\<close>, \<^verbatim>\<open>bytes\<close>, \<^verbatim>\<open>strconv\<close> and \<^verbatim>\<open>fmt\<close> packages that the program calls,
  on byte strings: searching and cutting, trimming, case folding, decimal parsing and printing.
  Index results that Go reports as -1 are \<^const>\<open>None\<close>; a parse error is \<^const>\<open>None\<close>.
  The second half proves what the components need of them: decimal round trips, the shape of a
  split, and bounds on what a search can find.
\<close>

section \<open>Character classes\<close>

definition code :: "char \<Rightarrow> nat" where
  "code c = of_char c"

definition is_digit :: "char \<Rightarrow> bool" where
  "is_digit c \<longleftrightarrow> 48 \<le> code c \<and> code c \<le> 57"

definition is_lower :: "char \<Rightarrow> bool" where
  "is_lower c \<longleftrightarrow> 97 \<le> code c \<and> code c \<le> 122"

definition is_upper :: "char \<Rightarrow> bool" where
  "is_upper c \<longleftrightarrow> 65 \<le> code c \<and> code c \<le> 90"

definition is_ascii :: "char \<Rightarrow> bool" where
  "is_ascii c \<longleftrightarrow> code c < 128"

definition ascii_lower :: "char \<Rightarrow> char" where
  "ascii_lower c = (if is_upper c then char_of (code c + 32) else c)"

definition hex_value :: "char \<Rightarrow> nat option" where
  "hex_value c =
     (if is_digit c then Some (code c - 48)
      else if 97 \<le> code c \<and> code c \<le> 102 then Some (code c - 87)
      else if 65 \<le> code c \<and> code c \<le> 70 then Some (code c - 55)
      else None)"

section \<open>Searching and cutting\<close>

fun index_byte :: "string \<Rightarrow> char \<Rightarrow> nat option" where
  "index_byte [] c = None"
| "index_byte (x # xs) c = (if x = c then Some 0 else map_option Suc (index_byte xs c))"

definition last_index_byte :: "string \<Rightarrow> char \<Rightarrow> nat option" where
  "last_index_byte s c = map_option (\<lambda>i. length s - 1 - i) (index_byte (rev s) c)"

fun has_prefix :: "string \<Rightarrow> string \<Rightarrow> bool" where
  "has_prefix s [] = True"
| "has_prefix [] (c # cs) = False"
| "has_prefix (x # xs) (c # cs) = (x = c \<and> has_prefix xs cs)"

definition has_suffix :: "string \<Rightarrow> string \<Rightarrow> bool" where
  "has_suffix s suf = has_prefix (rev s) (rev suf)"

definition trim_suffix :: "string \<Rightarrow> string \<Rightarrow> string" where
  "trim_suffix s suf = (if has_suffix s suf then take (length s - length suf) s else s)"

fun contains :: "string \<Rightarrow> string \<Rightarrow> bool" where
  "contains [] sub = (sub = [])"
| "contains (c # s) sub = (has_prefix (c # s) sub \<or> contains s sub)"

text \<open>\<^verbatim>\<open>strings.Split(s, sep)\<close> for a one-byte separator: at least one piece.\<close>

fun split_on :: "char \<Rightarrow> string \<Rightarrow> string list" where
  "split_on c [] = [[]]"
| "split_on c (x # xs) =
     (if x = c then [] # split_on c xs
      else (case split_on c xs of [] \<Rightarrow> [[x]] | p # ps \<Rightarrow> (x # p) # ps))"

text \<open>
  \<^verbatim>\<open>strings.SplitN(s, sep, 2)\<close> and \<^verbatim>\<open>strings.Cut\<close>: the text before and after the first separator.
\<close>

definition cut :: "char \<Rightarrow> string \<Rightarrow> (string \<times> string) option" where
  "cut c s = map_option (\<lambda>i. (take i s, drop (Suc i) s)) (index_byte s c)"

section \<open>Trimming and fields\<close>

text \<open>
  The UTF-8 encodings of the code points for which \<^verbatim>\<open>unicode.IsSpace\<close> holds: the six ASCII ones,
  U+0085, U+00A0, U+1680, U+2000 to U+200A, U+2028, U+2029, U+202F, U+205F and U+3000.
\<close>

definition space_codes :: "nat list list" where
  "space_codes =
     [[9], [10], [11], [12], [13], [32], [194, 133], [194, 160], [225, 154, 128],
      [226, 128, 128], [226, 128, 129], [226, 128, 130], [226, 128, 131], [226, 128, 132],
      [226, 128, 133], [226, 128, 134], [226, 128, 135], [226, 128, 136], [226, 128, 137],
      [226, 128, 138], [226, 128, 168], [226, 128, 169], [226, 128, 175], [226, 129, 159],
      [227, 128, 128]]"

definition spaces :: "string list" where
  "spaces = map (map char_of) space_codes"

definition leading_space :: "string \<Rightarrow> nat option" where
  "leading_space s = map_option length (find (has_prefix s) spaces)"

definition trailing_space :: "string \<Rightarrow> nat option" where
  "trailing_space s = map_option length (find (has_suffix s) spaces)"

fun strip :: "nat \<Rightarrow> (string \<Rightarrow> nat option) \<Rightarrow> string \<Rightarrow> string" where
  "strip 0 sp s = s"
| "strip (Suc n) sp s = (case sp s of None \<Rightarrow> s | Some k \<Rightarrow> strip n sp (drop k s))"

definition trim_left :: "string \<Rightarrow> string" where
  "trim_left s = strip (length s) leading_space s"

definition trim_right :: "string \<Rightarrow> string" where
  "trim_right s = rev (strip (length s) (\<lambda>r. trailing_space (rev r)) (rev s))"

definition trim_space :: "string \<Rightarrow> string" where
  "trim_space s = trim_right (trim_left s)"

text \<open>\<^verbatim>\<open>bytes.Fields\<close>: maximal runs of text between white space.\<close>

fun fields_aux :: "nat \<Rightarrow> string \<Rightarrow> string \<Rightarrow> string list" where
  "fields_aux 0 acc s = (if acc = [] then [] else [rev acc])"
| "fields_aux (Suc n) acc s =
     (case s of
        [] \<Rightarrow> (if acc = [] then [] else [rev acc])
      | c # cs \<Rightarrow>
          (case leading_space s of
             Some k \<Rightarrow> (if acc = [] then fields_aux n [] (drop k s)
                        else rev acc # fields_aux n [] (drop k s))
           | None \<Rightarrow> fields_aux n (c # acc) cs))"

definition fields :: "string \<Rightarrow> string list" where
  "fields s = fields_aux (Suc (length s)) [] s"

section \<open>Case folding\<close>

text \<open>
  \<^verbatim>\<open>strings.ToLower\<close> maps the ASCII letters byte by byte. For a string with a byte outside ASCII it
  uses the Unicode case tables; that table lookup is the argument \<open>ucase\<close>.
\<close>

definition to_lower :: "(string \<Rightarrow> string) \<Rightarrow> string \<Rightarrow> string" where
  "to_lower ucase s = (if list_all is_ascii s then map ascii_lower s else ucase s)"

text \<open>
  \<^verbatim>\<open>strings.EqualFold(key, "Host")\<close>: simple folding also identifies the long s, U+017F, with s.
\<close>

definition equal_fold_Host :: "string \<Rightarrow> bool" where
  "equal_fold_Host key \<longleftrightarrow>
     map ascii_lower key = ''host'' \<or>
     map ascii_lower key = [CHR ''h'', CHR ''o'', char_of (197 :: nat), char_of (191 :: nat), CHR ''t'']"

section \<open>Decimal numbers\<close>

definition dec_value :: "string \<Rightarrow> nat" where
  "dec_value s = foldl (\<lambda>a c. 10 * a + (code c - 48)) 0 s"

definition int64_of :: "bool \<Rightarrow> nat \<Rightarrow> int option" where
  "int64_of neg n =
     (let v = (if neg then - int n else int n)
      in if - (2 ^ 63) \<le> v \<and> v < 2 ^ 63 then Some v else None)"

text \<open>\<^verbatim>\<open>strconv.Atoi\<close>: an optional sign and at least one decimal digit, within \<^verbatim>\<open>int64\<close>.\<close>

definition Atoi :: "string \<Rightarrow> int option" where
  "Atoi s =
     (let neg = has_prefix s ''-'';
          ds = (if neg \<or> has_prefix s ''+'' then tl s else s)
      in if ds \<noteq> [] \<and> list_all is_digit ds then int64_of neg (dec_value ds) else None)"

text \<open>
  \<^verbatim>\<open>fmt.Sscanf(s, "%d", &n)\<close>: leading white space is skipped (a newline is an error), then an
  optional sign and the longest run of digits; what follows is not read.
\<close>

definition sscanf_d :: "string \<Rightarrow> int option" where
  "sscanf_d s =
     (let blank = take (length s - length (trim_left s)) s;
          t = trim_left s;
          neg = has_prefix t ''-'';
          u = (if neg \<or> has_prefix t ''+'' then tl t else t);
          ds = takeWhile is_digit u
      in if CHR 0x0A \<in> set blank \<or> ds = [] then None else int64_of neg (dec_value ds))"

definition digit_char :: "nat \<Rightarrow> char" where
  "digit_char d = char_of (48 + d)"

fun nat_string :: "nat \<Rightarrow> string" where
  "nat_string n = (if n < 10 then [digit_char n] else nat_string (n div 10) @ [digit_char (n mod 10)])"

declare nat_string.simps [simp del]

text \<open>The \<^verbatim>\<open>%d\<close> verb of \<^verbatim>\<open>fmt.Sprintf\<close>.\<close>

definition Itoa :: "int \<Rightarrow> string" where
  "Itoa i = (if i < 0 then CHR ''-'' # nat_string (nat (- i)) else nat_string (nat i))"

section \<open>Facts about searching\<close>

lemma index_byte_None [simp]: "index_byte s c = None \<longleftrightarrow> c \<notin> set s"
  by (induction s) auto

lemma index_byte_Some:
  "index_byte s c = Some i \<Longrightarrow> i < length s \<and> s ! i = c \<and> c \<notin> set (take i s)"
proof (induction s arbitrary: i)
  case (Cons x xs)
  then show ?case by (cases "x = c") auto
qed simp

lemma last_index_byte_None [simp]: "last_index_byte s c = None \<longleftrightarrow> c \<notin> set s"
  by (simp add: last_index_byte_def)

lemma last_index_byte_Some:
  assumes "last_index_byte s c = Some i"
  shows "i < length s \<and> s ! i = c \<and> c \<notin> set (drop (Suc i) s)"
proof -
  from assms obtain j where j: "index_byte (rev s) c = Some j" and i: "i = length s - 1 - j"
    by (auto simp: last_index_byte_def)
  from index_byte_Some [OF j] have len: "j < length s" and at: "rev s ! j = c"
    and notin: "c \<notin> set (take j (rev s))" by auto
  from len i have "Suc i = length s - j" by simp
  then have drop: "drop (Suc i) s = rev (take j (rev s))"
    by (simp add: take_rev)
  have "s ! i = c" using at len i by (simp add: rev_nth)
  then show ?thesis using len i notin drop by simp
qed

lemma has_prefix_append: "has_prefix s p \<longleftrightarrow> (\<exists>r. s = p @ r)"
  by (induction s p rule: has_prefix.induct) auto

lemma has_suffix_append: "has_suffix s p \<longleftrightarrow> (\<exists>r. s = r @ p)"
proof
  assume "has_suffix s p"
  then obtain r where "rev s = rev p @ r" by (auto simp: has_suffix_def has_prefix_append)
  then have "s = rev r @ p" by (metis rev_append rev_rev_ident)
  then show "\<exists>r. s = r @ p" ..
next
  assume "\<exists>r. s = r @ p"
  then show "has_suffix s p" by (auto simp: has_suffix_def has_prefix_append)
qed

lemma contains_append: "contains s sub \<longleftrightarrow> (\<exists>a b. s = a @ sub @ b)"
proof (induction s)
  case (Cons c s)
  have "(\<exists>a b. c # s = a @ sub @ b) \<longleftrightarrow> (\<exists>b. c # s = sub @ b) \<or> (\<exists>a b. s = a @ sub @ b)"
    by (auto simp: Cons_eq_append_conv)
  then show ?case by (simp add: Cons.IH has_prefix_append)
qed simp

lemma contains_set: "contains s sub \<Longrightarrow> set sub \<subseteq> set s"
  by (auto simp: contains_append)

lemma contains_mid [simp]: "contains (a @ sub @ b) sub"
  by (auto simp: contains_append)

lemma split_on_nonempty [simp]: "split_on c s \<noteq> []"
  by (cases s) (auto split: list.splits)

lemma split_on_single: "c \<notin> set s \<Longrightarrow> split_on c s = [s]"
  by (induction s) auto

lemma split_on_pieces: "p \<in> set (split_on c s) \<Longrightarrow> c \<notin> set p \<and> set p \<subseteq> set s"
proof (induction s arbitrary: p)
  case (Cons x xs)
  show ?case
  proof (cases "x = c")
    case True
    with Cons show ?thesis by auto
  next
    case False
    obtain q qs where q: "split_on c xs = q # qs"
      by (cases "split_on c xs") auto
    with Cons.IH have "c \<notin> set q" "set q \<subseteq> set xs" by auto
    moreover have "p = x # q \<or> p \<in> set qs" using Cons.prems False q by simp
    ultimately show ?thesis using Cons.IH [of p] False q by auto
  qed
qed simp

lemma cut_Some: "cut c s = Some (a, b) \<Longrightarrow> s = a @ c # b \<and> c \<notin> set a"
proof -
  assume "cut c s = Some (a, b)"
  then obtain i where i: "index_byte s c = Some i" "a = take i s" "b = drop (Suc i) s"
    by (auto simp: cut_def)
  from index_byte_Some [OF i(1)] have "i < length s" "s ! i = c" "c \<notin> set (take i s)" by auto
  then show ?thesis using i id_take_nth_drop [of i s] by simp
qed

lemma cut_None [simp]: "cut c s = None \<longleftrightarrow> c \<notin> set s"
  by (simp add: cut_def)

lemma cut_fresh [simp]: "c \<notin> set s \<Longrightarrow> cut c s = None"
  by simp

lemma cut_append: "c \<notin> set a \<Longrightarrow> cut c (a @ c # b) = Some (a, b)"
  by (induction a) (auto simp: cut_def)

section \<open>Facts about decimal numbers\<close>

lemma code_char_of [simp]: "n < 256 \<Longrightarrow> code (char_of n) = n"
  by (simp add: code_def)

lemma code_less [simp]: "code c < 256"
  by (simp add: code_def)

lemma code_inject [simp]: "code c = code d \<longleftrightarrow> c = d"
  by (simp add: code_def)

lemma is_digit_digit_char [simp]: "d < 10 \<Longrightarrow> is_digit (digit_char d)"
  by (simp add: is_digit_def digit_char_def)

lemma digit_char_value [simp]: "d < 10 \<Longrightarrow> code (digit_char d) - 48 = d"
  by (simp add: digit_char_def)

lemma nat_string_nonempty [simp]: "nat_string n \<noteq> []"
  by (subst nat_string.simps) simp

lemma nat_string_digits: "list_all is_digit (nat_string n)"
proof (induction n rule: nat_string.induct)
  case (1 n)
  then show ?case by (subst nat_string.simps) auto
qed

lemma dec_value_snoc: "dec_value (s @ [c]) = 10 * dec_value s + (code c - 48)"
  by (simp add: dec_value_def)

lemma dec_value_nat_string [simp]: "dec_value (nat_string n) = n"
proof (induction n rule: nat_string.induct)
  case (1 n)
  show ?case
  proof (cases "n < 10")
    case True
    then show ?thesis by (subst nat_string.simps) (simp add: dec_value_def)
  next
    case False
    then have "dec_value (nat_string n) = 10 * (n div 10) + n mod 10"
      using "1.IH" by (subst nat_string.simps) (simp add: dec_value_snoc)
    then show ?thesis by simp
  qed
qed

lemma nat_string_inject [simp]: "nat_string m = nat_string n \<longleftrightarrow> m = n"
  by (metis dec_value_nat_string)

lemma nat_string_hd_digit: "is_digit (hd (nat_string n))"
  using nat_string_digits [of n] nat_string_nonempty [of n]
  by (cases "nat_string n") auto

lemma no_sign_digits: "list_all is_digit ds \<Longrightarrow> \<not> has_prefix ds ''-'' \<and> \<not> has_prefix ds ''+''"
  by (cases ds) (auto simp: is_digit_def code_def)

lemma Itoa_chars: "set (Itoa i) \<subseteq> insert (CHR ''-'') {c. is_digit c}"
  using nat_string_digits by (auto simp: Itoa_def list_all_iff)

lemma Itoa_nonneg_digits: "0 \<le> i \<Longrightarrow> list_all is_digit (Itoa i)"
  by (simp add: Itoa_def nat_string_digits)

theorem Atoi_Itoa: "- (2 ^ 63) \<le> i \<Longrightarrow> i < 2 ^ 63 \<Longrightarrow> Atoi (Itoa i) = Some i"
proof -
  assume r: "- (2 ^ 63) \<le> i" "i < 2 ^ 63"
  have digs: "list_all is_digit (nat_string n)" for n by (rule nat_string_digits)
  show ?thesis
  proof (cases "i < 0")
    case True
    then show ?thesis using r digs by (simp add: Atoi_def Itoa_def int64_of_def Let_def)
  next
    case False
    then show ?thesis using r digs no_sign_digits [OF digs]
      by (simp add: Atoi_def Itoa_def int64_of_def Let_def)
  qed
qed

lemma Itoa_inject [simp]: "Itoa i = Itoa j \<longleftrightarrow> i = j"
proof
  assume eq: "Itoa i = Itoa j"
  have hd: "is_digit (hd (nat_string n))" for n by (rule nat_string_hd_digit)
  have minus: "\<not> is_digit (CHR ''-'')" by (simp add: is_digit_def code_def)
  have ne: "CHR ''-'' # s \<noteq> nat_string n" for s n
    using hd [of n] minus by (metis list.sel(1))
  show "i = j" using eq ne ne [symmetric] by (auto simp: Itoa_def split: if_splits)
qed simp

lemma Atoi_range: "Atoi s = Some v \<Longrightarrow> - (2 ^ 63) \<le> v \<and> v < 2 ^ 63"
  by (auto simp: Atoi_def int64_of_def Let_def split: if_splits)

section \<open>Text without white space\<close>

text \<open>The visible ASCII characters begin and end no encoding of a white-space code point.\<close>

definition graph_char :: "char \<Rightarrow> bool" where
  "graph_char c \<longleftrightarrow> 33 \<le> code c \<and> code c \<le> 126"

lemma space_codes_not_graph:
  assumes "ns \<in> set space_codes"
  shows "ns \<noteq> []" and "hd ns < 256" and "last ns < 256"
    and "\<not> (33 \<le> hd ns \<and> hd ns \<le> 126)" and "\<not> (33 \<le> last ns \<and> last ns \<le> 126)"
  using assms by (auto simp: space_codes_def)

lemma spaces_not_graph:
  assumes "sp \<in> set spaces" and "graph_char c"
  shows "hd sp \<noteq> c \<and> last sp \<noteq> c \<and> sp \<noteq> []"
proof -
  from assms(1) obtain ns where ns: "ns \<in> set space_codes" and sp: "sp = map char_of ns"
    by (auto simp: spaces_def)
  note facts = space_codes_not_graph [OF ns]
  have "c \<noteq> char_of (hd ns)" and "c \<noteq> char_of (last ns)"
    using assms(2) facts by (auto simp: graph_char_def)
  then show ?thesis using facts(1) by (auto simp: sp hd_map last_map)
qed

lemma graph_not_space:
  assumes "graph_char c"
  shows "leading_space (c # s) = None" and "trailing_space (s @ [c]) = None"
  using spaces_not_graph [OF _ assms]
  by (fastforce simp: leading_space_def trailing_space_def find_None_iff has_prefix_append has_suffix_append
      append_eq_Cons_conv Cons_eq_append_conv append_eq_append_conv2)+

lemma trim_space_graph:
  assumes "s \<noteq> []" and "graph_char (hd s)" and "graph_char (last s)"
  shows "trim_space s = s"
proof -
  obtain c cs where s: "s = c # cs" using assms(1) by (cases s) auto
  have left: "trim_left s = s"
    using assms(2) graph_not_space(1) [of c cs] by (simp add: s trim_left_def)
  obtain cs' c' where s': "s = cs' @ [c']" using assms(1) by (cases s rule: rev_cases) auto
  have "trim_right s = s"
    using assms(3) graph_not_space(2) [of c' cs'] by (simp add: s' trim_right_def)
  then show ?thesis by (simp add: trim_space_def left)
qed

lemma trim_space_Nil [simp]: "trim_space [] = []"
  by (simp add: trim_space_def trim_left_def trim_right_def)

lemma Atoi_ends:
  assumes "Atoi s = Some v"
  shows "s \<noteq> [] \<and> graph_char (hd s) \<and> graph_char (last s)"
proof -
  have digit: "is_digit c \<Longrightarrow> graph_char c" for c by (auto simp: is_digit_def graph_char_def)
  have sign: "graph_char (CHR ''-'')" "graph_char (CHR ''+'')" by (simp_all add: graph_char_def code_def)
  let ?ds = "if has_prefix s ''-'' \<or> has_prefix s ''+'' then tl s else s"
  from assms have ds: "?ds \<noteq> []" "list_all is_digit ?ds" by (auto simp: Atoi_def Let_def split: if_splits)
  then have ne: "s \<noteq> []" by (auto split: if_splits)
  have "last s = last ?ds" using ds ne by (auto simp: last_tl split: if_splits)
  moreover have "last ?ds \<in> set ?ds" "hd ?ds \<in> set ?ds" using ds by simp_all
  moreover have "graph_char (hd s)"
    using ds ne digit sign by (cases s) (auto split: if_splits simp: list_all_iff)
  ultimately show ?thesis using ne ds digit by (auto simp: list_all_iff)
qed

end
