(* ===== verification/Vhost.thy ===== *)
theory Vhost
  imports GoStrings
begin

text \<open>
  \<^verbatim>\<open>internal/tunnel/vhost.go\<close>: the routing table of the shared HTTP port. The table is a Go map, so the
  suffix search visits its rules in an unspecified order; the lemmas show that the answer is the
  binding of the longest matching rule whatever the order is.
\<close>

record vhostEntry =
  tunnelID :: string
  clientID :: string

type_synonym VhostTable = "(string, vhostEntry) gomap"

datatype vhost_error = ErrNameConflict

definition NewVhostTable :: VhostTable where
  "NewVhostTable = []"

definition vhost_Register :: "string \<Rightarrow> string \<Rightarrow> string \<Rightarrow> VhostTable \<Rightarrow> vhost_error + VhostTable" where
  "vhost_Register host tid cid vt =
     (if mget vt host \<noteq> None then Inl ErrNameConflict
      else Inr (mput host \<lparr>tunnelID = tid, clientID = cid\<rparr> vt))"

definition UnregisterTunnel :: "string \<Rightarrow> VhostTable \<Rightarrow> VhostTable" where
  "UnregisterTunnel tid vt = mdel_where (\<lambda>h e. tunnelID e = tid) vt"

definition Count :: "VhostTable \<Rightarrow> nat" where
  "Count vt = length vt"

fun suffix_search :: "string \<Rightarrow> VhostTable \<Rightarrow> nat \<Rightarrow> vhostEntry option \<Rightarrow> vhostEntry option" where
  "suffix_search host [] bestLen best = best"
| "suffix_search host ((rule, e) # vt) bestLen best =
     (if bestLen < length rule \<and> has_suffix host (''.'' @ rule)
      then suffix_search host vt (length rule) (Some e)
      else suffix_search host vt bestLen best)"

definition Lookup :: "string \<Rightarrow> VhostTable \<Rightarrow> vhostEntry option" where
  "Lookup host vt =
     (case mget vt host of
        Some e \<Rightarrow> Some e
      | None \<Rightarrow> suffix_search host vt 0 None)"

section \<open>The longest suffix\<close>

definition suffix_rule :: "string \<Rightarrow> string \<Rightarrow> bool" where
  "suffix_rule host rule \<longleftrightarrow> rule \<noteq> [] \<and> has_suffix host (''.'' @ rule)"

lemma suffix_rule_length_unique:
  "suffix_rule host r \<Longrightarrow> suffix_rule host r' \<Longrightarrow> length r = length r' \<Longrightarrow> r = r'"
  by (auto simp: suffix_rule_def has_suffix_append)

text \<open>The state of the search: the best rule so far and its entry.\<close>

definition best_so_far :: "string \<Rightarrow> VhostTable \<Rightarrow> nat \<Rightarrow> vhostEntry option \<Rightarrow> bool" where
  "best_so_far host seen n best \<longleftrightarrow>
     (case best of
        None \<Rightarrow> n = 0 \<and> (\<forall>(r, e) \<in> set seen. \<not> suffix_rule host r)
      | Some e \<Rightarrow> (\<exists>r. (r, e) \<in> set seen \<and> suffix_rule host r \<and> length r = n) \<and>
                 (\<forall>(r, e) \<in> set seen. suffix_rule host r \<longrightarrow> length r \<le> n))"

lemma best_so_far_step:
  assumes "best_so_far host seen n best"
  shows "n < length rule \<and> has_suffix host (''.'' @ rule) \<Longrightarrow>
           best_so_far host (seen @ [(rule, e)]) (length rule) (Some e)"
    and "\<not> (n < length rule \<and> has_suffix host (''.'' @ rule)) \<Longrightarrow>
           best_so_far host (seen @ [(rule, e)]) n best"
proof -
  assume new: "n < length rule \<and> has_suffix host (''.'' @ rule)"
  have "length r \<le> n" if "(r, e') \<in> set seen" "suffix_rule host r" for r e'
    using assms that by (auto simp: best_so_far_def split: option.splits)
  then show "best_so_far host (seen @ [(rule, e)]) (length rule) (Some e)"
    using new by (fastforce simp: best_so_far_def suffix_rule_def)
next
  assume old: "\<not> (n < length rule \<and> has_suffix host (''.'' @ rule))"
  then have "suffix_rule host rule \<Longrightarrow> length rule \<le> n" by (simp add: suffix_rule_def)
  then show "best_so_far host (seen @ [(rule, e)]) n best"
    using assms by (fastforce simp: best_so_far_def suffix_rule_def split: option.splits)
qed

lemma suffix_search_best:
  "best_so_far host seen n best \<Longrightarrow> \<exists>m. best_so_far host (seen @ vt) m (suffix_search host vt n best)"
proof (induction vt arbitrary: seen n best)
  case (Cons x vt)
  obtain rule e where x: "x = (rule, e)" by fastforce
  show ?case
    using Cons.IH [of "seen @ [x]"] best_so_far_step [OF Cons.prems, of rule e] by (auto simp: x)
qed auto

lemma suffix_search_Some:
  assumes wf: "mwf vt"
  shows "suffix_search host vt 0 None = Some e \<longleftrightarrow>
     (\<exists>r. mget vt r = Some e \<and> suffix_rule host r \<and>
        (\<forall>r'. mget vt r' \<noteq> None \<and> suffix_rule host r' \<longrightarrow> length r' \<le> length r))"
proof -
  have "best_so_far host [] 0 None" by (simp add: best_so_far_def)
  then obtain m where best: "best_so_far host vt m (suffix_search host vt 0 None)"
    using suffix_search_best [of host "[]" 0 None vt] by auto
  have dom: "(\<exists>e. (r, e) \<in> set vt) \<longleftrightarrow> mget vt r \<noteq> None" for r
    using mwf_mget [OF wf] by auto
  show ?thesis
  proof (cases "suffix_search host vt 0 None")
    case None
    then show ?thesis using best mwf_mget [OF wf] by (fastforce simp: best_so_far_def)
  next
    case (Some e')
    then obtain r where r: "mget vt r = Some e'" "suffix_rule host r" "length r = m"
      and longest: "\<And>r' e. mget vt r' = Some e \<Longrightarrow> suffix_rule host r' \<Longrightarrow> length r' \<le> m"
      using best mwf_mget [OF wf] by (fastforce simp: best_so_far_def)
    have "e' = e" if "mget vt r1 = Some e" "suffix_rule host r1"
        "\<forall>r'. mget vt r' \<noteq> None \<and> suffix_rule host r' \<longrightarrow> length r' \<le> length r1" for r1
    proof -
      have "length r1 = length r" using that longest [of r1] r by (metis le_antisym option.distinct(1))
      then show ?thesis using suffix_rule_length_unique [OF that(2) r(2)] that(1) r(1) by simp
    qed
    then show ?thesis using Some r longest by (auto intro!: exI [of _ r])
  qed
qed

section \<open>Properties\<close>

text \<open>
  C19: Routing by host: an exact rule wins; without one, the binding of the longest rule of which the
  host is a subdomain, and no other rule, is returned.
\<close>

theorem Lookup_most_specific:
  assumes "mwf vt"
  shows "Lookup host vt = Some e \<longleftrightarrow>
     mget vt host = Some e \<or>
     mget vt host = None \<and>
     (\<exists>r. mget vt r = Some e \<and> suffix_rule host r \<and>
        (\<forall>r'. mget vt r' \<noteq> None \<and> suffix_rule host r' \<longrightarrow> length r' \<le> length r))"
  unfolding suffix_search_Some [OF assms, of host e, symmetric]
  by (auto simp: Lookup_def split: option.splits)

definition sample_table :: VhostTable where
  "sample_table = [(''example.com'', \<lparr>tunnelID = ''t_1'', clientID = ''a''\<rparr>),
                   (''git.example.com'', \<lparr>tunnelID = ''t_2'', clientID = ''b''\<rparr>)]"

theorem Lookup_most_specific_witness:
  "\<exists>r. mget sample_table r = Some \<lparr>tunnelID = ''t_2'', clientID = ''b''\<rparr> \<and> suffix_rule ''www.git.example.com'' r"
proof -
  have "mwf sample_table" by (simp add: sample_table_def mwf_def)
  moreover have "Lookup ''www.git.example.com'' sample_table = Some \<lparr>tunnelID = ''t_2'', clientID = ''b''\<rparr>"
    by code_simp
  moreover have "mget sample_table ''www.git.example.com'' = None" by code_simp
  ultimately show ?thesis
    using Lookup_most_specific [of sample_table "''www.git.example.com''" "\<lparr>tunnelID = ''t_2'', clientID = ''b''\<rparr>"]
    by auto
qed

text \<open>
  The answer does not depend on the order in which the Go runtime iterates the table: two tables
  with the same bindings route every host alike.
\<close>

theorem Lookup_order_independent:
  assumes "mwf vt" and "mwf vt'" and "set vt = set vt'"
  shows "Lookup host vt = Lookup host vt'"
proof -
  have "mget vt r = mget vt' r" for r
    using assms mwf_mget [OF assms(1), of r] mwf_mget [OF assms(2), of r] by (metis option.exhaust)
  then have "Lookup host vt = Some e \<longleftrightarrow> Lookup host vt' = Some e" for e
    using suffix_search_Some [OF assms(1)] suffix_search_Some [OF assms(2)]
    by (simp add: Lookup_def split: option.splits)
  then show ?thesis by (metis option.exhaust)
qed

theorem Lookup_order_independent_witness:
  "Lookup ''x.example.com'' sample_table = Lookup ''x.example.com'' (rev sample_table)"
  by (rule Lookup_order_independent) (auto simp: sample_table_def mwf_def)

section \<open>Bindings\<close>

lemma vhost_Register_Inr:
  "vhost_Register host tid cid vt = Inr vt' \<Longrightarrow>
     mget vt host = None \<and> vt' = mput host \<lparr>tunnelID = tid, clientID = cid\<rparr> vt"
  by (auto simp: vhost_Register_def split: if_splits)

lemma vhost_Register_Lookup:
  "vhost_Register host tid cid vt = Inr vt' \<Longrightarrow> Lookup host vt' = Some \<lparr>tunnelID = tid, clientID = cid\<rparr>"
  by (auto dest!: vhost_Register_Inr simp: Lookup_def)

lemma UnregisterTunnel_get:
  "mwf vt \<Longrightarrow> mget (UnregisterTunnel tid vt) h =
     (case mget vt h of None \<Rightarrow> None | Some e \<Rightarrow> if tunnelID e = tid then None else Some e)"
  by (simp add: UnregisterTunnel_def mget_mdel_where)

lemma mwf_UnregisterTunnel [simp]: "mwf vt \<Longrightarrow> mwf (UnregisterTunnel tid vt)"
  by (simp add: UnregisterTunnel_def)

end
