(* ===== verification/Sniff.thy ===== *)
theory Sniff
  imports GoStrings
begin

text \<open>
  \<^verbatim>\<open>internal/tunnel/http_sniff.go\<close>: reading the head of an HTTP request up to its Host header, the
  normal form of host names that are routing keys, and the connection that replays what was consumed.

  The byte stream of the public connection is a string together with the way it ends: end of file, or
  another read error such as the sniff deadline. \<open>ucase\<close> is the Unicode part of \<^verbatim>\<open>strings.ToLower\<close>.
\<close>

datatype sniff_error =
    ErrSniffTooLarge
  | ErrSniffNoHost
  | ErrSniffBadHost
  | ErrSniffMalformed
  | ErrSniffClosed
  | SniffReadError

record SniffResult =
  sr_Host :: string
  sr_Prefix :: string
  sr_Rest :: string

abbreviation MaxSniffBytes :: nat where
  "MaxSniffBytes \<equiv> 8 * 1024"

abbreviation SniffTimeout :: duration where
  "SniffTimeout \<equiv> 5 * second"

abbreviation LF :: char where
  "LF \<equiv> CHR 0x0A"

abbreviation CR :: char where
  "CR \<equiv> CHR 0x0D"

section \<open>Lines\<close>

datatype stream_end = AtEOF | AtError

datatype slice_error = BufferFull | SliceEOF string | SliceError

text \<open>
  \<^verbatim>\<open>bufio.Reader.ReadSlice('\n')\<close> with a buffer of \<open>bsz\<close> bytes: the line with its terminator and the
  rest of the stream.
\<close>

definition ReadSlice :: "nat \<Rightarrow> stream_end \<Rightarrow> string \<Rightarrow> slice_error + (string \<times> string)" where
  "ReadSlice bsz fin s =
     (case index_byte (take bsz s) LF of
        Some i \<Rightarrow> Inr (take (Suc i) s, drop (Suc i) s)
      | None \<Rightarrow>
          if bsz \<le> length s then Inl BufferFull
          else case fin of AtEOF \<Rightarrow> Inl (SliceEOF s) | AtError \<Rightarrow> Inl SliceError)"

definition readSniffLine ::
  "nat \<Rightarrow> stream_end \<Rightarrow> nat \<Rightarrow> string \<Rightarrow> string \<Rightarrow> sniff_error + (string \<times> string \<times> string)" where
  "readSniffLine bsz fin maxBytes prefix s =
     (case ReadSlice bsz fin s of
        Inl BufferFull \<Rightarrow> Inl ErrSniffTooLarge
      | Inl (SliceEOF line) \<Rightarrow> if line = [] then Inl ErrSniffClosed else Inl ErrSniffMalformed
      | Inl SliceError \<Rightarrow> Inl SniffReadError
      | Inr (line, rest) \<Rightarrow>
          if maxBytes < length prefix + length line then Inl ErrSniffTooLarge
          else Inr (trim_suffix (trim_suffix line [LF]) [CR], prefix @ line, rest))"

definition splitHeader :: "string \<Rightarrow> string \<times> string" where
  "splitHeader line =
     (case index_byte line (CHR '':'') of
        None \<Rightarrow> ('''', '''')
      | Some i \<Rightarrow> if i = 0 then ('''', '''') else (take i line, trim_space (drop (Suc i) line)))"

definition hostFromRequestLine :: "(string \<Rightarrow> string) \<Rightarrow> string \<Rightarrow> string" where
  "hostFromRequestLine ucase line =
     (case GoStrings.fields line of
        m # target # v # _ \<Rightarrow>
          if \<not> has_prefix (to_lower ucase target) ''http://'' then ''''
          else takeWhile (\<lambda>c. c \<notin> {CHR ''/'', CHR ''?'', CHR ''#''}) (drop 7 target)
      | _ \<Rightarrow> '''')"

section \<open>Host names\<close>

definition host_char :: "char \<Rightarrow> bool" where
  "host_char c \<longleftrightarrow> is_lower c \<or> is_digit c \<or> c = CHR ''-''"

definition host_label :: "string \<Rightarrow> bool" where
  "host_label l \<longleftrightarrow>
     l \<noteq> [] \<and> length l \<le> 63 \<and> hd l \<noteq> CHR ''-'' \<and> last l \<noteq> CHR ''-'' \<and> list_all host_char l"

definition vhost_validHostname :: "string \<Rightarrow> bool" where
  "vhost_validHostname h \<longleftrightarrow>
     h \<noteq> [] \<and> length h \<le> 253 \<and> list_all host_label (split_on (CHR ''.'') h)"

definition normalizeHost :: "(string \<Rightarrow> string) \<Rightarrow> string \<Rightarrow> sniff_error + string" where
  "normalizeHost ucase h0 =
     (let h = trim_space h0
      in if h = [] then Inl ErrSniffNoHost
         else let h1 = (case last_index_byte h (CHR '':'') of
                          None \<Rightarrow> h
                        | Some i \<Rightarrow> if Atoi (drop (Suc i) h) \<noteq> None then take i h else h);
                  h2 = trim_suffix (to_lower ucase h1) ''.''
              in if \<not> vhost_validHostname h2 then Inl ErrSniffBadHost else Inr h2)"

section \<open>SniffHost\<close>

lemma ReadSlice_consumes:
  "ReadSlice bsz fin s = Inr (line, rest) \<Longrightarrow> s = line @ rest \<and> line \<noteq> [] \<and> last line = LF \<and> LF \<notin> set (butlast line)"
proof -
  assume "ReadSlice bsz fin s = Inr (line, rest)"
  then obtain i where i: "index_byte (take bsz s) LF = Some i"
      and line: "line = take (Suc i) s" and rest: "rest = drop (Suc i) s"
    by (auto simp: ReadSlice_def split: option.splits if_splits stream_end.splits)
  from index_byte_Some [OF i] have len: "i < length s" and at: "s ! i = LF" and before: "LF \<notin> set (take i s)"
    by (auto simp: min_def split: if_splits)
  from len at have "line = take i s @ [LF]" by (simp add: line take_Suc_conv_app_nth)
  then show ?thesis using before append_take_drop_id [of "Suc i" s] by (simp add: line rest)
qed

lemma readSniffLine_consumes:
  "readSniffLine bsz fin mx prefix s = Inr (line, prefix', rest) \<Longrightarrow>
     prefix' @ rest = prefix @ s \<and> length rest < length s \<and> length prefix' \<le> mx"
  by (auto simp: readSniffLine_def split: sum.splits slice_error.splits if_splits prod.splits
      dest!: ReadSlice_consumes)

text \<open>
  The header loop: the host found so far, the bytes consumed and the rest of the stream. Every
  iteration consumes at least the line terminator, so it ends.
\<close>

function sniff_headers ::
  "nat \<Rightarrow> stream_end \<Rightarrow> nat \<Rightarrow> string \<Rightarrow> string \<Rightarrow> string \<Rightarrow> sniff_error + (string \<times> string \<times> string)" where
  "sniff_headers bsz fin maxBytes host prefix s =
     (case readSniffLine bsz fin maxBytes prefix s of
        Inl e \<Rightarrow> Inl e
      | Inr (line, prefix', rest) \<Rightarrow>
          if line = [] then Inr (host, prefix', rest)
          else if hd line = CHR '' '' \<or> hd line = CHR 0x09 then Inl ErrSniffMalformed
          else if fst (splitHeader line) = '''' then Inl ErrSniffMalformed
          else if equal_fold_Host (fst (splitHeader line)) then Inr (snd (splitHeader line), prefix', rest)
          else sniff_headers bsz fin maxBytes host prefix' rest)"
  by pat_completeness auto
termination
  by (relation "measure (\<lambda>(_, _, _, _, _, s). length s)") (auto dest: readSniffLine_consumes)

declare sniff_headers.simps [simp del]

text \<open>
  \<open>maxBytes \<le> 0\<close> selects the default. The reader is fresh, with a buffer one byte above the limit (the
  library's minimum is 16).
\<close>

definition SniffHost ::
  "(string \<Rightarrow> string) \<Rightarrow> stream_end \<Rightarrow> int \<Rightarrow> string \<Rightarrow> sniff_error + SniffResult" where
  "SniffHost ucase fin maxBytes0 s =
     (let mx = (if maxBytes0 \<le> 0 then MaxSniffBytes else nat maxBytes0);
          bsz = max 16 (Suc mx)
      in case readSniffLine bsz fin mx [] s of
           Inl e \<Rightarrow> Inl e
         | Inr (line, prefix, rest) \<Rightarrow>
             (case sniff_headers bsz fin mx (hostFromRequestLine ucase line) prefix rest of
                Inl e \<Rightarrow> Inl e
              | Inr (host, prefix', rest') \<Rightarrow>
                  if host = [] then Inl ErrSniffNoHost
                  else case normalizeHost ucase host of
                         Inl e \<Rightarrow> Inl e
                       | Inr norm \<Rightarrow> Inr \<lparr>sr_Host = norm, sr_Prefix = prefix', sr_Rest = rest'\<rparr>))"

section \<open>Replay\<close>

text \<open>
  \<^verbatim>\<open>io.MultiReader\<close> over the consumed prefix and the rest: one \<open>Read\<close> with a buffer of \<open>n\<close> bytes takes
  from the prefix while it lasts.
\<close>

record ReplayConn =
  rp_prefix :: string
  rp_rest :: string

definition NewReplayConn :: "string \<Rightarrow> string \<Rightarrow> ReplayConn" where
  "NewReplayConn prefix rest = \<lparr>rp_prefix = prefix, rp_rest = rest\<rparr>"

definition replay_Read :: "nat \<Rightarrow> ReplayConn \<Rightarrow> string \<times> ReplayConn" where
  "replay_Read n c =
     (if rp_prefix c \<noteq> [] then (take n (rp_prefix c), c\<lparr>rp_prefix := drop n (rp_prefix c)\<rparr>)
      else (take n (rp_rest c), c\<lparr>rp_rest := drop n (rp_rest c)\<rparr>))"

fun replay_reads :: "nat list \<Rightarrow> ReplayConn \<Rightarrow> string \<times> ReplayConn" where
  "replay_reads [] c = ([], c)"
| "replay_reads (n # ns) c =
     (let (a, c1) = replay_Read n c; (b, c2) = replay_reads ns c1 in (a @ b, c2))"

definition WriteHTTPError :: "int \<Rightarrow> string \<Rightarrow> string" where
  "WriteHTTPError status reason =
     (let body = Itoa status @ '' '' @ reason @ [LF]
      in ''HTTP/1.1 '' @ Itoa status @ '' '' @ reason @ [CR, LF] @
         ''Content-Type: text/plain'' @ [CR, LF] @
         ''Content-Length: '' @ Itoa (int (length body)) @ [CR, LF] @
         ''Connection: close'' @ [CR, LF, CR, LF] @ body)"

section \<open>Lemmas on host names\<close>

text \<open>The characters of a routing key: no white space, no colon, no upper-case letter.\<close>

definition key_char :: "char \<Rightarrow> bool" where
  "key_char c \<longleftrightarrow> host_char c \<or> c = CHR ''.''"

lemma key_char_code:
  "key_char c \<longleftrightarrow> (97 \<le> code c \<and> code c \<le> 122) \<or> (48 \<le> code c \<and> code c \<le> 57) \<or> code c = 45 \<or> code c = 46"
proof -
  have "c = CHR ''-'' \<longleftrightarrow> code c = 45" and "c = CHR ''.'' \<longleftrightarrow> code c = 46"
    using code_inject [of c "CHR ''-''"] code_inject [of c "CHR ''.''"] by (simp_all add: code_def)
  then show ?thesis by (auto simp: key_char_def host_char_def is_lower_def is_digit_def)
qed

lemma key_char_graph: "key_char c \<Longrightarrow> graph_char c"
  by (auto simp: key_char_code graph_char_def)

lemma trim_space_key: "list_all key_char s \<Longrightarrow> trim_space s = s"
  by (cases "s = []") (auto simp: list_all_iff intro!: trim_space_graph key_char_graph)

lemma split_on_chars: "list_all (\<lambda>p. list_all P p) (split_on d s) \<Longrightarrow> list_all (\<lambda>c. P c \<or> c = d) s"
proof (induction s)
  case (Cons x xs)
  then show ?case by (auto split: if_splits list.splits)
qed simp

lemma split_on_snoc: "split_on d (s @ [d]) = split_on d s @ [[]]"
  by (induction s) (auto split: list.splits)

lemma valid_key_chars: "vhost_validHostname h \<Longrightarrow> list_all key_char h"
proof -
  assume "vhost_validHostname h"
  then have "list_all (\<lambda>p. list_all host_char p) (split_on (CHR ''.'') h)"
    by (auto simp: vhost_validHostname_def host_label_def list_all_iff)
  then have "list_all (\<lambda>c. host_char c \<or> c = CHR ''.'') h" by (rule split_on_chars)
  then show ?thesis by (simp add: key_char_def list_all_iff)
qed

lemma valid_no_final_dot: "vhost_validHostname h \<Longrightarrow> \<not> has_suffix h ''.''"
proof
  assume valid: "vhost_validHostname h" and "has_suffix h ''.''"
  then obtain r where "h = r @ [CHR ''.'']" by (auto simp: has_suffix_append)
  then have "[] \<in> set (split_on (CHR ''.'') h)"
    by (simp add: split_on_snoc)
  then show False using valid by (auto simp: vhost_validHostname_def list_all_iff host_label_def)
qed

lemma to_lower_key: "list_all key_char s \<Longrightarrow> to_lower ucase s = s"
proof -
  assume "list_all key_char s"
  then have "\<forall>c \<in> set s. is_ascii c \<and> ascii_lower c = c"
    by (auto simp: list_all_iff key_char_code is_ascii_def ascii_lower_def is_upper_def)
  then show ?thesis by (simp add: to_lower_def list_all_iff map_idI)
qed

lemma colon_not_key: "list_all key_char s \<Longrightarrow> CHR '':'' \<notin> set s"
  by (auto simp: list_all_iff key_char_code code_def)

lemma trim_space_key_port:
  assumes "list_all key_char s" and "s \<noteq> []" and "list_all is_digit p" and "p \<noteq> []"
  shows "trim_space (s @ CHR '':'' # p) = s @ CHR '':'' # p"
proof (rule trim_space_graph)
  have "key_char (last p)" using assms(3,4) by (auto simp: list_all_iff key_char_def host_char_def)
  then show "graph_char (last (s @ CHR '':'' # p))" using assms(4) by (simp add: key_char_graph)
qed (use assms in \<open>auto simp: list_all_iff intro!: key_char_graph\<close>)

lemma last_index_byte_fresh [simp]: "c \<notin> set s \<Longrightarrow> last_index_byte s c = None"
  by simp

lemma normalizeHost_key:
  assumes "vhost_validHostname h"
  shows "normalizeHost ucase h = Inr h"
proof -
  note k = valid_key_chars [OF assms]
  have "h \<noteq> []" using assms by (simp add: vhost_validHostname_def)
  moreover have "CHR '':'' \<notin> set h" by (rule colon_not_key [OF k])
  moreover have "trim_suffix h ''.'' = h" using valid_no_final_dot [OF assms] by (simp add: trim_suffix_def)
  ultimately show ?thesis
    using assms by (simp add: normalizeHost_def trim_space_key [OF k] to_lower_key [OF k])
qed

lemma normalizeHost_valid: "normalizeHost ucase h = Inr r \<Longrightarrow> vhost_validHostname r"
  by (auto simp: normalizeHost_def Let_def split: if_splits)

lemma last_index_byte_colon:
  assumes "c \<notin> set b"
  shows "last_index_byte (a @ c # b) c = Some (length a)"
proof -
  have "index_byte (rev b @ c # r) c = Some (length b)" for r
    using assms by (induction b arbitrary: r rule: rev_induct) auto
  then show ?thesis by (simp add: last_index_byte_def)
qed

lemma normalizeHost_port:
  assumes valid: "vhost_validHostname h" and p: "0 \<le> p" "p < 2 ^ 63"
  shows "normalizeHost ucase (h @ '':'' @ Itoa p) = Inr h"
proof -
  note k = valid_key_chars [OF valid]
  have h: "h \<noteq> []" using valid by (simp add: vhost_validHostname_def)
  have digits: "list_all is_digit (Itoa p)" using p by (simp add: Itoa_nonneg_digits)
  then have nc: "CHR '':'' \<notin> set (Itoa p)" by (auto simp: list_all_iff is_digit_def code_def)
  have "Itoa p \<noteq> []" using p by (simp add: Itoa_def)
  then have "trim_space (h @ CHR '':'' # Itoa p) = h @ CHR '':'' # Itoa p"
    by (rule trim_space_key_port [OF k h digits])
  moreover have "last_index_byte (h @ CHR '':'' # Itoa p) (CHR '':'') = Some (length h)"
    using nc by (rule last_index_byte_colon)
  moreover have "trim_suffix h ''.'' = h" using valid_no_final_dot [OF valid] by (simp add: trim_suffix_def)
  ultimately show ?thesis
    using valid p h by (simp add: normalizeHost_def to_lower_key [OF k] Atoi_Itoa)
qed

section \<open>Lemmas on sniffing\<close>

lemma sniff_headers_consumes:
  "sniff_headers bsz fin mx host prefix s = Inr (h, prefix', rest) \<Longrightarrow>
     prefix' @ rest = prefix @ s \<and> length prefix' \<le> mx"
proof (induction bsz fin mx host prefix s rule: sniff_headers.induct)
  case (1 bsz fin mx host prefix s)
  show ?case
  proof (cases "readSniffLine bsz fin mx prefix s")
    case (Inl e)
    then show ?thesis using "1.prems" by (simp add: sniff_headers.simps [of bsz])
  next
    case (Inr t)
    obtain line p r where t: "t = (line, p, r)" by (cases t) auto
    note eq = Inr [unfolded t]
    show ?thesis
      using "1.prems" "1.IH" [OF eq refl refl] readSniffLine_consumes [OF eq]
      by (auto simp: sniff_headers.simps [of bsz] eq split: if_splits)
  qed
qed

text \<open>A line of the request head as it is on the wire.\<close>

definition crlf :: "string \<Rightarrow> string" where
  "crlf l = l @ [CR, LF]"

lemma readSniffLine_crlf:
  assumes "LF \<notin> set l" and "CR \<notin> set l" and "length prefix + length l + 2 \<le> mx" and "mx < bsz"
  shows "readSniffLine bsz fin mx prefix (crlf l @ s) = Inr (l, prefix @ crlf l, s)"
proof -
  have idx: "index_byte (l @ CR # LF # x) LF = Some (Suc (length l))" for x
    using assms(1) by (induction l) auto
  obtain k where "bsz = length l + 2 + k"
    using assms(3,4) le_Suc_ex [of "length l + 2" bsz] by auto
  then have "take bsz (crlf l @ s) = l @ CR # LF # take k s"
    by (simp add: crlf_def)
  then have "ReadSlice bsz fin (crlf l @ s) = Inr (crlf l, s)"
    by (simp add: ReadSlice_def idx) (simp add: crlf_def)
  moreover have "trim_suffix (trim_suffix (crlf l) [LF]) [CR] = l"
    by (simp add: trim_suffix_def crlf_def has_suffix_append)
  ultimately show ?thesis using assms(3) by (simp add: readSniffLine_def crlf_def)
qed

text \<open>A header line that the loop passes over.\<close>

definition other_header :: "string \<Rightarrow> bool" where
  "other_header l \<longleftrightarrow>
     l \<noteq> [] \<and> LF \<notin> set l \<and> CR \<notin> set l \<and> hd l \<noteq> CHR '' '' \<and> hd l \<noteq> CHR 0x09 \<and>
     fst (splitHeader l) \<noteq> '''' \<and> \<not> equal_fold_Host (fst (splitHeader l))"

lemma sniff_headers_skip:
  assumes "list_all other_header ls" and "length prefix + length (concat (map crlf ls)) \<le> mx" and "mx < bsz"
  shows "sniff_headers bsz fin mx host prefix (concat (map crlf ls) @ s) =
           sniff_headers bsz fin mx host (prefix @ concat (map crlf ls)) s"
  using assms
proof (induction ls arbitrary: prefix)
  case (Cons l ls)
  then have "readSniffLine bsz fin mx prefix (crlf l @ concat (map crlf ls) @ s)
      = Inr (l, prefix @ crlf l, concat (map crlf ls) @ s)"
    by (intro readSniffLine_crlf) (auto simp: other_header_def crlf_def)
  then have "sniff_headers bsz fin mx host prefix (crlf l @ concat (map crlf ls) @ s)
      = sniff_headers bsz fin mx host (prefix @ crlf l) (concat (map crlf ls) @ s)"
    using Cons.prems(1) by (subst sniff_headers.simps) (simp add: other_header_def)
  then show ?case using Cons.IH [of "prefix @ crlf l"] Cons.prems by simp
qed simp

lemma replay_Read_stream:
  "replay_Read n c = (a, c') \<Longrightarrow> a @ rp_prefix c' @ rp_rest c' = rp_prefix c @ rp_rest c"
  by (auto simp: replay_Read_def split: if_splits)

lemma replay_reads_stream:
  "replay_reads ns c = (a, c') \<Longrightarrow> a @ rp_prefix c' @ rp_rest c' = rp_prefix c @ rp_rest c"
proof (induction ns arbitrary: c a c')
  case (Cons n ns)
  obtain x c1 where 1: "replay_Read n c = (x, c1)" by fastforce
  obtain y c2 where 2: "replay_reads ns c1 = (y, c2)" by fastforce
  show ?case using Cons.prems Cons.IH [OF 2] replay_Read_stream [OF 1] by (auto simp: 1 2)
qed simp

section \<open>Properties\<close>

text \<open>
  C18: Sniffing loses nothing: when it succeeds, the consumed prefix followed by the unread rest is the
  stream as the client sent it, at most the sniff limit was consumed, the host is a valid routing key,
  and the replaying connection hands out exactly the original bytes, however they are read.
\<close>

theorem SniffHost_verbatim:
  assumes ok: "SniffHost ucase fin mx s = Inr res"
    and reads: "replay_reads ns (NewReplayConn (sr_Prefix res) (sr_Rest res)) = (a, c)"
  shows "sr_Prefix res @ sr_Rest res = s \<and> a @ rp_prefix c @ rp_rest c = s \<and>
     length (sr_Prefix res) \<le> (if mx \<le> 0 then MaxSniffBytes else nat mx) \<and> vhost_validHostname (sr_Host res)"
proof -
  let ?mx = "if mx \<le> 0 then MaxSniffBytes else nat mx"
  let ?b = "max 16 (Suc ?mx)"
  from ok obtain line p r host where l: "readSniffLine ?b fin ?mx [] s = Inr (line, p, r)"
      and h: "sniff_headers ?b fin ?mx (hostFromRequestLine ucase line) p r = Inr (host, sr_Prefix res, sr_Rest res)"
      and n: "normalizeHost ucase host = Inr (sr_Host res)"
    by (auto simp: SniffHost_def Let_def split: sum.splits if_splits)
  from readSniffLine_consumes [OF l] sniff_headers_consumes [OF h]
  have "sr_Prefix res @ sr_Rest res = s" and "length (sr_Prefix res) \<le> ?mx" by simp_all
  then show ?thesis
    using replay_reads_stream [OF reads] normalizeHost_valid [OF n] by (simp add: NewReplayConn_def)
qed

text \<open>
  A request whose head fits the limit is routed by its first Host header, whatever other headers
  precede it and whatever follows; the header overrides the authority of the request line.
\<close>

theorem SniffHost_first_host_header:
  assumes "0 < mx" and req: "LF \<notin> set req" "CR \<notin> set req"
    and others: "list_all other_header ls"
    and hl: "hl \<noteq> []" "LF \<notin> set hl" "CR \<notin> set hl" "hd hl \<noteq> CHR '' ''" "hd hl \<noteq> CHR 0x09"
    and host: "splitHeader hl = (key, value)" "key \<noteq> ''''" "equal_fold_Host key" "value \<noteq> ''''"
    and fits: "length (crlf req @ concat (map crlf ls) @ crlf hl) \<le> nat mx"
  shows "SniffHost ucase fin mx (crlf req @ concat (map crlf ls) @ crlf hl @ body) =
     (case normalizeHost ucase value of
        Inl e \<Rightarrow> Inl e
      | Inr norm \<Rightarrow> Inr \<lparr>sr_Host = norm, sr_Prefix = crlf req @ concat (map crlf ls) @ crlf hl, sr_Rest = body\<rparr>)"
proof -
  let ?b = "max 16 (Suc (nat mx))"
  let ?p = "crlf req @ concat (map crlf ls)"
  have "readSniffLine ?b fin (nat mx) [] (crlf req @ concat (map crlf ls) @ crlf hl @ body)
      = Inr (req, crlf req, concat (map crlf ls) @ crlf hl @ body)"
    using readSniffLine_crlf [OF req, of "[]" "nat mx" ?b] fits by (simp add: crlf_def)
  moreover have "sniff_headers ?b fin (nat mx) h (crlf req) (concat (map crlf ls) @ crlf hl @ body)
      = sniff_headers ?b fin (nat mx) h ?p (crlf hl @ body)" for h
    using fits by (intro sniff_headers_skip others) auto
  moreover have line: "readSniffLine ?b fin (nat mx) ?p (crlf hl @ body) = Inr (hl, ?p @ crlf hl, body)"
    using fits hl by (intro readSniffLine_crlf) (auto simp: crlf_def)
  have "sniff_headers ?b fin (nat mx) h ?p (crlf hl @ body) = Inr (value, ?p @ crlf hl, body)" for h
    by (subst sniff_headers.simps, subst line) (use hl host in simp)
  ultimately show ?thesis
    using assms(1) host by (simp add: SniffHost_def Let_def)
qed

theorem SniffHost_first_host_header_witness:
  "SniffHost id AtEOF 8192 (crlf ''GET / HTTP/1.1'' @ concat (map crlf [''Accept: x'']) @ crlf ''Host: Git.Example.com:80'' @ ''..'')
     = Inr \<lparr>sr_Host = ''git.example.com'', sr_Prefix = crlf ''GET / HTTP/1.1'' @ concat (map crlf [''Accept: x'']) @ crlf ''Host: Git.Example.com:80'', sr_Rest = ''..''\<rparr>"
proof -
  have sp: "splitHeader ''Host: Git.Example.com:80'' = (''Host'', ''Git.Example.com:80'')" by code_simp
  have k: "equal_fold_Host ''Host''" by code_simp
  have o: "list_all other_header [''Accept: x'']" by code_simp
  have n: "normalizeHost id ''Git.Example.com:80'' = Inr ''git.example.com''" by code_simp
  show ?thesis
    by (subst SniffHost_first_host_header [OF _ _ _ o _ _ _ _ _ sp _ k]) (simp_all add: n crlf_def)
qed

theorem SniffHost_verbatim_witness:
  "sr_Prefix \<lparr>sr_Host = ''a.b'', sr_Prefix = crlf ''GET / HTTP/1.1'' @ crlf ''Host: A.b'', sr_Rest = ''xyz''\<rparr> @ ''xyz''
     = crlf ''GET / HTTP/1.1'' @ crlf ''Host: A.b'' @ ''xyz'' \<and>
   vhost_validHostname ''a.b''"
proof -
  let ?r = "\<lparr>sr_Host = ''a.b'', sr_Prefix = crlf ''GET / HTTP/1.1'' @ crlf ''Host: A.b'', sr_Rest = ''xyz''\<rparr>"
  have 1: "SniffHost id AtEOF 8192 (crlf ''GET / HTTP/1.1'' @ crlf ''Host: A.b'' @ ''xyz'') = Inr ?r" by code_simp
  have 2: "replay_reads [] (NewReplayConn (sr_Prefix ?r) (sr_Rest ?r)) = ([], NewReplayConn (sr_Prefix ?r) (sr_Rest ?r))"
    by simp
  show ?thesis using SniffHost_verbatim [OF 1 2] by simp
qed

text \<open>
  Host normalisation gives a normal form: its result is a valid host name, normalising it again
  changes nothing, and a numeric port after it makes no difference, so registration and requests agree on the routing key.
\<close>

theorem normalizeHost_normal_form:
  assumes "normalizeHost ucase h = Inr r" and "0 \<le> p" and "p \<le> 65535"
  shows "vhost_validHostname r \<and> normalizeHost ucase r = Inr r \<and> normalizeHost ucase (r @ '':'' @ Itoa p) = Inr r"
  using assms normalizeHost_valid [OF assms(1)] normalizeHost_key normalizeHost_port by simp

theorem normalizeHost_normal_form_witness:
  "normalizeHost id (''git.example.com'' @ '':'' @ Itoa 8080) = Inr ''git.example.com''"
proof -
  have "normalizeHost id '' Git.Example.COM.'' = Inr ''git.example.com''" by code_simp
  from normalizeHost_normal_form [OF this, of 8080] show ?thesis by simp
qed

end
