(* ===== verification/GoNet.thy ===== *)
theory GoNet
  imports GoStrings
begin

text \<open>
  The part of Go's \<^verbatim>\<open>net\<close> and \<^verbatim>\<open>net/netip\<close> packages that the access-control code relies on: parsing
  of IPv4 and IPv6 literals (\<^verbatim>\<open>net.ParseIP\<close>), of CIDR prefixes (\<^verbatim>\<open>net.ParseCIDR\<close>,
  \<^verbatim>\<open>netip.ParsePrefix\<close>), printing of addresses, membership in a network (\<^verbatim>\<open>IPNet.Contains\<close>), the
  address-class predicates and \<^verbatim>\<open>net.SplitHostPort\<close>. A \<^verbatim>\<open>net.IP\<close> is its byte slice; \<^verbatim>\<open>nil\<close> is \<^const>\<open>None\<close>.
  The lemmas show that dotted-decimal addresses survive printing and parsing and characterise
  membership in an IPv4 network by its leading bits.
\<close>

type_synonym ip = bytes

section \<open>Parsing addresses\<close>

datatype addr = Addr4 bytes | Addr6 bytes

definition octet :: "string \<Rightarrow> nat option" where
  "octet s =
     (if s \<noteq> [] \<and> list_all is_digit s \<and> (1 < length s \<longrightarrow> hd s \<noteq> CHR ''0'') \<and> dec_value s \<le> 255
      then Some (dec_value s) else None)"

definition parse_ipv4 :: "string \<Rightarrow> bytes option" where
  "parse_ipv4 s =
     (case map octet (split_on (CHR ''.'') s) of
        [Some a, Some b, Some c, Some d] \<Rightarrow> Some [of_nat a, of_nat b, of_nat c, of_nat d]
      | _ \<Rightarrow> None)"

definition is_hex :: "char \<Rightarrow> bool" where
  "is_hex c \<longleftrightarrow> hex_value c \<noteq> None"

definition hex_val :: "string \<Rightarrow> nat" where
  "hex_val s = foldl (\<lambda>a c. 16 * a + the (hex_value c)) 0 s"

text \<open>
  The loop of \<^verbatim>\<open>netip.parseIPv6\<close>: \<open>n\<close> counts the groups that still fit, \<open>ip\<close> holds the bytes read so
  far and \<open>ell\<close> the position of the ellipsis. The result is the state at the loop's exit.
\<close>

fun parse6_loop ::
  "nat \<Rightarrow> bytes \<Rightarrow> nat option \<Rightarrow> string \<Rightarrow> (bytes \<times> nat option \<times> string) option" where
  "parse6_loop 0 ip ell s = Some (ip, ell, s)"
| "parse6_loop (Suc n) ip ell s =
     (let off = length (takeWhile is_hex s); acc = hex_val (take off s); s1 = drop off s;
          ip1 = ip @ [of_nat (acc div 256), of_nat (acc mod 256)]
      in if off = 0 \<or> 4 < off then None
         else if has_prefix s1 ''.'' then
           (if (ell = None \<and> length ip \<noteq> 12) \<or> 16 < length ip + 4 then None
            else map_option (\<lambda>q. (ip @ q, ell, [])) (parse_ipv4 s))
         else if s1 = [] then Some (ip1, ell, [])
         else if \<not> has_prefix s1 '':'' \<or> length s1 = 1 then None
         else if has_prefix s1 ''::'' then
           (if ell \<noteq> None then None
            else if length s1 = 2 then Some (ip1, Some (length ip1), [])
            else parse6_loop n ip1 (Some (length ip1)) (drop 2 s1))
         else parse6_loop n ip1 ell (drop 1 s1))"

definition parse6_finish :: "bytes \<times> nat option \<times> string \<Rightarrow> bytes option" where
  "parse6_finish r =
     (case r of (ip, ell, s) \<Rightarrow>
        if s \<noteq> [] then None
        else if length ip < 16 then
          map_option (\<lambda>e. take e ip @ replicate (16 - length ip) 0 @ drop e ip) ell
        else if ell \<noteq> None then None
        else Some ip)"

definition parse_ipv6 :: "string \<Rightarrow> bytes option" where
  "parse_ipv6 s =
     (if has_prefix s ''::'' then
        (if length s = 2 then Some (replicate 16 0)
         else Option.bind (parse6_loop 8 [] (Some 0) (drop 2 s)) parse6_finish)
      else Option.bind (parse6_loop 8 [] None s) parse6_finish)"

text \<open>
  \<^verbatim>\<open>netip.ParseAddr\<close> restricted to addresses without a zone, which is how the callers use it: the first
  of the bytes \<^verbatim>\<open>.\<close>, \<^verbatim>\<open>:\<close> and \<^verbatim>\<open>%\<close> decides the family.
\<close>

definition parse_addr :: "string \<Rightarrow> addr option" where
  "parse_addr s =
     (case dropWhile (\<lambda>c. c \<noteq> CHR ''.'' \<and> c \<noteq> CHR '':'' \<and> c \<noteq> CHR ''%'') s of
        [] \<Rightarrow> None
      | c # _ \<Rightarrow>
          (if c = CHR ''.'' then map_option Addr4 (parse_ipv4 s)
           else if c = CHR '':'' \<and> CHR ''%'' \<notin> set s then map_option Addr6 (parse_ipv6 s)
           else None))"

definition v4InV6Prefix :: bytes where
  "v4InV6Prefix = [0, 0, 0, 0, 0, 0, 0, 0, 0, 0, 255, 255]"

fun As16 :: "addr \<Rightarrow> ip" where
  "As16 (Addr4 q) = v4InV6Prefix @ q"
| "As16 (Addr6 b) = b"

definition ParseIP :: "string \<Rightarrow> ip option" where
  "ParseIP s = map_option As16 (parse_addr s)"

definition To4 :: "ip \<Rightarrow> ip option" where
  "To4 x =
     (if length x = 4 then Some x
      else if length x = 16 \<and> take 12 x = v4InV6Prefix then Some (drop 12 x)
      else None)"

section \<open>Address classes\<close>

definition IsUnspecified :: "ip \<Rightarrow> bool" where
  "IsUnspecified x = (case To4 x of Some q \<Rightarrow> q = [0, 0, 0, 0] | None \<Rightarrow> x = replicate 16 0)"

definition IsMulticast :: "ip \<Rightarrow> bool" where
  "IsMulticast x =
     (case To4 x of Some q \<Rightarrow> q ! 0 AND 240 = 224 | None \<Rightarrow> length x = 16 \<and> x ! 0 = 255)"

definition IsLinkLocalUnicast :: "ip \<Rightarrow> bool" where
  "IsLinkLocalUnicast x =
     (case To4 x of Some q \<Rightarrow> q ! 0 = 169 \<and> q ! 1 = 254
      | None \<Rightarrow> length x = 16 \<and> x ! 0 = 254 \<and> x ! 1 AND 192 = 128)"

definition IsLinkLocalMulticast :: "ip \<Rightarrow> bool" where
  "IsLinkLocalMulticast x =
     (case To4 x of Some q \<Rightarrow> q ! 0 = 224 \<and> q ! 1 = 0 \<and> q ! 2 = 0
      | None \<Rightarrow> length x = 16 \<and> x ! 0 = 255 \<and> x ! 1 AND 15 = 2)"

section \<open>Prefixes\<close>

record ipnet =
  net_ip :: ip
  net_mask :: bytes

text \<open>\<^verbatim>\<open>net.CIDRMask(n, 8 * k)\<close>: \<open>n\<close> one bits, then zeros, in \<open>k\<close> bytes.\<close>

fun cidr_mask :: "nat \<Rightarrow> nat \<Rightarrow> bytes" where
  "cidr_mask n 0 = []"
| "cidr_mask n (Suc k) =
     (if 8 \<le> n then 255 # cidr_mask (n - 8) k else (NOT (drop_bit n 255)) # cidr_mask 0 k)"

definition and_bytes :: "bytes \<Rightarrow> bytes \<Rightarrow> bytes" where
  "and_bytes xs ys = map2 (AND) xs ys"

text \<open>The digits before the end of the string, below the parser's cap (\<^verbatim>\<open>net.dtoi\<close>).\<close>

definition dtoi_all :: "string \<Rightarrow> nat option" where
  "dtoi_all s =
     (if s \<noteq> [] \<and> list_all is_digit s \<and> dec_value s < 16777215 then Some (dec_value s) else None)"

definition ParseCIDR :: "string \<Rightarrow> (ip \<times> ipnet) option" where
  "ParseCIDR s =
     (case cut (CHR ''/'') s of
        None \<Rightarrow> None
      | Some (a, m) \<Rightarrow>
          (case (parse_addr a, dtoi_all m) of
             (Some (Addr4 q), Some n) \<Rightarrow>
               (if n \<le> 32
                then Some (v4InV6Prefix @ q,
                           \<lparr>net_ip = and_bytes q (cidr_mask n 4), net_mask = cidr_mask n 4\<rparr>)
                else None)
           | (Some (Addr6 b), Some n) \<Rightarrow>
               (if n \<le> 128
                then Some (b, \<lparr>net_ip = and_bytes b (cidr_mask n 16), net_mask = cidr_mask n 16\<rparr>)
                else None)
           | _ \<Rightarrow> None))"

text \<open>\<^verbatim>\<open>netip.ParsePrefix\<close>: only acceptance matters to its caller.\<close>

definition parse_prefix_ok :: "string \<Rightarrow> bool" where
  "parse_prefix_ok s =
     (case last_index_byte s (CHR ''/'') of
        None \<Rightarrow> False
      | Some i \<Rightarrow>
          (let bits = drop (Suc i) s
           in case parse_addr (take i s) of
                None \<Rightarrow> False
              | Some a \<Rightarrow>
                  if 1 < length bits \<and> (code (hd bits) < 49 \<or> 57 < code (hd bits)) then False
                  else (case Atoi bits of
                          None \<Rightarrow> False
                        | Some n \<Rightarrow>
                            0 \<le> n \<and> n \<le> (case a of Addr4 _ \<Rightarrow> 32 | Addr6 _ \<Rightarrow> 128))))"

definition networkNumberAndMask :: "ipnet \<Rightarrow> (ip \<times> bytes) option" where
  "networkNumberAndMask n =
     (let x = (case To4 (net_ip n) of Some q \<Rightarrow> q | None \<Rightarrow> net_ip n); m = net_mask n
      in if length x \<noteq> 4 \<and> length x \<noteq> 16 then None
         else if length m = 4 then (if length x \<noteq> 4 then None else Some (x, m))
         else if length m = 16 then Some (x, if length x = 4 then drop 12 m else m)
         else None)"

definition Contains :: "ipnet \<Rightarrow> ip \<Rightarrow> bool" where
  "Contains n x =
     (case networkNumberAndMask n of
        None \<Rightarrow> False
      | Some (nn, m) \<Rightarrow>
          (let y = (case To4 x of Some q \<Rightarrow> q | None \<Rightarrow> x)
           in length y = length nn \<and> and_bytes nn m = and_bytes y m))"

section \<open>Printing addresses\<close>

definition v4_string :: "bytes \<Rightarrow> string" where
  "v4_string q = concat (map (\<lambda>b. nat_string (unat b) @ ''.'') (butlast q)) @ nat_string (unat (last q))"

definition hex_digit :: "nat \<Rightarrow> char" where
  "hex_digit d = (if d < 10 then char_of (48 + d) else char_of (87 + d))"

fun hex_string :: "nat \<Rightarrow> string" where
  "hex_string n = (if n < 16 then [hex_digit n] else hex_string (n div 16) @ [hex_digit (n mod 16)])"

declare hex_string.simps [simp del]

fun groups :: "bytes \<Rightarrow> nat list" where
  "groups (a # b # r) = (256 * unat a + unat b) # groups r"
| "groups _ = []"

text \<open>The first longest run of at least two zero groups: its start and length.\<close>

definition zero_run :: "nat list \<Rightarrow> nat \<Rightarrow> nat" where
  "zero_run gs i = length (takeWhile (\<lambda>g. g = 0) (drop i gs))"

definition best_run :: "nat list \<Rightarrow> (nat \<times> nat) option" where
  "best_run gs =
     fold (\<lambda>i best.
       (let l = zero_run gs i
        in if 2 \<le> l \<and> (case best of None \<Rightarrow> True | Some (_, b) \<Rightarrow> b < l) then Some (i, l) else best))
       [0..<length gs] None"

definition join_groups :: "nat list \<Rightarrow> string" where
  "join_groups gs =
     (case map hex_string gs of [] \<Rightarrow> [] | h # hs \<Rightarrow> h @ concat (map (\<lambda>x. '':'' @ x) hs))"

definition v6_string :: "bytes \<Rightarrow> string" where
  "v6_string b =
     (let gs = groups b
      in case best_run gs of
           None \<Rightarrow> join_groups gs
         | Some (i, l) \<Rightarrow> join_groups (take i gs) @ ''::'' @ join_groups (drop (i + l) gs))"

definition ip_string :: "ip \<Rightarrow> string" where
  "ip_string x = (case To4 x of Some q \<Rightarrow> v4_string q | None \<Rightarrow> v6_string x)"

section \<open>Host and port\<close>

definition SplitHostPort :: "string \<Rightarrow> (string \<times> string) option" where
  "SplitHostPort hp =
     (case last_index_byte hp (CHR '':'') of
        None \<Rightarrow> None
      | Some i \<Rightarrow>
          (if has_prefix hp ''['' then
             (case index_byte hp (CHR '']'') of
                None \<Rightarrow> None
              | Some e \<Rightarrow>
                  if Suc e \<noteq> i then None
                  else if CHR ''['' \<in> set (drop 1 hp) \<or> CHR '']'' \<in> set (drop (Suc e) hp) then None
                  else Some (take (e - 1) (drop 1 hp), drop (Suc i) hp))
           else if CHR '':'' \<in> set (take i hp) then None
           else if CHR ''['' \<in> set hp \<or> CHR '']'' \<in> set hp then None
           else Some (take i hp, drop (Suc i) hp)))"

section \<open>Dotted-decimal addresses\<close>

lemma nat_string_hd: "0 < n \<Longrightarrow> hd (nat_string n) \<noteq> CHR ''0''"
proof (induction n rule: nat_string.induct)
  case (1 n)
  show ?case
  proof (cases "n < 10")
    case True
    have "code (digit_char n) \<noteq> code (CHR ''0'')"
      using True "1.prems" by (simp add: digit_char_def) (simp add: code_def)
    then show ?thesis using True by (subst nat_string.simps) auto
  next
    case False
    then have "hd (nat_string (n div 10)) \<noteq> CHR ''0''" using "1.IH" by simp
    then show ?thesis using False by (subst nat_string.simps) simp
  qed
qed

lemma length_nat_string_small: "n < 10 \<Longrightarrow> length (nat_string n) = 1"
  by (subst nat_string.simps) simp

lemma octet_nat_string: "n < 256 \<Longrightarrow> octet (nat_string n) = Some n"
  using nat_string_hd [of n] nat_string_digits [of n] length_nat_string_small [of n]
  by (cases "n < 10") (auto simp: octet_def)

lemma digits_no_char: "list_all is_digit s \<Longrightarrow> \<not> is_digit c \<Longrightarrow> c \<notin> set s"
  by (auto simp: list_all_iff)

lemma nat_string_no_char: "\<not> is_digit c \<Longrightarrow> c \<notin> set (nat_string n)"
  by (rule digits_no_char [OF nat_string_digits])

lemma punct_not_digit [simp]:
  "\<not> is_digit (CHR ''.'')" "\<not> is_digit (CHR '':'')" "\<not> is_digit (CHR ''/'')"
  "\<not> is_digit (CHR ''%'')" "\<not> is_digit (CHR ''-'')" "\<not> is_digit (CHR ''*'')"
  by (simp_all add: is_digit_def code_def)

lemma split_on_append: "c \<notin> set a \<Longrightarrow> split_on c (a @ c # b) = a # split_on c b"
  by (induction a) auto

lemma length_4: "length q = 4 \<Longrightarrow> \<exists>a b c d. q = [a, b, c, d]"
  by (auto simp: length_Suc_conv eval_nat_numeral)

lemma unat_byte_less: "unat (b :: byte) < 256"
  using unsigned_less [of b, where ?'a = nat] by simp

lemma v4_string_4:
  "v4_string [a, b, c, d] =
     nat_string (unat a) @ CHR ''.'' # nat_string (unat b) @ CHR ''.'' # nat_string (unat c) @ CHR ''.'' # nat_string (unat d)"
  by (simp add: v4_string_def)

lemma parse_ipv4_v4_string: "length q = 4 \<Longrightarrow> parse_ipv4 (v4_string q) = Some q"
proof -
  assume "length q = 4"
  then obtain a b c d where q: "q = [a, b, c, d]" using length_4 by blast
  have nodot: "CHR ''.'' \<notin> set (nat_string n)" for n by (rule nat_string_no_char) simp
  have "split_on (CHR ''.'') (v4_string q) =
      [nat_string (unat a), nat_string (unat b), nat_string (unat c), nat_string (unat d)]"
    by (simp add: q v4_string_4 split_on_append nodot split_on_single)
  then show ?thesis
    by (simp add: parse_ipv4_def octet_nat_string unat_byte_less q)
qed

lemma v4_string_chars: "length q = 4 \<Longrightarrow> set (v4_string q) \<subseteq> insert (CHR ''.'') {c. is_digit c}"
proof -
  assume "length q = 4"
  then obtain a b c d where q: "q = [a, b, c, d]" using length_4 by blast
  have "set (nat_string n) \<subseteq> {c. is_digit c}" for n
    using nat_string_digits [of n] by (auto simp: list_all_iff)
  then show ?thesis by (auto simp: q v4_string_4)
qed

lemma dropWhile_digits: "list_all P s \<Longrightarrow> \<not> P c \<Longrightarrow> dropWhile P (s @ c # r) = c # r"
  by (induction s) auto

lemma parse_addr_v4_string: "length q = 4 \<Longrightarrow> parse_addr (v4_string q) = Some (Addr4 q)"
proof -
  assume len: "length q = 4"
  then obtain a b c d where q: "q = [a, b, c, d]" using length_4 by blast
  let ?P = "\<lambda>c. c \<noteq> CHR ''.'' \<and> c \<noteq> CHR '':'' \<and> c \<noteq> CHR ''%''"
  have "list_all ?P (nat_string n)" for n
    using nat_string_no_char [of _ n] by (force simp: list_all_iff)
  from dropWhile_digits [OF this, of "CHR ''.''"]
  have "\<exists>r. dropWhile ?P (v4_string q) = CHR ''.'' # r"
    unfolding q v4_string_4 by simp
  then show ?thesis using parse_ipv4_v4_string [OF len] by (auto simp: parse_addr_def)
qed

lemma ParseIP_v4_string: "length q = 4 \<Longrightarrow> ParseIP (v4_string q) = Some (v4InV6Prefix @ q)"
  by (simp add: ParseIP_def parse_addr_v4_string)

lemma To4_v4InV6 [simp]: "length q = 4 \<Longrightarrow> To4 (v4InV6Prefix @ q) = Some q"
  by (simp add: To4_def v4InV6Prefix_def)

lemma To4_length: "To4 x = Some q \<Longrightarrow> length q = 4"
  by (auto simp: To4_def split: if_splits)

section \<open>Lengths of parsed addresses\<close>

lemma parse_ipv4_length: "parse_ipv4 s = Some q \<Longrightarrow> length q = 4"
  by (auto simp: parse_ipv4_def split: list.splits option.splits)

lemma parse6_loop_length:
  assumes "parse6_loop n ip ell s = Some (ip', ell', s')"
    and "length ip + 2 * n \<le> 16" and "case ell of None \<Rightarrow> True | Some e \<Rightarrow> e \<le> length ip"
  shows "length ip' \<le> 16 \<and> (case ell' of None \<Rightarrow> True | Some e \<Rightarrow> e \<le> length ip')"
  using assms
proof (induction n arbitrary: ip ell s)
  case 0
  then show ?case by (auto split: option.splits)
next
  case (Suc n)
  define off where "off = length (takeWhile is_hex s)"
  define ip1 :: bytes where
    "ip1 = ip @ [of_nat (hex_val (take off s) div 256), of_nat (hex_val (take off s) mod 256)]"
  have len: "length ip1 = length ip + 2" by (simp add: ip1_def)
  have "parse6_loop (Suc n) ip ell s = Some (ip', ell', s')" by (rule Suc.prems(1))
  then consider
      (v4) q where "parse_ipv4 s = Some q" "ip' = ip @ q" "ell' = ell" "length ip + 4 \<le> 16"
    | (fin) "ip' = ip1" "ell' = ell"
    | (ell) "ip' = ip1" "ell' = Some (length ip1)"
    | (ellrec) t where "parse6_loop n ip1 (Some (length ip1)) t = Some (ip', ell', s')"
    | (rec) t where "parse6_loop n ip1 ell t = Some (ip', ell', s')"
    unfolding parse6_loop.simps Let_def off_def [symmetric] ip1_def [symmetric]
    by (simp split: if_splits) (metis linorder_not_less)+
  then show ?case
  proof cases
    case v4
    then show ?thesis using Suc.prems(3) parse_ipv4_length [OF v4(1)] by (auto split: option.splits)
  next
    case ellrec
    then show ?thesis using Suc.IH [OF ellrec] Suc.prems(2) len by simp
  next
    case rec
    then show ?thesis using Suc.IH [OF rec] Suc.prems len by (auto split: option.splits)
  qed (use Suc.prems len in \<open>auto split: option.splits\<close>)
qed

lemma parse6_finish_length:
  "length ip \<le> 16 \<Longrightarrow> (case ell of None \<Rightarrow> True | Some e \<Rightarrow> e \<le> length ip) \<Longrightarrow>
   parse6_finish (ip, ell, s) = Some b \<Longrightarrow> length b = 16"
  by (auto simp: parse6_finish_def split: if_splits option.splits)

lemma parse_ipv6_length: "parse_ipv6 s = Some b \<Longrightarrow> length b = 16"
  by (auto simp: parse_ipv6_def bind_eq_Some_conv
      dest!: parse6_loop_length intro: parse6_finish_length split: if_splits)

lemma parse_addr_length:
  "parse_addr s = Some (Addr4 q) \<Longrightarrow> length q = 4"
  "parse_addr s = Some (Addr6 b) \<Longrightarrow> length b = 16"
  by (auto simp: parse_addr_def dest: parse_ipv4_length parse_ipv6_length split: list.splits if_splits)

lemma ParseIP_length: "ParseIP s = Some x \<Longrightarrow> length x = 16"
proof -
  assume "ParseIP s = Some x"
  then obtain a where "parse_addr s = Some a" "x = As16 a" by (auto simp: ParseIP_def)
  then show ?thesis using parse_addr_length [of s] by (cases a) (auto simp: v4InV6Prefix_def)
qed

section \<open>IPv4 networks\<close>

lemma length_cidr_mask [simp]: "length (cidr_mask n k) = k"
  by (induction n k rule: cidr_mask.induct) auto

lemma length_and_bytes [simp]: "length (and_bytes xs ys) = min (length xs) (length ys)"
  by (simp add: and_bytes_def)

lemma and_bytes_idem: "and_bytes (and_bytes xs m) m = and_bytes xs m"
  by (induction xs m rule: list_induct2') (auto simp: and_bytes_def)

text \<open>The network that \<^verbatim>\<open>ParseCIDR\<close> builds for an IPv4 prefix.\<close>

definition net4 :: "bytes \<Rightarrow> nat \<Rightarrow> ipnet" where
  "net4 q n = \<lparr>net_ip = and_bytes q (cidr_mask n 4), net_mask = cidr_mask n 4\<rparr>"

lemma networkNumberAndMask_net4:
  "length q = 4 \<Longrightarrow>
   networkNumberAndMask (net4 q n) = Some (and_bytes q (cidr_mask n 4), cidr_mask n 4)"
  by (simp add: networkNumberAndMask_def net4_def To4_def Let_def)

lemma Contains_net4:
  "length q = 4 \<Longrightarrow> length x = 16 \<Longrightarrow>
   Contains (net4 q n) x \<longleftrightarrow>
     (\<exists>y. To4 x = Some y \<and> and_bytes y (cidr_mask n 4) = and_bytes q (cidr_mask n 4))"
  by (auto simp: Contains_def networkNumberAndMask_net4 and_bytes_idem Let_def
      dest: To4_length split: option.splits)

lemma cidr_mask_32: "cidr_mask 32 4 = [255, 255, 255, 255]"
  by (simp add: eval_nat_numeral)

lemma and_255 [simp]: "(b :: byte) AND 255 = b"
proof -
  have "(255 :: byte) = - 1" by simp
  then show ?thesis by (metis and.right_neutral)
qed

lemma and_bytes_255: "length q = 4 \<Longrightarrow> and_bytes q [255, 255, 255, 255] = q"
  by (auto dest!: length_4 simp: and_bytes_def)

lemma Contains_host4:
  "length q = 4 \<Longrightarrow> length x = 16 \<Longrightarrow> Contains (net4 q 32) x \<longleftrightarrow> To4 x = Some q"
  by (auto simp: Contains_net4 cidr_mask_32 and_bytes_255 To4_length)

lemma ParseCIDR_host4: "length q = 4 \<Longrightarrow> ParseCIDR (v4_string q @ ''/32'') = Some (v4InV6Prefix @ q, net4 q 32)"
proof -
  assume len: "length q = 4"
  have "CHR ''/'' \<notin> set (v4_string q)" using v4_string_chars [OF len] by auto
  then have "cut (CHR ''/'') (v4_string q @ CHR ''/'' # ''32'') = Some (v4_string q, ''32'')"
    by (rule cut_append)
  moreover have "dtoi_all ''32'' = Some 32"
    by (simp add: dtoi_all_def dec_value_def is_digit_def code_def)
  ultimately show ?thesis by (simp add: ParseCIDR_def parse_addr_v4_string len net4_def)
qed

end
