(* ===== verification/Protocol.thy ===== *)
theory Protocol
  imports GoNet
begin

text \<open>
  \<^verbatim>\<open>internal/protocol\<close>: the error codes, the messages of protocol v1, the length-prefixed framing and
  the field validators. \<^verbatim>\<open>encoding/json\<close> enters as a pair of functions (the record \<open>json_codec\<close>)
  that the framing operations take as an argument; the operating system's random bytes, the clock and
  the byte stream of the connection are arguments too.
  The lemmas show that a frame written by one side is read back by the other, also in a stream of
  frames, that no frame above the cap is written or read, and what each validator accepts.
\<close>

section \<open>Error codes (errors.go)\<close>

record proto_error =
  Code :: string
  Message :: string
  Fatal :: bool

abbreviation "ErrCodeProtocol \<equiv> ''ERR_PROTOCOL''"
abbreviation "ErrCodeVersionUnsupported \<equiv> ''ERR_VERSION_UNSUPPORTED''"
abbreviation "ErrCodeAuthFailed \<equiv> ''ERR_AUTH_FAILED''"
abbreviation "ErrCodeCertExpired \<equiv> ''ERR_CERT_EXPIRED''"
abbreviation "ErrCodeCertRevoked \<equiv> ''ERR_CERT_REVOKED''"
abbreviation "ErrCodeTokenInvalid \<equiv> ''ERR_TOKEN_INVALID''"
abbreviation "ErrCodeTokenExpired \<equiv> ''ERR_TOKEN_EXPIRED''"
abbreviation "ErrCodeTokenUsed \<equiv> ''ERR_TOKEN_USED''"
abbreviation "ErrCodePortNotAllowed \<equiv> ''ERR_PORT_NOT_ALLOWED''"
abbreviation "ErrCodePortInUse \<equiv> ''ERR_PORT_IN_USE''"
abbreviation "ErrCodeTunnelLimit \<equiv> ''ERR_TUNNEL_LIMIT''"
abbreviation "ErrCodeRateLimited \<equiv> ''ERR_RATE_LIMITED''"
abbreviation "ErrCodeTargetNotAllowed \<equiv> ''ERR_TARGET_NOT_ALLOWED''"
abbreviation "ErrCodeNameInvalid \<equiv> ''ERR_NAME_INVALID''"
abbreviation "ErrCodeNameConflict \<equiv> ''ERR_NAME_CONFLICT''"
abbreviation "ErrCodeInternal \<equiv> ''ERR_INTERNAL''"

definition NewError :: "string \<Rightarrow> string \<Rightarrow> bool \<Rightarrow> proto_error" where
  "NewError c m f = \<lparr>Code = c, Message = m, Fatal = f\<rparr>"

definition ProtocolError :: "string \<Rightarrow> proto_error" where
  "ProtocolError m = NewError ErrCodeProtocol m True"

definition VersionUnsupportedError :: proto_error where
  "VersionUnsupportedError = NewError ErrCodeVersionUnsupported ''unsupported protocol version'' True"

definition Error_string :: "proto_error \<Rightarrow> string" where
  "Error_string e = Code e @ '': '' @ Message e"

section \<open>Messages (messages.go)\<close>

record client_hello =
  ch_ClientID :: string
  ch_ProtocolVersion :: int
  ch_Name :: string
  ch_Note :: string
  ch_Capabilities :: "string list"

record udp_policy =
  MaxSessions :: int
  MaxPacket :: int
  SessionIdleTimeout :: string

record policy =
  AllowedPorts :: "string list"
  MaxTunnels :: int
  MaxConns :: int
  MaxConnsTunnel :: int
  BandwidthBPS :: int
  BandwidthTunnelBPS :: int
  UDP :: udp_policy
  AllowedTargets :: "string list"

record heartbeat =
  IntervalS :: int
  TimeoutS :: int
  MissThreshold :: int

record server_hello =
  sh_SessionID :: string
  sh_Policy :: policy
  sh_Heartbeat :: heartbeat

record local_target =
  lt_IP :: string
  lt_Port :: int

text \<open>The optional \<^verbatim>\<open>http\<close> object carries only the host name.\<close>

record register_tunnel =
  rt_Name :: string
  rt_Type :: string
  rt_RemotePort :: int
  rt_Local :: local_target
  rt_HTTP :: "string option"

record register_tunnel_resp =
  rr_TunnelID :: string
  rr_OK :: bool
  rr_Error :: "proto_error option"
  rr_Effective :: "int option"

record open_connection =
  oc_ConnID :: string
  oc_TunnelID :: string
  oc_SrcAddr :: string
  oc_DeadlineMS :: int
  oc_Transport :: string

record open_data =
  od_ConnID :: string
  od_TunnelID :: string

record shutdown_msg =
  sd_Reason :: string
  sd_DrainTimeoutMS :: int

section \<open>Framing (protocol.go)\<close>

abbreviation MaxFrameSize :: nat where
  "MaxFrameSize \<equiv> 65536"

definition ProtocolVersion :: int where
  [simp]: "ProtocolVersion = 1"

record envelope =
  Version :: int
  Type :: string
  Seq :: "64 word"
  Nonce :: string
  TS :: int
  Payload :: "bytes option"

record json_codec =
  marshal_env :: "envelope \<Rightarrow> bytes option"
  unmarshal_env :: "bytes \<Rightarrow> envelope option"

datatype frame_error =
    MarshalPayload
  | NonceFailed
  | MarshalEnvelope
  | FrameTooLarge nat
  | FrameTooShort nat
  | InvalidFrameSize nat
  | LengthMismatch nat nat
  | ParseEnvelope
  | MissingType
  | ReadEOF
  | UnexpectedEOF

text \<open>\<^verbatim>\<open>binary.BigEndian.PutUint32\<close> and \<^verbatim>\<open>Uint32\<close>; the conversion to a byte drops the high bits.\<close>

definition put_be32 :: "nat \<Rightarrow> bytes" where
  "put_be32 n = [of_nat (n div 16777216), of_nat (n div 65536), of_nat (n div 256), of_nat n]"

fun get_be32 :: "bytes \<Rightarrow> nat" where
  "get_be32 [a, b, c, d] = 16777216 * unat a + 65536 * unat b + 256 * unat c + unat d"
| "get_be32 _ = 0"

definition hex_encode :: "bytes \<Rightarrow> string" where
  "hex_encode bs = concat (map (\<lambda>b. [hex_digit (unat b div 16), hex_digit (unat b mod 16)]) bs)"

text \<open>
  \<open>rnd\<close> is what \<^verbatim>\<open>rand.Read\<close> put into the 16-byte buffer, \<open>None\<close> when it failed.
\<close>

definition randomNonce :: "bytes option \<Rightarrow> frame_error + string" where
  "randomNonce rnd = (case rnd of None \<Rightarrow> Inl NonceFailed | Some buf \<Rightarrow> Inr (hex_encode buf))"

text \<open>
  \<open>payload = None\<close> is a nil payload; otherwise it is the result of marshalling it. The body is the
  marshalled envelope.
\<close>

definition Encode ::
  "json_codec \<Rightarrow> bytes option \<Rightarrow> int \<Rightarrow> string \<Rightarrow> 64 word \<Rightarrow> bytes option option \<Rightarrow> frame_error + bytes" where
  "Encode J rnd ts msgType seq payload =
     (if payload = Some None then Inl MarshalPayload
      else case randomNonce rnd of
        Inl e \<Rightarrow> Inl e
      | Inr nonce \<Rightarrow>
          (case marshal_env J \<lparr>Version = ProtocolVersion, Type = msgType, Seq = seq, Nonce = nonce,
                               TS = ts, Payload = Option.bind payload id\<rparr> of
             None \<Rightarrow> Inl MarshalEnvelope
           | Some body \<Rightarrow>
               if MaxFrameSize < length body then Inl (FrameTooLarge (length body))
               else Inr (put_be32 (length body) @ body)))"

definition Decode :: "json_codec \<Rightarrow> bytes \<Rightarrow> frame_error + envelope" where
  "Decode J frame =
     (if length frame < 4 then Inl (FrameTooShort (length frame))
      else let size = get_be32 (take 4 frame)
      in if size = 0 \<or> MaxFrameSize < size then Inl (InvalidFrameSize size)
         else if length frame \<noteq> size + 4 then Inl (LengthMismatch size (length frame - 4))
         else case unmarshal_env J (drop 4 frame) of
                None \<Rightarrow> Inl ParseEnvelope
              | Some env \<Rightarrow> if Type env = '''' then Inl MissingType else Inr env)"

text \<open>
  \<^verbatim>\<open>io.ReadFull\<close> on a stream that ends after the given bytes: what was read and what remains.
\<close>

definition read_full :: "nat \<Rightarrow> bytes \<Rightarrow> frame_error + (bytes \<times> bytes)" where
  "read_full n s =
     (if n \<le> length s then Inr (take n s, drop n s)
      else if s = [] then Inl ReadEOF else Inl UnexpectedEOF)"

text \<open>The reading part of \<^verbatim>\<open>ReadFrame\<close>: the header and body of the next frame, and the rest.\<close>

definition read_frame_bytes :: "bytes \<Rightarrow> frame_error + (bytes \<times> bytes)" where
  "read_frame_bytes s =
     (case read_full 4 s of
        Inl e \<Rightarrow> Inl e
      | Inr (hdr, s1) \<Rightarrow>
          (let size = get_be32 hdr
           in if size = 0 \<or> MaxFrameSize < size then Inl (InvalidFrameSize size)
              else case read_full size s1 of
                     Inl e \<Rightarrow> Inl e
                   | Inr (body, s2) \<Rightarrow> Inr (hdr @ body, s2)))"

definition ReadFrame :: "json_codec \<Rightarrow> bytes \<Rightarrow> frame_error + (envelope \<times> bytes)" where
  "ReadFrame J s =
     (case read_frame_bytes s of
        Inl e \<Rightarrow> Inl e
      | Inr (frame, rest) \<Rightarrow>
          (case Decode J frame of Inl e \<Rightarrow> Inl e | Inr env \<Rightarrow> Inr (env, rest)))"

definition WriteFrame ::
  "json_codec \<Rightarrow> bytes option \<Rightarrow> int \<Rightarrow> string \<Rightarrow> 64 word \<Rightarrow> bytes option option \<Rightarrow> bytes \<Rightarrow> frame_error + bytes" where
  "WriteFrame J rnd ts msgType seq payload out =
     (case Encode J rnd ts msgType seq payload of
        Inl e \<Rightarrow> Inl e
      | Inr frame \<Rightarrow> Inr (out @ frame))"

text \<open>\<^verbatim>\<open>DecodePayload\<close> with the unmarshaller for the target type as an argument.\<close>

definition DecodePayload :: "(bytes \<Rightarrow> 'a option) \<Rightarrow> envelope \<Rightarrow> 'a option" where
  "DecodePayload dec env = (case Payload env of None \<Rightarrow> None | Some raw \<Rightarrow> dec raw)"

section \<open>Validators (validate.go)\<close>

text \<open>A validator returns the error it reports, \<^const>\<open>None\<close> when the message is accepted.\<close>

definition is_name_char :: "char \<Rightarrow> bool" where
  "is_name_char c \<longleftrightarrow> is_lower c \<or> is_upper c \<or> is_digit c \<or> c = CHR ''_'' \<or> c = CHR ''-''"

definition tunnelNameRe :: "string \<Rightarrow> bool" where
  "tunnelNameRe s \<longleftrightarrow> 1 \<le> length s \<and> length s \<le> 64 \<and> list_all is_name_char s"

definition ValidateClientHello :: "client_hello option \<Rightarrow> proto_error option" where
  "ValidateClientHello arg =
     (case arg of
        None \<Rightarrow> Some (ProtocolError ''missing client_hello'')
      | Some h \<Rightarrow>
          (if ch_ClientID h = '''' then Some (ProtocolError ''client_hello: missing client_id'')
           else if 128 < length (ch_ClientID h) then Some (ProtocolError ''client_hello: client_id too long'')
           else if ch_ProtocolVersion h \<noteq> ProtocolVersion then Some VersionUnsupportedError
           else if 64 < length (ch_Name h) then Some (ProtocolError ''client_hello: name too long'')
           else if \<not> list_all (\<lambda>c. length c \<le> 64) (ch_Capabilities h)
             then Some (ProtocolError ''client_hello: capability too long'')
           else None))"

text \<open>\<^verbatim>\<open>parsePortRange\<close> reads its numbers with \<^verbatim>\<open>Sscanf\<close>.\<close>

definition parsePortRange :: "string \<Rightarrow> (int \<times> int) option" where
  "parsePortRange s =
     (case (case cut (CHR ''-'') s of
              Some (a, b) \<Rightarrow>
                (case (sscanf_d a, sscanf_d b) of (Some lo, Some hi) \<Rightarrow> Some (lo, hi) | _ \<Rightarrow> None)
            | None \<Rightarrow> map_option (\<lambda>lo. (lo, lo)) (sscanf_d s)) of
        None \<Rightarrow> None
      | Some (lo, hi) \<Rightarrow> if lo < 1 \<or> 65535 < hi \<or> hi < lo then None else Some (lo, hi))"

definition validTarget :: "string \<Rightarrow> bool" where
  "validTarget t =
     (case last_index_byte t (CHR '':'') of
        None \<Rightarrow> False
      | Some idx \<Rightarrow>
          (if idx = 0 \<or> idx = length t - 1 then False
           else let cidr = take idx t; portSpec = drop (Suc idx) t
                in if ParseCIDR cidr = None then False
                   else portSpec = ''*'' \<or> parsePortRange portSpec \<noteq> None))"

definition ValidatePolicy :: "policy option \<Rightarrow> proto_error option" where
  "ValidatePolicy arg =
     (case arg of
        None \<Rightarrow> Some (ProtocolError ''missing policy'')
      | Some p \<Rightarrow>
          (if MaxTunnels p \<le> 0 \<or> 1024 < MaxTunnels p
             then Some (ProtocolError (''policy: max_tunnels out of range '' @ Itoa (MaxTunnels p)))
           else if MaxConns p \<le> 0 \<or> 100000 < MaxConns p
             then Some (ProtocolError (''policy: max_conns out of range '' @ Itoa (MaxConns p)))
           else if BandwidthBPS p < 0 then Some (ProtocolError ''policy: negative bandwidth'')
           else if MaxSessions (UDP p) < 0 \<or> 65536 < MaxSessions (UDP p)
             then Some (ProtocolError (''policy: udp.max_sessions out of range '' @ Itoa (MaxSessions (UDP p))))
           else if MaxPacket (UDP p) < 0 \<or> 65507 < MaxPacket (UDP p)
             then Some (ProtocolError (''policy: udp.max_packet out of range '' @ Itoa (MaxPacket (UDP p))))
           else (case find (\<lambda>t. \<not> validTarget t) (AllowedTargets p) of
                   Some t \<Rightarrow> Some (ProtocolError (''policy: invalid allowed_targets entry '' @ t))
                 | None \<Rightarrow> None)))"

definition validateHeartbeat :: "heartbeat option \<Rightarrow> proto_error option" where
  "validateHeartbeat arg =
     (case arg of
        None \<Rightarrow> Some (ProtocolError ''missing heartbeat'')
      | Some h \<Rightarrow>
          (if IntervalS h < 1 \<or> 300 < IntervalS h
             then Some (ProtocolError (''heartbeat: interval_s out of range '' @ Itoa (IntervalS h)))
           else if TimeoutS h < 1 \<or> 60 < TimeoutS h
             then Some (ProtocolError (''heartbeat: timeout_s out of range '' @ Itoa (TimeoutS h)))
           else if MissThreshold h < 1 \<or> 10 < MissThreshold h
             then Some (ProtocolError (''heartbeat: miss_threshold out of range '' @ Itoa (MissThreshold h)))
           else None))"

definition ValidateServerHello :: "server_hello option \<Rightarrow> proto_error option" where
  "ValidateServerHello arg =
     (case arg of
        None \<Rightarrow> Some (ProtocolError ''missing server_hello'')
      | Some h \<Rightarrow>
          (if sh_SessionID h = '''' then Some (ProtocolError ''server_hello: missing session_id'')
           else case ValidatePolicy (Some (sh_Policy h)) of
                  Some e \<Rightarrow> Some e
                | None \<Rightarrow> validateHeartbeat (Some (sh_Heartbeat h))))"

definition label_ok :: "string \<Rightarrow> bool" where
  "label_ok label \<longleftrightarrow>
     label \<noteq> [] \<and> length label \<le> 63 \<and>
     list_all (\<lambda>i. let c = label ! i in
                 is_lower c \<or> is_upper c \<or> is_digit c \<or> (c = CHR ''-'' \<and> 0 < i \<and> i < length label - 1))
       [0..<length label]"

definition validHostname :: "string \<Rightarrow> bool" where
  "validHostname h \<longleftrightarrow>
     h \<noteq> [] \<and> length h \<le> 253 \<and> list_all label_ok (split_on (CHR ''.'') h)"

definition validateLocalTarget :: "local_target option \<Rightarrow> proto_error option" where
  "validateLocalTarget arg =
     (case arg of
        None \<Rightarrow> Some (ProtocolError ''register_tunnel: missing local'')
      | Some t \<Rightarrow>
          (if lt_Port t < 1 \<or> 65535 < lt_Port t
             then Some (ProtocolError ''register_tunnel: local.port out of range'')
           else case ParseIP (lt_IP t) of
             None \<Rightarrow>
               (if \<not> validHostname (lt_IP t) then Some (ProtocolError ''register_tunnel: local.ip invalid'')
                else None)
           | Some x \<Rightarrow>
               (if IsUnspecified x \<or> IsMulticast x \<or> IsLinkLocalUnicast x \<or> IsLinkLocalMulticast x
                then Some (ProtocolError
                  ''register_tunnel: local.ip must not be wildcard/multicast/link-local'')
                else None)))"

definition ValidateRegisterTunnel :: "register_tunnel option \<Rightarrow> proto_error option" where
  "ValidateRegisterTunnel arg =
     (case arg of
        None \<Rightarrow> Some (ProtocolError ''missing register_tunnel'')
      | Some r \<Rightarrow>
          (if \<not> tunnelNameRe (rt_Name r) then Some (ProtocolError ''register_tunnel: invalid name'')
           else if rt_Type r \<notin> {''tcp'', ''udp'', ''http'', ''https''}
             then Some (ProtocolError (''register_tunnel: invalid type '' @ rt_Type r))
           else if rt_RemotePort r < 0 \<or> 65535 < rt_RemotePort r
             then Some (ProtocolError ''register_tunnel: remote_port out of range'')
           else if rt_Type r = ''http'' \<and> rt_RemotePort r = 0 \<and> (rt_HTTP r = None \<or> rt_HTTP r = Some '''')
             then Some (ProtocolError ''register_tunnel: http tunnel needs http.host when remote_port=0'')
           else if rt_Type r = ''https'' \<and> rt_RemotePort r = 0
             then Some (ProtocolError
               ''register_tunnel: https needs a dedicated remote_port (L4 passthrough)'')
           else (case validateLocalTarget (Some (rt_Local r)) of
                   Some e \<Rightarrow> Some e
                 | None \<Rightarrow>
                     (case rt_HTTP r of
                        Some host \<Rightarrow>
                          (if 255 < length host
                           then Some (ProtocolError ''register_tunnel: http.host too long'') else None)
                      | None \<Rightarrow> None))))"

definition ValidateOpenData :: "open_data option \<Rightarrow> proto_error option" where
  "ValidateOpenData arg =
     (case arg of
        None \<Rightarrow> Some (ProtocolError ''missing open_data'')
      | Some d \<Rightarrow>
          (if od_ConnID d = '''' then Some (ProtocolError ''open_data: missing conn_id'')
           else if od_TunnelID d = '''' then Some (ProtocolError ''open_data: missing tunnel_id'')
           else None))"

declare ValidateClientHello_def [validate_defs] ValidatePolicy_def [validate_defs]
  validateHeartbeat_def [validate_defs] ValidateServerHello_def [validate_defs]
  validateLocalTarget_def [validate_defs] ValidateRegisterTunnel_def [validate_defs]
  ValidateOpenData_def [validate_defs]

section \<open>Facts about framing\<close>

lemma get_put_be32: "n < 2 ^ 32 \<Longrightarrow> get_be32 (put_be32 n) = n"
proof -
  assume n: "n < 2 ^ 32"
  have b: "unat (of_nat k :: byte) = k mod 256" for k by (simp add: unat_of_nat)
  have top: "n div 16777216 mod 256 = n div 16777216" using n by simp
  have 1: "256 * (n div 256) + n mod 256 = n" by (rule mult_div_mod_eq)
  have "256 * (n div 256 div 256) + n div 256 mod 256 = n div 256" by (rule mult_div_mod_eq)
  then have 2: "256 * (n div 65536) + n div 256 mod 256 = n div 256" by (simp add: div_mult2_eq [symmetric])
  have "256 * (n div 65536 div 256) + n div 65536 mod 256 = n div 65536" by (rule mult_div_mod_eq)
  then have 3: "256 * (n div 16777216) + n div 65536 mod 256 = n div 65536"
    by (simp add: div_mult2_eq [symmetric])
  have "16777216 * (n div 16777216) + 65536 * (n div 65536 mod 256)
      + 256 * (n div 256 mod 256) + n mod 256 = n" using 1 2 3 by linarith
  then show ?thesis by (simp add: put_be32_def b top)
qed

lemma length_put_be32 [simp]: "length (put_be32 n) = 4"
  by (simp add: put_be32_def)

lemma read_full_append [simp]: "length xs = n \<Longrightarrow> read_full n (xs @ rest) = Inr (xs, rest)"
  by (auto simp: read_full_def)

text \<open>
  The interface of a self-delimiting frame format: whatever one side encodes, the other side decodes
  with the rest of the stream untouched. A stream of frames is then read back frame by frame.
\<close>

fun drain :: "('b \<Rightarrow> ('a \<times> 'b) option) \<Rightarrow> nat \<Rightarrow> 'b \<Rightarrow> 'a list \<times> 'b" where
  "drain dec 0 s = ([], s)"
| "drain dec (Suc n) s =
     (case dec s of
        None \<Rightarrow> ([], s)
      | Some (x, s') \<Rightarrow> (let (xs, r) = drain dec n s' in (x # xs, r)))"

locale framing =
  fixes enc :: "'a \<Rightarrow> bytes option"
    and dec :: "bytes \<Rightarrow> ('a \<times> bytes) option"
  assumes dec_enc: "enc x = Some bs \<Longrightarrow> dec (bs @ rest) = Some (x, rest)"
begin

lemma enc_inject: "enc x = Some bs \<Longrightarrow> enc y = Some bs \<Longrightarrow> x = y"
  using dec_enc [of x bs "[]"] dec_enc [of y bs "[]"] by simp

lemma prefix_free: "enc x = Some bs \<Longrightarrow> enc y = Some (bs @ cs) \<Longrightarrow> x = y \<and> cs = []"
  using dec_enc [of x bs cs] dec_enc [of y "bs @ cs" "[]"] by simp

lemma drain_stream:
  "list_all2 (\<lambda>x bs. enc x = Some bs) xs frames \<Longrightarrow>
   drain dec (length xs) (concat frames @ rest) = (xs, rest)"
  by (induction xs frames rule: list_all2_induct) (auto simp: dec_enc)

end

text \<open>The bytes of one control frame around its body, and their reader.\<close>

definition body_frame :: "bytes \<Rightarrow> bytes option" where
  "body_frame body =
     (if body = [] \<or> MaxFrameSize < length body then None else Some (put_be32 (length body) @ body))"

definition read_body :: "bytes \<Rightarrow> (bytes \<times> bytes) option" where
  "read_body s = (case read_frame_bytes s of Inl e \<Rightarrow> None | Inr (fr, rest) \<Rightarrow> Some (drop 4 fr, rest))"

lemma read_frame_bytes_frame:
  assumes "body \<noteq> []" and "length body \<le> MaxFrameSize"
  shows "read_frame_bytes (put_be32 (length body) @ body @ rest)
           = Inr (put_be32 (length body) @ body, rest)"
  using assms get_put_be32 [of "length body"] by (simp add: read_frame_bytes_def)

interpretation ctl: framing body_frame read_body
  by unfold_locales (auto simp: body_frame_def read_body_def read_frame_bytes_frame split: if_splits)

lemma Encode_frame:
  "Encode J rnd ts ty sq pl = Inr fr \<Longrightarrow>
   \<exists>nonce body. randomNonce rnd = Inr nonce \<and>
     marshal_env J \<lparr>Version = ProtocolVersion, Type = ty, Seq = sq, Nonce = nonce, TS = ts,
                    Payload = Option.bind pl id\<rparr> = Some body \<and>
     length body \<le> MaxFrameSize \<and> fr = put_be32 (length body) @ body"
  by (auto simp: Encode_def split: if_splits sum.splits option.splits)

lemma Decode_frame:
  assumes "body \<noteq> []" and "length body \<le> MaxFrameSize"
  shows "Decode J (put_be32 (length body) @ body) =
           (case unmarshal_env J body of
              None \<Rightarrow> Inl ParseEnvelope
            | Some env \<Rightarrow> if Type env = '''' then Inl MissingType else Inr env)"
  using assms get_put_be32 [of "length body"] by (simp add: Decode_def Let_def)

lemma ReadFrame_frame:
  assumes "body \<noteq> []" and "length body \<le> MaxFrameSize"
    and "unmarshal_env J body = Some env" and "Type env \<noteq> ''''"
  shows "ReadFrame J (put_be32 (length body) @ body @ rest) = Inr (env, rest)"
  using assms by (simp add: ReadFrame_def read_frame_bytes_frame Decode_frame)

lemma read_frame_bytes_size:
  "read_frame_bytes s = Inr (fr, rest) \<Longrightarrow>
   s = fr @ rest \<and> 4 < length fr \<and> length fr \<le> MaxFrameSize + 4 \<and> length fr = get_be32 (take 4 fr) + 4"
  by (auto simp: read_frame_bytes_def read_full_def Let_def min_def add.commute drop_drop [symmetric]
      simp del: drop_drop split: sum.splits if_splits)

lemma Decode_ok_type: "Decode J fr = Inr env \<Longrightarrow> Type env \<noteq> ''''"
  by (auto simp: Decode_def Let_def split: if_splits option.splits)

section \<open>Facts about the validators\<close>

lemma parsePortRange_bounds:
  "parsePortRange s = Some (lo, hi) \<Longrightarrow> 1 \<le> lo \<and> lo \<le> hi \<and> hi \<le> 65535"
  by (auto simp: parsePortRange_def split: option.splits if_splits)

lemma find_invalid:
  "find (\<lambda>x. \<not> P x) xs = None \<longleftrightarrow> list_all P xs"
  "find (\<lambda>x. \<not> P x) xs = Some y \<Longrightarrow> \<not> list_all P xs"
  by (induction xs) (auto split: if_splits)

lemma ValidatePolicy_ok:
  "ValidatePolicy (Some p) = None \<longleftrightarrow>
     1 \<le> MaxTunnels p \<and> MaxTunnels p \<le> 1024 \<and> 1 \<le> MaxConns p \<and> MaxConns p \<le> 100000 \<and>
     0 \<le> BandwidthBPS p \<and> 0 \<le> MaxSessions (UDP p) \<and> MaxSessions (UDP p) \<le> 65536 \<and>
     0 \<le> MaxPacket (UDP p) \<and> MaxPacket (UDP p) \<le> 65507 \<and> list_all validTarget (AllowedTargets p)"
  by (auto simp: ValidatePolicy_def find_invalid split: option.splits dest: find_invalid(2))

lemma validateHeartbeat_ok:
  "validateHeartbeat (Some h) = None \<longleftrightarrow>
     1 \<le> IntervalS h \<and> IntervalS h \<le> 300 \<and> 1 \<le> TimeoutS h \<and> TimeoutS h \<le> 60 \<and>
     1 \<le> MissThreshold h \<and> MissThreshold h \<le> 10"
  by (auto simp: validateHeartbeat_def)

lemma ValidateServerHello_ok:
  "ValidateServerHello (Some h) = None \<longleftrightarrow>
     sh_SessionID h \<noteq> '''' \<and> ValidatePolicy (Some (sh_Policy h)) = None \<and>
     validateHeartbeat (Some (sh_Heartbeat h)) = None"
  by (auto simp: ValidateServerHello_def split: option.splits)

lemma ValidateRegisterTunnel_ok:
  "ValidateRegisterTunnel (Some r) = None \<Longrightarrow>
     tunnelNameRe (rt_Name r) \<and> rt_Type r \<in> {''tcp'', ''udp'', ''http'', ''https''} \<and>
     0 \<le> rt_RemotePort r \<and> rt_RemotePort r \<le> 65535 \<and>
     validateLocalTarget (Some (rt_Local r)) = None \<and>
     (rt_Type r = ''https'' \<longrightarrow> rt_RemotePort r \<noteq> 0) \<and>
     (rt_Type r = ''http'' \<and> rt_RemotePort r = 0 \<longrightarrow> (\<exists>h. rt_HTTP r = Some h \<and> h \<noteq> ''''))"
  by (auto simp: ValidateRegisterTunnel_def split: if_splits option.splits)

section \<open>Properties\<close>

text \<open>
  C20: A control frame written by Encode is read back by ReadFrame as the same envelope, whatever
  follows it on the connection, provided the JSON codec reads back the envelope it wrote.
\<close>

theorem ReadFrame_Encode:
  assumes "env = \<lparr>Version = ProtocolVersion, Type = ty, Seq = sq, Nonce = hex_encode rnd, TS = ts,
                   Payload = Option.bind pl id\<rparr>"
    and codec: "\<And>body. marshal_env J env = Some body \<Longrightarrow> body \<noteq> [] \<and> unmarshal_env J body = Some env"
    and "ty \<noteq> ''''"
    and enc: "Encode J (Some rnd) ts ty sq pl = Inr fr"
  shows "ReadFrame J (fr @ rest) = Inr (env, rest)"
proof -
  from Encode_frame [OF enc] obtain body where body: "marshal_env J env = Some body"
      and len: "length body \<le> MaxFrameSize" and fr: "fr = put_be32 (length body) @ body"
    by (auto simp: assms(1) randomNonce_def)
  from codec [OF body] have "body \<noteq> []" and "unmarshal_env J body = Some env" by auto
  then have "ReadFrame J (put_be32 (length body) @ body @ rest) = Inr (env, rest)"
    using len assms(1,3) by (intro ReadFrame_frame) auto
  then show ?thesis by (simp add: fr)
qed

definition sample_env :: envelope where
  "sample_env = \<lparr>Version = 1, Type = ''ping'', Seq = 7, Nonce = ''0aff'', TS = 1700000000000,
                 Payload = Some [123, 125]\<rparr>"

text \<open>A codec that knows one envelope, for the closed instances below.\<close>

definition sample_codec :: json_codec where
  "sample_codec =
     \<lparr>marshal_env = (\<lambda>e. if e = sample_env then Some [123, 34, 125] else None),
      unmarshal_env = (\<lambda>b. if b = [123, 34, 125] then Some sample_env else None)\<rparr>"

lemma sample_hex: "hex_encode [10, 255] = ''0aff''"
  by code_simp

lemma sample_marshal: "marshal_env sample_codec sample_env = Some [123, 34, 125]"
  by (simp add: sample_codec_def)

lemma sample_codec_inverse:
  "marshal_env sample_codec e = Some body \<Longrightarrow> body \<noteq> [] \<and> unmarshal_env sample_codec body = Some e"
  by (auto simp: sample_codec_def split: if_splits)

lemma sample_Encode:
  "Encode sample_codec (Some [10, 255]) 1700000000000 ''ping'' 7 (Some (Some [123, 125]))
     = Inr [0, 0, 0, 3, 123, 34, 125]"
  using sample_marshal by (simp add: Encode_def randomNonce_def sample_hex sample_env_def put_be32_def)

theorem ReadFrame_Encode_witness:
  "ReadFrame sample_codec
     ([0, 0, 0, 3, 123, 34, 125] @ [9, 9]) = Inr (sample_env, [9, 9])"
  by (rule ReadFrame_Encode [OF _ sample_codec_inverse _ sample_Encode])
    (simp_all add: sample_env_def sample_hex)

text \<open>The frame of one envelope and its reader, over a codec.\<close>

definition env_frame :: "json_codec \<Rightarrow> envelope \<Rightarrow> bytes option" where
  "env_frame J env =
     (case marshal_env J env of
        None \<Rightarrow> None
      | Some body \<Rightarrow>
          if Type env = '''' \<or> MaxFrameSize < length body then None
          else Some (put_be32 (length body) @ body))"

definition read_env :: "json_codec \<Rightarrow> bytes \<Rightarrow> (envelope \<times> bytes) option" where
  "read_env J s = (case ReadFrame J s of Inl e \<Rightarrow> None | Inr r \<Rightarrow> Some r)"

lemma env_framing:
  assumes codec: "\<And>e body. marshal_env J e = Some body \<Longrightarrow> body \<noteq> [] \<and> unmarshal_env J body = Some e"
  shows "framing (env_frame J) (read_env J)"
proof
  fix e bs rest
  assume "env_frame J e = Some bs"
  then obtain body where m: "marshal_env J e = Some body" and "Type e \<noteq> ''''"
      and "length body \<le> MaxFrameSize" and bs: "bs = put_be32 (length body) @ body"
    by (auto simp: env_frame_def split: option.splits if_splits)
  with codec [OF m] have "ReadFrame J (put_be32 (length body) @ body @ rest) = Inr (e, rest)"
    by (intro ReadFrame_frame) auto
  then show "read_env J (bs @ rest) = Some (e, rest)" by (simp add: read_env_def bs)
qed

text \<open>
  Control messages written one after another on a connection are read in the order in which they
  were written, each as it was sent, and nothing of what follows them is consumed.
\<close>

theorem control_stream_in_order:
  assumes codec: "\<And>e body. marshal_env J e = Some body \<Longrightarrow> body \<noteq> [] \<and> unmarshal_env J body = Some e"
    and frames: "list_all2 (\<lambda>e bs. env_frame J e = Some bs) envs frames"
  shows "drain (read_env J) (length envs) (concat frames @ rest) = (envs, rest)"
  using env_framing [OF codec] frames by (rule framing.drain_stream)

theorem control_stream_in_order_witness:
  "drain (read_env sample_codec) 2
     (concat [[0, 0, 0, 3, 123, 34, 125], [0, 0, 0, 3, 123, 34, 125]] @ [1]) = ([sample_env, sample_env], [1])"
proof -
  have f: "env_frame sample_codec sample_env = Some [0, 0, 0, 3, 123, 34, 125]"
    by (simp add: env_frame_def sample_marshal put_be32_def) (simp add: sample_env_def)
  have "drain (read_env sample_codec) (length [sample_env, sample_env])
     (concat [[0, 0, 0, 3, 123, 34, 125], [0, 0, 0, 3, 123, 34, 125]] @ [1]) = ([sample_env, sample_env], [1])"
    by (rule control_stream_in_order [OF sample_codec_inverse]) (simp_all add: f)
  then show ?thesis by (simp add: numeral_2_eq_2)
qed

text \<open>
  A control frame that is accepted occupies at most 64 KiB after its header, its header states
  exactly its length, and its envelope names a message type; the bytes after it stay on the stream.
\<close>

theorem ReadFrame_bounded:
  "ReadFrame J s = Inr (env, rest) \<Longrightarrow>
   \<exists>fr. s = fr @ rest \<and> 4 < length fr \<and> length fr \<le> MaxFrameSize + 4 \<and>
     length fr = get_be32 (take 4 fr) + 4 \<and> Type env \<noteq> ''''"
  by (auto simp: ReadFrame_def split: sum.splits dest!: read_frame_bytes_size Decode_ok_type)

theorem ReadFrame_bounded_witness:
  "\<exists>fr. [0, 0, 0, 3, 123, 34, 125, 5] = fr @ [5] \<and> 4 < length fr \<and> length fr \<le> MaxFrameSize + 4 \<and>
     length fr = get_be32 (take 4 fr) + 4 \<and> Type sample_env \<noteq> ''''"
proof (rule ReadFrame_bounded [of sample_codec])
  have "ReadFrame sample_codec (put_be32 (length [123, 34, 125 :: byte]) @ [123, 34, 125] @ [5]) = Inr (sample_env, [5])"
    using sample_codec_inverse [OF sample_marshal] by (intro ReadFrame_frame) (auto simp: sample_env_def)
  then show "ReadFrame sample_codec [0, 0, 0, 3, 123, 34, 125, 5] = Inr (sample_env, [5])"
    by (simp add: put_be32_def)
qed

text \<open>
  A registration request that passes ValidateRegisterTunnel has a well-formed name and type, a
  public port in range, a public port or a host name to route by, and a local target whose port is in
  range and which is not a wildcard, multicast or link-local address.
\<close>

theorem ValidateRegisterTunnel_sound:
  assumes "ValidateRegisterTunnel (Some r) = None"
  shows "tunnelNameRe (rt_Name r) \<and> rt_Type r \<in> {''tcp'', ''udp'', ''http'', ''https''} \<and>
     0 \<le> rt_RemotePort r \<and> rt_RemotePort r \<le> 65535 \<and>
     1 \<le> lt_Port (rt_Local r) \<and> lt_Port (rt_Local r) \<le> 65535 \<and>
     (rt_Type r = ''http'' \<and> rt_RemotePort r = 0 \<longrightarrow> (\<exists>h. rt_HTTP r = Some h \<and> h \<noteq> '''')) \<and>
     (rt_Type r = ''https'' \<longrightarrow> rt_RemotePort r \<noteq> 0) \<and>
     (case ParseIP (lt_IP (rt_Local r)) of
        Some x \<Rightarrow> \<not> IsUnspecified x \<and> \<not> IsMulticast x \<and> \<not> IsLinkLocalUnicast x \<and> \<not> IsLinkLocalMulticast x
      | None \<Rightarrow> validHostname (lt_IP (rt_Local r)))"
proof -
  note ok = ValidateRegisterTunnel_ok [OF assms]
  then have "validateLocalTarget (Some (rt_Local r)) = None" by blast
  then have "1 \<le> lt_Port (rt_Local r) \<and> lt_Port (rt_Local r) \<le> 65535 \<and>
     (case ParseIP (lt_IP (rt_Local r)) of
        Some x \<Rightarrow> \<not> IsUnspecified x \<and> \<not> IsMulticast x \<and> \<not> IsLinkLocalUnicast x \<and> \<not> IsLinkLocalMulticast x
      | None \<Rightarrow> validHostname (lt_IP (rt_Local r)))"
    by (auto simp: validateLocalTarget_def split: if_splits option.splits)
  then show ?thesis using ok by blast
qed

definition sample_request :: register_tunnel where
  "sample_request = \<lparr>rt_Name = ''ssh'', rt_Type = ''tcp'', rt_RemotePort = 22000,
     rt_Local = \<lparr>lt_IP = ''10.0.0.7'', lt_Port = 22\<rparr>, rt_HTTP = None\<rparr>"

theorem ValidateRegisterTunnel_sound_witness:
  "ValidateRegisterTunnel (Some sample_request) = None \<and> tunnelNameRe (rt_Name sample_request)"
proof -
  have "ValidateRegisterTunnel (Some sample_request) = None" by code_simp
  then show ?thesis using ValidateRegisterTunnel_sound [of sample_request] by simp
qed

end
