(* ===== verification/Acl.thy ===== *)
theory Acl
  imports Protocol
begin

text \<open>
  \<^verbatim>\<open>internal/tunnel/acl.go\<close>: the allow-list of local targets (\<^verbatim>\<open>policy.allowed_targets\<close>) that the
  server enforces at registration and the client enforces before it dials, and \<^verbatim>\<open>portAllowed\<close> of
  \<^verbatim>\<open>internal/tunnel/server.go\<close>, the allow-list of public ports. The lemmas characterise what an entry
  admits: a bare IPv4 address admits exactly that host, a prefix exactly the addresses that share
  its leading bits, and an entry that does not parse denies everything.
\<close>

section \<open>The allow-list of targets\<close>

record targetRule =
  network :: ipnet
  portLo :: int
  portHi :: int

definition target_network :: "string \<Rightarrow> ipnet option" where
  "target_network cidr =
     (case ParseCIDR cidr of
        Some (_, n) \<Rightarrow> Some n
      | None \<Rightarrow>
          (case ParseIP cidr of
             None \<Rightarrow> None
           | Some x \<Rightarrow>
               (let bits = (if To4 x = None then 128 else 32)
                in map_option snd (ParseCIDR (ip_string x @ ''/'' @ Itoa bits)))))"

definition parseTarget :: "string \<Rightarrow> targetRule option" where
  "parseTarget s =
     (case last_index_byte s (CHR '':'') of
        None \<Rightarrow> None
      | Some idx \<Rightarrow>
          (if idx = 0 \<or> idx = length s - 1 then None
           else let portSpec = drop (Suc idx) s
           in case target_network (take idx s) of
                None \<Rightarrow> None
              | Some n \<Rightarrow>
                  (let rule = \<lparr>network = n, portLo = 1, portHi = -1\<rparr>
                   in if portSpec = ''*'' then Some rule
                      else case cut (CHR ''-'') portSpec of
                        Some (a, b) \<Rightarrow>
                          (case (Atoi a, Atoi b) of
                             (Some lo, Some hi) \<Rightarrow>
                               if lo < 1 \<or> 65535 < hi \<or> hi < lo then None
                               else Some (rule\<lparr>portLo := lo, portHi := hi\<rparr>)
                           | _ \<Rightarrow> None)
                      | None \<Rightarrow>
                          (case Atoi portSpec of
                             None \<Rightarrow> None
                           | Some p \<Rightarrow>
                               if p < 1 \<or> 65535 < p then None
                               else Some (rule\<lparr>portLo := p, portHi := p\<rparr>)))))"

fun ParseTargets :: "string list \<Rightarrow> targetRule list option" where
  "ParseTargets [] = Some []"
| "ParseTargets (e # es) =
     (case parseTarget e of
        None \<Rightarrow> None
      | Some r \<Rightarrow> map_option (\<lambda>rs. r # rs) (ParseTargets es))"

fun Allows :: "targetRule list \<Rightarrow> ip \<Rightarrow> int \<Rightarrow> bool" where
  "Allows [] x port = False"
| "Allows (r # rs) x port =
     (if Contains (network r) x \<and> (portHi r = -1 \<or> (portLo r \<le> port \<and> port \<le> portHi r)) then True
      else Allows rs x port)"

definition TargetsAllow :: "string list \<Rightarrow> ip \<Rightarrow> int \<Rightarrow> bool" where
  "TargetsAllow entries x port =
     (case ParseTargets entries of None \<Rightarrow> False | Some rules \<Rightarrow> Allows rules x port)"

section \<open>The allow-list of public ports\<close>

definition port_entry :: "int \<Rightarrow> string \<Rightarrow> bool" where
  "port_entry port e =
     (if e = ''*'' then True
      else case cut (CHR ''-'') e of
        Some (a, b) \<Rightarrow>
          (case (Atoi a, Atoi b) of (Some lo, Some hi) \<Rightarrow> lo \<le> port \<and> port \<le> hi | _ \<Rightarrow> False)
      | None \<Rightarrow> Atoi e = Some port)"

definition portAllowed :: "string list \<Rightarrow> int \<Rightarrow> bool" where
  "portAllowed entries port = list_ex (port_entry port) entries"

section \<open>Lemmas\<close>

lemma Allows_iff:
  "Allows rules x port \<longleftrightarrow>
     (\<exists>r \<in> set rules. Contains (network r) x \<and> (portHi r = -1 \<or> portLo r \<le> port \<and> port \<le> portHi r))"
  by (induction rules) auto

lemma ParseTargets_Some_iff:
  "ParseTargets es = Some rs \<longleftrightarrow> list_all2 (\<lambda>e r. parseTarget e = Some r) es rs"
  by (induction es arbitrary: rs) (auto simp: list_all2_Cons1 split: option.splits)

lemma TargetsAllow_iff:
  "TargetsAllow es x port \<longleftrightarrow>
     (\<forall>e \<in> set es. parseTarget e \<noteq> None) \<and>
     (\<exists>e \<in> set es. \<exists>r. parseTarget e = Some r \<and> Contains (network r) x \<and>
        (portHi r = -1 \<or> portLo r \<le> port \<and> port \<le> portHi r))"
proof (induction es)
  case Nil
  then show ?case by (simp add: TargetsAllow_def)
next
  case (Cons e es)
  show ?case
  proof (cases "parseTarget e")
    case None
    then show ?thesis by (simp add: TargetsAllow_def)
  next
    case (Some r)
    have fail: "ParseTargets es = None \<longleftrightarrow> (\<exists>e \<in> set es. parseTarget e = None)"
      by (induction es) (auto split: option.splits)
    show ?thesis using Some Cons.IH fail by (auto simp: TargetsAllow_def split: option.splits)
  qed
qed

lemma parseTarget_ports:
  "parseTarget s = Some r \<Longrightarrow>
     1 \<le> portLo r \<and> (portHi r = -1 \<or> portLo r \<le> portHi r \<and> portHi r \<le> 65535)"
  by (auto simp: parseTarget_def Let_def split: option.splits if_splits)

lemma last_index_byte_append:
  assumes "c \<notin> set b"
  shows "last_index_byte (a @ c # b) c = Some (length a)"
proof -
  have "index_byte (rev b @ c # r) c = Some (length b)" for r
    using assms by (induction b arbitrary: r rule: rev_induct) auto
  then show ?thesis by (simp add: last_index_byte_def)
qed

text \<open>Parsing an entry whose two halves are given.\<close>

lemma parseTarget_star:
  assumes "cidr \<noteq> []"
  shows "parseTarget (cidr @ '':*'') =
           map_option (\<lambda>n. \<lparr>network = n, portLo = 1, portHi = -1\<rparr>) (target_network cidr)"
  using assms by (simp add: parseTarget_def last_index_byte_append Let_def split: option.splits)

lemma parseTarget_port:
  assumes "cidr \<noteq> []" and "1 \<le> p" and "p \<le> 65535"
  shows "parseTarget (cidr @ '':'' @ Itoa p) =
           map_option (\<lambda>n. \<lparr>network = n, portLo = p, portHi = p\<rparr>) (target_network cidr)"
proof -
  have digits: "list_all is_digit (Itoa p)" using assms by (simp add: Itoa_nonneg_digits)
  then have "CHR '':'' \<notin> set (Itoa p)" and dash: "CHR ''-'' \<notin> set (Itoa p)" and "Itoa p \<noteq> ''*''"
    using digits_no_char [of "Itoa p"] by (auto simp: is_digit_def code_def)
  moreover have "Itoa p \<noteq> []" using assms by (simp add: Itoa_def)
  moreover have "cut (CHR ''-'') (Itoa p) = None" using dash by simp
  ultimately show ?thesis
    using assms Atoi_Itoa [of p]
    by (simp add: parseTarget_def last_index_byte_append Let_def split: option.splits)
qed

lemma v4_string_nonempty: "length q = 4 \<Longrightarrow> v4_string q \<noteq> []"
  by (auto dest!: length_4 simp: v4_string_4)

lemma target_network_host4: "length q = 4 \<Longrightarrow> target_network (v4_string q) = Some (net4 q 32)"
proof -
  assume len: "length q = 4"
  have "CHR ''/'' \<notin> set (v4_string q)" using v4_string_chars [OF len] by auto
  then have "ParseCIDR (v4_string q) = None" by (simp add: ParseCIDR_def)
  moreover have "Itoa 32 = ''32''"
    by code_simp
  ultimately show ?thesis
    using len ParseCIDR_host4 [OF len]
    by (simp add: target_network_def ParseIP_v4_string ip_string_def)
qed

lemma target_network_cidr4:
  assumes len: "length q = 4" and n: "n \<le> 32"
  shows "target_network (v4_string q @ ''/'' @ nat_string n) = Some (net4 q n)"
proof -
  have "CHR ''/'' \<notin> set (v4_string q)" using v4_string_chars [OF len] by auto
  then have "cut (CHR ''/'') (v4_string q @ CHR ''/'' # nat_string n) = Some (v4_string q, nat_string n)"
    by (rule cut_append)
  moreover have "dtoi_all (nat_string n) = Some n"
    using n by (simp add: dtoi_all_def nat_string_digits)
  ultimately show ?thesis
    using n by (simp add: target_network_def ParseCIDR_def parse_addr_v4_string len net4_def)
qed

section \<open>Leading bits\<close>

text \<open>Bit \<open>i\<close> of a byte sequence, counted from the most significant bit of the first byte.\<close>

definition top_bit :: "bytes \<Rightarrow> nat \<Rightarrow> bool" where
  "top_bit xs i = bit (xs ! (i div 8)) (7 - i mod 8)"

lemma bit_255: "bit (255 :: byte) j \<longleftrightarrow> j < 8"
proof -
  have "(255 :: byte) = - 1" by simp
  moreover have "bit (- 1 :: byte) j \<longleftrightarrow> j < 8" by (simp only: bit_minus_1_iff possible_bit_word) simp
  ultimately show ?thesis by metis
qed

lemma byte_mask_eq:
  fixes x y :: byte
  assumes "n \<le> 8"
  shows "x AND NOT (drop_bit n 255) = y AND NOT (drop_bit n 255) \<longleftrightarrow> (\<forall>i < n. bit x (7 - i) = bit y (7 - i))"
proof -
  have high: "\<not> bit z j" if "8 \<le> j" for z :: byte and j
    using that by (simp add: impossible_bit)
  have drop: "bit (drop_bit n (255 :: byte)) j \<longleftrightarrow> n + j < 8" for j
    unfolding bit_drop_bit_eq comp_def by (rule bit_255)
  have len: "LENGTH(8) = 8" by simp
  have mask: "bit (NOT (drop_bit n (255 :: byte))) j \<longleftrightarrow> j < 8 \<and> 8 \<le> n + j" for j
    unfolding bit_not_iff possible_bit_word drop len by (simp only: not_less)
  have "x AND NOT (drop_bit n 255) = y AND NOT (drop_bit n 255)
      \<longleftrightarrow> (\<forall>j. possible_bit TYPE(byte) j \<longrightarrow>
              (bit x j \<and> j < 8 \<and> 8 \<le> n + j) = (bit y j \<and> j < 8 \<and> 8 \<le> n + j))"
    unfolding bit_eq_iff bit_and_iff mask by (rule refl)
  also have "\<dots> \<longleftrightarrow> (\<forall>j < 8. 8 \<le> n + j \<longrightarrow> bit x j = bit y j)"
    unfolding possible_bit_word len by auto
  also have "\<dots> \<longleftrightarrow> (\<forall>i < n. bit x (7 - i) = bit y (7 - i))"
  proof (rule iffI; intro allI impI)
    fix i assume all: "\<forall>j < 8. 8 \<le> n + j \<longrightarrow> bit x j = bit y j" and i: "i < n"
    have "7 - i < 8" and "8 \<le> n + (7 - i)" using i assms by auto
    then show "bit x (7 - i) = bit y (7 - i)" using all by blast
  next
    fix j assume all: "\<forall>i < n. bit x (7 - i) = bit y (7 - i)" and j: "j < 8" "8 \<le> n + j"
    then have "7 - j < n" and "7 - (7 - j) = j" by auto
    then show "bit x j = bit y j" using all by metis
  qed
  finally show ?thesis .
qed

lemma top_bit_Cons:
  "top_bit (x # xs) i = (if i < 8 then bit x (7 - i) else top_bit xs (i - 8))"
proof (cases "i < 8")
  case False
  then obtain j where "i = j + 8" by (metis le_add_diff_inverse2 linorder_not_less)
  moreover have "(j + 8) div 8 = Suc (j div 8)" by simp
  ultimately show ?thesis unfolding top_bit_def by simp
qed (simp add: top_bit_def)

lemma top_bit_Cons_eq:
  "top_bit (x # xs) i = top_bit (y # ys) i \<longleftrightarrow>
     (if i < 8 then bit x (7 - i) = bit y (7 - i) else top_bit xs (i - 8) = top_bit ys (i - 8))"
  by (simp add: top_bit_Cons)

lemma all_split8:
  "(\<forall>i < n. if i < 8 then P i else Q i) \<longleftrightarrow> (\<forall>i < min n 8. P i) \<and> (\<forall>i < n. 8 \<le> i \<longrightarrow> Q i)" for n :: nat
  by (metis min_less_iff_conj linorder_not_le)

lemma all_shift8: "(\<forall>i < n. 8 \<le> i \<longrightarrow> P (i - 8)) \<longleftrightarrow> (\<forall>i < n - 8. P i)" for n :: nat
proof (intro iffI allI impI)
  fix i assume "\<forall>i < n. 8 \<le> i \<longrightarrow> P (i - 8)" and "i < n - 8"
  then show "P i" by (auto dest!: spec [of _ "i + 8"])
qed auto

lemma and_cidr_mask_eq:
  assumes "length xs = k" and "length ys = k" and "n \<le> 8 * k"
  shows "and_bytes xs (cidr_mask n k) = and_bytes ys (cidr_mask n k) \<longleftrightarrow>
           (\<forall>i < n. top_bit xs i = top_bit ys i)"
  using assms
proof (induction n k arbitrary: xs ys rule: cidr_mask.induct)
  case (1 n)
  then show ?case by simp
next
  case (2 n k)
  obtain x xs' y ys' where xs: "xs = x # xs'" "length xs' = k" and ys: "ys = y # ys'" "length ys' = k"
    using "2.prems" by (metis length_Suc_conv)
  have shift: "(\<forall>i < n. top_bit xs i = top_bit ys i) \<longleftrightarrow>
      (\<forall>i < min n 8. bit x (7 - i) = bit y (7 - i)) \<and> (\<forall>i < n - 8. top_bit xs' i = top_bit ys' i)"
  proof -
    have "(\<forall>i < n. top_bit xs i = top_bit ys i) \<longleftrightarrow>
        (\<forall>i < min n 8. bit x (7 - i) = bit y (7 - i)) \<and>
        (\<forall>i < n. 8 \<le> i \<longrightarrow> top_bit xs' (i - 8) = top_bit ys' (i - 8))"
      unfolding xs ys top_bit_Cons_eq by (rule all_split8)
    then show ?thesis using all_shift8 [of n "\<lambda>i. top_bit xs' i = top_bit ys' i"] by simp
  qed
  show ?case
  proof (cases "8 \<le> n")
    case True
    have "drop_bit 8 (255 :: byte) = 0" by simp
    then have "x = y \<longleftrightarrow> (\<forall>i < 8. bit x (7 - i) = bit y (7 - i))"
      using byte_mask_eq [of 8 x y] by simp
    then show ?thesis
      using True "2.IH"(1) [OF True xs(2) ys(2)] "2.prems"(3) shift
      by (simp add: xs ys and_bytes_def)
  next
    case False
    then have "and_bytes xs' (cidr_mask 0 k) = and_bytes ys' (cidr_mask 0 k)"
      using "2.IH"(2) [OF False xs(2) ys(2)] by simp
    then show ?thesis
      using False shift byte_mask_eq [of n x y] by (simp add: xs ys and_bytes_def min_def)
  qed
qed

lemma length_v4InV6: "length (v4InV6Prefix @ q) = 12 + length q"
  by (simp add: v4InV6Prefix_def)

lemma TargetsAllow_single:
  "TargetsAllow [e] x port \<longleftrightarrow>
     (\<exists>r. parseTarget e = Some r \<and> Contains (network r) x \<and>
        (portHi r = -1 \<or> portLo r \<le> port \<and> port \<le> portHi r))"
  by (auto simp: TargetsAllow_iff)

section \<open>Properties\<close>

text \<open>
  An allow-list entry written a.b.c.d:port admits exactly that IPv4 host on exactly that port.
\<close>

theorem TargetsAllow_host_port:
  assumes "length q = 4" and "length y = 4" and "1 \<le> p" and "p \<le> 65535"
  shows "TargetsAllow [v4_string q @ '':'' @ Itoa p] (v4InV6Prefix @ y) port \<longleftrightarrow> y = q \<and> port = p"
proof -
  have "parseTarget (v4_string q @ '':'' @ Itoa p) = Some \<lparr>network = net4 q 32, portLo = p, portHi = p\<rparr>"
    using parseTarget_port [OF v4_string_nonempty, of q p] assms by (simp add: target_network_host4)
  moreover have "Contains (net4 q 32) (v4InV6Prefix @ y) \<longleftrightarrow> y = q"
    using assms by (subst Contains_host4) (auto simp: v4InV6Prefix_def To4_v4InV6 [unfolded v4InV6Prefix_def, simplified])
  ultimately show ?thesis using assms by (auto simp: TargetsAllow_single)
qed

theorem TargetsAllow_host_port_witness:
  "\<not> TargetsAllow [v4_string [10, 0, 0, 7] @ '':'' @ Itoa 22] (v4InV6Prefix @ [10, 0, 0, 8]) 22
   \<and> TargetsAllow [v4_string [10, 0, 0, 7] @ '':'' @ Itoa 22] (v4InV6Prefix @ [10, 0, 0, 7]) 22"
  using TargetsAllow_host_port [of "[10, 0, 0, 7]" "[10, 0, 0, 8]" 22 22]
    TargetsAllow_host_port [of "[10, 0, 0, 7]" "[10, 0, 0, 7]" 22 22] by simp

text \<open>
  C19: An allow-list entry written a.b.c.d/n:* admits exactly the IPv4 addresses whose leading \<open>n\<close>
  bits are those of a.b.c.d, on every port.
\<close>

theorem TargetsAllow_prefix:
  assumes "length q = 4" and "length y = 4" and "n \<le> 32"
  shows "TargetsAllow [v4_string q @ ''/'' @ nat_string n @ '':*''] (v4InV6Prefix @ y) port \<longleftrightarrow>
           (\<forall>i < n. top_bit y i = top_bit q i)"
proof -
  have "parseTarget ((v4_string q @ ''/'' @ nat_string n) @ '':*'')
      = Some \<lparr>network = net4 q n, portLo = 1, portHi = -1\<rparr>"
    using target_network_cidr4 [OF assms(1,3)] v4_string_nonempty [OF assms(1)]
    by (subst parseTarget_star) auto
  moreover have "Contains (net4 q n) (v4InV6Prefix @ y) \<longleftrightarrow> (\<forall>i < n. top_bit y i = top_bit q i)"
    using and_cidr_mask_eq [of y 4 q n] assms
    using Contains_net4 [of q "v4InV6Prefix @ y" n] length_v4InV6 [of y] by simp
  ultimately show ?thesis by (simp add: TargetsAllow_single)
qed

theorem TargetsAllow_prefix_witness:
  "TargetsAllow [v4_string [192, 168, 4, 0] @ ''/'' @ nat_string 22 @ '':*''] (v4InV6Prefix @ [192, 168, 6, 9]) 443
   \<longleftrightarrow> (\<forall>i < 22. top_bit [192, 168, 6, 9] i = top_bit [192, 168, 4, 0] i)"
  by (rule TargetsAllow_prefix) simp_all

text \<open>
  The allow-list fails closed: one entry that does not parse makes TargetsAllow deny every
  target, and otherwise a target is admitted exactly when some entry's network contains it and that
  entry's port range contains the port. An empty list denies everything.
\<close>

theorem TargetsAllow_fail_closed:
  "TargetsAllow entries x port \<longleftrightarrow>
     list_all (\<lambda>e. parseTarget e \<noteq> None) entries \<and>
     list_ex (\<lambda>e. case parseTarget e of
        None \<Rightarrow> False
      | Some r \<Rightarrow> Contains (network r) x \<and> (portHi r = -1 \<or> portLo r \<le> port \<and> port \<le> portHi r)) entries"
  by (auto simp: TargetsAllow_iff list_all_iff list_ex_iff split: option.splits)

text \<open>
  C20: A public-port entry lo-hi admits exactly the ports from \<open>lo\<close> to \<open>hi\<close>, and an entry p exactly
  the port \<open>p\<close>; a list of entries admits the union of what its entries admit.
\<close>

theorem portAllowed_ranges:
  assumes "\<And>lo hi. (lo, hi) \<in> set ranges \<Longrightarrow> 0 \<le> lo \<and> lo < 2 ^ 63 \<and> 0 \<le> hi \<and> hi < 2 ^ 63"
    and "\<And>p. p \<in> set single \<Longrightarrow> 0 \<le> p \<and> p < 2 ^ 63"
  shows "portAllowed (map (\<lambda>(lo, hi). Itoa lo @ ''-'' @ Itoa hi) ranges @ map Itoa single) port \<longleftrightarrow>
           (\<exists>(lo, hi) \<in> set ranges. lo \<le> port \<and> port \<le> hi) \<or> port \<in> set single"
proof -
  have dash: "CHR ''-'' \<notin> set (Itoa i) \<and> Itoa i \<noteq> ''*'' \<and> CHR ''*'' \<notin> set (Itoa i)" if "0 \<le> i" for i
    using Itoa_nonneg_digits [OF that] digits_no_char [of "Itoa i"] by (auto simp: is_digit_def code_def)
  have one: "port_entry port (Itoa p) \<longleftrightarrow> port = p" if "p \<in> set single" for p
    using assms(2) [OF that] dash [of p] by (auto simp: port_entry_def Atoi_Itoa)
  have range: "port_entry port (Itoa lo @ ''-'' @ Itoa hi) \<longleftrightarrow> lo \<le> port \<and> port \<le> hi"
    if "(lo, hi) \<in> set ranges" for lo hi
  proof -
    have "Itoa lo @ ''-'' @ Itoa hi \<noteq> ''*''" by (auto simp: append_eq_Cons_conv)
    then show ?thesis
      using assms(1) [OF that] dash [of lo] cut_append [of "CHR ''-''" "Itoa lo" "Itoa hi"]
      by (simp add: port_entry_def Atoi_Itoa)
  qed
  show ?thesis
    unfolding portAllowed_def list_ex_append list_ex_iff set_map
    using one range by (fastforce split: prod.splits)
qed

theorem portAllowed_ranges_witness:
  "portAllowed [Itoa 20000 @ ''-'' @ Itoa 20100, Itoa 443] 20050 \<and>
   \<not> portAllowed [Itoa 20000 @ ''-'' @ Itoa 20100, Itoa 443] 20101"
  using portAllowed_ranges [of "[(20000, 20100)]" "[443]" 20050]
    portAllowed_ranges [of "[(20000, 20100)]" "[443]" 20101] by simp

text \<open>
  The policy validator and the enforcement disagree on an entry: protocol.ValidatePolicy accepts
  the port specification 80x (Sscanf stops at the first non-digit), ParseTargets rejects it, so
  a policy with such an entry passes validation and then denies every target, also those its other
  entries name.
\<close>

theorem validTarget_accepts_unenforceable:
  "validTarget ''10.0.0.0/8:80x'' \<and>
   (\<forall>entries x port. ''10.0.0.0/8:80x'' \<in> set entries \<longrightarrow> \<not> TargetsAllow entries x port)"
proof
  show "validTarget ''10.0.0.0/8:80x''" by code_simp
  have "parseTarget ''10.0.0.0/8:80x'' = None" by code_simp
  then show "\<forall>entries x port. ''10.0.0.0/8:80x'' \<in> set entries \<longrightarrow> \<not> TargetsAllow entries x port"
    by (auto simp: TargetsAllow_iff)
qed

theorem validTarget_accepts_unenforceable_witness:
  "\<not> TargetsAllow [''127.0.0.1:22'', ''10.0.0.0/8:80x''] (v4InV6Prefix @ [127, 0, 0, 1]) 22"
  using validTarget_accepts_unenforceable by simp

end
