(* ===== verification/Security.thy ===== *)
theory Security
  imports Complex_Main Prelude
begin

text \<open>
  \<^verbatim>\<open>internal/security\<close>: the non-blocking \<^verbatim>\<open>Semaphore\<close> (quota.go), the per-source-IP gate (ipgate.go), the
  bandwidth buckets and the rate-limited connection (limiter.go), the start-up guard (guard.go), and
  the control plane's \<^verbatim>\<open>halfOpenTracker\<close> (control/server.go).

  What they share is a contract: a slot is granted only below the cap and given back by a release. The
  locale \<open>quota\<close> states it and proves that the number of slots held outside is the counter and never
  exceeds the cap; the semaphore, the half-open tracker and the gate discharge its laws.
  \<^verbatim>\<open>golang.org/x/time/rate\<close> enters as the record \<open>rate_lib\<close> of functions.
\<close>

section \<open>Semaphore (quota.go)\<close>

record Semaphore =
  limit :: int
  active :: int

definition NewSemaphore :: "int \<Rightarrow> Semaphore" where
  "NewSemaphore n = \<lparr>limit = n, active = 0\<rparr>"

text \<open>A nil semaphore is \<^const>\<open>None\<close>.\<close>

fun TryAcquire :: "Semaphore option \<Rightarrow> Semaphore option \<times> bool" where
  "TryAcquire None = (None, True)"
| "TryAcquire (Some s) =
     (if limit s \<le> 0 then (Some s, True)
      else if limit s \<le> active s then (Some s, False)
      else (Some (s\<lparr>active := active s + 1\<rparr>), True))"

fun sem_Release :: "Semaphore option \<Rightarrow> Semaphore option" where
  "sem_Release None = None"
| "sem_Release (Some s) =
     (if limit s \<le> 0 then Some s
      else if 0 < active s then Some (s\<lparr>active := active s - 1\<rparr>)
      else Some s)"

fun sem_Active :: "Semaphore option \<Rightarrow> int" where
  "sem_Active None = 0"
| "sem_Active (Some s) = active s"

fun sem_Limit :: "Semaphore option \<Rightarrow> int" where
  "sem_Limit None = 0"
| "sem_Limit (Some s) = limit s"

section \<open>Counters per key\<close>

text \<open>Reading an absent key of a Go \<^verbatim>\<open>map[string]int\<close> gives zero.\<close>

definition mint :: "('k, int) gomap \<Rightarrow> 'k \<Rightarrow> int" where
  "mint m k = (case mget m k of None \<Rightarrow> 0 | Some n \<Rightarrow> n)"

lemma mint_mput [simp]: "mint (mput k v m) k' = (if k' = k then v else mint m k')"
  by (simp add: mint_def)

lemma mint_mdel [simp]: "mint (mdel k m) k' = (if k' = k then 0 else mint m k')"
  by (simp add: mint_def)

lemma mint_Nil [simp]: "mint [] k = 0"
  by (simp add: mint_def)

section \<open>Per-IP gate (ipgate.go)\<close>

text \<open>
  A limiter of \<^verbatim>\<open>x/time/rate\<close> with state \<open>'l\<close>: its constructor and its \<^verbatim>\<open>Allow\<close> at an instant.
\<close>

record 'l rate_lib =
  rl_new :: "rat \<Rightarrow> int \<Rightarrow> 'l"
  rl_allow :: "instant \<Rightarrow> 'l \<Rightarrow> 'l \<times> bool"

record 'l IPGate =
  gate_conns :: "(string, int) gomap"
  rates :: "(string, 'l) gomap"
  maxPerIP :: int
  rateBPS :: rat
  burst :: int

definition NewIPGate :: "int \<Rightarrow> rat \<Rightarrow> 'l IPGate" where
  "NewIPGate maxConnsPerIP connRatePerSec =
     (let g = \<lparr>gate_conns = [], rates = [], maxPerIP = maxConnsPerIP, rateBPS = 0, burst = 0\<rparr>
      in if 0 < connRatePerSec
         then let b = wrap64 (\<lfloor>connRatePerSec\<rfloor> * 2)
              in g\<lparr>rateBPS := connRatePerSec, burst := (if b < 8 then 8 else b)\<rparr>
         else g)"

definition gate_rate :: "'l rate_lib \<Rightarrow> instant \<Rightarrow> string \<Rightarrow> 'l IPGate \<Rightarrow> 'l IPGate \<times> bool" where
  "gate_rate L now ip g =
     (if 0 < rateBPS g
      then let l = (case mget (rates g) ip of None \<Rightarrow> rl_new L (rateBPS g) (burst g) | Some l \<Rightarrow> l);
               (l', ok) = rl_allow L now l
           in (g\<lparr>rates := mput ip l' (rates g)\<rparr>, ok)
      else (g, True))"

definition Allow :: "'l rate_lib \<Rightarrow> string \<Rightarrow> instant \<Rightarrow> 'l IPGate \<Rightarrow> 'l IPGate \<times> bool" where
  "Allow L ip now g =
     (let (g1, ok) = gate_rate L now ip g
      in if \<not> ok then (g1, False)
         else if 0 < maxPerIP g1 \<and> maxPerIP g1 \<le> mint (gate_conns g1) ip then (g1, False)
         else (g1\<lparr>gate_conns := mput ip (mint (gate_conns g1) ip + 1) (gate_conns g1)\<rparr>, True))"

definition gate_Release :: "string \<Rightarrow> 'l IPGate \<Rightarrow> 'l IPGate" where
  "gate_Release ip g =
     (if 0 < mint (gate_conns g) ip
      then let n = mint (gate_conns g) ip - 1
           in g\<lparr>gate_conns := (if n = 0 then mdel ip (gate_conns g) else mput ip n (gate_conns g))\<rparr>
      else g)"

definition gate_Active :: "string \<Rightarrow> 'l IPGate \<Rightarrow> int" where
  "gate_Active ip g = mint (gate_conns g) ip"

section \<open>Half-open tracker (control/server.go)\<close>

type_synonym halfOpenTracker = "(string, int) gomap"

definition newHalfOpen :: halfOpenTracker where
  "newHalfOpen = []"

definition tryAcquire :: "string \<Rightarrow> int \<Rightarrow> halfOpenTracker \<Rightarrow> halfOpenTracker \<times> bool" where
  "tryAcquire ip mx h =
     (if mx \<le> mint h ip then (h, False) else (mput ip (mint h ip + 1) h, True))"

definition release :: "string \<Rightarrow> halfOpenTracker \<Rightarrow> halfOpenTracker" where
  "release ip h = (if mint h ip \<le> 1 then mdel ip h else mput ip (mint h ip - 1) h)"

section \<open>Bandwidth (limiter.go)\<close>

text \<open>
  Buckets are shared between connections, so they live in a heap by address. \<open>lim\<close> is the pair of rate
  and burst given to \<^verbatim>\<open>rate.NewLimiter\<close>, \<open>ctx\<close> the context the waits use; a context is a number, and
  \<open>cancelled\<close> lists those that were cancelled.
\<close>

record TokenBucket =
  lim :: "(int \<times> int) option"
  ctx :: nat

record bandwidth =
  buckets :: "(nat, TokenBucket) gomap"
  cancelled :: "nat list"
  next_ctx :: nat

record RateLimitedConn =
  inner :: nat
  conn_buckets :: "nat list"
  cancel :: nat

datatype wait_error = ContextCancelled | ExceedsBurst

definition NewTokenBucket :: "int \<Rightarrow> bandwidth \<Rightarrow> TokenBucket \<times> bandwidth" where
  "NewTokenBucket bps w =
     (if bps \<le> 0 then (\<lparr>lim = None, ctx = 0\<rparr>, w)
      else let b = bps div 10; b' = (if b < 32 * 1024 then 32 * 1024 else b)
           in (\<lparr>lim = Some (bps, b'), ctx = next_ctx w\<rparr>, w\<lparr>next_ctx := Suc (next_ctx w)\<rparr>))"

text \<open>
  \<^verbatim>\<open>WaitN\<close>: the limiter fails at once on a cancelled context and on a request above the burst, and
  otherwise grants the tokens after some delay.
\<close>

definition WaitN :: "bandwidth \<Rightarrow> nat option \<Rightarrow> int \<Rightarrow> wait_error option" where
  "WaitN w b n =
     (case Option.bind b (mget (buckets w)) of
        None \<Rightarrow> None
      | Some tb \<Rightarrow>
          (case lim tb of
             None \<Rightarrow> None
           | Some (_, bst) \<Rightarrow>
               if bst < n then Some ExceedsBurst
               else if ctx tb \<in> set (cancelled w) then Some ContextCancelled
               else None))"

definition limited :: "bandwidth \<Rightarrow> nat option \<Rightarrow> bool" where
  "limited w b = (case Option.bind b (mget (buckets w)) of None \<Rightarrow> False | Some tb \<Rightarrow> lim tb \<noteq> None)"

definition set_ctx :: "nat \<Rightarrow> nat \<Rightarrow> bandwidth \<Rightarrow> bandwidth" where
  "set_ctx c a w =
     (case mget (buckets w) a of
        None \<Rightarrow> w
      | Some tb \<Rightarrow> w\<lparr>buckets := mput a (tb\<lparr>ctx := c\<rparr>) (buckets w)\<rparr>)"

definition NewRateLimitedConn ::
  "nat \<Rightarrow> nat option list \<Rightarrow> bandwidth \<Rightarrow> RateLimitedConn option \<times> bandwidth" where
  "NewRateLimitedConn c bs w =
     (let act = map the (filter (limited w) bs)
      in if act = [] then (None, w)
         else let cx = next_ctx w
              in (Some \<lparr>inner = c, conn_buckets = act, cancel = cx\<rparr>,
                  fold (set_ctx cx) act (w\<lparr>next_ctx := Suc cx\<rparr>)))"

fun wait_all :: "bandwidth \<Rightarrow> nat list \<Rightarrow> int \<Rightarrow> wait_error option" where
  "wait_all w [] n = None"
| "wait_all w (b # bs) n =
     (case WaitN w (Some b) n of Some e \<Rightarrow> Some e | None \<Rightarrow> wait_all w bs n)"

text \<open>
  \<open>Read\<close> and \<open>Write\<close> give the number of bytes and the limiter's error; \<open>n\<close> is what the inner connection
  reads or writes.
\<close>

definition rl_Read :: "bandwidth \<Rightarrow> RateLimitedConn \<Rightarrow> int \<Rightarrow> int \<times> wait_error option" where
  "rl_Read w c n = (n, if 0 < n then wait_all w (conn_buckets c) n else None)"

definition rl_Write :: "bandwidth \<Rightarrow> RateLimitedConn \<Rightarrow> int \<Rightarrow> int \<times> wait_error option" where
  "rl_Write w c n =
     (case wait_all w (conn_buckets c) n of Some e \<Rightarrow> (0, Some e) | None \<Rightarrow> (n, None))"

definition rl_Close :: "RateLimitedConn \<Rightarrow> bandwidth \<Rightarrow> bandwidth" where
  "rl_Close c w = w\<lparr>cancelled := List.insert (cancel c) (cancelled w)\<rparr>"

section \<open>Start-up guard (guard.go)\<close>

record FDCheck =
  Current :: "64 word"
  Recommended :: "64 word"
  BelowLimit :: bool
  Unsupported :: bool

text \<open>The probe of the Unix build; \<open>rl\<close> is the soft limit, \<^const>\<open>None\<close> when it cannot be read.\<close>

definition platformCheckFDLimit :: "64 word option \<Rightarrow> 64 word \<Rightarrow> FDCheck" where
  "platformCheckFDLimit rl estimated =
     (case rl of
        None \<Rightarrow> \<lparr>Current = 0, Recommended = estimated, BelowLimit = False, Unsupported = True\<rparr>
      | Some cur \<Rightarrow> \<lparr>Current = cur, Recommended = estimated, BelowLimit = (cur < estimated), Unsupported = False\<rparr>)"

definition EstimatedFDLimit :: "int \<Rightarrow> int \<Rightarrow> int \<Rightarrow> 64 word" where
  "EstimatedFDLimit maxConnsPerClient maxConnsPerTunnel maxClients =
     (let est = 16;
          est = (if 0 < maxClients then est + of_int maxClients * of_int maxConnsPerClient * 2 else est)
      in est + 256)"

section \<open>The quota contract\<close>

text \<open>
  A client of a quota acquires and releases; \<open>'e\<close> is what an acquisition depends on besides the state
  (the clock, for the gate). \<open>quota_run\<close> counts the slots the client holds and is defined only for a
  client that releases no slot it does not hold.
\<close>

datatype 'e quota_op = Acquire 'e | Give

fun quota_run ::
  "('e \<Rightarrow> 's \<Rightarrow> 's \<times> bool) \<Rightarrow> ('s \<Rightarrow> 's) \<Rightarrow> 'e quota_op list \<Rightarrow> 's \<times> nat \<Rightarrow> ('s \<times> nat) option" where
  "quota_run acq rel [] (s, n) = Some (s, n)"
| "quota_run acq rel (Acquire e # ops) (s, n) =
     (let (s', ok) = acq e s in quota_run acq rel ops (s', if ok then Suc n else n))"
| "quota_run acq rel (Give # ops) (s, n) =
     (if n = 0 then None else quota_run acq rel ops (rel s, n - 1))"

locale quota =
  fixes acquire :: "'e \<Rightarrow> 's \<Rightarrow> 's \<times> bool"
    and give :: "'s \<Rightarrow> 's"
    and held :: "'s \<Rightarrow> nat"
    and invar :: "'s \<Rightarrow> bool"
    and cap :: nat
  assumes granted: "invar s \<Longrightarrow> acquire e s = (s', True) \<Longrightarrow> invar s' \<and> held s < cap \<and> held s' = Suc (held s)"
    and denied: "invar s \<Longrightarrow> acquire e s = (s', False) \<Longrightarrow> invar s' \<and> held s' = held s"
    and given: "invar s \<Longrightarrow> invar (give s) \<and> held (give s) = held s - 1"
begin

lemma step:
  "invar s \<Longrightarrow> held s \<le> cap \<Longrightarrow> acquire e s = (s', ok) \<Longrightarrow>
     invar s' \<and> held s' = (if ok then Suc (held s) else held s) \<and> held s' \<le> cap"
  by (cases ok) (auto dest: granted denied)

theorem run_counts:
  "quota_run acquire give ops (s, held s) = Some (s', n) \<Longrightarrow> invar s \<Longrightarrow> held s \<le> cap \<Longrightarrow>
     invar s' \<and> held s' = n \<and> n \<le> cap"
proof (induction ops arbitrary: s)
  case (Cons op ops)
  show ?case
  proof (cases op)
    case (Acquire e)
    obtain t ok where acq: "acquire e s = (t, ok)" by fastforce
    note step [OF Cons.prems(2,3) acq]
    then show ?thesis using Cons.prems Cons.IH [of t] by (simp add: Acquire acq)
  next
    case Give
    then show ?thesis
      using Cons.prems Cons.IH [of "give s"] given [OF Cons.prems(2)] by (auto split: if_splits)
  qed
qed simp

end

text \<open>A quota that refuses only at its cap.\<close>

locale exact_quota = quota +
  assumes admits: "invar s \<Longrightarrow> held s < cap \<Longrightarrow> snd (acquire e s)"
begin

lemma decision: "invar s \<Longrightarrow> snd (acquire e s) \<longleftrightarrow> held s < cap"
  using admits [of s e] granted [of s e] by (cases "acquire e s") auto

theorem run_decides:
  "quota_run acquire give ops (s, held s) = Some (s', n) \<Longrightarrow> invar s \<Longrightarrow> held s \<le> cap \<Longrightarrow>
     snd (acquire e s') \<longleftrightarrow> n < cap"
  using run_counts [of ops s s' n] decision [of s' e] by simp

end

section \<open>The three quotas\<close>

definition sem_invar :: "int \<Rightarrow> Semaphore option \<Rightarrow> bool" where
  "sem_invar lm s \<longleftrightarrow> (\<exists>t. s = Some t \<and> limit t = lm \<and> 0 < lm \<and> 0 \<le> active t)"

interpretation sem: exact_quota "\<lambda>_ :: unit. TryAcquire" sem_Release "\<lambda>s. nat (sem_Active s)" "sem_invar lm" "nat lm"
  for lm
  by unfold_locales (auto simp: sem_invar_def split: if_splits)

definition half_invar :: "string \<Rightarrow> int \<Rightarrow> halfOpenTracker \<Rightarrow> bool" where
  "half_invar ip mx h \<longleftrightarrow> 0 < mx \<and> 0 \<le> mint h ip"

interpretation half: exact_quota "\<lambda>_ :: unit. tryAcquire ip mx" "release ip" "\<lambda>h. nat (mint h ip)"
    "half_invar ip mx" "nat mx"
  for ip mx
  by unfold_locales (auto simp: half_invar_def tryAcquire_def release_def split: if_splits)

definition gate_invar :: "string \<Rightarrow> int \<Rightarrow> 'l IPGate \<Rightarrow> bool" where
  "gate_invar ip mx g \<longleftrightarrow> 0 < mx \<and> maxPerIP g = mx \<and> 0 \<le> gate_Active ip g"

lemma gate_rate_frame:
  "gate_rate L now ip g = (g', ok) \<Longrightarrow> gate_conns g' = gate_conns g \<and> maxPerIP g' = maxPerIP g"
  by (auto simp: gate_rate_def Let_def split: if_splits prod.splits)

interpretation gate: quota "Allow L ip" "gate_Release ip" "\<lambda>g. nat (gate_Active ip g)" "gate_invar ip mx" "nat mx"
  for L ip mx
  by unfold_locales
    (auto simp: gate_invar_def gate_Active_def Allow_def gate_Release_def Let_def
      split: if_splits prod.splits dest!: gate_rate_frame)

section \<open>Lemmas on the buckets\<close>

lemma NewTokenBucket_burst:
  "NewTokenBucket bps w = (tb, w') \<Longrightarrow>
     (lim tb = None \<longleftrightarrow> bps \<le> 0) \<and> (\<forall>r b. lim tb = Some (r, b) \<longrightarrow> r = bps \<and> 32768 \<le> b)"
  by (auto simp: NewTokenBucket_def Let_def split: if_splits)

lemma set_ctx_simps [simp]:
  "next_ctx (set_ctx c a w) = next_ctx w" "cancelled (set_ctx c a w) = cancelled w"
  by (auto simp: set_ctx_def split: option.splits)

lemma fold_set_ctx_simps [simp]:
  "next_ctx (fold (set_ctx c) as w) = next_ctx w" "cancelled (fold (set_ctx c) as w) = cancelled w"
  by (induction as arbitrary: w) auto

lemma set_ctx_get:
  "mget (buckets (set_ctx c a w)) a' =
     (if a' = a then map_option (\<lambda>tb. tb\<lparr>ctx := c\<rparr>) (mget (buckets w) a) else mget (buckets w) a')"
  by (auto simp: set_ctx_def split: option.splits)

lemma fold_set_ctx_get:
  "mget (buckets (fold (set_ctx c) as w)) a =
     (if a \<in> set as then map_option (\<lambda>tb. tb\<lparr>ctx := c\<rparr>) (mget (buckets w) a) else mget (buckets w) a)"
proof (induction as arbitrary: w)
  case (Cons x as)
  show ?case by (cases "mget (buckets w) a") (auto simp: Cons.IH set_ctx_get)
qed simp

lemma NewRateLimitedConn_Some:
  assumes "NewRateLimitedConn c bs w = (Some rc, w')"
  shows "conn_buckets rc = map the (filter (limited w) bs) \<and> conn_buckets rc \<noteq> [] \<and> cancel rc = next_ctx w \<and>
     inner rc = c \<and> w' = fold (set_ctx (next_ctx w)) (conn_buckets rc) (w\<lparr>next_ctx := Suc (next_ctx w)\<rparr>)"
  using assms by (auto simp: NewRateLimitedConn_def Let_def split: if_splits)

section \<open>Properties\<close>

text \<open>
  A semaphore never has more slots out than its limit, its counter is exactly the number of slots
  held, and it refuses a request exactly when all slots are out.
\<close>

theorem Semaphore_exact:
  assumes "0 < lm"
    and "quota_run (\<lambda>_ :: unit. TryAcquire) sem_Release ops (Some (NewSemaphore lm), 0) = Some (s, n)"
  shows "int n \<le> lm \<and> sem_Active s = int n \<and> (snd (TryAcquire s) \<longleftrightarrow> int n < lm)"
proof -
  have init: "sem_invar lm (Some (NewSemaphore lm))" "nat (sem_Active (Some (NewSemaphore lm))) = 0"
    using assms(1) by (auto simp: sem_invar_def NewSemaphore_def)
  have run: "sem_invar lm s \<and> nat (sem_Active s) = n \<and> n \<le> nat lm"
    using sem.run_counts [of ops "Some (NewSemaphore lm)" s n lm] assms(2) init by simp
  moreover have "snd (TryAcquire s) \<longleftrightarrow> n < nat lm"
    using sem.run_decides [of ops "Some (NewSemaphore lm)" s n lm] assms(2) init by simp
  ultimately show ?thesis by (auto simp: sem_invar_def)
qed

theorem Semaphore_exact_witness:
  "\<exists>s. quota_run (\<lambda>_ :: unit. TryAcquire) sem_Release [Acquire (), Acquire (), Acquire (), Give, Acquire ()]
     (Some (NewSemaphore 2), 0) = Some (s, 2) \<and> \<not> snd (TryAcquire s)"
proof -
  let ?s = "Some \<lparr>limit = 2, active = 2\<rparr>"
  have "quota_run (\<lambda>_ :: unit. TryAcquire) sem_Release [Acquire (), Acquire (), Acquire (), Give, Acquire ()]
     (Some (NewSemaphore 2), 0) = Some (?s, 2)" by (simp add: NewSemaphore_def)
  with Semaphore_exact [OF _ this] show ?thesis by (intro exI [of _ ?s]) simp
qed

text \<open>
  The half-open tracker of the control plane admits at most the configured number of simultaneous
  hello exchanges per source address, and refuses exactly when that many are in progress.
\<close>

theorem halfOpen_exact:
  assumes "0 < mx"
    and "quota_run (\<lambda>_ :: unit. tryAcquire ip mx) (release ip) ops (newHalfOpen, 0) = Some (h, n)"
  shows "int n \<le> mx \<and> mint h ip = int n \<and> (snd (tryAcquire ip mx h) \<longleftrightarrow> int n < mx)"
proof -
  have init: "half_invar ip mx newHalfOpen" "nat (mint newHalfOpen ip) = 0"
    using assms(1) by (auto simp: half_invar_def newHalfOpen_def)
  have "half_invar ip mx h \<and> nat (mint h ip) = n \<and> n \<le> nat mx"
    using half.run_counts [of ip mx ops newHalfOpen h n] assms(2) init by simp
  moreover have "snd (tryAcquire ip mx h) \<longleftrightarrow> n < nat mx"
    using half.run_decides [of ip mx ops newHalfOpen h n] assms(2) init by simp
  ultimately show ?thesis by (auto simp: half_invar_def)
qed

theorem halfOpen_exact_witness:
  "\<not> snd (tryAcquire ''192.0.2.1'' 2 [(''192.0.2.1'', 2)])"
proof -
  have "quota_run (\<lambda>_ :: unit. tryAcquire ''192.0.2.1'' 2) (release ''192.0.2.1'') [Acquire (), Acquire (), Give, Acquire ()]
     (newHalfOpen, 0) = Some ([(''192.0.2.1'', 2)], 2)"
    by (simp add: newHalfOpen_def tryAcquire_def release_def mint_def)
  from halfOpen_exact [OF _ this] show ?thesis by simp
qed

text \<open>
  Whatever the rate limiter decides, the gate in front of the public listeners never has more
  connections of one source address out than its cap, and its counter is the number of connections
  that were admitted and not yet released.
\<close>

theorem IPGate_cap:
  fixes L :: "'l rate_lib"
  assumes "0 < mx"
    and "quota_run (Allow L ip) (gate_Release ip) ops (NewIPGate mx r, 0) = Some (g, n)"
  shows "int n \<le> mx \<and> gate_Active ip g = int n"
proof -
  have "gate_invar ip mx (NewIPGate mx r :: 'l IPGate)" "gate_Active ip (NewIPGate mx r :: 'l IPGate) = 0"
    using assms(1) by (auto simp: gate_invar_def NewIPGate_def gate_Active_def Let_def)
  then have "gate_invar ip mx g \<and> nat (gate_Active ip g) = n \<and> n \<le> nat mx"
    using gate.run_counts [of L ip ops "NewIPGate mx r" g n mx] assms(2) by simp
  then show ?thesis by (auto simp: gate_invar_def)
qed

text \<open>A limiter that grants a fixed number of events.\<close>

definition counting_limiter :: "int rate_lib" where
  "counting_limiter = \<lparr>rl_new = (\<lambda>r b. b), rl_allow = (\<lambda>now l. if 0 < l then (l - 1, True) else (l, False))\<rparr>"

theorem IPGate_cap_witness:
  "\<exists>g. quota_run (Allow counting_limiter ''192.0.2.1'') (gate_Release ''192.0.2.1'') [Acquire 0, Acquire 1, Acquire 2]
     (NewIPGate 2 20, 0) = Some (g, 2) \<and> gate_Active ''192.0.2.1'' g = 2"
proof -
  let ?g = "\<lparr>gate_conns = [(''192.0.2.1'', 2)], rates = [(''192.0.2.1'', 37)], maxPerIP = 2, rateBPS = 20, burst = 40\<rparr>"
  have "quota_run (Allow counting_limiter ''192.0.2.1'') (gate_Release ''192.0.2.1'') [Acquire 0, Acquire 1, Acquire 2]
     (NewIPGate 2 20, 0) = Some (?g, 2)"
    by (simp add: NewIPGate_def Allow_def gate_rate_def counting_limiter_def mint_def Let_def)
  with IPGate_cap [OF _ this] show ?thesis by (intro exI [of _ ?g]) simp
qed

text \<open>
  A bandwidth bucket never refuses an I/O chunk of at most 32 KiB for its size: as long as the
  context of its waits is not cancelled, a wait for such a chunk succeeds; a bucket for zero or
  negative bandwidth limits nothing.
\<close>

theorem TokenBucket_chunk:
  assumes "NewTokenBucket bps w = (tb, w')" and "n \<le> 32 * 1024"
    and "mget (buckets v) a = Some (tb\<lparr>ctx := c\<rparr>)" and "c \<notin> set (cancelled v)"
  shows "WaitN v (Some a) n = None"
  using assms NewTokenBucket_burst [OF assms(1)] by (auto simp: WaitN_def split: option.splits)

theorem TokenBucket_chunk_witness:
  "WaitN \<lparr>buckets = [(0, \<lparr>lim = Some (8000, 32768), ctx = 3\<rparr>)], cancelled = [1], next_ctx = 4\<rparr> (Some 0) 32768 = None"
  using TokenBucket_chunk [of 8000 "\<lparr>buckets = [], cancelled = [], next_ctx = 0\<rparr>" "\<lparr>lim = Some (8000, 32768), ctx = 0\<rparr>"
      "\<lparr>buckets = [], cancelled = [], next_ctx = 1\<rparr>" 32768
      "\<lparr>buckets = [(0, \<lparr>lim = Some (8000, 32768), ctx = 3\<rparr>)], cancelled = [1], next_ctx = 4\<rparr>" 0 3]
  by (simp add: NewTokenBucket_def)

text \<open>
  A bucket that two connections share keeps one wait context, the one of the connection wrapped
  last: closing that connection makes every later write of the other, still open, connection fail.
\<close>

theorem shared_bucket_cancelled:
  assumes "NewRateLimitedConn c1 [Some a] w = (Some conn1, w1)"
    and "NewRateLimitedConn c2 [Some a] w1 = (Some conn2, w2)"
    and "w3 = rl_Close conn2 w2"
  shows "\<exists>e. rl_Write w3 conn1 n = (0, Some e)"
proof -
  note 1 = NewRateLimitedConn_Some [OF assms(1)] and 2 = NewRateLimitedConn_Some [OF assms(2)]
  from 1 have b1: "conn_buckets conn1 = [a]" by (auto split: if_splits)
  from 2 have b2: "conn_buckets conn2 = [a]" and l2: "limited w1 (Some a)" by (auto split: if_splits)
  from l2 obtain tb where tb: "mget (buckets w1) a = Some tb" "lim tb \<noteq> None"
    by (auto simp: limited_def split: option.splits)
  have "mget (buckets w3) a = Some (tb\<lparr>ctx := cancel conn2\<rparr>)" and "cancel conn2 \<in> set (cancelled w3)"
    using 2 tb assms(3) by (auto simp: b2 set_ctx_get rl_Close_def)
  then show ?thesis using tb by (auto simp: rl_Write_def b1 WaitN_def)
qed

theorem shared_bucket_cancelled_witness:
  "\<exists>e. rl_Write \<lparr>buckets = [(0, \<lparr>lim = Some (8000, 32768), ctx = 2\<rparr>)], cancelled = [2], next_ctx = 3\<rparr>
     \<lparr>inner = 10, conn_buckets = [0], cancel = 1\<rparr> 100 = (0, Some e)"
proof -
  let ?w = "\<lparr>buckets = [(0, \<lparr>lim = Some (8000, 32768), ctx = 0\<rparr>)], cancelled = [], next_ctx = 1\<rparr>"
  have 1: "NewRateLimitedConn 10 [Some 0] ?w = (Some \<lparr>inner = 10, conn_buckets = [0], cancel = 1\<rparr>,
      \<lparr>buckets = [(0, \<lparr>lim = Some (8000, 32768), ctx = 1\<rparr>)], cancelled = [], next_ctx = 2\<rparr>)"
    by (simp add: NewRateLimitedConn_def limited_def set_ctx_def)
  have 2: "NewRateLimitedConn 11 [Some 0] \<lparr>buckets = [(0, \<lparr>lim = Some (8000, 32768), ctx = 1\<rparr>)], cancelled = [], next_ctx = 2\<rparr>
      = (Some \<lparr>inner = 11, conn_buckets = [0], cancel = 2\<rparr>,
      \<lparr>buckets = [(0, \<lparr>lim = Some (8000, 32768), ctx = 2\<rparr>)], cancelled = [], next_ctx = 3\<rparr>)"
    by (simp add: NewRateLimitedConn_def limited_def set_ctx_def)
  show ?thesis by (rule shared_bucket_cancelled [OF 1 2]) (simp add: rl_Close_def)
qed

end
