(* ===== verification/Udp.thy ===== *)
theory Udp
  imports Protocol Security
begin

text \<open>
  \<^verbatim>\<open>internal/tunnel/udp_frame.go\<close> and \<^verbatim>\<open>udp_server.go\<close>: the frames of the UDP data channel and the
  per-tunnel session table that maps a public peer to a session id, with eviction of the least
  recently used session and expiry of idle ones; and the datagram paths of \<^verbatim>\<open>tunnel/server.go\<close>
  (\<^verbatim>\<open>HandleUDPPacket\<close>, \<^verbatim>\<open>udpChannelReadLoop\<close>).

  A peer is the string that keys it (\<^verbatim>\<open>net.UDPAddr.String\<close>). The two maps of the code share session
  objects; the model keeps the object in both and updates both. The bytes of a fresh session id are an
  argument, \<^const>\<open>None\<close> when the operating system gave none.
\<close>

section \<open>Frames (udp_frame.go)\<close>

abbreviation udpMaxPacket :: int where
  "udpMaxPacket \<equiv> 65507"

abbreviation sessionIDLen :: nat where
  "sessionIDLen \<equiv> 16"

datatype udp_error =
    PayloadTooLarge int
  | BadSessionID nat
  | InvalidUDPFrame nat
  | UDPRead frame_error

definition NewSessionID :: "bytes option \<Rightarrow> bytes option" where
  "NewSessionID rnd = rnd"

definition udpFrame :: "bytes \<Rightarrow> bytes \<Rightarrow> udp_error + bytes" where
  "udpFrame sid payload =
     (if udpMaxPacket < int (length payload) then Inl (PayloadTooLarge (int (length payload)))
      else if length sid \<noteq> sessionIDLen then Inl (BadSessionID (length sid))
      else Inr (put_be32 (sessionIDLen + length payload) @ sid @ payload))"

definition readUDPFrame :: "int \<Rightarrow> bytes \<Rightarrow> udp_error + ((bytes \<times> bytes) \<times> bytes)" where
  "readUDPFrame maxPkt s =
     (case read_full 4 s of
        Inl e \<Rightarrow> Inl (UDPRead e)
      | Inr (hdr, s1) \<Rightarrow>
          (let sz = get_be32 hdr
           in if sz < sessionIDLen \<or> int sessionIDLen + maxPkt < int sz then Inl (InvalidUDPFrame sz)
              else case read_full sz s1 of
                     Inl e \<Rightarrow> Inl (UDPRead e)
                   | Inr (body, s2) \<Rightarrow> Inr ((take sessionIDLen body, drop sessionIDLen body), s2)))"

section \<open>Session table (udp_server.go)\<close>

record udpSession =
  us_id :: bytes
  us_peer :: string
  us_lastActive :: instant

record 'l udpServerState =
  byPeer :: "(string, udpSession) gomap"
  byID :: "(string, udpSession) gomap"
  order :: "string list"
  maxSessions :: int
  maxPacket :: int
  sessionIdle :: duration
  udp_rates :: "(string, 'l) gomap"

definition hexID :: "bytes \<Rightarrow> string" where
  "hexID i = hex_encode i"

text \<open>\<open>ListenErrs\<close> says of each of the five attempts whether binding the port fails.\<close>

definition listenUDPWithRetry :: "bool list \<Rightarrow> bool" where
  "listenUDPWithRetry ListenErrs = list_ex Not (take 5 ListenErrs)"

definition newUDPServerState :: "bool list \<Rightarrow> int \<Rightarrow> int \<Rightarrow> duration \<Rightarrow> 'l udpServerState option" where
  "newUDPServerState ListenErrs maxS maxP idle =
     (if \<not> listenUDPWithRetry ListenErrs then None
      else Some
        \<lparr>byPeer = [], byID = [], order = [],
         maxSessions = (if maxS \<le> 0 then 256 else maxS),
         maxPacket = (if maxP \<le> 0 \<or> udpMaxPacket < maxP then 1500 else maxP),
         sessionIdle = (if idle \<le> 0 then 60 * second else idle),
         udp_rates = []\<rparr>)"

definition rateAllow :: "'l rate_lib \<Rightarrow> instant \<Rightarrow> string \<Rightarrow> 'l udpServerState \<Rightarrow> 'l udpServerState \<times> bool" where
  "rateAllow L now peerIP u =
     (let l = (case mget (udp_rates u) peerIP of None \<Rightarrow> rl_new L 5 10 | Some l \<Rightarrow> l);
          (l', ok) = rl_allow L now l
      in (u\<lparr>udp_rates := mput peerIP l' (udp_rates u)\<rparr>, ok))"

definition touchLocked :: "string \<Rightarrow> 'l udpServerState \<Rightarrow> 'l udpServerState" where
  "touchLocked key u =
     (if key \<in> set (order u) then u\<lparr>order := remove1 key (order u) @ [key]\<rparr> else u)"

definition evictLRULocked :: "'l udpServerState \<Rightarrow> 'l udpServerState" where
  "evictLRULocked u =
     (case order u of
        [] \<Rightarrow> u
      | oldestKey # rest \<Rightarrow>
          (case mget (byPeer u) oldestKey of
             None \<Rightarrow> u\<lparr>order := rest\<rparr>
           | Some s \<Rightarrow> u\<lparr>order := rest, byPeer := mdel oldestKey (byPeer u), byID := mdel (hexID (us_id s)) (byID u)\<rparr>))"

definition sessionFor ::
  "string \<Rightarrow> instant \<Rightarrow> bytes option \<Rightarrow> 'l udpServerState \<Rightarrow> udpSession option \<times> 'l udpServerState" where
  "sessionFor peer now rnd u =
     (case mget (byPeer u) peer of
        Some s \<Rightarrow>
          (let s' = s\<lparr>us_lastActive := now\<rparr>;
               u1 = u\<lparr>byPeer := mput peer s' (byPeer u),
                      byID := (if mget (byID u) (hexID (us_id s)) = Some s
                               then mput (hexID (us_id s)) s' (byID u) else byID u)\<rparr>
           in (Some s', touchLocked peer u1))
      | None \<Rightarrow>
          (let u1 = (if maxSessions u \<le> int (length (byPeer u)) then evictLRULocked u else u)
           in case NewSessionID rnd of
                None \<Rightarrow> (None, u1)
              | Some i \<Rightarrow>
                  (let s = \<lparr>us_id = i, us_peer = peer, us_lastActive = now\<rparr>
                   in (Some s, u1\<lparr>byPeer := mput peer s (byPeer u1), byID := mput (hexID i) s (byID u1),
                                  order := order u1 @ [peer]\<rparr>))))"

definition sessionByID :: "bytes \<Rightarrow> 'l udpServerState \<Rightarrow> udpSession option" where
  "sessionByID i u = mget (byID u) (hexID i)"

definition removeOrderLocked :: "string \<Rightarrow> 'l udpServerState \<Rightarrow> 'l udpServerState" where
  "removeOrderLocked key u = u\<lparr>order := remove1 key (order u)\<rparr>"

definition expire_one :: "string \<Rightarrow> 'l udpServerState \<Rightarrow> 'l udpServerState" where
  "expire_one key u =
     (case mget (byPeer u) key of
        None \<Rightarrow> u
      | Some s \<Rightarrow>
          removeOrderLocked key
            (u\<lparr>byPeer := mdel key (byPeer u), byID := mdel (hexID (us_id s)) (byID u)\<rparr>))"

definition expireIdle :: "instant \<Rightarrow> 'l udpServerState \<Rightarrow> nat \<times> 'l udpServerState" where
  "expireIdle now u =
     (let expired = map fst (filter (\<lambda>(k, s). sessionIdle u < now - us_lastActive s) (byPeer u))
      in (length expired, fold expire_one expired u))"

definition udp_count :: "'l udpServerState \<Rightarrow> nat" where
  "udp_count u = length (byPeer u)"

definition udp_close :: "'l udpServerState \<Rightarrow> 'l udpServerState" where
  "udp_close u = u\<lparr>byPeer := [], byID := [], order := []\<rparr>"

section \<open>Datagram paths (tunnel/server.go)\<close>

datatype udp_outcome =
    Oversized
  | RateLimited
  | NoSession
  | FrameFailed
  | NoChannel
  | Forwarded bytes

text \<open>\<open>chan\<close> says whether the tunnel has a data channel.\<close>

definition HandleUDPPacket ::
  "'l rate_lib \<Rightarrow> bool \<Rightarrow> string \<Rightarrow> bytes \<Rightarrow> instant \<Rightarrow> bytes option \<Rightarrow> 'l udpServerState
    \<Rightarrow> udp_outcome \<times> 'l udpServerState" where
  "HandleUDPPacket L chan peer payload now rnd u =
     (if maxPacket u < int (length payload) then (Oversized, u)
      else let ip = (case SplitHostPort peer of Some (h, _) \<Rightarrow> h | None \<Rightarrow> peer);
               (u1, ok) = rateAllow L now ip u
           in if \<not> ok then (RateLimited, u1)
              else let (ms, u2) = sessionFor peer now rnd u1
                   in case ms of
                        None \<Rightarrow> (NoSession, u2)
                      | Some s \<Rightarrow>
                          (case udpFrame (us_id s) payload of
                             Inl e \<Rightarrow> (FrameFailed, u2)
                           | Inr frame \<Rightarrow> if \<not> chan then (NoChannel, u2) else (Forwarded frame, u2)))"

text \<open>One frame of the return path: the datagram written to a public peer, if any, and the rest.\<close>

definition udpChannelStep ::
  "'l udpServerState \<Rightarrow> bytes \<Rightarrow> ((string \<times> bytes) option \<times> bytes) option" where
  "udpChannelStep u s =
     (case readUDPFrame (maxPacket u) s of
        Inl e \<Rightarrow> None
      | Inr ((i, payload), rest) \<Rightarrow>
          Some (case sessionByID i u of None \<Rightarrow> None | Some ss \<Rightarrow> Some (us_peer ss, payload), rest))"

section \<open>Frames round-trip\<close>

lemma hex_digit_inject: "a < 16 \<Longrightarrow> b < 16 \<Longrightarrow> hex_digit a = hex_digit b \<longleftrightarrow> a = b"
  by (auto simp: hex_digit_def split: if_splits dest: arg_cong [of _ _ code])

lemma hex_byte_inject:
  fixes x y :: byte
  assumes "hex_digit (unat x div 16) = hex_digit (unat y div 16)"
    and "hex_digit (unat x mod 16) = hex_digit (unat y mod 16)"
  shows "x = y"
proof -
  have "unat x < 256" and "unat y < 256" by (simp_all add: unat_byte_less)
  then have "unat x div 16 < 16" and "unat y div 16 < 16" by (simp_all add: less_mult_imp_div_less)
  then have "unat x div 16 = unat y div 16" and "unat x mod 16 = unat y mod 16"
    using assms by (simp_all add: hex_digit_inject)
  then have "unat x = unat y" by (metis div_mult_mod_eq)
  then show ?thesis by (rule word_unat_eq_iff [THEN iffD2])
qed

lemma hexID_inject [simp]: "hexID a = hexID b \<longleftrightarrow> a = b"
proof
  show "hexID a = hexID b \<Longrightarrow> a = b"
  proof (induction a arbitrary: b)
    case Nil
    then show ?case by (cases b) (auto simp: hexID_def hex_encode_def)
  next
    case (Cons x a)
    obtain y b' where b: "b = y # b'" using Cons.prems by (cases b) (auto simp: hexID_def hex_encode_def)
    show ?case
      using Cons.prems Cons.IH [of b'] hex_byte_inject [of x y]
      by (simp add: b hexID_def hex_encode_def)
  qed
qed simp

lemma readUDPFrame_udpFrame:
  assumes "udpFrame i payload = Inr fr" and "int (length payload) \<le> mp"
  shows "readUDPFrame mp (fr @ rest) = Inr ((i, payload), rest)"
proof -
  from assms(1) have len: "length i = 16" "length payload \<le> 65507"
    and fr: "fr = put_be32 (16 + length payload) @ i @ payload"
    by (auto simp: udpFrame_def split: if_splits)
  have size: "get_be32 (put_be32 (16 + length payload)) = 16 + length payload"
    using len by (intro get_put_be32) simp
  have "read_full (16 + length payload) ((i @ payload) @ rest) = Inr (i @ payload, rest)"
    using len by (intro read_full_append) simp
  then show ?thesis using assms(2) len by (simp add: readUDPFrame_def fr size Let_def)
qed

text \<open>The frames a channel with packet limit \<open>mp\<close> carries, as an instance of the framing contract.\<close>

definition udp_enc :: "int \<Rightarrow> bytes \<times> bytes \<Rightarrow> bytes option" where
  "udp_enc mp = (\<lambda>(i, payload).
     if mp < int (length payload) then None
     else case udpFrame i payload of Inl e \<Rightarrow> None | Inr fr \<Rightarrow> Some fr)"

definition udp_dec :: "int \<Rightarrow> bytes \<Rightarrow> ((bytes \<times> bytes) \<times> bytes) option" where
  "udp_dec mp s = (case readUDPFrame mp s of Inl e \<Rightarrow> None | Inr r \<Rightarrow> Some r)"

interpretation udpf: framing "udp_enc mp" "udp_dec mp" for mp
  by unfold_locales
    (auto simp: udp_enc_def udp_dec_def readUDPFrame_udpFrame split: prod.splits if_splits sum.splits)

section \<open>The invariant of the session table\<close>

text \<open>
  Both maps hold the same sessions, keyed by the peer and by the session id; the recency list holds
  each peer once; the table is within its limit.
\<close>

definition udp_inv :: "'l udpServerState \<Rightarrow> bool" where
  "udp_inv u \<longleftrightarrow>
     mwf (byPeer u) \<and> mwf (byID u) \<and> distinct (order u) \<and> set (order u) = set (mkeys (byPeer u)) \<and>
     0 < maxSessions u \<and> int (length (byPeer u)) \<le> maxSessions u \<and>
     (\<forall>k s. mget (byPeer u) k = Some s \<longrightarrow>
        us_peer s = k \<and> length (us_id s) = 16 \<and> mget (byID u) (hexID (us_id s)) = Some s) \<and>
     (\<forall>h s. mget (byID u) h = Some s \<longrightarrow> h = hexID (us_id s) \<and> mget (byPeer u) (us_peer s) = Some s)"

text \<open>The time a peer was last active; the recency list is ordered by it.\<close>

definition peer_time :: "'l udpServerState \<Rightarrow> string \<Rightarrow> instant" where
  "peer_time u k = (case mget (byPeer u) k of None \<Rightarrow> 0 | Some s \<Rightarrow> us_lastActive s)"

definition udp_lru :: "instant \<Rightarrow> 'l udpServerState \<Rightarrow> bool" where
  "udp_lru now u \<longleftrightarrow>
     sorted_wrt (\<lambda>a b. peer_time u a \<le> peer_time u b) (order u) \<and> (\<forall>k \<in> set (order u). peer_time u k \<le> now)"

text \<open>Removing one session from the three structures, as eviction and expiry both do.\<close>

definition drop_session :: "string \<Rightarrow> udpSession \<Rightarrow> 'l udpServerState \<Rightarrow> 'l udpServerState" where
  "drop_session k s u =
     u\<lparr>order := remove1 k (order u), byPeer := mdel k (byPeer u), byID := mdel (hexID (us_id s)) (byID u)\<rparr>"

lemma mkeys_iff: "k \<in> fst ` set m \<longleftrightarrow> mget m k \<noteq> None"
  by (simp add: map_of_eq_None_iff)

lemma mkeys_mdel: "fst ` set (mdel k m) = fst ` set m - {k}"
  by (rule set_eqI) (simp add: mkeys_iff)

lemma mkeys_mput: "fst ` set (mput k v m) = insert k (fst ` set m)"
  by (rule set_eqI) (simp add: mkeys_iff)

lemma udp_invI:
  assumes "mwf (byPeer u)" and "mwf (byID u)" and "distinct (order u)"
    and "set (order u) = fst ` set (byPeer u)"
    and "0 < maxSessions u" and "int (length (byPeer u)) \<le> maxSessions u"
    and "\<And>k s. mget (byPeer u) k = Some s \<Longrightarrow>
        us_peer s = k \<and> length (us_id s) = 16 \<and> mget (byID u) (hexID (us_id s)) = Some s"
    and "\<And>h s. mget (byID u) h = Some s \<Longrightarrow> h = hexID (us_id s) \<and> mget (byPeer u) (us_peer s) = Some s"
  shows "udp_inv u"
  using assms unfolding udp_inv_def by simp

lemma drop_session_inv:
  assumes inv: "udp_inv u" and k: "mget (byPeer u) k = Some s"
  shows "udp_inv (drop_session k s u)"
proof -
  have dist: "distinct (order u)" and keys: "set (order u) = set (mkeys (byPeer u))"
    and peers: "\<And>k s. mget (byPeer u) k = Some s \<Longrightarrow> us_peer s = k \<and> length (us_id s) = 16 \<and> mget (byID u) (hexID (us_id s)) = Some s"
    and ids: "\<And>h s. mget (byID u) h = Some s \<Longrightarrow> h = hexID (us_id s) \<and> mget (byPeer u) (us_peer s) = Some s"
    using inv unfolding udp_inv_def by blast+
  have ord: "set (remove1 k (order u)) = set (mkeys (mdel k (byPeer u)))"
    using dist keys by (simp add: mkeys_mdel)
  have len: "int (length (mdel k (byPeer u))) \<le> maxSessions u"
    using inv length_mdel_le [of k "byPeer u"] unfolding udp_inv_def by linarith
  have p: "us_peer s' = k' \<and> length (us_id s') = 16 \<and> mget (mdel (hexID (us_id s)) (byID u)) (hexID (us_id s')) = Some s'"
    if "mget (mdel k (byPeer u)) k' = Some s'" for k' s'
    using that peers [of k' s'] peers [OF k] by (auto split: if_splits)
  have i: "h = hexID (us_id s') \<and> mget (mdel k (byPeer u)) (us_peer s') = Some s'"
    if "mget (mdel (hexID (us_id s)) (byID u)) h = Some s'" for h s'
    using that ids [of h s'] peers [OF k] k by (auto split: if_splits)
  show ?thesis
    unfolding drop_session_def
  proof (rule udp_invI, goal_cases)
    case (7 k' s')
    then show ?case using p [of k' s'] by simp
  next
    case (8 h s')
    then show ?case using i [of h s'] by simp
  qed (use ord len dist inv in \<open>simp_all add: distinct_remove1 udp_inv_def\<close>)
qed

lemma udp_inv_peers:
  assumes "udp_inv u" and "mget (byPeer u) k = Some s"
  shows "us_peer s = k \<and> length (us_id s) = 16 \<and> mget (byID u) (hexID (us_id s)) = Some s \<and> k \<in> set (order u)"
  using assms by (auto simp: udp_inv_def mkeys_iff)

lemma udp_inv_ids:
  assumes "udp_inv u" and "mget (byID u) h = Some s"
  shows "h = hexID (us_id s) \<and> mget (byPeer u) (us_peer s) = Some s"
  using assms by (auto simp: udp_inv_def)

lemma udp_inv_order: "udp_inv u \<Longrightarrow> k \<in> set (order u) \<longleftrightarrow> mget (byPeer u) k \<noteq> None"
  by (simp add: udp_inv_def mkeys_iff)

lemma evict_drop:
  assumes "udp_inv u" and "order u \<noteq> []"
  shows "\<exists>s. mget (byPeer u) (hd (order u)) = Some s \<and> evictLRULocked u = drop_session (hd (order u)) s u"
proof -
  obtain k ks where o: "order u = k # ks" using assms(2) by (cases "order u") auto
  then obtain s where "mget (byPeer u) k = Some s" using udp_inv_order [OF assms(1), of k] by auto
  then show ?thesis by (simp add: o evictLRULocked_def drop_session_def)
qed

lemma expire_drop:
  "mget (byPeer u) k = Some s \<Longrightarrow> expire_one k u = drop_session k s u"
  by (simp add: expire_one_def removeOrderLocked_def drop_session_def)

lemma expire_one_inv: "udp_inv u \<Longrightarrow> udp_inv (expire_one k u)"
  by (cases "mget (byPeer u) k") (auto simp: expire_drop drop_session_inv, simp add: expire_one_def)

lemma add_session_inv:
  assumes inv: "udp_inv u" and fresh: "mget (byPeer u) p = None" "mget (byID u) (hexID i) = None"
    and room: "int (length (byPeer u)) < maxSessions u" and len: "length i = 16"
    and s: "s = \<lparr>us_id = i, us_peer = p, us_lastActive = now\<rparr>"
  shows "udp_inv (u\<lparr>byPeer := mput p s (byPeer u), byID := mput (hexID i) s (byID u), order := order u @ [p]\<rparr>)"
proof -
  have "p \<notin> set (order u)" using udp_inv_order [OF inv, of p] fresh by simp
  moreover have "us_id s' \<noteq> i" if "mget (byPeer u) k = Some s'" for k s'
    using udp_inv_peers [OF inv that] fresh by auto
  moreover have "us_peer s' \<noteq> p" if "mget (byID u) h = Some s'" for h s'
    using udp_inv_ids [OF inv that] fresh by auto
  ultimately show ?thesis
    using inv fresh room len by (auto simp: udp_inv_def s length_mput mkeys_mput)
qed

lemma refresh_session_inv:
  assumes inv: "udp_inv u" and p: "mget (byPeer u) p = Some s" and s': "s' = s\<lparr>us_lastActive := now\<rparr>"
  shows "udp_inv (u\<lparr>byPeer := mput p s' (byPeer u), byID := mput (hexID (us_id s)) s' (byID u),
                   order := remove1 p (order u) @ [p]\<rparr>)"
proof -
  note ps = udp_inv_peers [OF inv p]
  have dist: "distinct (order u)" and keys: "set (order u) = fst ` set (byPeer u)"
    using inv by (auto simp: udp_inv_def)
  have ord: "set (remove1 p (order u) @ [p]) = fst ` set (mput p s' (byPeer u))"
    using ps dist keys by (auto simp: mkeys_mput)
  have 1: "us_peer t = k \<and> length (us_id t) = 16 \<and> mget (mput (hexID (us_id s)) s' (byID u)) (hexID (us_id t)) = Some t"
    if "mget (mput p s' (byPeer u)) k = Some t" for k t
    using that ps udp_inv_peers [OF inv, of k t] by (auto simp: s' split: if_splits)
  have 2: "h = hexID (us_id t) \<and> mget (mput p s' (byPeer u)) (us_peer t) = Some t"
    if "mget (mput (hexID (us_id s)) s' (byID u)) h = Some t" for h t
    using that ps p udp_inv_ids [OF inv, of h t] by (auto simp: s' split: if_splits)
  have rest: "mwf (byPeer u)" "mwf (byID u)" "0 < maxSessions u" "int (length (byPeer u)) \<le> maxSessions u"
    using inv by (simp_all add: udp_inv_def)
  show ?thesis
  proof (rule udp_invI, goal_cases)
    case (7 k t)
    then show ?case using 1 [of k t] by simp
  next
    case (8 h t)
    then show ?case using 2 [of h t] by simp
  qed (use ord rest dist p in \<open>simp_all add: length_mput\<close>)
qed

definition fresh_id :: "bytes option \<Rightarrow> 'l udpServerState \<Rightarrow> bool" where
  "fresh_id rnd u \<longleftrightarrow> (case rnd of None \<Rightarrow> True | Some i \<Rightarrow> length i = 16 \<and> sessionByID i u = None)"

lemma udp_order_empty: "udp_inv u \<Longrightarrow> order u = [] \<longleftrightarrow> byPeer u = []"
  by (auto simp: udp_inv_def)

lemma length_drop_session:
  assumes "udp_inv u" and "mget (byPeer u) k = Some s"
  shows "Suc (length (byPeer (drop_session k s u))) = length (byPeer u)"
proof -
  have "mwf (byPeer u)" using assms(1) by (simp add: udp_inv_def)
  moreover have "0 < length (byPeer u)" using assms(2) by (cases "byPeer u") auto
  ultimately show ?thesis using assms(2) by (simp add: drop_session_def length_mdel)
qed

lemma drop_session_simps [simp]:
  "maxSessions (drop_session k s u) = maxSessions u" "maxPacket (drop_session k s u) = maxPacket u"
  "order (drop_session k s u) = remove1 k (order u)"
  "mget (byPeer (drop_session k s u)) k' = (if k' = k then None else mget (byPeer u) k')"
  "mget (byID (drop_session k s u)) h = (if h = hexID (us_id s) then None else mget (byID u) h)"
  by (simp_all add: drop_session_def)

text \<open>The table after making room for a new session.\<close>

definition make_room :: "'l udpServerState \<Rightarrow> 'l udpServerState" where
  "make_room u = (if maxSessions u \<le> int (length (byPeer u)) then evictLRULocked u else u)"

lemma make_room_cases:
  assumes inv: "udp_inv u"
  obtains (room) "int (length (byPeer u)) < maxSessions u" and "make_room u = u"
  | (full) s where "maxSessions u = int (length (byPeer u))" and "order u \<noteq> []" and "mget (byPeer u) (hd (order u)) = Some s"
      and "make_room u = drop_session (hd (order u)) s u"
proof (cases "int (length (byPeer u)) < maxSessions u")
  case True
  then show ?thesis by (intro room) (simp_all add: make_room_def)
next
  case False
  then have eq: "maxSessions u = int (length (byPeer u))" and "0 < maxSessions u"
    using inv by (simp_all add: udp_inv_def)
  then have ne: "order u \<noteq> []" using udp_order_empty [OF inv] by auto
  from evict_drop [OF inv ne] eq show ?thesis by (auto intro: full [OF eq ne] simp: make_room_def)
qed

lemma make_room_inv:
  assumes inv: "udp_inv u"
  shows "udp_inv (make_room u) \<and> int (length (byPeer (make_room u))) < maxSessions (make_room u) \<and>
     maxSessions (make_room u) = maxSessions u \<and> maxPacket (make_room u) = maxPacket u"
proof (rule make_room_cases [OF inv], goal_cases)
  case 1
  then show ?case using inv by simp
next
  case (2 s)
  then show ?case
    using drop_session_inv [OF inv 2(3)] length_drop_session [OF inv 2(3)] by simp
qed

lemma make_room_fresh:
  assumes inv: "udp_inv u"
  shows "mget (byPeer u) p = None \<Longrightarrow> mget (byPeer (make_room u)) p = None"
    and "mget (byID u) h = None \<Longrightarrow> mget (byID (make_room u)) h = None"
  by (rule make_room_cases [OF inv]; simp)+

lemma sessionFor_new:
  "mget (byPeer u) peer = None \<Longrightarrow>
   sessionFor peer now (Some i) u =
     (let s = \<lparr>us_id = i, us_peer = peer, us_lastActive = now\<rparr>; v = make_room u
      in (Some s, v\<lparr>byPeer := mput peer s (byPeer v), byID := mput (hexID i) s (byID v), order := order v @ [peer]\<rparr>))"
  by (simp add: sessionFor_def NewSessionID_def make_room_def Let_def)

lemma sessionFor_old:
  assumes inv: "udp_inv u" and p: "mget (byPeer u) peer = Some s"
  shows "sessionFor peer now rnd u =
     (let s' = s\<lparr>us_lastActive := now\<rparr>
      in (Some s', u\<lparr>byPeer := mput peer s' (byPeer u), byID := mput (hexID (us_id s)) s' (byID u),
                    order := remove1 peer (order u) @ [peer]\<rparr>))"
  using udp_inv_peers [OF inv p] p by (simp add: sessionFor_def touchLocked_def Let_def)

lemma sessionFor_none:
  "mget (byPeer u) peer = None \<Longrightarrow> sessionFor peer now None u = (None, make_room u)"
  by (simp add: sessionFor_def NewSessionID_def make_room_def Let_def)

lemma sessionFor_inv:
  assumes inv: "udp_inv u" and fresh: "fresh_id rnd u" and run: "sessionFor peer now rnd u = (ms, u')"
  shows "udp_inv u' \<and> maxSessions u' = maxSessions u \<and> maxPacket u' = maxPacket u"
proof (cases "mget (byPeer u) peer")
  case (Some s)
  then show ?thesis
    using run refresh_session_inv [OF inv Some refl] by (auto simp: sessionFor_old [OF inv Some] Let_def)
next
  case None
  note room = make_room_inv [OF inv]
  show ?thesis
  proof (cases rnd)
    case None
    then show ?thesis using run room sessionFor_none [OF \<open>mget (byPeer u) peer = None\<close>] by simp
  next
    case (Some i)
    then have len: "length i = 16" and "mget (byID u) (hexID i) = None"
      using fresh by (simp_all add: fresh_id_def sessionByID_def)
    then have "udp_inv u'"
      using run room add_session_inv [OF conjunct1 [OF room] make_room_fresh(1) [OF inv None] make_room_fresh(2) [OF inv] _ _ refl]
      by (auto simp: Some sessionFor_new [OF None] Let_def)
    then show ?thesis using run room by (auto simp: Some sessionFor_new [OF None] Let_def)
  qed
qed

lemma fold_expire_inv: "udp_inv u \<Longrightarrow> udp_inv (fold expire_one ks u)"
  by (induction ks arbitrary: u) (simp_all add: expire_one_inv)

lemma expire_one_simps [simp]:
  "maxSessions (expire_one k u) = maxSessions u" "maxPacket (expire_one k u) = maxPacket u"
  "mget (byPeer (expire_one k u)) k' = (if k' = k then None else mget (byPeer u) k')"
  by (auto simp: expire_one_def removeOrderLocked_def split: option.splits)

lemma fold_expire_simps [simp]:
  "maxSessions (fold expire_one ks u) = maxSessions u" "maxPacket (fold expire_one ks u) = maxPacket u"
  "mget (byPeer (fold expire_one ks u)) k = (if k \<in> set ks then None else mget (byPeer u) k)"
  by (induction ks arbitrary: u) auto

lemma rateAllow_frame:
  "rateAllow L now ip u = (u', ok) \<Longrightarrow> byPeer u' = byPeer u \<and> byID u' = byID u \<and> order u' = order u \<and>
     maxSessions u' = maxSessions u \<and> maxPacket u' = maxPacket u \<and> sessionIdle u' = sessionIdle u"
  by (auto simp: rateAllow_def Let_def split: prod.splits)

lemma rateAllow_inv: "udp_inv u \<Longrightarrow> rateAllow L now ip u = (u', ok) \<Longrightarrow> udp_inv u'"
  by (drule rateAllow_frame) (simp add: udp_inv_def)

lemma HandleUDPPacket_inv:
  assumes inv: "udp_inv u" and fresh: "fresh_id rnd u"
    and run: "HandleUDPPacket L chan peer payload now rnd u = (out, u')"
  shows "udp_inv u' \<and> maxSessions u' = maxSessions u \<and> maxPacket u' = maxPacket u"
proof (cases "maxPacket u < int (length payload)")
  case True
  then show ?thesis using run inv by (simp add: HandleUDPPacket_def)
next
  case False
  let ?ip = "case SplitHostPort peer of Some (h, _) \<Rightarrow> h | None \<Rightarrow> peer"
  obtain u1 ok where r: "rateAllow L now ?ip u = (u1, ok)" by fastforce
  obtain ms u2 where s: "sessionFor peer now rnd u1 = (ms, u2)" by fastforce
  from r have "udp_inv u1" and "fresh_id rnd u1"
    using rateAllow_inv [OF inv r] fresh rateAllow_frame [OF r] by (auto simp: fresh_id_def sessionByID_def split: option.splits)
  from sessionFor_inv [OF this s] rateAllow_frame [OF r] \<open>udp_inv u1\<close> show ?thesis
    using run False by (auto simp: HandleUDPPacket_def r s Let_def split: if_splits option.splits sum.splits)
qed

section \<open>The table as a state machine\<close>

inductive udp_step :: "'l rate_lib \<Rightarrow> instant \<times> 'l udpServerState \<Rightarrow> instant \<times> 'l udpServerState \<Rightarrow> bool"
  for L :: "'l rate_lib" where
  packet: "\<lbrakk>t \<le> t'; fresh_id rnd u; HandleUDPPacket L chan peer payload t' rnd u = (out, u')\<rbrakk>
    \<Longrightarrow> udp_step L (t, u) (t', u')"
| expire: "\<lbrakk>t \<le> t'; expireIdle t' u = (n, u')\<rbrakk> \<Longrightarrow> udp_step L (t, u) (t', u')"
| close: "udp_step L (t, u) (t, udp_close u)"

lemma udp_step_inv:
  "udp_step L x y \<Longrightarrow> udp_inv (snd x) \<Longrightarrow> udp_inv (snd y) \<and> maxSessions (snd y) = maxSessions (snd x)"
proof (induction rule: udp_step.induct)
  case (packet t t' rnd u chan peer payload out u')
  then show ?case using HandleUDPPacket_inv [of u rnd L chan peer payload t' out u'] by simp
next
  case (expire t t' u n u')
  then show ?case using fold_expire_inv [of u] by (auto simp: expireIdle_def Let_def)
next
  case (close t u)
  then show ?case by (auto simp: udp_inv_def udp_close_def)
qed

section \<open>Recency\<close>

lemma sorted_wrt_remove1: "sorted_wrt P xs \<Longrightarrow> sorted_wrt P (remove1 x xs)"
  by (induction xs) (auto dest: notin_set_remove1)

lemma sorted_wrt_cong:
  "sorted_wrt P xs \<Longrightarrow> (\<And>x y. x \<in> set xs \<Longrightarrow> y \<in> set xs \<Longrightarrow> P x y \<Longrightarrow> Q x y) \<Longrightarrow> sorted_wrt Q xs"
  by (rule sorted_wrt_mono_rel)

lemma sorted_wrt_snoc: "sorted_wrt P (xs @ [x]) \<longleftrightarrow> sorted_wrt P xs \<and> (\<forall>y \<in> set xs. P y x)"
  by (simp add: sorted_wrt_append)

lemma udp_lru_later: "udp_lru t u \<Longrightarrow> t \<le> t' \<Longrightarrow> udp_lru t' u"
  by (auto simp: udp_lru_def)

text \<open>Forgetting a peer keeps the order; a peer active now goes last.\<close>

lemma udp_lru_drop:
  assumes "udp_inv u" and lru: "udp_lru t u"
  shows "udp_lru t (drop_session k s u)"
proof -
  have "distinct (order u)" using assms(1) by (simp add: udp_inv_def)
  then have set: "set (remove1 k (order u)) = set (order u) - {k}" by simp
  have time: "peer_time (drop_session k s u) x = peer_time u x" if "x \<noteq> k" for x
    using that by (simp add: peer_time_def)
  have "sorted_wrt (\<lambda>a b. peer_time u a \<le> peer_time u b) (remove1 k (order u))"
    using lru sorted_wrt_remove1 by (auto simp: udp_lru_def)
  then have "sorted_wrt (\<lambda>a b. peer_time (drop_session k s u) a \<le> peer_time (drop_session k s u) b) (remove1 k (order u))"
    by (rule sorted_wrt_cong) (simp add: set time)
  then show ?thesis using lru set time by (simp add: udp_lru_def)
qed

lemma udp_lru_last:
  assumes lru: "udp_lru t u" and k: "k \<notin> set ks" and ks: "sorted_wrt (\<lambda>a b. peer_time u a \<le> peer_time u b) ks"
    and sub: "set ks \<subseteq> set (order u)" and "t \<le> now"
    and v: "order v = ks @ [k]" "peer_time v k = now" "\<And>x. x \<noteq> k \<Longrightarrow> peer_time v x = peer_time u x"
  shows "udp_lru now v"
proof -
  have le: "peer_time v x \<le> now" if "x \<in> set ks" for x
    using that lru sub k \<open>t \<le> now\<close> v(3) [of x] by (fastforce simp: udp_lru_def)
  have "sorted_wrt (\<lambda>a b. peer_time v a \<le> peer_time v b) ks"
    using ks by (rule sorted_wrt_cong) (use k v(3) in metis)
  then show ?thesis using le v(1,2) by (auto simp: udp_lru_def sorted_wrt_snoc)
qed

lemma make_room_lru: "udp_inv u \<Longrightarrow> udp_lru t u \<Longrightarrow> udp_lru t (make_room u)"
  by (rule make_room_cases [of u]) (auto simp: udp_lru_drop)

lemma sessionFor_lru:
  assumes inv: "udp_inv u" and lru: "udp_lru t u" and "t \<le> now" and run: "sessionFor peer now rnd u = (ms, u')"
  shows "udp_lru now u'"
proof (cases "mget (byPeer u) peer")
  case (Some s)
  have u': "order u' = remove1 peer (order u) @ [peer]" "peer_time u' peer = now"
    "\<And>x. x \<noteq> peer \<Longrightarrow> peer_time u' x = peer_time u x"
    using run by (auto simp: sessionFor_old [OF inv Some] Let_def peer_time_def)
  have "distinct (order u)" using inv by (simp add: udp_inv_def)
  then show ?thesis
    using lru by (intro udp_lru_last [OF lru _ _ _ \<open>t \<le> now\<close> u'])
      (auto simp: udp_lru_def sorted_wrt_remove1 dest: notin_set_remove1)
next
  case None
  let ?v = "make_room u"
  have lru': "udp_lru t ?v" by (rule make_room_lru [OF inv lru])
  have notin: "peer \<notin> set (order ?v)"
    using make_room_inv [OF inv] make_room_fresh(1) [OF inv None] by (simp add: udp_inv_order)
  show ?thesis
  proof (cases rnd)
    case None
    then show ?thesis
      using run lru' \<open>t \<le> now\<close> sessionFor_none [OF \<open>mget (byPeer u) peer = None\<close>] by (auto intro: udp_lru_later)
  next
    case (Some i)
    have u': "order u' = order ?v @ [peer]" "peer_time u' peer = now"
      "\<And>x. x \<noteq> peer \<Longrightarrow> peer_time u' x = peer_time ?v x"
      using run by (auto simp: Some sessionFor_new [OF None] Let_def peer_time_def)
    show ?thesis
      using lru' notin by (intro udp_lru_last [OF lru' _ _ _ \<open>t \<le> now\<close> u']) (auto simp: udp_lru_def)
  qed
qed

lemma expire_one_lru: "udp_inv u \<Longrightarrow> udp_lru t u \<Longrightarrow> udp_lru t (expire_one k u)"
  by (cases "mget (byPeer u) k") (simp_all add: expire_drop udp_lru_drop, simp add: expire_one_def)

lemma fold_expire_lru: "udp_inv u \<Longrightarrow> udp_lru t u \<Longrightarrow> udp_lru t (fold expire_one ks u)"
  by (induction ks arbitrary: u) (simp_all add: expire_one_inv expire_one_lru)

lemma rateAllow_lru: "udp_lru t u \<Longrightarrow> rateAllow L now ip u = (u', ok) \<Longrightarrow> udp_lru t u'"
  by (drule rateAllow_frame) (simp add: udp_lru_def peer_time_def)

lemma HandleUDPPacket_lru:
  assumes inv: "udp_inv u" and lru: "udp_lru t u" and le: "t \<le> now"
    and run: "HandleUDPPacket L chan peer payload now rnd u = (out, u')"
  shows "udp_lru now u'"
proof (cases "maxPacket u < int (length payload)")
  case True
  then show ?thesis using run lru le by (auto simp: HandleUDPPacket_def intro: udp_lru_later)
next
  case False
  let ?ip = "case SplitHostPort peer of Some (h, _) \<Rightarrow> h | None \<Rightarrow> peer"
  obtain u1 ok where r: "rateAllow L now ?ip u = (u1, ok)" by fastforce
  obtain ms u2 where s: "sessionFor peer now rnd u1 = (ms, u2)" by fastforce
  have 1: "udp_inv u1" and l1: "udp_lru t u1" by (rule rateAllow_inv [OF inv r], rule rateAllow_lru [OF lru r])
  have "udp_lru now u2" by (rule sessionFor_lru [OF 1 l1 le s])
  then show ?thesis
    using run False udp_lru_later [OF l1 le]
    by (auto simp: HandleUDPPacket_def r s Let_def split: if_splits option.splits sum.splits)
qed

lemma udp_step_lru: "udp_step L x y \<Longrightarrow> udp_inv (snd x) \<Longrightarrow> udp_lru (fst x) (snd x) \<Longrightarrow> udp_lru (fst y) (snd y)"
proof (induction rule: udp_step.induct)
  case (packet t t' rnd u chan peer payload out u')
  then show ?case using HandleUDPPacket_lru [of u t t' L chan peer payload rnd out u'] by simp
next
  case (expire t t' u n u')
  then have "udp_lru t' u'" using fold_expire_lru [of u t'] udp_lru_later [of t u t'] by (auto simp: expireIdle_def Let_def)
  then show ?case by simp
qed (simp add: udp_lru_def udp_close_def)

text \<open>Every state reached from a freshly bound listener.\<close>

lemma udp_reachable:
  assumes "(udp_step L)\<^sup>*\<^sup>* (t0, u0) (t, u)" and "newUDPServerState errs maxS maxP idle = Some u0"
  shows "udp_inv u \<and> udp_lru t u \<and> maxSessions u = maxSessions u0"
proof -
  have init: "udp_inv u0 \<and> udp_lru t0 u0"
    using assms(2) by (auto simp: newUDPServerState_def udp_inv_def udp_lru_def split: if_splits)
  have "udp_inv (snd y) \<and> udp_lru (fst y) (snd y) \<and> maxSessions (snd y) = maxSessions u0"
    if "(udp_step L)\<^sup>*\<^sup>* (t0, u0) y" for y
    using that
  proof (induction rule: rtranclp_induct)
    case base
    then show ?case using init by simp
  next
    case (step y z)
    then show ?case using udp_step_inv [of L y z] udp_step_lru [of L y z] by simp
  qed
  from this [OF assms(1)] show ?thesis by simp
qed

section \<open>Properties\<close>

text \<open>
  C11: In every state the session table of a UDP tunnel can reach, the two maps and the recency list hold
  the same sessions, a session id resolves to the peer it was created for, the table is within the
  policy's limit, and the recency list is ordered by last activity.
\<close>

theorem udp_table_reachable:
  assumes "newUDPServerState errs maxS maxP idle = Some u0" and "(udp_step L)\<^sup>*\<^sup>* (t0, u0) (t, u)"
  shows "udp_inv u \<and> udp_lru t u \<and> int (udp_count u) \<le> (if maxS \<le> 0 then 256 else maxS)"
proof -
  have "maxSessions u0 = (if maxS \<le> 0 then 256 else maxS)"
    using assms(1) by (auto simp: newUDPServerState_def split: if_splits)
  then show ?thesis using udp_reachable [OF assms(2,1)] by (auto simp: udp_inv_def udp_count_def)
qed

definition sample_udp :: "int udpServerState" where
  "sample_udp = \<lparr>byPeer = [], byID = [], order = [], maxSessions = 1, maxPacket = 1500, sessionIdle = 60 * second, udp_rates = []\<rparr>"

lemma sample_udp_new: "newUDPServerState [True, False] 1 1500 0 = Some sample_udp"
  by (simp add: newUDPServerState_def sample_udp_def listenUDPWithRetry_def)

theorem udp_table_reachable_witness:
  "\<exists>u. (udp_step counting_limiter)\<^sup>*\<^sup>* (0, sample_udp) (9, u) \<and> udp_inv u \<and> udp_lru 9 u \<and> int (udp_count u) \<le> 1"
proof -
  obtain out u where "HandleUDPPacket counting_limiter True ''192.0.2.1:53'' [1, 2] 9 (Some (replicate 16 7)) sample_udp = (out, u)"
    by fastforce
  then have "udp_step counting_limiter (0, sample_udp) (9, u)"
    by (intro udp_step.packet) (auto simp: fresh_id_def sessionByID_def sample_udp_def)
  then have "(udp_step counting_limiter)\<^sup>*\<^sup>* (0, sample_udp) (9, u)" by blast
  with udp_table_reachable [OF sample_udp_new this] show ?thesis by auto
qed

text \<open>
  A new peer of a full table displaces exactly one session, and that session is one that was idle
  the longest; every other session stays as it was.
\<close>

theorem udp_eviction_least_recent:
  assumes inv: "udp_inv u" and lru: "udp_lru t u" and full: "maxSessions u \<le> int (udp_count u)"
    and new: "mget (byPeer u) peer = None" and run: "sessionFor peer now (Some i) u = (ms, u')"
  shows "\<exists>victim s. mget (byPeer u) victim = Some s \<and>
     (\<forall>k s'. mget (byPeer u) k = Some s' \<longrightarrow> us_lastActive s \<le> us_lastActive s') \<and>
     mget (byPeer u') victim = None \<and>
     (\<forall>k. k \<noteq> victim \<and> k \<noteq> peer \<longrightarrow> mget (byPeer u') k = mget (byPeer u) k)"
proof (rule make_room_cases [OF inv])
  assume "int (length (byPeer u)) < maxSessions u"
  then show ?thesis using full by (simp add: udp_count_def)
next
  fix s assume ne: "order u \<noteq> []" and s: "mget (byPeer u) (hd (order u)) = Some s"
    and room: "make_room u = drop_session (hd (order u)) s u"
  let ?v = "hd (order u)"
  obtain ks where o: "order u = ?v # ks" using ne by (cases "order u") auto
  have "us_lastActive s \<le> us_lastActive s'" if "mget (byPeer u) k = Some s'" for k s'
  proof -
    have "k \<in> set (order u)" using udp_inv_peers [OF inv that] by simp
    then have "peer_time u ?v \<le> peer_time u k" using lru by (subst (asm) o) (metis (no_types, lifting) o order_refl set_ConsD sorted_wrt.simps(2) udp_lru_def)
    then show ?thesis using s that by (simp add: peer_time_def)
  qed
  moreover have "?v \<noteq> peer" using s new by auto
  then have "mget (byPeer u') ?v = None \<and> (\<forall>k. k \<noteq> ?v \<and> k \<noteq> peer \<longrightarrow> mget (byPeer u') k = mget (byPeer u) k)"
    using run by (auto simp: sessionFor_new [OF new] room Let_def)
  ultimately show ?thesis using s by blast
qed

definition full_udp :: "int udpServerState" where
  "full_udp = sample_udp
     \<lparr>byPeer := [(''192.0.2.1:53'', \<lparr>us_id = replicate 16 7, us_peer = ''192.0.2.1:53'', us_lastActive = 5\<rparr>)],
      byID := [(hexID (replicate 16 7), \<lparr>us_id = replicate 16 7, us_peer = ''192.0.2.1:53'', us_lastActive = 5\<rparr>)],
      order := [''192.0.2.1:53'']\<rparr>"

lemma full_udp_inv: "udp_inv full_udp \<and> udp_lru 5 full_udp"
  by (auto simp: full_udp_def sample_udp_def udp_inv_def udp_lru_def peer_time_def mwf_def split: if_splits)

theorem udp_eviction_least_recent_witness:
  "\<exists>victim s. mget (byPeer full_udp) victim = Some s \<and>
     (\<forall>k s'. mget (byPeer full_udp) k = Some s' \<longrightarrow> us_lastActive s \<le> us_lastActive s') \<and>
     mget (byPeer (snd (sessionFor ''198.51.100.9:7'' 9 (Some (replicate 16 8)) full_udp))) victim = None \<and>
     (\<forall>k. k \<noteq> victim \<and> k \<noteq> ''198.51.100.9:7'' \<longrightarrow>
        mget (byPeer (snd (sessionFor ''198.51.100.9:7'' 9 (Some (replicate 16 8)) full_udp))) k = mget (byPeer full_udp) k)"
proof -
  obtain ms u' where r: "sessionFor ''198.51.100.9:7'' 9 (Some (replicate 16 8)) full_udp = (ms, u')" by fastforce
  show ?thesis
    using udp_eviction_least_recent [of full_udp 5 "''198.51.100.9:7''" 9 "replicate 16 8" ms u'] full_udp_inv r
    by (simp add: full_udp_def sample_udp_def udp_count_def)
qed

text \<open>
  The periodic clean-up removes exactly the sessions that were idle for longer than the timeout and
  reports their number.
\<close>

theorem expireIdle_exact:
  assumes inv: "udp_inv u" and run: "expireIdle now u = (n, u')"
  shows "mget (byPeer u') k =
           (case mget (byPeer u) k of
              None \<Rightarrow> None
            | Some s \<Rightarrow> if sessionIdle u < now - us_lastActive s then None else Some s)
         \<and> n = length (filter (\<lambda>(k, s). sessionIdle u < now - us_lastActive s) (byPeer u))"
proof -
  have wf: "mwf (byPeer u)" using inv by (simp add: udp_inv_def)
  let ?expired = "map fst (filter (\<lambda>(k, s). sessionIdle u < now - us_lastActive s) (byPeer u))"
  have "k \<in> set ?expired \<longleftrightarrow> (\<exists>s. mget (byPeer u) k = Some s \<and> sessionIdle u < now - us_lastActive s)"
    using mwf_mget [OF wf] by force
  moreover have "u' = fold expire_one ?expired u" and "n = length ?expired"
    using run by (auto simp: expireIdle_def Let_def)
  ultimately show ?thesis by (auto split: option.splits)
qed

theorem expireIdle_exact_witness:
  "mget (byPeer (snd (expireIdle (62 * second) full_udp))) ''192.0.2.1:53'' = None"
proof -
  obtain n u' where r: "expireIdle (62 * second) full_udp = (n, u')" by fastforce
  have "mget (byPeer u') ''192.0.2.1:53'' = None"
    using expireIdle_exact [OF conjunct1 [OF full_udp_inv] r, of "''192.0.2.1:53''"]
    by (simp add: full_udp_def sample_udp_def)
  then show ?thesis using r by simp
qed

text \<open>What a forwarded datagram leaves behind: its session, and the frame carrying that session's id.\<close>

lemma forwarded_session:
  assumes inv: "udp_inv u" and fresh: "fresh_id rnd u"
    and run: "HandleUDPPacket L chan peer payload now rnd u = (Forwarded frame, u')"
  shows "\<exists>s. mget (byPeer u') peer = Some s \<and> udpFrame (us_id s) payload = Inr frame \<and> int (length payload) \<le> maxPacket u"
proof -
  let ?ip = "case SplitHostPort peer of Some (h, _) \<Rightarrow> h | None \<Rightarrow> peer"
  obtain u1 ok where r: "rateAllow L now ?ip u = (u1, ok)" by fastforce
  have small: "\<not> maxPacket u < int (length payload)" using run by (auto simp: HandleUDPPacket_def)
  obtain s where s: "sessionFor peer now rnd u1 = (Some s, u')" and f: "udpFrame (us_id s) payload = Inr frame"
    using run small
    by (auto simp: HandleUDPPacket_def r Let_def split: if_splits option.splits sum.splits prod.splits)
  have i1: "udp_inv u1" by (rule rateAllow_inv [OF inv r])
  have "mget (byPeer u') peer = Some s"
  proof (cases "mget (byPeer u1) peer")
    case None
    then show ?thesis using s
      by (cases rnd) (auto simp: sessionFor_none sessionFor_new Let_def)
  next
    case (Some s0)
    then show ?thesis using s by (auto simp: sessionFor_old [OF i1 Some] Let_def)
  qed
  then show ?thesis using f small by auto
qed

text \<open>A frame for the session of a peer, within the limits, is delivered to that peer.\<close>

lemma session_reply:
  assumes inv: "udp_inv u" and s: "mget (byPeer u) peer = Some s"
    and small: "int (length reply) \<le> maxPacket u" "int (length reply) \<le> udpMaxPacket"
  shows "\<exists>answer. udpFrame (us_id s) reply = Inr answer \<and> udpChannelStep u (answer @ rest) = Some (Some (peer, reply), rest)"
proof -
  note ps = udp_inv_peers [OF inv s]
  obtain answer where b: "udpFrame (us_id s) reply = Inr answer" using ps small by (simp add: udpFrame_def)
  then show ?thesis
    using readUDPFrame_udpFrame [OF b, of "maxPacket u"] small ps by (simp add: udpChannelStep_def sessionByID_def)
qed

text \<open>
  Replies find their way back: when a public datagram was forwarded over the data channel, the
  client's frame for that session, with any reply within the packet limit, is delivered to exactly the
  peer that sent the datagram.
\<close>

theorem udp_reply_reaches_peer:
  assumes inv: "udp_inv u" and fresh: "fresh_id rnd u" and mp: "maxPacket u \<le> udpMaxPacket"
    and run: "HandleUDPPacket L chan peer payload now rnd u = (Forwarded frame, u')"
    and reply: "int (length reply) \<le> maxPacket u"
  shows "\<exists>sid answer. readUDPFrame (maxPacket u') (frame @ rest) = Inr ((sid, payload), rest) \<and>
     udpFrame sid reply = Inr answer \<and> udpChannelStep u' (answer @ rest') = Some (Some (peer, reply), rest')"
proof -
  note inv' = HandleUDPPacket_inv [OF inv fresh run]
  obtain s where s: "mget (byPeer u') peer = Some s" "udpFrame (us_id s) payload = Inr frame" "int (length payload) \<le> maxPacket u"
    using forwarded_session [OF inv fresh run] by blast
  have "int (length reply) \<le> maxPacket u'" "int (length reply) \<le> udpMaxPacket" using reply mp inv' by simp_all
  from session_reply [OF conjunct1 [OF inv'] s(1) this]
  show ?thesis using readUDPFrame_udpFrame [OF s(2), of "maxPacket u'"] s(3) inv' by auto
qed

theorem udp_reply_reaches_peer_witness:
  "\<exists>frame u' sid answer. HandleUDPPacket counting_limiter True ''192.0.2.1:53'' [1, 2] 9 (Some (replicate 16 7)) sample_udp = (Forwarded frame, u') \<and>
     udpFrame sid [5] = Inr answer \<and> udpChannelStep u' (answer @ []) = Some (Some (''192.0.2.1:53'', [5]), [])"
proof -
  have inv: "udp_inv sample_udp" by (simp add: sample_udp_def udp_inv_def)
  obtain out u' where r: "HandleUDPPacket counting_limiter True ''192.0.2.1:53'' [1, 2] 9 (Some (replicate 16 7)) sample_udp = (out, u')"
    by fastforce
  have "\<exists>frame. out = Forwarded frame"
    using r by (auto simp: HandleUDPPacket_def sample_udp_def rateAllow_def counting_limiter_def sessionFor_def NewSessionID_def
        udpFrame_def Let_def split: option.splits prod.splits)
  then obtain frame where out: "out = Forwarded frame" by blast
  have "fresh_id (Some (replicate 16 7)) sample_udp" by (simp add: fresh_id_def sessionByID_def sample_udp_def)
  from udp_reply_reaches_peer [OF inv this _ r [unfolded out], of "[5]" "[]" "[]"] r out show ?thesis
    by (auto simp: sample_udp_def)
qed

text \<open>
  Datagrams written to the data channel one after another are read back in order, each with its
  session id and payload, for every packet limit.
\<close>

theorem udp_channel_in_order:
  assumes "list_all2 (\<lambda>(i, p) fr. int (length p) \<le> mp \<and> udpFrame i p = Inr fr) dgrams frames"
  shows "drain (udp_dec mp) (length dgrams) (concat frames @ rest) = (dgrams, rest)"
proof (rule udpf.drain_stream)
  show "list_all2 (\<lambda>x bs. udp_enc mp x = Some bs) dgrams frames"
    using assms by (rule list_all2_mono) (auto simp: udp_enc_def)
qed

theorem udp_channel_in_order_witness:
  "drain (udp_dec 1500) 2 (concat [put_be32 17 @ replicate 16 7 @ [1], put_be32 16 @ replicate 16 8 @ []] @ [99])
     = ([(replicate 16 7, [1]), (replicate 16 8, [])], [99])"
  using udp_channel_in_order [of 1500 "[(replicate 16 7, [1]), (replicate 16 8, [])]"
      "[put_be32 17 @ replicate 16 7 @ [1], put_be32 16 @ replicate 16 8 @ []]" "[99]"]
  by (simp add: udpFrame_def numeral_2_eq_2)

end
