(* ===== verification/TunnelManager.thy ===== *)
theory TunnelManager
  imports Acl Udp
begin

text \<open>
  \<^verbatim>\<open>internal/tunnel/server.go\<close>: the per-client tunnel manager: registration with port arbitration,
  tunnel ids, the table of public connections that wait for the client's data connection, and
  clean-up. Connections and channels are handles (numbers); closing a connection appends its handle to
  \<open>closed\<close>. Whether the operating system grants a listener, the clock and the random connection id are
  arguments.
\<close>

record 'l Tunnel =
  t_ID :: string
  t_Name :: string
  t_Type :: string
  t_RemotePort :: int
  t_ln :: bool
  t_VhostHost :: string
  t_udp :: "'l udpServerState option"
  t_ch :: "nat option"

record pendingConn =
  pc_conn :: "nat option"
  pc_tunnelID :: string
  pc_deadline :: instant

record 'l Manager =
  UDPIdleTimeout :: duration
  UDPMaxSessions :: int
  UDPMaxPacket :: int
  seq :: "64 word"
  m_tunnels :: "(string, 'l Tunnel) gomap"
  ports :: "(int, string) gomap"
  pending :: "(string, pendingConn) gomap"
  closed :: "nat list"

definition NewManager :: "'l Manager" where
  "NewManager = \<lparr>UDPIdleTimeout = 60 * second, UDPMaxSessions = 256, UDPMaxPacket = 1500, seq = 0,
     m_tunnels = [], ports = [], pending = [], closed = []\<rparr>"

section \<open>Registration errors\<close>

text \<open>
  The errors \<^verbatim>\<open>Register\<close> and \<^verbatim>\<open>AddVhostTunnel\<close> build with \<^verbatim>\<open>fmt.Errorf\<close>; \<open>os\<close> is the text of the
  operating system's error.
\<close>

datatype register_err =
    TunnelLimitReached int
  | InvalidRemotePort int
  | PortNotAllowed int
  | PortInUse int string
  | UDPListenFailed int string
  | ListenFailed int string

fun register_msg :: "register_err \<Rightarrow> string" where
  "register_msg (TunnelLimitReached n) = ''tunnel limit reached ('' @ Itoa n @ '')''"
| "register_msg (InvalidRemotePort p) = ''invalid remote port '' @ Itoa p"
| "register_msg (PortNotAllowed p) = ''remote port '' @ Itoa p @ '' not allowed by policy''"
| "register_msg (PortInUse p owner) = ''remote port '' @ Itoa p @ '' already in use by '' @ owner"
| "register_msg (UDPListenFailed p os) = ''udp listen on '' @ Itoa p @ '': '' @ os"
| "register_msg (ListenFailed p os) = ''listen on '' @ Itoa p @ '': '' @ os"

section \<open>Operations\<close>

definition TunnelCount :: "'l Manager \<Rightarrow> nat" where
  "TunnelCount m = length (m_tunnels m)"

definition Tunnels :: "'l Manager \<Rightarrow> 'l Tunnel list" where
  "Tunnels m = map snd (m_tunnels m)"

definition TunnelByID :: "string \<Rightarrow> 'l Manager \<Rightarrow> 'l Tunnel option" where
  "TunnelByID tid m = mget (m_tunnels m) tid"

definition Ports :: "'l Manager \<Rightarrow> int list" where
  "Ports m = map fst (ports m)"

definition nextSeq :: "'l Manager \<Rightarrow> 64 word \<times> 'l Manager" where
  "nextSeq m = (seq m + 1, m\<lparr>seq := seq m + 1\<rparr>)"

definition tunnel_id :: "64 word \<Rightarrow> string" where
  "tunnel_id n = ''t_'' @ nat_string (unat n)"

text \<open>
  What the operating system answers to the bind requests: for TCP the error text, if any; for UDP the
  outcome of each attempt and the text of the last failure.
\<close>

record os_listen =
  tcp_listen :: "string option"
  udp_listen :: "bool list"
  udp_listen_err :: string

text \<open>Opening the public listener of a new tunnel.\<close>

definition bind_listener :: "os_listen \<Rightarrow> 'l Manager \<Rightarrow> 'l Tunnel \<Rightarrow> register_err + 'l Tunnel" where
  "bind_listener os m t =
     (if t_Type t = ''udp''
      then case newUDPServerState (udp_listen os) (UDPMaxSessions m) (UDPMaxPacket m) (UDPIdleTimeout m) of
             None \<Rightarrow> Inl (UDPListenFailed (t_RemotePort t) (udp_listen_err os))
           | Some us \<Rightarrow> Inr (t\<lparr>t_udp := Some us\<rparr>)
      else case tcp_listen os of
             Some err \<Rightarrow> Inl (ListenFailed (t_RemotePort t) err)
           | None \<Rightarrow> Inr (t\<lparr>t_ln := True\<rparr>))"

definition mgr_Register ::
  "os_listen \<Rightarrow> string \<Rightarrow> string \<Rightarrow> int \<Rightarrow> string list \<Rightarrow> int \<Rightarrow> 'l Manager
    \<Rightarrow> (register_err + 'l Tunnel) \<times> 'l Manager" where
  "mgr_Register os name typ remotePort allowedPorts maxTunnels m =
     (if 0 < maxTunnels \<and> maxTunnels \<le> int (TunnelCount m) then (Inl (TunnelLimitReached maxTunnels), m)
      else if remotePort < 1 \<or> 65535 < remotePort then (Inl (InvalidRemotePort remotePort), m)
      else if \<not> portAllowed allowedPorts remotePort then (Inl (PortNotAllowed remotePort), m)
      else case mget (ports m) remotePort of
        Some owner \<Rightarrow> (Inl (PortInUse remotePort owner), m)
      | None \<Rightarrow>
          (let (n, m1) = nextSeq m;
               t = \<lparr>t_ID = tunnel_id n, t_Name = name, t_Type = typ, t_RemotePort = remotePort,
                    t_ln = False, t_VhostHost = '''', t_udp = None, t_ch = None\<rparr>
           in case bind_listener os m1 t of
                Inl e \<Rightarrow> (Inl e, m1)
              | Inr t' \<Rightarrow>
                  (Inr t', m1\<lparr>m_tunnels := mput (t_ID t') t' (m_tunnels m1),
                              ports := mput remotePort (t_ID t') (ports m1)\<rparr>)))"

definition AddVhostTunnel ::
  "string \<Rightarrow> string \<Rightarrow> int \<Rightarrow> 'l Manager \<Rightarrow> (register_err + 'l Tunnel) \<times> 'l Manager" where
  "AddVhostTunnel name host maxTunnels m =
     (if 0 < maxTunnels \<and> maxTunnels \<le> int (TunnelCount m) then (Inl (TunnelLimitReached maxTunnels), m)
      else let (n, m1) = nextSeq m;
               t = \<lparr>t_ID = tunnel_id n, t_Name = name, t_Type = ''http'', t_RemotePort = 0,
                    t_ln = False, t_VhostHost = host, t_udp = None, t_ch = None\<rparr>
           in (Inr t, m1\<lparr>m_tunnels := mput (t_ID t) t (m_tunnels m1)\<rparr>))"

definition closePendingConn :: "pendingConn \<Rightarrow> nat list" where
  "closePendingConn pc = (case pc_conn pc of None \<Rightarrow> [] | Some c \<Rightarrow> [c])"

text \<open>Closing and deleting the pending connections that satisfy a predicate.\<close>

definition drop_pending :: "(pendingConn \<Rightarrow> bool) \<Rightarrow> 'l Manager \<Rightarrow> 'l Manager" where
  "drop_pending P m =
     m\<lparr>closed := closed m @ concat (map (\<lambda>(i, pc). if P pc then closePendingConn pc else []) (pending m)),
       pending := mdel_where (\<lambda>i pc. P pc) (pending m)\<rparr>"

definition mgr_Unregister :: "string \<Rightarrow> 'l Manager \<Rightarrow> 'l Manager" where
  "mgr_Unregister tid m =
     (case mget (m_tunnels m) tid of
        None \<Rightarrow> m
      | Some t \<Rightarrow>
          (let m1 = m\<lparr>m_tunnels := mdel tid (m_tunnels m), ports := mdel (t_RemotePort t) (ports m)\<rparr>;
               m2 = drop_pending (\<lambda>pc. pc_tunnelID pc = tid) m1
           in case t_ch t of None \<Rightarrow> m2 | Some c \<Rightarrow> m2\<lparr>closed := closed m2 @ [c]\<rparr>))"

definition UnregisterAll :: "'l Manager \<Rightarrow> 'l Manager" where
  "UnregisterAll m = fold mgr_Unregister (map fst (m_tunnels m)) m"

definition NewConnID :: "bytes option \<Rightarrow> string option" where
  "NewConnID rnd = map_option hex_encode rnd"

definition OpenConnection ::
  "bytes option \<Rightarrow> instant \<Rightarrow> string \<Rightarrow> nat option \<Rightarrow> duration \<Rightarrow> 'l Manager \<Rightarrow> string option \<times> 'l Manager" where
  "OpenConnection rnd now tid publicConn claimTimeout m =
     (case NewConnID rnd of
        None \<Rightarrow> (None, m)
      | Some connID \<Rightarrow>
          (let d = (if claimTimeout \<le> 0 then 10 * second else claimTimeout)
           in (Some connID,
               m\<lparr>pending := mput connID \<lparr>pc_conn = publicConn, pc_tunnelID = tid, pc_deadline = now + d\<rparr> (pending m)\<rparr>)))"

datatype claim_err = UnknownConnID | ClaimTimeout | TunnelGone

definition ClaimData ::
  "instant \<Rightarrow> string \<Rightarrow> 'l Manager \<Rightarrow> (claim_err + (nat option \<times> 'l Tunnel)) \<times> 'l Manager" where
  "ClaimData now connID m =
     (case mget (pending m) connID of
        None \<Rightarrow> (Inl UnknownConnID, m)
      | Some pc \<Rightarrow>
          (let m1 = m\<lparr>pending := mdel connID (pending m)\<rparr>;
               m2 = m1\<lparr>closed := closed m1 @ closePendingConn pc\<rparr>
           in if pc_deadline pc < now then (Inl ClaimTimeout, m2)
              else case mget (m_tunnels m) (pc_tunnelID pc) of
                     None \<Rightarrow> (Inl TunnelGone, m2)
                   | Some t \<Rightarrow> (Inr (pc_conn pc, t), m1)))"

definition CleanupExpired :: "instant \<Rightarrow> 'l Manager \<Rightarrow> 'l Manager" where
  "CleanupExpired now m = drop_pending (\<lambda>pc. pc_deadline pc < now) m"

text \<open>
  Binding a UDP data channel: the old channel is closed and its read loop, on the error, clears the
  channel only if it is still its own.
\<close>

definition SetUDPChannel :: "string \<Rightarrow> nat \<Rightarrow> 'l Manager \<Rightarrow> 'l Manager" where
  "SetUDPChannel tid ch m =
     (case mget (m_tunnels m) tid of
        None \<Rightarrow> m
      | Some t \<Rightarrow>
          m\<lparr>m_tunnels := mput tid (t\<lparr>t_ch := Some ch\<rparr>) (m_tunnels m),
            closed := closed m @ (case t_ch t of None \<Rightarrow> [] | Some old \<Rightarrow> [old])\<rparr>)"

definition udpChannelDropped :: "string \<Rightarrow> nat \<Rightarrow> 'l Manager \<Rightarrow> 'l Manager" where
  "udpChannelDropped tid ch m =
     (case mget (m_tunnels m) tid of
        None \<Rightarrow> m\<lparr>closed := closed m @ [ch]\<rparr>
      | Some t \<Rightarrow>
          m\<lparr>m_tunnels := (if t_ch t = Some ch then mput tid (t\<lparr>t_ch := None\<rparr>) (m_tunnels m) else m_tunnels m),
            closed := closed m @ [ch]\<rparr>)"

section \<open>Error codes (control/server.go)\<close>

definition mapRegisterErr :: "string \<Rightarrow> string" where
  "mapRegisterErr msg =
     (if contains msg ''not allowed'' then ErrCodePortNotAllowed
      else if contains msg ''already in use'' then ErrCodePortInUse
      else if contains msg ''tunnel limit'' then ErrCodeTunnelLimit
      else if contains msg ''invalid'' then ErrCodeNameInvalid
      else ErrCodeInternal)"

section \<open>The invariant of the manager\<close>

text \<open>
  Ids are the numbers handed out so far; a tunnel with a public port owns that port in the port table
  and the port table names only live tunnels.
\<close>

definition mgr_inv :: "'l Manager \<Rightarrow> bool" where
  "mgr_inv m \<longleftrightarrow>
     mwf (m_tunnels m) \<and> mwf (ports m) \<and> mwf (pending m) \<and>
     (\<forall>tid t. mget (m_tunnels m) tid = Some t \<longrightarrow>
        t_ID t = tid \<and> (\<exists>n. 1 \<le> n \<and> n \<le> unat (seq m) \<and> tid = ''t_'' @ nat_string n) \<and>
        (t_RemotePort t \<noteq> 0 \<longrightarrow> mget (ports m) (t_RemotePort t) = Some tid)) \<and>
     (\<forall>p tid. mget (ports m) p = Some tid \<longrightarrow>
        1 \<le> p \<and> p \<le> 65535 \<and> (\<exists>t. mget (m_tunnels m) tid = Some t \<and> t_RemotePort t = p))"

lemma mgr_invI:
  assumes "mwf (m_tunnels m)" and "mwf (ports m)" and "mwf (pending m)"
    and "\<And>tid t. mget (m_tunnels m) tid = Some t \<Longrightarrow>
        t_ID t = tid \<and> (\<exists>n. 1 \<le> n \<and> n \<le> unat (seq m) \<and> tid = ''t_'' @ nat_string n) \<and>
        (t_RemotePort t \<noteq> 0 \<longrightarrow> mget (ports m) (t_RemotePort t) = Some tid)"
    and "\<And>p tid. mget (ports m) p = Some tid \<Longrightarrow>
        1 \<le> p \<and> p \<le> 65535 \<and> (\<exists>t. mget (m_tunnels m) tid = Some t \<and> t_RemotePort t = p)"
  shows "mgr_inv m"
  using assms unfolding mgr_inv_def by blast

lemma mgr_inv_tunnel:
  assumes "mgr_inv m" and "mget (m_tunnels m) tid = Some t"
  shows "t_ID t = tid \<and> (\<exists>n. 1 \<le> n \<and> n \<le> unat (seq m) \<and> tid = ''t_'' @ nat_string n) \<and>
     (t_RemotePort t \<noteq> 0 \<longrightarrow> mget (ports m) (t_RemotePort t) = Some tid)"
  using assms unfolding mgr_inv_def by blast

lemma mgr_inv_port:
  assumes "mgr_inv m" and "mget (ports m) p = Some tid"
  shows "1 \<le> p \<and> p \<le> 65535 \<and> (\<exists>t. mget (m_tunnels m) tid = Some t \<and> t_RemotePort t = p)"
  using assms unfolding mgr_inv_def by blast

lemma mgr_inv_wf: "mgr_inv m \<Longrightarrow> mwf (m_tunnels m) \<and> mwf (ports m) \<and> mwf (pending m)"
  unfolding mgr_inv_def by blast

text \<open>The invariant looks at the tables and the counter only.\<close>

lemma mgr_inv_cong:
  "mgr_inv m \<Longrightarrow> m_tunnels m' = m_tunnels m \<Longrightarrow> ports m' = ports m \<Longrightarrow> seq m' = seq m \<Longrightarrow> mwf (pending m') \<Longrightarrow> mgr_inv m'"
  by (simp add: mgr_inv_def)

lemma unat_seq_Suc:
  assumes "n \<noteq> - 1"
  shows "unat (n + 1 :: 64 word) = Suc (unat n)"
proof -
  have "unat n \<noteq> unat (- 1 :: 64 word)" using assms by (simp only: word_unat_eq_iff [symmetric] not_False_eq_True)
  moreover have "unat (- 1 :: 64 word) = 2 ^ 64 - 1" by code_simp
  moreover have "unat n < 2 ^ 64" using unsigned_less [of n, where ?'a = nat] by simp
  ultimately have "Suc (unat n) < 2 ^ 64" by linarith
  then show ?thesis by (simp add: unat_word_ariths(1))
qed

lemma fresh_tunnel_id:
  assumes inv: "mgr_inv m" and "seq m \<noteq> - 1"
  shows "mget (m_tunnels m) (tunnel_id (seq m + 1)) = None"
proof (rule ccontr)
  assume "mget (m_tunnels m) (tunnel_id (seq m + 1)) \<noteq> None"
  then obtain t where "mget (m_tunnels m) (tunnel_id (seq m + 1)) = Some t" by blast
  from mgr_inv_tunnel [OF inv this] obtain n where "n \<le> unat (seq m)" and "tunnel_id (seq m + 1) = ''t_'' @ nat_string n"
    by blast
  then show False using assms(2) by (simp add: tunnel_id_def unat_seq_Suc)
qed

lemma add_tunnel_inv:
  assumes inv: "mgr_inv m" and seq: "seq m \<noteq> - 1" and t: "t_ID t = tunnel_id (seq m + 1)"
    and port: "t_RemotePort t = 0 \<and> ps = ports m \<or>
       1 \<le> t_RemotePort t \<and> t_RemotePort t \<le> 65535 \<and> mget (ports m) (t_RemotePort t) = None \<and>
       ps = mput (t_RemotePort t) (t_ID t) (ports m)"
  shows "mgr_inv (m\<lparr>seq := seq m + 1, m_tunnels := mput (t_ID t) t (m_tunnels m), ports := ps\<rparr>)"
proof -
  note fresh = fresh_tunnel_id [OF inv seq] and wf = mgr_inv_wf [OF inv]
  have old: "x \<noteq> t_ID t" if "mget (m_tunnels m) x = Some t'" for x t' using that fresh t by auto
  show ?thesis
  proof (rule mgr_invI, goal_cases)
    case (4 tid t')
    show ?case
    proof (cases "tid = t_ID t")
      case True
      then show ?thesis using 4 port t seq by (auto simp: tunnel_id_def unat_seq_Suc intro: exI [of _ "Suc (unat (seq m))"])
    next
      case False
      then have "mget (m_tunnels m) tid = Some t'" using 4 by simp
      from mgr_inv_tunnel [OF inv this] show ?thesis using port seq by (auto simp: unat_seq_Suc intro: le_SucI)
    qed
  next
    case (5 p tid)
    show ?case
    proof (cases "mget (ports m) p = Some tid")
      case True
      then show ?thesis using mgr_inv_port [OF inv True] old by fastforce
    next
      case False
      then show ?thesis using 5 port by (auto split: if_splits)
    qed
  qed (use wf port in auto)
qed

lemma drop_pending_simps [simp]:
  "m_tunnels (drop_pending P m) = m_tunnels m" "ports (drop_pending P m) = ports m" "seq (drop_pending P m) = seq m"
  "pending (drop_pending P m) = mdel_where (\<lambda>i pc. P pc) (pending m)"
  by (simp_all add: drop_pending_def)

lemma drop_pending_inv: "mgr_inv m \<Longrightarrow> mgr_inv (drop_pending P m)"
  using mgr_inv_wf [of m] by (auto intro: mgr_inv_cong [of m])

lemma remove_tunnel_inv:
  assumes inv: "mgr_inv m" and t: "mget (m_tunnels m) tid = Some t"
  shows "mgr_inv (m\<lparr>m_tunnels := mdel tid (m_tunnels m), ports := mdel (t_RemotePort t) (ports m)\<rparr>)"
proof -
  note wf = mgr_inv_wf [OF inv]
  show ?thesis
  proof (rule mgr_invI, goal_cases)
    case (4 x t')
    then have x: "x \<noteq> tid" "mget (m_tunnels m) x = Some t'" by (auto split: if_splits)
    have "t_RemotePort t' \<noteq> t_RemotePort t" if "t_RemotePort t' \<noteq> 0"
      using that mgr_inv_tunnel [OF inv x(2)] mgr_inv_tunnel [OF inv t] x(1) by auto
    then show ?case using mgr_inv_tunnel [OF inv x(2)] by auto
  next
    case (5 p x)
    then have p: "p \<noteq> t_RemotePort t" "mget (ports m) p = Some x" by (auto split: if_splits)
    from mgr_inv_port [OF inv p(2)] show ?case using p(1) t by auto
  qed (use wf in auto)
qed

lemma mgr_Unregister_inv: "mgr_inv m \<Longrightarrow> mgr_inv (mgr_Unregister tid m)"
proof (cases "mget (m_tunnels m) tid")
  case (Some t)
  assume inv: "mgr_inv m"
  let ?m = "drop_pending (\<lambda>pc. pc_tunnelID pc = tid) (m\<lparr>m_tunnels := mdel tid (m_tunnels m), ports := mdel (t_RemotePort t) (ports m)\<rparr>)"
  have "mgr_inv ?m" by (rule drop_pending_inv [OF remove_tunnel_inv [OF inv Some]])
  moreover have "mgr_inv (?m\<lparr>closed := c\<rparr>)" for c
    using \<open>mgr_inv ?m\<close> by (rule mgr_inv_cong) (use mgr_inv_wf [OF inv] in simp_all)
  ultimately show ?thesis using Some by (auto simp: mgr_Unregister_def Let_def split: option.splits)
qed (simp add: mgr_Unregister_def)

lemma mgr_Unregister_simps:
  "mget (m_tunnels (mgr_Unregister tid m)) x = (if x = tid then None else mget (m_tunnels m) x)"
  "seq (mgr_Unregister tid m) = seq m"
  by (auto simp: mgr_Unregister_def Let_def split: option.splits)

lemma fold_Unregister:
  "mgr_inv m \<Longrightarrow> mgr_inv (fold mgr_Unregister tids m) \<and>
     (\<forall>x. mget (m_tunnels (fold mgr_Unregister tids m)) x = (if x \<in> set tids then None else mget (m_tunnels m) x))"
proof (induction tids arbitrary: m)
  case (Cons tid tids)
  from Cons.IH [OF mgr_Unregister_inv [OF Cons.prems, of tid]] show ?case
    by (auto simp: mgr_Unregister_simps)
qed simp

section \<open>The manager as a state machine\<close>

datatype mgr_event =
    EvRegister os_listen string string int "string list"
  | EvVhost string string
  | EvUnregister string
  | EvUnregisterAll
  | EvOpen "bytes option" instant string "nat option" duration
  | EvClaim instant string
  | EvCleanup instant
  | EvSetChannel string nat
  | EvChannelDropped string nat

text \<open>\<open>lm\<close> is the policy's limit on tunnels per client.\<close>

fun mgr_exec :: "int \<Rightarrow> mgr_event \<Rightarrow> 'l Manager \<Rightarrow> 'l Manager" where
  "mgr_exec lm (EvRegister os name typ port allowed) m = snd (mgr_Register os name typ port allowed lm m)"
| "mgr_exec lm (EvVhost name host) m = snd (AddVhostTunnel name host lm m)"
| "mgr_exec lm (EvUnregister tid) m = mgr_Unregister tid m"
| "mgr_exec lm EvUnregisterAll m = UnregisterAll m"
| "mgr_exec lm (EvOpen rnd now tid pub d) m = snd (OpenConnection rnd now tid pub d m)"
| "mgr_exec lm (EvClaim now cid) m = snd (ClaimData now cid m)"
| "mgr_exec lm (EvCleanup now) m = CleanupExpired now m"
| "mgr_exec lm (EvSetChannel tid ch) m = SetUDPChannel tid ch m"
| "mgr_exec lm (EvChannelDropped tid ch) m = udpChannelDropped tid ch m"

lemma mgr_Register_cases:
  assumes "mgr_Register os name typ port allowed lm m = (r, m')"
  obtains (rejected) e where "r = Inl e" and "m' = m"
  | (unbound) e where "r = Inl e" and "m' = m\<lparr>seq := seq m + 1\<rparr>"
  | (bound) t where "r = Inr t" and "t_ID t = tunnel_id (seq m + 1)" and "t_RemotePort t = port" and "t_VhostHost t = ''''"
      and "t_Name t = name" and "t_Type t = typ" and "t_ln t \<longleftrightarrow> typ \<noteq> ''udp''" and "t_udp t \<noteq> None \<longleftrightarrow> typ = ''udp''"
      and "\<not> (0 < lm \<and> lm \<le> int (TunnelCount m))" and "1 \<le> port" and "port \<le> 65535"
      and "portAllowed allowed port" and "mget (ports m) port = None"
      and "m' = m\<lparr>seq := seq m + 1, m_tunnels := mput (t_ID t) t (m_tunnels m), ports := mput port (t_ID t) (ports m)\<rparr>"
proof -
  let ?t = "\<lparr>t_ID = tunnel_id (seq m + 1), t_Name = name, t_Type = typ, t_RemotePort = port,
             t_ln = False, t_VhostHost = '''', t_udp = None, t_ch = None\<rparr>"
  show ?thesis
  proof (cases "(0 < lm \<and> lm \<le> int (TunnelCount m)) \<or> port < 1 \<or> 65535 < port \<or> \<not> portAllowed allowed port \<or> mget (ports m) port \<noteq> None")
    case True
    then have "\<exists>e. r = Inl e \<and> m' = m" using assms by (auto simp: mgr_Register_def split: if_splits)
    then show ?thesis using rejected by blast
  next
    case ok: False
    have lim: "(0 < lm \<and> lm \<le> int (TunnelCount m)) = False" using ok by blast
    have run: "(case bind_listener os (m\<lparr>seq := seq m + 1\<rparr>) ?t of
        Inl e \<Rightarrow> (Inl e, m\<lparr>seq := seq m + 1\<rparr>)
      | Inr t' \<Rightarrow> (Inr t', m\<lparr>seq := seq m + 1, m_tunnels := mput (t_ID t') t' (m_tunnels m), ports := mput port (t_ID t') (ports m)\<rparr>)) = (r, m')"
      using assms ok by (simp add: mgr_Register_def lim nextSeq_def Let_def del: not_less cong: sum.case_cong)
    show ?thesis
    proof (cases "bind_listener os (m\<lparr>seq := seq m + 1\<rparr>) ?t")
      case (Inl e)
      then have "r = Inl e" and "m' = m\<lparr>seq := seq m + 1\<rparr>" using run by auto
      then show ?thesis by (rule unbound)
    next
      case (Inr t)
      then have "t_ID t = tunnel_id (seq m + 1) \<and> t_RemotePort t = port \<and> t_VhostHost t = '''' \<and> t_Name t = name \<and>
          t_Type t = typ \<and> (t_ln t \<longleftrightarrow> typ \<noteq> ''udp'') \<and> (t_udp t \<noteq> None \<longleftrightarrow> typ = ''udp'')"
        by (auto simp: bind_listener_def split: if_splits option.splits)
      then show ?thesis using run ok Inr by (intro bound [of t]) auto
    qed
  qed
qed

lemma AddVhostTunnel_cases:
  assumes "AddVhostTunnel name host lm m = (r, m')"
  obtains (rejected) "r = Inl (TunnelLimitReached lm)" and "m' = m" and "0 < lm" and "lm \<le> int (TunnelCount m)"
  | (added) t where "r = Inr t" and "t_ID t = tunnel_id (seq m + 1)" and "t_RemotePort t = 0" and "t_VhostHost t = host"
      and "t_Name t = name" and "\<not> (0 < lm \<and> lm \<le> int (TunnelCount m))"
      and "m' = m\<lparr>seq := seq m + 1, m_tunnels := mput (t_ID t) t (m_tunnels m)\<rparr>"
  using assms by (auto simp: AddVhostTunnel_def nextSeq_def Let_def split: if_splits)

lemma seq_bump_inv:
  assumes inv: "mgr_inv m" and "seq m \<noteq> - 1"
  shows "mgr_inv (m\<lparr>seq := seq m + 1\<rparr>)"
  by (rule mgr_invI)
    (use mgr_inv_wf [OF inv] mgr_inv_tunnel [OF inv] mgr_inv_port [OF inv] assms(2)
      in \<open>fastforce simp: unat_seq_Suc intro: le_SucI\<close>)+

lemma ports_update_self: "ports m = ps \<Longrightarrow> m\<lparr>ports := ps\<rparr> = m"
  by auto

lemma mgr_Register_inv:
  assumes "mgr_inv m" and "seq m \<noteq> - 1" and "mgr_Register os name typ port allowed lm m = (r, m')"
  shows "mgr_inv m'"
  using assms(3)
proof (cases rule: mgr_Register_cases)
  case (bound t)
  then show ?thesis using add_tunnel_inv [OF assms(1,2), of t "mput port (t_ID t) (ports m)"] by simp
qed (use assms seq_bump_inv [OF assms(1,2)] in auto)

lemma AddVhostTunnel_inv:
  assumes "mgr_inv m" and "seq m \<noteq> - 1" and "AddVhostTunnel name host lm m = (r, m')"
  shows "mgr_inv m'"
  using assms(3)
proof (cases rule: AddVhostTunnel_cases)
  case (added t)
  then have "m' = m\<lparr>seq := seq m + 1, m_tunnels := mput (t_ID t) t (m_tunnels m), ports := ports m\<rparr>" by simp
  then show ?thesis using add_tunnel_inv [OF assms(1,2), of t "ports m"] added by simp
qed (use assms in auto)

lemma channel_inv:
  assumes inv: "mgr_inv m" and t: "mget (m_tunnels m) tid = Some t"
  shows "mgr_inv (m\<lparr>m_tunnels := mput tid (t\<lparr>t_ch := c\<rparr>) (m_tunnels m), closed := cl\<rparr>)"
proof (rule mgr_invI, goal_cases)
  case (4 x t')
  then show ?case using mgr_inv_tunnel [OF inv, of x t'] mgr_inv_tunnel [OF inv t] by (auto split: if_splits)
next
  case (5 p x)
  then show ?case using mgr_inv_port [OF inv, of p x] t by (auto split: if_splits)
qed (use mgr_inv_wf [OF inv] in auto)

lemma pending_inv: "mgr_inv m \<Longrightarrow> mwf ps \<Longrightarrow> mgr_inv (m\<lparr>pending := ps\<rparr>)"
  by (erule mgr_inv_cong) simp_all

lemma closed_inv: "mgr_inv m \<Longrightarrow> mgr_inv (m\<lparr>closed := cl\<rparr>)"
  by (simp add: mgr_inv_def)

lemma mgr_exec_inv:
  assumes inv: "mgr_inv m" and "seq m \<noteq> - 1"
  shows "mgr_inv (mgr_exec lm ev m)"
proof (cases ev)
  case (EvRegister os name ty port allowed)
  then show ?thesis using mgr_Register_inv [OF assms] by (metis mgr_exec.simps(1) prod.collapse)
next
  case (EvVhost name host)
  then show ?thesis using AddVhostTunnel_inv [OF assms] by (metis mgr_exec.simps(2) prod.collapse)
next
  case EvUnregisterAll
  then show ?thesis using fold_Unregister [OF inv] by (simp add: UnregisterAll_def)
next
  case (EvSetChannel tid ch)
  then show ?thesis using channel_inv [OF inv, of tid] inv by (auto simp: SetUDPChannel_def split: option.splits)
next
  case (EvChannelDropped tid ch)
  then show ?thesis
    using channel_inv [OF inv, of tid] closed_inv [OF inv] by (auto simp: udpChannelDropped_def split: option.splits)
next
  case (EvClaim now cid)
  have "mgr_inv (m\<lparr>pending := mdel cid (pending m)\<rparr>)" using inv mgr_inv_wf [OF inv] by (intro pending_inv) simp_all
  then show ?thesis using closed_inv inv by (fastforce simp: EvClaim ClaimData_def Let_def split: option.splits)
next
  case (EvOpen rnd now tid pub d)
  then show ?thesis using inv mgr_inv_wf [OF inv]
    by (auto simp: OpenConnection_def Let_def intro: pending_inv split: option.splits)
qed (use inv in \<open>simp_all add: mgr_Unregister_inv CleanupExpired_def drop_pending_inv\<close>)

lemma mgr_exec_seq: "unat (seq (mgr_exec lm ev m)) \<le> Suc (unat (seq m))"
proof -
  have bump: "unat (seq m + 1) \<le> Suc (unat (seq m))"
    by (cases "seq m = - 1") (simp_all add: unat_seq_Suc)
  have fold: "seq (fold mgr_Unregister tids m) = seq m" for tids
    by (induction tids arbitrary: m) (simp_all add: mgr_Unregister_simps)
  show ?thesis
  proof (cases ev)
    case (EvRegister os name ty port allowed)
    obtain r m' where run: "mgr_Register os name ty port allowed lm m = (r, m')" by fastforce
    then show ?thesis by (cases rule: mgr_Register_cases) (use bump in \<open>simp_all add: EvRegister run\<close>)
  next
    case (EvVhost name host)
    obtain r m' where run: "AddVhostTunnel name host lm m = (r, m')" by fastforce
    then show ?thesis by (cases rule: AddVhostTunnel_cases) (use bump in \<open>simp_all add: EvVhost run\<close>)
  qed (auto simp: UnregisterAll_def fold mgr_Unregister_simps OpenConnection_def ClaimData_def CleanupExpired_def
      SetUDPChannel_def udpChannelDropped_def Let_def split: option.splits)
qed

lemma length_Unregister: "TunnelCount (mgr_Unregister tid m) \<le> TunnelCount m"
  by (auto simp: mgr_Unregister_def TunnelCount_def Let_def length_mdel_le split: option.splits)

lemma mgr_exec_count:
  assumes "0 < lm" and "int (TunnelCount m) \<le> lm"
  shows "int (TunnelCount (mgr_exec lm ev m)) \<le> lm"
proof (cases ev)
  case (EvRegister os name ty port allowed)
  obtain r m' where run: "mgr_Register os name ty port allowed lm m = (r, m')" by fastforce
  then show ?thesis
    by (cases rule: mgr_Register_cases) (use assms in \<open>simp_all add: EvRegister run TunnelCount_def length_mput\<close>)
next
  case (EvVhost name host)
  obtain r m' where run: "AddVhostTunnel name host lm m = (r, m')" by fastforce
  then show ?thesis
    by (cases rule: AddVhostTunnel_cases) (use assms in \<open>simp_all add: EvVhost run TunnelCount_def length_mput\<close>)
next
  case (EvUnregister tid)
  then show ?thesis using assms length_Unregister [of tid m] by simp
next
  case EvUnregisterAll
  have "TunnelCount (fold mgr_Unregister tids m) \<le> TunnelCount m" for tids
    by (induction tids arbitrary: m) (auto intro: le_trans length_Unregister)
  then show ?thesis using assms EvUnregisterAll by (simp add: UnregisterAll_def) (meson of_nat_le_iff order_trans)
qed (use assms in \<open>auto simp: TunnelCount_def OpenConnection_def ClaimData_def CleanupExpired_def SetUDPChannel_def
      udpChannelDropped_def length_mput Let_def split: option.splits\<close>)

lemma NewManager_inv: "mgr_inv NewManager"
  by (simp add: mgr_inv_def NewManager_def)

lemma mgr_run_inv:
  "length evs < 2 ^ 64 \<Longrightarrow>
   mgr_inv (fold (mgr_exec lm) evs (NewManager :: 'l Manager)) \<and>
   unat (seq (fold (mgr_exec lm) evs (NewManager :: 'l Manager))) \<le> length evs"
proof (induction evs rule: rev_induct)
  case Nil
  then show ?case using NewManager_inv by (simp add: NewManager_def)
next
  case (snoc ev evs)
  let ?m = "fold (mgr_exec lm) evs (NewManager :: 'l Manager)"
  from snoc have IH: "mgr_inv ?m" "unat (seq ?m) \<le> length evs" by auto
  have "unat (- 1 :: 64 word) = 2 ^ 64 - 1" by code_simp
  then have "seq ?m \<noteq> - 1" using IH(2) snoc.prems by auto
  from mgr_exec_inv [OF IH(1) this, of lm ev] mgr_exec_seq [of lm ev ?m] IH(2) show ?case by simp
qed

lemma mgr_run_count:
  "0 < lm \<Longrightarrow> int (TunnelCount (fold (mgr_exec lm) evs NewManager)) \<le> lm"
  by (induction evs rule: rev_induct) (simp_all add: mgr_exec_count, simp add: NewManager_def TunnelCount_def)

lemma port_owner_unique:
  assumes inv: "mgr_inv m" and "mget (m_tunnels m) a = Some s" and "mget (m_tunnels m) b = Some t"
    and "t_RemotePort s = t_RemotePort t" and "t_RemotePort t \<noteq> 0"
  shows "a = b"
  using mgr_inv_tunnel [OF inv assms(2)] mgr_inv_tunnel [OF inv assms(3)] assms(4,5) by simp

lemma pending_exec:
  "mget (pending m) cid = None \<Longrightarrow> mwf (pending m) \<Longrightarrow> (\<And>rnd now tid pub d. ev = EvOpen rnd now tid pub d \<Longrightarrow> NewConnID rnd \<noteq> Some cid) \<Longrightarrow>
   mget (pending (mgr_exec lm ev m)) cid = None"
proof (cases ev)
  case (EvRegister os name ty port allowed)
  assume p: "mget (pending m) cid = None"
  obtain r m' where run: "mgr_Register os name ty port allowed lm m = (r, m')" by fastforce
  then show ?thesis by (cases rule: mgr_Register_cases) (use p in \<open>simp_all add: EvRegister run\<close>)
next
  case (EvVhost name host)
  assume p: "mget (pending m) cid = None"
  obtain r m' where run: "AddVhostTunnel name host lm m = (r, m')" by fastforce
  then show ?thesis by (cases rule: AddVhostTunnel_cases) (use p in \<open>simp_all add: EvVhost run\<close>)
next
  case EvUnregisterAll
  assume p: "mget (pending m) cid = None" and wf: "mwf (pending m)"
  have "mget (pending (mgr_Unregister tid m)) cid = None \<and> mwf (pending (mgr_Unregister tid m))"
    if "mget (pending m) cid = None" "mwf (pending m)" for tid and m :: "'a Manager"
    using that by (auto simp: mgr_Unregister_def Let_def mget_mdel_where split: option.splits)
  then have "mget (pending (fold mgr_Unregister tids m)) cid = None" for tids
    using p wf by (induction tids arbitrary: m) auto
  then show ?thesis by (simp add: EvUnregisterAll UnregisterAll_def)
qed (auto simp: mgr_Unregister_def OpenConnection_def ClaimData_def CleanupExpired_def SetUDPChannel_def
      udpChannelDropped_def Let_def mget_mdel_where split: option.splits)

section \<open>Properties\<close>

text \<open>
  C8: After any sequence of registrations, removals, openings, claims and clean-ups, every public port
  belongs to one live tunnel and every tunnel with a port owns it, no two tunnels of the client share a
  port or an id, and the client never has more tunnels than the policy allows.
\<close>

theorem manager_ports_exclusive:
  assumes "length evs < 2 ^ 64" and "m = fold (mgr_exec lm) evs NewManager"
  shows "mgr_inv m \<and> (0 < lm \<longrightarrow> int (TunnelCount m) \<le> lm) \<and>
     (\<forall>a b s t. mget (m_tunnels m) a = Some s \<and> mget (m_tunnels m) b = Some t \<and>
        t_RemotePort s = t_RemotePort t \<and> t_RemotePort t \<noteq> 0 \<longrightarrow> a = b)"
  using mgr_run_inv [OF assms(1)] mgr_run_count port_owner_unique [of m] unfolding assms(2) by blast

definition granting_os :: os_listen where
  "granting_os = \<lparr>tcp_listen = None, udp_listen = [False], udp_listen_err = ''''\<rparr>"

theorem manager_ports_exclusive_witness:
  "mgr_inv (fold (mgr_exec 4) [EvRegister granting_os ''a'' ''tcp'' 8080 [''*''], EvRegister granting_os ''b'' ''tcp'' 8080 [''*'']]
     (NewManager :: int Manager))"
  using manager_ports_exclusive [where evs = "[EvRegister granting_os ''a'' ''tcp'' 8080 [''*''], EvRegister granting_os ''b'' ''tcp'' 8080 [''*'']]"
      and m = "fold (mgr_exec 4) [EvRegister granting_os ''a'' ''tcp'' 8080 [''*''], EvRegister granting_os ''b'' ''tcp'' 8080 [''*'']] (NewManager :: int Manager)"
      and lm = 4]
  by simp

text \<open>
  C9: A pending public connection is handed to at most one data connection: once a connection id was
  claimed, no later claim of it succeeds, whatever happens in between short of the id being drawn
  again; and the claim that succeeded came before the deadline, for a live tunnel.
\<close>

theorem ClaimData_single_use:
  assumes inv: "mgr_inv m" and claim: "ClaimData now cid m = (Inr (c, t), m')"
    and fresh: "\<And>rnd t0 tid pub d. EvOpen rnd t0 tid pub d \<in> set evs \<Longrightarrow> NewConnID rnd \<noteq> Some cid"
    and few: "unat (seq m) + length evs < 2 ^ 64 - 1"
  shows "fst (ClaimData later cid (fold (mgr_exec lm) evs m')) = Inl UnknownConnID \<and>
     (\<exists>pc. mget (pending m) cid = Some pc \<and> now \<le> pc_deadline pc \<and> pc_conn pc = c \<and>
        mget (m_tunnels m) (pc_tunnelID pc) = Some t \<and> t_ID t = pc_tunnelID pc)"
proof
  from claim obtain pc where pc: "mget (pending m) cid = Some pc" "now \<le> pc_deadline pc" "pc_conn pc = c"
      "mget (m_tunnels m) (pc_tunnelID pc) = Some t" and m': "m' = m\<lparr>pending := mdel cid (pending m)\<rparr>"
    by (auto simp: ClaimData_def Let_def split: option.splits if_splits)
  show "\<exists>pc. mget (pending m) cid = Some pc \<and> now \<le> pc_deadline pc \<and> pc_conn pc = c \<and>
        mget (m_tunnels m) (pc_tunnelID pc) = Some t \<and> t_ID t = pc_tunnelID pc"
    using pc mgr_inv_tunnel [OF inv pc(4)] by blast
  have start: "mgr_inv m'" "mget (pending m') cid = None" "unat (seq m') = unat (seq m)"
    using inv mgr_inv_wf [OF inv] by (auto simp: m' intro: pending_inv)
  have big: "unat (- 1 :: 64 word) = 2 ^ 64 - 1" by code_simp
  have "mgr_inv (fold (mgr_exec lm) es m') \<and> mget (pending (fold (mgr_exec lm) es m')) cid = None \<and>
      unat (seq (fold (mgr_exec lm) es m')) \<le> unat (seq m) + length es"
    if "set es \<subseteq> set evs" "length es \<le> length evs" for es
    using that
  proof (induction es rule: rev_induct)
    case (snoc ev es)
    let ?n = "fold (mgr_exec lm) es m'"
    from snoc have IH: "mgr_inv ?n" "mget (pending ?n) cid = None" "unat (seq ?n) \<le> unat (seq m) + length es" by auto
    have "seq ?n \<noteq> - 1" using IH(3) few big snoc.prems by auto
    moreover have "mget (pending (mgr_exec lm ev ?n)) cid = None"
      using snoc.prems fresh mgr_inv_wf [OF IH(1)] by (intro pending_exec IH(2)) auto
    ultimately show ?case using IH mgr_exec_inv [OF IH(1)] mgr_exec_seq [of lm ev ?n] by simp
  qed (use start in simp)
  from this [of evs] show "fst (ClaimData later cid (fold (mgr_exec lm) evs m')) = Inl UnknownConnID"
    by (simp add: ClaimData_def)
qed

definition claimed_manager :: "int Manager" where
  "claimed_manager = fold (mgr_exec 4) [EvRegister granting_os ''a'' ''tcp'' 8080 [''*''],
     EvOpen (Some [1, 2]) 0 ''t_1'' (Some 77) 0] NewManager"

lemma claimed_manager_simp:
  "claimed_manager = NewManager\<lparr>seq := 1,
     m_tunnels := [(''t_1'', \<lparr>t_ID = ''t_1'', t_Name = ''a'', t_Type = ''tcp'', t_RemotePort = 8080, t_ln = True, t_VhostHost = '''', t_udp = None, t_ch = None\<rparr>)],
     ports := [(8080, ''t_1'')], pending := [(''0102'', \<lparr>pc_conn = Some 77, pc_tunnelID = ''t_1'', pc_deadline = 10 * second\<rparr>)]\<rparr>"
proof -
  have "nat_string 1 = ''1''" by code_simp
  moreover have "hex_encode [1, 2] = ''0102''" by code_simp
  moreover have "portAllowed [''*''] 8080" by code_simp
  ultimately show ?thesis
    by (simp add: claimed_manager_def mgr_Register_def nextSeq_def tunnel_id_def bind_listener_def granting_os_def
        NewManager_def TunnelCount_def OpenConnection_def NewConnID_def)
qed

theorem ClaimData_single_use_witness:
  "\<exists>m'. ClaimData 5 ''0102'' claimed_manager = (Inr (Some 77, snd (hd (m_tunnels claimed_manager))), m') \<and>
     fst (ClaimData 6 ''0102'' (fold (mgr_exec 4) [EvUnregister ''t_9''] m')) = Inl UnknownConnID"
proof -
  have inv: "mgr_inv claimed_manager"
    using mgr_run_inv [where ?'l = int, of "[EvRegister granting_os ''a'' ''tcp'' 8080 [''*''], EvOpen (Some [1, 2]) 0 ''t_1'' (Some 77) 0]" 4]
    by (simp add: claimed_manager_def)
  obtain m' where c: "ClaimData 5 ''0102'' claimed_manager = (Inr (Some 77, snd (hd (m_tunnels claimed_manager))), m')"
    by (simp add: ClaimData_def claimed_manager_simp)
  have "unat (seq claimed_manager) + length [EvUnregister ''t_9''] < 2 ^ 64 - 1" by (simp add: claimed_manager_simp)
  from ClaimData_single_use [OF inv c _ this] c show ?thesis by simp
qed

text \<open>What each failure of a registration is meant to be reported as; a failing bind is left to the system.\<close>

fun intended_code :: "register_err \<Rightarrow> string option" where
  "intended_code (TunnelLimitReached n) = Some ErrCodeTunnelLimit"
| "intended_code (InvalidRemotePort p) = Some ErrCodeNameInvalid"
| "intended_code (PortNotAllowed p) = Some ErrCodePortNotAllowed"
| "intended_code (PortInUse p owner) = Some ErrCodePortInUse"
| "intended_code (UDPListenFailed p os) = None"
| "intended_code (ListenFailed p os) = None"

lemma not_contains: "c \<in> set sub \<Longrightarrow> c \<notin> set s \<Longrightarrow> \<not> contains s sub"
  using contains_set by blast

lemma Itoa_letter: "\<not> is_digit c \<Longrightarrow> c \<noteq> CHR ''-'' \<Longrightarrow> c \<notin> set (Itoa n)"
  using Itoa_chars [of n] by blast

text \<open>
  The error code in a registration response is the intended one for every failure the manager
  detects itself: the classification by substrings of the message does not mix them up.
\<close>
theorem mapRegisterErr_intended:
  assumes "intended_code e = Some cd" and "\<And>p owner. e = PortInUse p owner \<Longrightarrow> \<exists>n. owner = tunnel_id n"
  shows "mapRegisterErr (register_msg e) = cd"
proof (cases e)
  case (TunnelLimitReached n)
  have "\<not> contains (register_msg e) ''not allowed''"
    by (rule not_contains [of "CHR ''w''"]) (auto simp: TunnelLimitReached Itoa_letter is_digit_def code_def)
  moreover have "\<not> contains (register_msg e) ''already in use''"
    by (rule not_contains [of "CHR ''y''"]) (auto simp: TunnelLimitReached Itoa_letter is_digit_def code_def)
  moreover have "contains (register_msg e) ''tunnel limit''"
    by (simp add: TunnelLimitReached)
  ultimately show ?thesis using assms by (simp add: mapRegisterErr_def TunnelLimitReached)
next
  case (InvalidRemotePort p)
  have "\<not> contains (register_msg e) ''not allowed''"
    by (rule not_contains [of "CHR ''w''"]) (auto simp: InvalidRemotePort Itoa_letter is_digit_def code_def)
  moreover have "\<not> contains (register_msg e) ''already in use''"
    by (rule not_contains [of "CHR ''y''"]) (auto simp: InvalidRemotePort Itoa_letter is_digit_def code_def)
  moreover have "\<not> contains (register_msg e) ''tunnel limit''"
    by (rule not_contains [of "CHR ''u''"]) (auto simp: InvalidRemotePort Itoa_letter is_digit_def code_def)
  moreover have "contains (register_msg e) ''invalid''" by (simp add: InvalidRemotePort)
  ultimately show ?thesis using assms by (simp add: mapRegisterErr_def InvalidRemotePort)
next
  case (PortNotAllowed p)
  have "contains ((''remote port '' @ Itoa p @ '' '') @ ''not allowed'' @ '' by policy'') ''not allowed''" by (rule contains_mid)
  then show ?thesis using assms by (simp add: mapRegisterErr_def PortNotAllowed)
next
  case (PortInUse p owner)
  with assms(2) obtain n where owner: "owner = tunnel_id n" by blast
  have "CHR ''w'' \<notin> set (nat_string (unat n))" by (rule nat_string_no_char) (simp add: is_digit_def code_def)
  then have "\<not> contains (register_msg e) ''not allowed''"
    by (intro not_contains [of "CHR ''w''"]) (auto simp: PortInUse owner tunnel_id_def Itoa_letter is_digit_def code_def)
  moreover have "contains ((''remote port '' @ Itoa p @ '' '') @ ''already in use'' @ ('' by '' @ owner)) ''already in use''" by (rule contains_mid)
  ultimately show ?thesis using assms by (simp add: mapRegisterErr_def PortInUse)
qed (use assms in auto)

theorem mapRegisterErr_intended_witness:
  "mapRegisterErr (register_msg (PortInUse 8080 (tunnel_id 3))) = ErrCodePortInUse"
  by (rule mapRegisterErr_intended) auto

end
