(* ===== verification/Config.thy ===== *)
theory Config
  imports Complex_Main Acl
begin

text \<open>
  \<^verbatim>\<open>internal/config\<close>: the server and client configuration records, their defaults (server.go,
  client.go) and the schema validation (validate.go), including the defaults that validation fills in
  for legacy files. An error is the path of the rejected field; the message texts are not modelled.
  Durations are read by a model of \<^verbatim>\<open>time.ParseDuration\<close> (decimal fractions are exact here, where Go
  rounds through floating point); \<^verbatim>\<open>float64\<close> fields are rationals; paths follow the Unix rules of
  \<^verbatim>\<open>path/filepath\<close>. The parsing of TOML and the reflection-based overlay merge (resolve.go) are not part
  of this theory.
\<close>

section \<open>Configuration records\<close>

record ServerConfig =
  StateDir :: string
  ControlAddr :: string
  EnrollAddr :: string
  EnrollEnabled :: bool
  HTTPVhostPort :: int
  cp_AllowedPorts :: "string list"
  MaxTunnelsPerClient :: int
  MaxConnsPerClient :: int
  MaxConnsPerTunnel :: int
  BandwidthBpsPerClient :: int
  BandwidthBpsPerTunnel :: int
  cp_AllowedTargets :: "string list"
  UDPMaxSessionsPerTunnel :: int
  cp_UDPMaxPacket :: int
  UDPSessionIdleTimeout :: string
  hb_IntervalS :: int
  hb_TimeoutS :: int
  hb_MissThreshold :: int
  CAValidityYears :: int
  ClientCertValidityDays :: int
  TokenTTL :: string
  log_Level :: string
  log_Format :: string
  log_File :: string

definition DefaultServerConfig :: ServerConfig where
  "DefaultServerConfig =
     \<lparr>StateDir = '''', ControlAddr = ''0.0.0.0:7000'', EnrollAddr = ''0.0.0.0:7001'', EnrollEnabled = True,
      HTTPVhostPort = 0, cp_AllowedPorts = [''20000-29999''], MaxTunnelsPerClient = 16,
      MaxConnsPerClient = 256, MaxConnsPerTunnel = 128, BandwidthBpsPerClient = 0,
      BandwidthBpsPerTunnel = 0, cp_AllowedTargets = [''10.0.0.0/8:*''], UDPMaxSessionsPerTunnel = 256,
      cp_UDPMaxPacket = 1500, UDPSessionIdleTimeout = ''60s'', hb_IntervalS = 15, hb_TimeoutS = 10,
      hb_MissThreshold = 2, CAValidityYears = 10, ClientCertValidityDays = 90, TokenTTL = ''1h'',
      log_Level = ''info'', log_Format = ''json'', log_File = ''''\<rparr>"

record TunnelConfig =
  tc_Name :: string
  tc_Type :: string
  tc_RemotePort :: int
  tc_LocalIP :: string
  tc_LocalPort :: int
  tc_HTTPHost :: string
  tc_Enabled :: bool
  tc_IdleTimeout :: string

record ClientConfig =
  ServerAddr :: string
  CAFingerprint :: string
  InitialBackoff :: string
  MaxBackoff :: string
  Jitter :: rat
  HeartbeatEnabled :: bool
  cl_Level :: string
  cl_Format :: string
  cl_File :: string
  cc_Tunnels :: "TunnelConfig list"

definition DefaultClientConfig :: ClientConfig where
  "DefaultClientConfig =
     \<lparr>ServerAddr = '''', CAFingerprint = '''', InitialBackoff = ''1s'', MaxBackoff = ''60s'', Jitter = 1 / 5,
      HeartbeatEnabled = True, cl_Level = ''info'', cl_Format = ''text'', cl_File = '''', cc_Tunnels = []\<rparr>"

section \<open>Durations\<close>

definition unit_ns :: "string \<Rightarrow> int option" where
  "unit_ns u =
     (if u = ''ns'' then Some 1
      else if u = ''us'' \<or> u = map char_of [194, 181, 115 :: nat] \<or> u = map char_of [206, 188, 115 :: nat] then Some 1000
      else if u = ''ms'' then Some millisecond
      else if u = ''s'' then Some second
      else if u = ''m'' then Some minute
      else if u = ''h'' then Some hour
      else None)"

text \<open>
  The groups of a duration: digits, an optional fraction, a unit; \<open>acc\<close> is the sum so far. The sum and
  each product must stay within \<^verbatim>\<open>1<<63\<close>. The fuel is the length of the text, of which every group
  takes at least one character.
\<close>

fun duration_groups :: "nat \<Rightarrow> string \<Rightarrow> int \<Rightarrow> int option" where
  "duration_groups 0 s acc = (if s = [] then Some acc else None)"
| "duration_groups (Suc n) s acc =
     (if s = [] then Some acc
      else let ds = takeWhile is_digit s; r1 = dropWhile is_digit s;
               frac = (if has_prefix r1 ''.'' then takeWhile is_digit (tl r1) else []);
               r2 = (if has_prefix r1 ''.'' then dropWhile is_digit (tl r1) else r1);
               u = takeWhile (\<lambda>c. c \<noteq> CHR ''.'' \<and> \<not> is_digit c) r2;
               r3 = dropWhile (\<lambda>c. c \<noteq> CHR ''.'' \<and> \<not> is_digit c) r2
           in if ds = [] \<and> frac = [] \<or> u = [] then None
              else case unit_ns u of
                     None \<Rightarrow> None
                   | Some k \<Rightarrow>
                       (let v = int (dec_value ds) * k + int (dec_value frac) * k div 10 ^ length frac
                        in if 2 ^ 63 < v \<or> 2 ^ 63 < acc + v then None else duration_groups n r3 (acc + v)))"

definition ParseDuration :: "string \<Rightarrow> int option" where
  "ParseDuration s0 =
     (let neg = has_prefix s0 ''-'';
          s = (if neg \<or> has_prefix s0 ''+'' then tl s0 else s0)
      in if s = ''0'' then Some 0
         else if s = [] then None
         else case duration_groups (length s) s 0 of
                None \<Rightarrow> None
              | Some d \<Rightarrow> if neg then Some (- d) else if 2 ^ 63 - 1 < d then None else Some d)"

section \<open>Shared validation helpers\<close>

definition is_alnum :: "char \<Rightarrow> bool" where
  "is_alnum c \<longleftrightarrow> is_lower c \<or> is_upper c \<or> is_digit c"

text \<open>One label of \<^verbatim>\<open>rfc1123Hostname\<close>.\<close>

definition rfc1123_label :: "string \<Rightarrow> bool" where
  "rfc1123_label l \<longleftrightarrow>
     1 \<le> length l \<and> length l \<le> 63 \<and> is_alnum (hd l) \<and> is_alnum (last l) \<and>
     list_all (\<lambda>c. is_alnum c \<or> c = CHR ''-'') l"

definition cfg_validHostname :: "string \<Rightarrow> bool" where
  "cfg_validHostname h \<longleftrightarrow> length h \<le> 253 \<and> list_all rfc1123_label (split_on (CHR ''.'') h)"

definition hex64 :: "string \<Rightarrow> bool" where
  "hex64 s \<longleftrightarrow> length s = 64 \<and> list_all (\<lambda>c. hex_value c \<noteq> None) s"

definition validHostOrIP :: "string \<Rightarrow> bool" where
  "validHostOrIP s = (if s = [] then False else if ParseIP s \<noteq> None then True else cfg_validHostname s)"

definition cfg_splitHostPort :: "string \<Rightarrow> (string \<times> int) option" where
  "cfg_splitHostPort addr =
     (if addr = [] then None
      else case SplitHostPort addr of
        None \<Rightarrow> None
      | Some (host, portStr) \<Rightarrow>
          (case Atoi portStr of
             None \<Rightarrow> None
           | Some p \<Rightarrow> if p < 1 \<or> 65535 < p then None else Some (host, p)))"

definition validDuration :: "string \<Rightarrow> bool" where
  "validDuration s = (ParseDuration s \<noteq> None)"

text \<open>The segments between slashes and backslashes.\<close>

definition path_segments :: "string \<Rightarrow> string list" where
  "path_segments p = concat (map (split_on (CHR 0x5C)) (split_on (CHR ''/'') p))"

definition validateAbsPath :: "string \<Rightarrow> bool" where
  "validateAbsPath p \<longleftrightarrow> p \<noteq> [] \<and> has_prefix p ''/'' \<and> ''..'' \<notin> set (path_segments p)"

definition validLogLevel :: "(string \<Rightarrow> string) \<Rightarrow> string \<Rightarrow> bool" where
  "validLogLevel ucase l \<longleftrightarrow> to_lower ucase l \<in> {''debug'', ''info'', ''warn'', ''warning'', ''error''}"

definition validLogFormat :: "(string \<Rightarrow> string) \<Rightarrow> string \<Rightarrow> bool" where
  "validLogFormat ucase f \<longleftrightarrow> to_lower ucase f \<in> {''json'', ''text'', ''''}"

text \<open>\<^verbatim>\<open>filepath.Clean\<close> of a relative path is \<^verbatim>\<open>.\<close> when its segments cancel out.\<close>

fun clean_segments :: "string list \<Rightarrow> string list \<Rightarrow> string list" where
  "clean_segments [] st = rev st"
| "clean_segments (g # gs) st =
     (if g = '''' \<or> g = ''.'' then clean_segments gs st
      else if g = ''..'' \<and> st \<noteq> [] \<and> hd st \<noteq> ''..'' then clean_segments gs (tl st)
      else clean_segments gs (g # st))"

definition validLogFile :: "string \<Rightarrow> bool" where
  "validLogFile f \<longleftrightarrow> f = [] \<or> has_prefix f ''/'' \<or> clean_segments (split_on (CHR ''/'') f) [] \<noteq> []"

definition cfg_parsePortRange :: "string \<Rightarrow> (int \<times> int) option" where
  "cfg_parsePortRange s0 =
     (let s = trim_space s0
      in case (case cut (CHR ''-'') s of
                 Some (lo, hi) \<Rightarrow>
                   if CHR ''-'' \<in> set hi \<or> lo = [] \<or> hi = [] then None else Some (lo, hi)
               | None \<Rightarrow> Some (s, s)) of
           None \<Rightarrow> None
         | Some (lo, hi) \<Rightarrow>
             (case (Atoi lo, Atoi hi) of
                (Some a, Some b) \<Rightarrow> if a < 1 \<or> 65535 < b \<or> b < a then None else Some (a, b)
              | _ \<Rightarrow> None))"

definition rangeContainsPort :: "int \<Rightarrow> int \<Rightarrow> int \<Rightarrow> bool" where
  "rangeContainsPort lo hi p \<longleftrightarrow> lo \<le> p \<and> p \<le> hi"

definition cfg_parseTarget :: "string \<Rightarrow> bool" where
  "cfg_parseTarget t0 =
     (let t = trim_space t0
      in case last_index_byte t (CHR '':'') of
           None \<Rightarrow> False
         | Some i \<Rightarrow>
             if i = 0 \<or> i = length t - 1 then False
             else if \<not> parse_prefix_ok (take i t) then False
             else drop (Suc i) t = ''*'' \<or> cfg_parsePortRange (drop (Suc i) t) \<noteq> None)"

definition validLocalIP :: "string \<Rightarrow> bool" where
  "validLocalIP s =
     (if s = [] then False
      else case ParseIP s of
        None \<Rightarrow> cfg_validHostname s
      | Some x \<Rightarrow> \<not> IsUnspecified x \<and> \<not> IsMulticast x \<and> \<not> IsLinkLocalUnicast x)"

definition checkRange :: "int \<Rightarrow> int \<Rightarrow> int \<Rightarrow> bool" where
  "checkRange v lo hi \<longleftrightarrow> \<not> (v < lo \<or> hi < v)"

section \<open>Server validation\<close>

text \<open>The checks of a validator, in order: the field of the first one that fails.\<close>

fun first_bad :: "(bool \<times> string) list \<Rightarrow> string option" where
  "first_bad [] = None"
| "first_bad ((ok, field) # cs) = (if \<not> ok then Some field else first_bad cs)"

definition fill_server :: "ServerConfig \<Rightarrow> ServerConfig" where
  "fill_server c = c
     \<lparr>cp_AllowedPorts := (if cp_AllowedPorts c = [] then [''20000-29999''] else cp_AllowedPorts c),
      MaxTunnelsPerClient := (if MaxTunnelsPerClient c = 0 then 16 else MaxTunnelsPerClient c),
      MaxConnsPerClient := (if MaxConnsPerClient c = 0 then 256 else MaxConnsPerClient c),
      MaxConnsPerTunnel := (if MaxConnsPerTunnel c = 0 then 128 else MaxConnsPerTunnel c),
      cp_AllowedTargets := (if cp_AllowedTargets c = [] then [''10.0.0.0/8:*''] else cp_AllowedTargets c),
      UDPMaxSessionsPerTunnel := (if UDPMaxSessionsPerTunnel c = 0 then 256 else UDPMaxSessionsPerTunnel c),
      cp_UDPMaxPacket := (if cp_UDPMaxPacket c = 0 then 1500 else cp_UDPMaxPacket c),
      UDPSessionIdleTimeout := (if UDPSessionIdleTimeout c = [] then ''60s'' else UDPSessionIdleTimeout c),
      hb_IntervalS := (if hb_IntervalS c = 0 then 15 else hb_IntervalS c),
      hb_TimeoutS := (if hb_TimeoutS c = 0 then 10 else hb_TimeoutS c),
      hb_MissThreshold := (if hb_MissThreshold c = 0 then 2 else hb_MissThreshold c),
      log_Level := (if log_Level c = [] then ''info'' else log_Level c),
      CAValidityYears := (if CAValidityYears c = 0 then 10 else CAValidityYears c),
      ClientCertValidityDays := (if ClientCertValidityDays c = 0 then 90 else ClientCertValidityDays c),
      TokenTTL := (if TokenTTL c = [] then ''1h'' else TokenTTL c)\<rparr>"

definition enroll_port :: "ServerConfig \<Rightarrow> int" where
  "enroll_port c = (case cfg_splitHostPort (EnrollAddr c) of None \<Rightarrow> 0 | Some (_, p) \<Rightarrow> p)"

definition control_port :: "ServerConfig \<Rightarrow> int" where
  "control_port c = (case cfg_splitHostPort (ControlAddr c) of None \<Rightarrow> 0 | Some (_, p) \<Rightarrow> p)"

text \<open>One entry of \<^verbatim>\<open>policy.allowed_ports\<close>: a range that does not cover a listener of the server.\<close>

definition port_range_ok :: "int \<Rightarrow> int \<Rightarrow> string \<Rightarrow> bool" where
  "port_range_ok ctl enr pr =
     (case cfg_parsePortRange pr of
        None \<Rightarrow> False
      | Some (lo, hi) \<Rightarrow> \<not> rangeContainsPort lo hi ctl \<and> \<not> (enr \<noteq> 0 \<and> rangeContainsPort lo hi enr))"

definition host_of :: "string \<Rightarrow> string" where
  "host_of addr = (case cfg_splitHostPort addr of None \<Rightarrow> [] | Some (h, _) \<Rightarrow> h)"

definition server_checks :: "(string \<Rightarrow> string) \<Rightarrow> ServerConfig \<Rightarrow> (bool \<times> string) list" where
  "server_checks ucase c =
     [(StateDir c \<noteq> [] \<and> validateAbsPath (StateDir c), ''state_dir''),
      (cfg_splitHostPort (ControlAddr c) \<noteq> None \<and> validHostOrIP (host_of (ControlAddr c)), ''listen.control_addr''),
      (EnrollAddr c = [] \<or> cfg_splitHostPort (EnrollAddr c) \<noteq> None \<and> validHostOrIP (host_of (EnrollAddr c)),
       ''listen.enroll_addr''),
      (HTTPVhostPort c = 0 \<or> 1 \<le> HTTPVhostPort c \<and> HTTPVhostPort c \<le> 65535, ''listen.http_vhost_port''),
      (list_all (port_range_ok (control_port c) (if EnrollAddr c = [] then 0 else enroll_port c)) (cp_AllowedPorts c),
       ''policy.allowed_ports''),
      (checkRange (MaxTunnelsPerClient c) 1 1024, ''policy.max_tunnels_per_client''),
      (checkRange (MaxConnsPerClient c) 1 100000, ''policy.max_conns_per_client''),
      (checkRange (MaxConnsPerTunnel c) 1 100000, ''policy.max_conns_per_tunnel''),
      (0 \<le> BandwidthBpsPerClient c, ''policy.bandwidth_bps_per_client''),
      (0 \<le> BandwidthBpsPerTunnel c, ''policy.bandwidth_bps_per_tunnel''),
      (cp_AllowedTargets c \<noteq> [] \<and> list_all cfg_parseTarget (cp_AllowedTargets c), ''policy.allowed_targets''),
      (checkRange (UDPMaxSessionsPerTunnel c) 1 1048576, ''policy.udp_max_sessions_per_tunnel''),
      (checkRange (cp_UDPMaxPacket c) 1 65507, ''policy.udp_max_packet''),
      (validDuration (UDPSessionIdleTimeout c), ''policy.udp_session_idle_timeout''),
      (checkRange (hb_IntervalS c) 5 300, ''heartbeat.interval_s''),
      (checkRange (hb_TimeoutS c) 1 300, ''heartbeat.timeout_s''),
      (checkRange (hb_MissThreshold c) 1 100, ''heartbeat.miss_threshold''),
      (checkRange (CAValidityYears c) 1 100, ''pki.ca_validity_years''),
      (checkRange (ClientCertValidityDays c) 1 825, ''pki.client_cert_validity_days''),
      (case ParseDuration (TokenTTL c) of None \<Rightarrow> False | Some d \<Rightarrow> 0 < d \<and> d \<le> 24 * hour, ''pki.token_ttl''),
      (validLogLevel ucase (log_Level c), ''logging.level''),
      (validLogFormat ucase (log_Format c), ''logging.format''),
      (validLogFile (log_File c), ''logging.file'')]"

definition ValidateServer :: "(string \<Rightarrow> string) \<Rightarrow> ServerConfig \<Rightarrow> string + ServerConfig" where
  "ValidateServer ucase c0 =
     (let c = fill_server c0
      in case first_bad (server_checks ucase c) of Some field \<Rightarrow> Inl field | None \<Rightarrow> Inr c)"

section \<open>Client validation\<close>

definition fill_client :: "ClientConfig \<Rightarrow> ClientConfig" where
  "fill_client c = c
     \<lparr>InitialBackoff := (if InitialBackoff c = [] then ''1s'' else InitialBackoff c),
      MaxBackoff := (if MaxBackoff c = [] then ''60s'' else MaxBackoff c),
      Jitter := (if Jitter c = 0 then 1 / 5 else Jitter c),
      HeartbeatEnabled := (HeartbeatEnabled c \<or> cl_Level c = []),
      cl_Level := (if cl_Level c = [] then ''info'' else cl_Level c),
      cl_Format := (if cl_Format c = [] then ''text'' else cl_Format c)\<rparr>"

text \<open>The checks of one tunnel; \<open>seen\<close> are the names before it.\<close>

definition tunnel_checks :: "string list \<Rightarrow> TunnelConfig \<Rightarrow> (bool \<times> string) list" where
  "tunnel_checks seen t =
     [(tunnelNameRe (tc_Name t), ''name''),
      (tc_Name t \<notin> set seen, ''name''),
      (tc_Type t \<in> {''tcp'', ''udp'', ''https'', ''http''}, ''type''),
      (tc_Type t \<in> {''tcp'', ''udp'', ''https''} \<longrightarrow> checkRange (tc_RemotePort t) 1 65535, ''remote_port''),
      (tc_Type t = ''http'' \<and> tc_RemotePort t \<noteq> 0 \<longrightarrow> checkRange (tc_RemotePort t) 1 65535, ''remote_port''),
      (\<not> (tc_Type t = ''http'' \<and> tc_HTTPHost t = [] \<and> tc_RemotePort t = 0), ''http_host''),
      (validLocalIP (tc_LocalIP t), ''local_ip''),
      (checkRange (tc_LocalPort t) 1 65535, ''local_port''),
      (tc_HTTPHost t = [] \<or> cfg_validHostname (tc_HTTPHost t), ''http_host''),
      (tc_IdleTimeout t = [] \<or> validDuration (tc_IdleTimeout t), ''idle_timeout'')]"

fun tunnels_bad :: "string list \<Rightarrow> TunnelConfig list \<Rightarrow> string option" where
  "tunnels_bad seen [] = None"
| "tunnels_bad seen (t # ts) =
     (case first_bad (tunnel_checks seen t) of
        Some field \<Rightarrow> Some (''tunnels['' @ Itoa (int (length seen)) @ ''].'' @ field)
      | None \<Rightarrow> tunnels_bad (seen @ [tc_Name t]) ts)"

definition client_checks :: "(string \<Rightarrow> string) \<Rightarrow> ClientConfig \<Rightarrow> (bool \<times> string) list" where
  "client_checks ucase c =
     [(ServerAddr c \<noteq> [] \<and> cfg_splitHostPort (ServerAddr c) \<noteq> None \<and> validHostOrIP (host_of (ServerAddr c)),
       ''server_addr''),
      (CAFingerprint c = [] \<or> hex64 (CAFingerprint c), ''ca_fingerprint''),
      (validDuration (InitialBackoff c), ''reconnect.initial_backoff''),
      (case ParseDuration (MaxBackoff c) of None \<Rightarrow> False | Some d \<Rightarrow> d \<le> 10 * minute, ''reconnect.max_backoff''),
      (0 \<le> Jitter c \<and> Jitter c \<le> 1, ''reconnect.jitter''),
      (validLogLevel ucase (cl_Level c), ''logging.level''),
      (validLogFormat ucase (cl_Format c), ''logging.format''),
      (validLogFile (cl_File c), ''logging.file'')]"

definition ValidateClient :: "(string \<Rightarrow> string) \<Rightarrow> ClientConfig \<Rightarrow> string + ClientConfig" where
  "ValidateClient ucase c0 =
     (let c = fill_client c0
      in case first_bad (client_checks ucase c) of
           Some field \<Rightarrow> Inl field
         | None \<Rightarrow> (case tunnels_bad [] (cc_Tunnels c) of Some field \<Rightarrow> Inl field | None \<Rightarrow> Inr c))"

section \<open>Lemmas\<close>

lemma first_bad_None: "first_bad cs = None \<longleftrightarrow> list_all fst cs"
  by (induction cs rule: first_bad.induct) auto

lemma fill_server_idem: "fill_server (fill_server c) = fill_server c"
  by (simp add: fill_server_def)

lemma fill_client_idem: "fill_client (fill_client c) = fill_client c"
  by (simp add: fill_client_def)

lemma ValidateServer_Inr:
  "ValidateServer ucase c = Inr c' \<longleftrightarrow> c' = fill_server c \<and> list_all fst (server_checks ucase c')"
  by (auto simp: ValidateServer_def Let_def first_bad_None [symmetric] split: option.splits)

lemma server_checks_ports:
  "list_all fst (server_checks ucase c) \<Longrightarrow>
     cfg_splitHostPort (ControlAddr c) \<noteq> None \<and> (EnrollAddr c = [] \<or> cfg_splitHostPort (EnrollAddr c) \<noteq> None) \<and>
     list_all (port_range_ok (control_port c) (if EnrollAddr c = [] then 0 else enroll_port c)) (cp_AllowedPorts c)"
  by (simp add: server_checks_def) blast

text \<open>An entry that both sides read is read alike: what the manager admits lies in the range the validator saw.\<close>

lemma cut_ends:
  assumes "cut c s = Some (a, b)" and "a \<noteq> []" and "b \<noteq> []"
  shows "hd s = hd a \<and> last s = last b \<and> s \<noteq> []"
  using cut_Some [OF assms(1)] assms(2,3) by (auto simp: hd_append)

lemma port_entry_in_range:
  assumes "port_entry p e" and range: "cfg_parsePortRange e = Some (lo, hi)"
  shows "lo \<le> p \<and> p \<le> hi"
proof (cases "cut (CHR ''-'') e")
  case None
  have "e \<noteq> ''*''"
  proof
    assume "e = ''*''"
    moreover have "cfg_parsePortRange ''*'' = None" by code_simp
    ultimately show False using range by simp
  qed
  then have at: "Atoi e = Some p" using assms(1) None by (simp add: port_entry_def)
  then have "trim_space e = e" using Atoi_ends [OF at] by (auto intro: trim_space_graph)
  then show ?thesis using range None at by (auto simp: cfg_parsePortRange_def Let_def split: if_splits)
next
  case (Some ab)
  obtain a b where ab: "ab = (a, b)" by fastforce
  note cut = Some [unfolded ab]
  have "e \<noteq> ''*''" using cut_Some [OF cut] by (auto simp: append_eq_Cons_conv)
  then obtain x y where x: "Atoi a = Some x" and y: "Atoi b = Some y" and p: "x \<le> p" "p \<le> y"
    using assms(1) cut by (auto simp: port_entry_def split: option.splits)
  have "trim_space e = e"
    using cut_ends [OF cut] Atoi_ends [OF x] Atoi_ends [OF y] by (auto intro: trim_space_graph)
  then show ?thesis using range cut x y p by (auto simp: cfg_parsePortRange_def Let_def split: if_splits)
qed

lemma cfg_parsePortRange_bounds: "cfg_parsePortRange s = Some (lo, hi) \<Longrightarrow> 1 \<le> lo \<and> lo \<le> hi \<and> hi \<le> 65535"
  by (auto simp: cfg_parsePortRange_def Let_def split: option.splits if_splits)

lemma tunnels_bad_None:
  "tunnels_bad seen ts = None \<Longrightarrow>
     distinct (map tc_Name ts) \<and> set (map tc_Name ts) \<inter> set seen = {} \<and>
     (\<forall>t \<in> set ts. \<exists>s. list_all fst (tunnel_checks s t))"
proof (induction ts arbitrary: seen)
  case (Cons t ts)
  from Cons.prems have t: "list_all fst (tunnel_checks seen t)" and ts: "tunnels_bad (seen @ [tc_Name t]) ts = None"
    by (auto simp: first_bad_None [symmetric] split: option.splits)
  from t have "tc_Name t \<notin> set seen" by (simp add: tunnel_checks_def)
  then show ?case using Cons.IH [OF ts] t by auto
qed simp

lemma tunnel_checks_facts:
  assumes "list_all fst (tunnel_checks s t)"
  shows "tunnelNameRe (tc_Name t)"
    and "tc_Type t \<in> {''tcp'', ''udp'', ''http'', ''https''}"
    and "checkRange (tc_RemotePort t) 1 65535 \<or> tc_RemotePort t = 0"
    and "tc_Type t = ''https'' \<Longrightarrow> checkRange (tc_RemotePort t) 1 65535"
    and "\<not> (tc_Type t = ''http'' \<and> tc_RemotePort t = 0 \<and> tc_HTTPHost t = [])"
  using assms unfolding tunnel_checks_def list.pred_inject fst_conv by blast+

text \<open>The host name grammars of the configuration and of the protocol are the same.\<close>

lemma last_char_nth: "l \<noteq> [] \<Longrightarrow> last l = l ! (length l - 1)"
  by (rule last_conv_nth)

lemma rfc1123_label_ok:
  assumes "rfc1123_label l"
  shows "label_ok l"
proof -
  from assms have ne: "l \<noteq> []" and len: "length l \<le> 63" and chars: "\<forall>c \<in> set l. is_alnum c \<or> c = CHR ''-''"
    by (auto simp: rfc1123_label_def list_all_iff)
  have first: "is_alnum (l ! 0)" and final: "is_alnum (l ! (length l - 1))"
    using assms hd_conv_nth [OF ne] last_conv_nth [OF ne] by (simp_all add: rfc1123_label_def)
  have "let c = l ! i in is_lower c \<or> is_upper c \<or> is_digit c \<or> (c = CHR ''-'' \<and> 0 < i \<and> i < length l - 1)"
    if "i < length l" for i
  proof (cases "i = 0 \<or> i = length l - 1")
    case True
    then show ?thesis using first final by (auto simp: is_alnum_def)
  next
    case False
    then have "0 < i" and "i < length l - 1" using that by auto
    then show ?thesis using that chars [THEN bspec, of "l ! i"] by (auto simp: is_alnum_def Let_def)
  qed
  then show ?thesis using ne len by (simp add: label_ok_def list_all_iff)
qed

lemma cfg_validHostname_protocol: "cfg_validHostname h \<Longrightarrow> h \<noteq> [] \<Longrightarrow> validHostname h"
  by (auto simp: cfg_validHostname_def validHostname_def list_all_iff rfc1123_label_ok)

section \<open>Properties\<close>

text \<open>
  No client can ever be given the server's own ports: under a configuration that passes validation,
  the tunnel manager's port check refuses the control port and the enrolment port, and admits only
  ports from 1 to 65535.
\<close>

theorem server_ports_protected:
  assumes ok: "ValidateServer ucase c = Inr c'" and allowed: "portAllowed (cp_AllowedPorts c') p"
  shows "p \<noteq> control_port c' \<and> (EnrollAddr c' \<noteq> [] \<longrightarrow> p \<noteq> enroll_port c') \<and> 1 \<le> p \<and> p \<le> 65535"
proof -
  let ?enr = "if EnrollAddr c' = [] then 0 else enroll_port c'"
  from ok have checks: "list_all fst (server_checks ucase c')" unfolding ValidateServer_Inr by blast
  from allowed obtain e where e: "e \<in> set (cp_AllowedPorts c')" and pe: "port_entry p e"
    by (auto simp: portAllowed_def list_ex_iff)
  from server_checks_ports [OF checks] e have "port_range_ok (control_port c') ?enr e"
    by (auto simp: list_all_iff)
  then obtain lo hi where r: "cfg_parsePortRange e = Some (lo, hi)"
      and ctl: "\<not> rangeContainsPort lo hi (control_port c')"
      and enr: "\<not> (?enr \<noteq> 0 \<and> rangeContainsPort lo hi ?enr)"
    by (auto simp: port_range_ok_def split: option.splits)
  have "lo \<le> p \<and> p \<le> hi" by (rule port_entry_in_range [OF pe r])
  then show ?thesis
    using ctl enr cfg_parsePortRange_bounds [OF r] by (auto simp: rangeContainsPort_def split: if_splits)
qed

definition sample_server :: ServerConfig where
  "sample_server = DefaultServerConfig\<lparr>StateDir := ''/var/lib/qoqtun'', cp_AllowedPorts := [''7100-7200'', ''443''], TokenTTL := ''1h30m''\<rparr>"

lemma sample_server_ok: "ValidateServer id sample_server = Inr sample_server"
proof -
  have "list_all fst (server_checks id sample_server)" by code_simp
  moreover have "fill_server sample_server = sample_server"
    by (simp add: fill_server_def sample_server_def DefaultServerConfig_def)
  ultimately show ?thesis by (simp add: ValidateServer_Inr)
qed

theorem server_ports_protected_witness:
  "portAllowed (cp_AllowedPorts sample_server) 443 \<and> 443 \<noteq> control_port sample_server"
proof -
  have a: "portAllowed (cp_AllowedPorts sample_server) 443" by code_simp
  from server_ports_protected [OF sample_server_ok a] a show ?thesis by simp
qed

text \<open>
  Validation is stable: the configuration it returns, with the defaults filled in, passes again
  unchanged, for the server and for the client.
\<close>

theorem validation_stable:
  assumes "ValidateServer ucase c = Inr c'" and "ValidateClient ucase d = Inr d'"
  shows "ValidateServer ucase c' = Inr c' \<and> ValidateClient ucase d' = Inr d'"
proof
  show "ValidateServer ucase c' = Inr c'"
    using assms(1) by (auto simp: ValidateServer_Inr fill_server_idem)
  have "d' = fill_client d" using assms(2) by (auto simp: ValidateClient_def Let_def split: option.splits)
  then show "ValidateClient ucase d' = Inr d'"
    using assms(2) by (auto simp: ValidateClient_def Let_def fill_client_idem split: option.splits)
qed

definition sample_tunnel :: TunnelConfig where
  "sample_tunnel = \<lparr>tc_Name = ''web'', tc_Type = ''http'', tc_RemotePort = 0, tc_LocalIP = ''10.1.2.3'', tc_LocalPort = 8080,
     tc_HTTPHost = ''git.example.com'', tc_Enabled = True, tc_IdleTimeout = ''90s''\<rparr>"

definition sample_client :: ClientConfig where
  "sample_client = DefaultClientConfig\<lparr>ServerAddr := ''tunnel.example.com:7000'', cc_Tunnels := [sample_tunnel]\<rparr>"

lemma sample_client_ok: "ValidateClient id sample_client = Inr sample_client"
proof -
  have "first_bad (client_checks id sample_client) = None" by code_simp
  moreover have "tunnels_bad [] (cc_Tunnels sample_client) = None" by code_simp
  moreover have "fill_client sample_client = sample_client"
    by (simp add: fill_client_def sample_client_def DefaultClientConfig_def)
  ultimately show ?thesis by (simp add: ValidateClient_def)
qed

theorem validation_stable_witness:
  "ValidateServer id sample_server = Inr sample_server \<and> ValidateClient id sample_client = Inr sample_client"
  by (rule validation_stable [OF sample_server_ok sample_client_ok])

text \<open>
  The request the client sends for a configured tunnel (clientcore/client.go, \<^verbatim>\<open>RegisterTunnel\<close>).
\<close>

definition tunnel_request :: "TunnelConfig \<Rightarrow> register_tunnel" where
  "tunnel_request t =
     \<lparr>rt_Name = tc_Name t, rt_Type = tc_Type t, rt_RemotePort = tc_RemotePort t,
      rt_Local = \<lparr>lt_IP = tc_LocalIP t, lt_Port = tc_LocalPort t\<rparr>,
      rt_HTTP = (if tc_Type t = ''http'' \<and> tc_HTTPHost t \<noteq> [] then Some (tc_HTTPHost t) else None)\<rparr>"

text \<open>
  A client configuration that passes validation has distinct tunnel names, and the registration
  request built from any of its tunnels passes the server's protocol validation.
\<close>

theorem client_config_registers:
  assumes "ValidateClient ucase c = Inr c'"
  shows "distinct (map tc_Name (cc_Tunnels c')) \<and>
     list_all (\<lambda>t. ValidateRegisterTunnel (Some (tunnel_request t)) = None) (cc_Tunnels c')"
proof
  from assms have ok: "tunnels_bad [] (cc_Tunnels c') = None"
    by (auto simp: ValidateClient_def Let_def split: option.splits)
  show "distinct (map tc_Name (cc_Tunnels c'))" using tunnels_bad_None [OF ok] by blast
  have "ValidateRegisterTunnel (Some (tunnel_request t)) = None" if "t \<in> set (cc_Tunnels c')" for t
  proof -
    from that tunnels_bad_None [OF ok] obtain s where checks: "list_all fst (tunnel_checks s t)" by blast
    have host: "\<not> 255 < length (tc_HTTPHost t)"
      using checks by (auto simp: tunnel_checks_def cfg_validHostname_def)
    have ip: "validLocalIP (tc_LocalIP t)" and port: "checkRange (tc_LocalPort t) 1 65535"
      using checks by (simp_all add: tunnel_checks_def)
    have "IsLinkLocalMulticast x \<Longrightarrow> IsMulticast x" for x
      by (auto simp: IsLinkLocalMulticast_def IsMulticast_def split: option.splits)
    then have "validateLocalTarget (Some (rt_Local (tunnel_request t))) = None"
      using ip port cfg_validHostname_protocol [of "tc_LocalIP t"]
      by (auto simp: validateLocalTarget_def tunnel_request_def validLocalIP_def checkRange_def split: option.splits if_splits)
    moreover note f = tunnel_checks_facts [OF checks]
    moreover have "0 \<le> tc_RemotePort t \<and> tc_RemotePort t \<le> 65535"
      using f(3) by (auto simp: checkRange_def)
    moreover have "\<not> (tc_Type t = ''https'' \<and> tc_RemotePort t = 0)"
      using f(4) by (auto simp: checkRange_def)
    ultimately show ?thesis
      using host unfolding ValidateRegisterTunnel_def
      by (simp add: tunnel_request_def split: option.splits)
  qed
  then show "list_all (\<lambda>t. ValidateRegisterTunnel (Some (tunnel_request t)) = None) (cc_Tunnels c')"
    by (simp add: list_all_iff)
qed

theorem client_config_registers_witness:
  "ValidateRegisterTunnel (Some (tunnel_request sample_tunnel)) = None"
  using client_config_registers [OF sample_client_ok] by (simp add: sample_client_def)

text \<open>
  A target entry with a blank before the port passes the configuration check, which trims it, while
  the enforcement does not parse it: such a configuration is accepted and then denies every target.
\<close>

theorem config_accepts_unenforceable_target:
  "cfg_parseTarget ''10.0.0.0/8: 80'' \<and> parseTarget ''10.0.0.0/8: 80'' = None \<and>
   (\<exists>c. ValidateServer id c = Inr c \<and> (\<forall>x p. \<not> TargetsAllow (cp_AllowedTargets c) x p))"
proof -
  let ?c = "sample_server\<lparr>cp_AllowedTargets := [''10.0.0.0/8: 80'']\<rparr>"
  have t: "cfg_parseTarget ''10.0.0.0/8: 80''" and n: "parseTarget ''10.0.0.0/8: 80'' = None" by code_simp+
  have "list_all fst (server_checks id ?c)" by code_simp
  moreover have "fill_server ?c = ?c" by (simp add: fill_server_def sample_server_def DefaultServerConfig_def)
  ultimately have "ValidateServer id ?c = Inr ?c" by (simp add: ValidateServer_Inr)
  moreover have "\<not> TargetsAllow (cp_AllowedTargets ?c) x p" for x p by (simp add: TargetsAllow_iff n)
  ultimately show ?thesis using t n by blast
qed

end
