(* ===== verification/Snapshot.thy ===== *)
theory Snapshot
  imports GoStrings "HOL-Library.Multiset"
begin

text \<open>
  The sorted snapshots. Three stores (\<^verbatim>\<open>auth.TokenStore.All\<close>, \<^verbatim>\<open>pki.RevocationList.Revoked\<close>,
  \<^verbatim>\<open>pki.ClientRegistry.All\<close>) collect the values of a map and sort them in place by a string key with
  the same pair of nested loops. The loops are modelled once, as they are written (adjacent swaps on
  an indexed slice), and shown to sort: the result is a permutation of the values in key order.
  \<open>str_less\<close> is the byte order in which Go compares strings.
\<close>

fun str_less :: "string \<Rightarrow> string \<Rightarrow> bool" where
  "str_less _ [] = False"
| "str_less [] (_ # _) = True"
| "str_less (a # s) (b # t) = (code a < code b \<or> (a = b \<and> str_less s t))"

lemma code_eq [simp]: "code a = code b \<longleftrightarrow> a = b"
  by (auto simp: code_def)

lemma str_less_irrefl [simp]: "\<not> str_less s s"
  by (induction s) auto

lemma str_less_trans: "str_less s t \<Longrightarrow> str_less t u \<Longrightarrow> str_less s u"
proof (induction s u arbitrary: t rule: str_less.induct)
  case (1 s)
  then show ?case by simp
next
  case (2 b u)
  then show ?case by simp
next
  case (3 a s b u)
  then show ?case by (cases t) auto
qed

lemma str_less_total: "str_less s t \<or> s = t \<or> str_less t s"
proof (induction s t rule: str_less.induct)
  case (1 s)
  then show ?case by (cases s) auto
qed (auto simp: neq_iff)

lemma str_less_asym: "str_less s t \<Longrightarrow> \<not> str_less t s"
  using str_less_trans str_less_irrefl by blast

text \<open>\<open>key\<close> is weakly increasing along the list.\<close>

abbreviation by_key :: "('a \<Rightarrow> string) \<Rightarrow> 'a list \<Rightarrow> bool" where
  "by_key key \<equiv> sorted_wrt (\<lambda>a b. \<not> str_less (key b) (key a))"

text \<open>The inner loop: element \<open>j\<close> moves down while it is below its left neighbour.\<close>

fun swap_down :: "('a \<Rightarrow> string) \<Rightarrow> nat \<Rightarrow> 'a list \<Rightarrow> 'a list" where
  "swap_down key 0 out = out"
| "swap_down key (Suc j) out =
     (if str_less (key (out ! Suc j)) (key (out ! j))
      then swap_down key j (out[Suc j := out ! j, j := out ! Suc j])
      else out)"

text \<open>The outer loop, for \<open>i\<close> from 1.\<close>

definition sort_by :: "('a \<Rightarrow> string) \<Rightarrow> 'a list \<Rightarrow> 'a list" where
  "sort_by key out = fold (swap_down key) [1..<length out] out"

text \<open>\<open>ins\<close> is where the moving element ends up in the sorted prefix, found from the right.\<close>

fun ins :: "('a \<Rightarrow> string) \<Rightarrow> 'a \<Rightarrow> 'a list \<Rightarrow> 'a list" where
  "ins key x [] = [x]"
| "ins key x (y # ys) = (if \<not> list_ex (\<lambda>z. \<not> str_less (key x) (key z)) (y # ys) then x # y # ys else y # ins key x ys)"

lemma ins_snoc:
  "ins key x (ws @ [w]) = (if str_less (key x) (key w) then ins key x ws @ [w] else ws @ [w, x])"
  by (induction ws) auto

lemma swap_down_ins: "swap_down key (length ys) (ys @ x # zs) = ins key x ys @ zs"
proof (induction ys arbitrary: zs rule: rev_induct)
  case (snoc w ws)
  have out: "(ws @ [w]) @ x # zs = ws @ w # x # zs" by simp
  have at: "(ws @ w # x # zs) ! Suc (length ws) = x" "(ws @ w # x # zs) ! length ws = w"
    by (simp_all add: nth_append)
  have swap: "(ws @ w # x # zs)[Suc (length ws) := w, length ws := x] = ws @ x # w # zs"
    by (simp add: list_update_append)
  show ?case
    using snoc.IH [of "w # zs"] by (simp only: out length_append list.size at swap_down.simps swap ins_snoc add_Suc_right add_0_right if_distrib append.simps append_assoc split: if_split) simp
qed simp

lemma mset_ins [simp]: "mset (ins key x ys) = add_mset x (mset ys)"
  by (induction ys) auto

lemma length_ins [simp]: "length (ins key x ys) = Suc (length ys)"
  by (induction ys) auto

lemma set_ins [simp]: "set (ins key x ys) = insert x (set ys)"
  by (induction ys) auto

lemma by_key_ins: "by_key key ys \<Longrightarrow> by_key key (ins key x ys)"
proof (induction ys)
  case (Cons y ys)
  have asym: "list_all (\<lambda>z. str_less (key x) (key z)) (y # ys) \<Longrightarrow> z \<in> set (y # ys) \<Longrightarrow> \<not> str_less (key z) (key x)" for z
    by (auto simp: list_all_iff dest: str_less_asym)
  have below: "z \<in> set (y # ys) \<Longrightarrow> \<not> str_less (key x) (key z) \<Longrightarrow> \<not> str_less (key x) (key y)" for z
    using Cons.prems str_less_trans str_less_total by (metis set_ConsD sorted_wrt.simps(2))
  show ?case
    using Cons asym below by (auto simp: list_ex_iff list_all_iff)
qed simp

lemma fold_swap_down:
  "j \<le> length xs \<Longrightarrow>
     \<exists>ys. fold (swap_down key) [0..<j] xs = ys @ drop j xs \<and> mset ys = mset (take j xs) \<and> length ys = j \<and> by_key key ys"
proof (induction j)
  case (Suc j)
  then obtain ys where ys: "fold (swap_down key) [0..<j] xs = ys @ drop j xs" "mset ys = mset (take j xs)"
      "length ys = j" "by_key key ys"
    by auto
  have drop: "drop j xs = xs ! j # drop (Suc j) xs" using Suc.prems by (simp add: Cons_nth_drop_Suc)
  have "fold (swap_down key) [0..<Suc j] xs = ins key (xs ! j) ys @ drop (Suc j) xs"
    using swap_down_ins [of key ys "xs ! j" "drop (Suc j) xs"] ys by (simp add: drop)
  moreover have "mset (ins key (xs ! j) ys) = mset (take (Suc j) xs)"
    using ys Suc.prems by (simp add: take_Suc_conv_app_nth)
  ultimately show ?case using ys by_key_ins by fastforce
qed simp

lemma sort_by_sorts: "by_key key (sort_by key xs) \<and> mset (sort_by key xs) = mset xs"
proof (cases xs)
  case (Cons x rest)
  then have "[0..<length xs] = 0 # [1..<length xs]" using upt_conv_Cons [of 0 "length xs"] by simp
  then have "sort_by key xs = fold (swap_down key) [0..<length xs] xs"
    by (simp add: sort_by_def)
  then show ?thesis using fold_swap_down [of "length xs" xs key] by auto
qed (simp add: sort_by_def)

lemma set_sort_by [simp]: "set (sort_by key xs) = set xs"
  using sort_by_sorts [of key xs] by (metis set_mset_mset)

text \<open>A snapshot of a map keyed by \<open>key\<close> is strictly increasing: no key is repeated.\<close>

lemma sort_by_strict:
  assumes "distinct (map key xs)"
  shows "sorted_wrt (\<lambda>a b. str_less (key a) (key b)) (sort_by key xs)"
proof -
  have "image_mset key (mset (sort_by key xs)) = image_mset key (mset xs)"
    by (simp add: sort_by_sorts)
  then have "distinct (map key (sort_by key xs))"
    using assms by (metis mset_map mset_eq_imp_distinct_iff)
  moreover have "by_key key ys \<Longrightarrow> distinct (map key ys) \<Longrightarrow> sorted_wrt (\<lambda>a b. str_less (key a) (key b)) ys" for ys
  proof (induction ys)
    case (Cons y ys)
    then show ?case using str_less_total by (auto simp: image_iff)
  qed simp
  ultimately show ?thesis using sort_by_sorts by blast
qed

end
