(* ===== verification/Metrics.thy ===== *)
theory Metrics
  imports Snapshot "HOL-Library.Signed_Division"
begin

text \<open>
  \<^verbatim>\<open>internal/metrics\<close>: the local statistics. The counters are 64-bit and wrap; the registry of a
  client's and a tunnel's counters is one map in another, and each operation of it is one step. The
  rate window is the ring of sixty one-second buckets with its advancing loop. It is shown to refine
  the history of all credits: whatever the clock did, the two rates that are read are the bytes of
  the newest second and of the last sixty.
\<close>

section \<open>The rate window (rate.go)\<close>

record RateWindow =
  rw_buckets :: "int list"
  lastIdx :: nat
  lastTs :: int

definition NewRateWindow :: RateWindow where
  "NewRateWindow = \<lparr>rw_buckets = replicate 60 0, lastIdx = 0, lastTs = 0\<rparr>"

text \<open>One round of the loop in \<^verbatim>\<open>advance\<close>, and the loop; \<open>ts\<close> is a time in seconds.\<close>

definition rw_next :: "RateWindow \<Rightarrow> RateWindow" where
  "rw_next w =
     (let i = (lastIdx w + 1) mod 60
      in w\<lparr>lastTs := lastTs w + 1, lastIdx := i, rw_buckets := (rw_buckets w)[i := 0]\<rparr>)"

function advance_loop :: "int \<Rightarrow> RateWindow \<Rightarrow> RateWindow" where
  "advance_loop ts w = (if lastTs w < ts then advance_loop ts (rw_next w) else w)"
  by auto
termination
  by (relation "measure (\<lambda>(ts, w). nat (ts - lastTs w))") (auto simp: rw_next_def Let_def)

declare advance_loop.simps [simp del]

definition advance :: "int \<Rightarrow> RateWindow \<Rightarrow> RateWindow" where
  "advance ts w = (if lastTs w = 0 then w\<lparr>lastTs := ts, lastIdx := 0\<rparr> else advance_loop ts w)"

definition rw_Add :: "int \<Rightarrow> int \<Rightarrow> RateWindow \<Rightarrow> RateWindow" where
  "rw_Add now n w =
     (let w1 = advance now w
      in w1\<lparr>rw_buckets := (rw_buckets w1)[lastIdx w1 := wrap64 (rw_buckets w1 ! lastIdx w1 + n)]\<rparr>)"

definition Rate :: "int \<Rightarrow> RateWindow \<Rightarrow> (int \<times> int) \<times> RateWindow" where
  "Rate now w =
     (let w1 = (if lastTs w < now then advance now w else w);
          total = fold (\<lambda>b s. wrap64 (s + b)) (rw_buckets w1) 0
      in ((rw_buckets w1 ! lastIdx w1, total sdiv 60), w1))"

section \<open>What the window stands for\<close>

text \<open>
  The specification keeps every credit with the second it counts for, newest first. A clock that steps
  back credits the newest second seen so far.
\<close>

datatype rate_ev = Credit int int | ReadRate int

fun spec_step :: "rate_ev \<Rightarrow> int \<times> (int \<times> int) list \<Rightarrow> int \<times> (int \<times> int) list" where
  "spec_step (Credit now n) (newest, h) = (max newest now, (max newest now, n) # h)"
| "spec_step (ReadRate now) (newest, h) = (max newest now, h)"

fun rate_step :: "rate_ev \<Rightarrow> RateWindow \<Rightarrow> RateWindow" where
  "rate_step (Credit now n) w = rw_Add now n w"
| "rate_step (ReadRate now) w = snd (Rate now w)"

fun ev_time :: "rate_ev \<Rightarrow> int" where
  "ev_time (Credit now n) = now"
| "ev_time (ReadRate now) = now"

definition credited :: "(int \<times> int) list \<Rightarrow> int \<Rightarrow> int" where
  "credited h sec = sum_list (map snd (filter (\<lambda>c. fst c = sec) h))"

text \<open>The bytes credited to the seconds above \<open>lo\<close> and up to \<open>hi\<close>.\<close>

definition credited_between :: "int \<Rightarrow> int \<Rightarrow> (int \<times> int) list \<Rightarrow> int" where
  "credited_between lo hi h = sum_list (map snd (filter (\<lambda>c. lo < fst c \<and> fst c \<le> hi) h))"

text \<open>The bucket of the second \<open>k\<close> before the newest, and the refinement relation.\<close>

definition rw_slot :: "nat \<Rightarrow> nat \<Rightarrow> nat" where
  "rw_slot l k = (l + 60 - k) mod 60"

definition rw_ring :: "int \<times> (int \<times> int) list \<Rightarrow> RateWindow \<Rightarrow> bool" where
  "rw_ring a w \<longleftrightarrow> length (rw_buckets w) = 60 \<and> lastIdx w < 60 \<and> lastTs w = fst a \<and> (fst a = 0 \<longrightarrow> snd a = []) \<and>
     (\<forall>c\<in>set (snd a). fst c \<le> fst a) \<and>
     (\<forall>k<60. rw_buckets w ! rw_slot (lastIdx w) k = wrap64 (credited (snd a) (fst a - int k)))"

section \<open>Lemmas: one round\<close>

lemma slot_next: "l < 60 \<Longrightarrow> k < 60 \<Longrightarrow> rw_slot ((l + 1) mod 60) k = (if k = 0 then (l + 1) mod 60 else rw_slot l (k - 1))"
  by (cases "l = 59") (auto simp: rw_slot_def mod_if)

lemma slot_less [simp]: "rw_slot l k < 60"
  by (simp add: rw_slot_def)

lemma slot_zero [simp]: "l < 60 \<Longrightarrow> rw_slot l 0 = l"
  by (simp add: rw_slot_def)

lemma slot_inj: "l < 60 \<Longrightarrow> j < 60 \<Longrightarrow> k < 60 \<Longrightarrow> rw_slot l j = rw_slot l k \<longleftrightarrow> j = k"
  by (auto simp: rw_slot_def mod_if split: if_splits)

lemma slot_next_other: "l < 60 \<Longrightarrow> k < 59 \<Longrightarrow> rw_slot l k \<noteq> (l + 1) mod 60"
  by (auto simp: rw_slot_def mod_if split: if_splits)

lemma credited_future: "\<forall>c\<in>set h. fst c \<le> t \<Longrightarrow> t < s \<Longrightarrow> credited h s = 0"
  by (induction h) (auto simp: credited_def)

lemma ring_next:
  assumes r: "rw_ring (t, h) w" and t: "t \<noteq> 0" "t + 1 \<noteq> 0"
  shows "rw_ring (t + 1, h) (rw_next w)"
proof -
  let ?l = "lastIdx w" and ?i = "(lastIdx w + 1) mod 60"
  have l: "?l < 60" and len: "length (rw_buckets w) = 60" using r by (auto simp: rw_ring_def)
  have "(rw_buckets w)[?i := 0] ! rw_slot ?i k = wrap64 (credited h (t + 1 - int k))" if k: "k < 60" for k
  proof (cases "k = 0")
    case True
    moreover have "credited h (t + 1) = 0" using r credited_future [of h t "t + 1"] by (simp add: rw_ring_def)
    ultimately show ?thesis using r l len by (simp add: rw_ring_def)
  next
    case False
    then have "rw_slot ?i k = rw_slot ?l (k - 1)" using slot_next [OF l k] by simp
    moreover have "rw_slot ?l (k - 1) \<noteq> ?i" using slot_next_other [OF l, of "k - 1"] k False by auto
    ultimately show ?thesis using r k False by (auto simp: rw_ring_def of_nat_diff algebra_simps)
  qed
  then show ?thesis using r t by (auto simp: rw_ring_def rw_next_def Let_def)
qed

lemma ring_loop: "rw_ring (t, h) w \<Longrightarrow> 0 < t \<Longrightarrow> rw_ring (max t ts, h) (advance_loop ts w)"
proof (induction ts w arbitrary: t rule: advance_loop.induct)
  case (1 ts w)
  have lt: "lastTs w = t" using "1.prems" by (simp add: rw_ring_def)
  show ?case
  proof (cases "t < ts")
    case True
    have "rw_ring (t + 1, h) (rw_next w)" using ring_next "1.prems" by auto
    then have "rw_ring (max (t + 1) ts, h) (advance_loop ts (rw_next w))" using "1.IH" [of "t + 1"] True lt "1.prems" by auto
    moreover have "max (t + 1) ts = max t ts" using True by simp
    ultimately show ?thesis using True lt by (subst advance_loop.simps) simp
  next
    case False
    then show ?thesis using "1.prems" lt by (subst advance_loop.simps) (simp add: max_def)
  qed
qed

lemma ring_advance:
  assumes "rw_ring (t, h) w" and "0 \<le> t" and "0 < ts"
  shows "rw_ring (max t ts, h) (advance ts w)"
proof (cases "t = 0")
  case True
  then have "h = []" "lastTs w = 0" using assms(1) by (auto simp: rw_ring_def)
  moreover have "rw_buckets w ! j = 0" if "j < 60" for j
  proof -
    have "rw_slot (lastIdx w) (rw_slot (lastIdx w) j) = j" using assms(1) that by (auto simp: rw_ring_def rw_slot_def mod_if)
    moreover have "rw_buckets w ! rw_slot (lastIdx w) (rw_slot (lastIdx w) j) = wrap64 (credited h (t - int (rw_slot (lastIdx w) j)))"
      using assms(1) by (simp add: rw_ring_def)
    ultimately show ?thesis using \<open>h = []\<close> by (simp add: credited_def)
  qed
  ultimately show ?thesis using assms True by (auto simp: rw_ring_def advance_def credited_def)
next
  case False
  then show ?thesis using assms ring_loop [of t h w ts] by (auto simp: advance_def rw_ring_def)
qed

section \<open>Lemmas: the two rates\<close>

lemma wrap64_sum: "fold (\<lambda>b s. wrap64 (s + b)) xs (wrap64 a) = wrap64 (a + sum_list xs)"
  by (induction xs arbitrary: a) (simp_all add: add.assoc)

lemma wrap64_sum_wrap: "finite A \<Longrightarrow> wrap64 (\<Sum>k\<in>A. wrap64 (f k)) = wrap64 (\<Sum>k\<in>A. f k)"
proof (induction A rule: finite_induct)
  case (insert x A)
  have "wrap64 (wrap64 (f x) + (\<Sum>k\<in>A. wrap64 (f k))) = wrap64 ((\<Sum>k\<in>A. wrap64 (f k)) + f x)"
    by (simp add: add.commute)
  also have "\<dots> = wrap64 ((\<Sum>k\<in>A. f k) + f x)" using insert.IH by (metis wrap64_add_left)
  finally show ?case using insert by (simp add: add.commute)
qed simp

lemma slot_bij: "l < 60 \<Longrightarrow> bij_betw (rw_slot l) {..<60} {..<60}"
  by (intro bij_betw_imageI endo_inj_surj) (auto simp: inj_on_def slot_inj)

lemma sum_seconds: "(\<Sum>k<60. credited h (t - int k)) = credited_between (t - 60) t h"
proof (induction h)
  case (Cons c h)
  have "(\<Sum>k<60. if fst c = t - int k then snd c else 0) = (if t - 60 < fst c \<and> fst c \<le> t then snd c else 0)"
  proof (cases "t - 60 < fst c \<and> fst c \<le> t")
    case True
    then have "(fst c = t - int k) = (nat (t - fst c) = k)" for k by auto
    moreover have "nat (t - fst c) < 60" using True by auto
    ultimately show ?thesis using True by (simp add: sum.delta')
  next
    case False
    then show ?thesis by (intro trans [OF sum.neutral]) auto
  qed
  moreover have "credited (c # h) s = (if fst c = s then snd c else 0) + credited h s" for s by (simp add: credited_def)
  ultimately show ?case using Cons by (simp add: sum.distrib) (simp add: credited_between_def)
qed (simp add: credited_def credited_between_def)

lemma ring_total:
  assumes "rw_ring (t, h) w"
  shows "fold (\<lambda>b s. wrap64 (s + b)) (rw_buckets w) 0 = wrap64 (credited_between (t - 60) t h)"
proof -
  have "sum_list (rw_buckets w) = (\<Sum>j<60. rw_buckets w ! j)" using assms by (simp add: rw_ring_def sum_list_sum_nth atLeast0LessThan)
  also have "\<dots> = (\<Sum>k<60. rw_buckets w ! rw_slot (lastIdx w) k)"
    using sum.reindex_bij_betw [OF slot_bij, of "lastIdx w" "\<lambda>j. rw_buckets w ! j"] assms by (simp add: rw_ring_def)
  also have "\<dots> = (\<Sum>k<60. wrap64 (credited h (t - int k)))" using assms by (intro sum.cong) (auto simp: rw_ring_def)
  finally have "wrap64 (sum_list (rw_buckets w)) = wrap64 (\<Sum>k<60. credited h (t - int k))" by (simp add: wrap64_sum_wrap)
  then show ?thesis using wrap64_sum [of "rw_buckets w" 0] by (simp add: sum_seconds)
qed

lemma ring_bucket: "rw_ring (t, h) w \<Longrightarrow> k < 60 \<Longrightarrow> rw_buckets w ! rw_slot (lastIdx w) k = wrap64 (credited h (t - int k))"
  by (simp add: rw_ring_def)

lemma ring_newest: "rw_ring (t, h) w \<Longrightarrow> rw_buckets w ! lastIdx w = wrap64 (credited h t)"
proof -
  assume r: "rw_ring (t, h) w"
  then have "lastIdx w < 60" by (simp add: rw_ring_def)
  then show ?thesis using ring_bucket [OF r, of 0] by simp
qed

lemma ring_credit:
  assumes "rw_ring (t, h) w" and "t \<noteq> 0"
  shows "rw_ring (t, (t, n) # h) (w\<lparr>rw_buckets := (rw_buckets w)[lastIdx w := wrap64 (rw_buckets w ! lastIdx w + n)]\<rparr>)"
proof -
  have l: "lastIdx w < 60" and len: "length (rw_buckets w) = 60" using assms by (auto simp: rw_ring_def)
  have now: "rw_buckets w ! lastIdx w = wrap64 (credited h t)" by (rule ring_newest [OF assms(1)])
  have other: "lastIdx w \<noteq> rw_slot (lastIdx w) k" if "k < 60" "k \<noteq> 0" for k using slot_inj [OF l that(1), of 0] that l by simp
  have "(rw_buckets w)[lastIdx w := wrap64 (rw_buckets w ! lastIdx w + n)] ! rw_slot (lastIdx w) k
      = wrap64 (credited ((t, n) # h) (t - int k))" if "k < 60" for k
  proof (cases "k = 0")
    case True
    then show ?thesis using l len now by (simp add: credited_def) (simp add: add.commute)
  next
    case False
    then show ?thesis using other that ring_bucket [OF assms(1) that] by (simp add: credited_def)
  qed
  then show ?thesis using assms by (auto simp: rw_ring_def)
qed

lemma ring_max: "rw_ring (t, h) w \<Longrightarrow> 0 \<le> t \<Longrightarrow> 0 < now \<Longrightarrow> rw_ring (max t now, h) (snd (Rate now w))"
  using ring_advance [of t h w now] by (auto simp: Rate_def Let_def max_def rw_ring_def)

lemma ring_step:
  assumes "rw_ring a w" and "0 \<le> fst a" and "0 < ev_time ev"
  shows "rw_ring (spec_step ev a) (rate_step ev w) \<and> 0 \<le> fst (spec_step ev a)"
proof -
  obtain t h where a: "a = (t, h)" by fastforce
  show ?thesis
  proof (cases ev)
    case (Credit now n)
    then have "rw_ring (max t now, h) (advance now w)" using ring_advance assms by (simp add: a)
    then have "rw_ring (max t now, (max t now, n) # h) (rw_Add now n w)"
      unfolding rw_Add_def Let_def using Credit assms by (intro ring_credit) auto
    then show ?thesis using Credit assms by (simp add: a)
  next
    case (ReadRate now)
    then show ?thesis using ring_max assms by (simp add: a)
  qed
qed

lemma ring_run:
  "rw_ring a w \<Longrightarrow> 0 \<le> fst a \<Longrightarrow> list_all (\<lambda>ev. 0 < ev_time ev) evs \<Longrightarrow>
   rw_ring (fold spec_step evs a) (fold rate_step evs w) \<and> 0 \<le> fst (fold spec_step evs a)"
proof (induction evs arbitrary: a w)
  case (Cons ev evs)
  then show ?case using ring_step [of a w ev] Cons.IH [of "spec_step ev a" "rate_step ev w"] by simp
qed simp

lemma ring_new: "rw_ring (0, []) NewRateWindow"
  by (simp add: rw_ring_def NewRateWindow_def credited_def)

section \<open>The rates are those of the history\<close>

text \<open>
  C16: The ring of buckets implements the history of credits: after any sequence of credits and readings,
  at whatever times, the rate of the newest second is the number of bytes credited to it, and the average
  is a sixtieth of the bytes credited to the last sixty seconds, as 64-bit numbers.
\<close>
theorem rate_window_refines_history:
  assumes "list_all (\<lambda>ev. 0 < ev_time ev) evs" and "0 < now"
    and "spec_step (ReadRate now) (fold spec_step evs (0, [])) = (newest, h)"
  shows "fst (Rate now (fold rate_step evs NewRateWindow)) =
     (wrap64 (credited h newest), wrap64 (credited_between (newest - 60) newest h) sdiv 60)"
proof -
  let ?w = "snd (Rate now (fold rate_step evs NewRateWindow))"
  have "rw_ring (fold spec_step (evs @ [ReadRate now]) (0, [])) (fold rate_step (evs @ [ReadRate now]) NewRateWindow)"
    using assms(1,2) by (intro conjunct1 [OF ring_run [OF ring_new]]) simp_all
  then have r: "rw_ring (newest, h) ?w" using assms(3) by simp
  show ?thesis using ring_total [OF r] ring_newest [OF r] by (simp add: Rate_def Let_def)
qed

theorem rate_window_refines_history_witness:
  "fst (Rate 70 (fold rate_step [Credit 5 100, Credit 9 60, Credit 7 120, Credit 69 600] NewRateWindow)) = (0, 10)"
proof -
  have "spec_step (ReadRate 70) (fold spec_step [Credit 5 100, Credit 9 60, Credit 7 120, Credit 69 600] (0, []))
      = (70, [(69, 600), (9, 120), (9, 60), (5, 100)])" by (simp add: max_def)
  from rate_window_refines_history [OF _ _ this] show ?thesis by (simp add: credited_def credited_between_def)
qed


section \<open>The registry (metrics.go)\<close>

record TunnelStats =
  ts_RxBytes :: int
  ts_TxBytes :: int
  ts_ActiveConns :: int
  ts_TotalConns :: int
  ts_UDPRxPackets :: int
  ts_UDPTxPackets :: int

record ClientStats =
  cs_RxBytes :: int
  cs_TxBytes :: int
  cs_ActiveConns :: int
  cs_TotalConns :: int
  cs_tunnels :: "(string, TunnelStats) gomap"

record Registry =
  mr_clients :: "(string, ClientStats) gomap"
  globalRx :: int
  globalTx :: int
  globalConns :: int
  globalRate :: RateWindow

definition new_tunnel_stats :: TunnelStats where
  "new_tunnel_stats = \<lparr>ts_RxBytes = 0, ts_TxBytes = 0, ts_ActiveConns = 0, ts_TotalConns = 0, ts_UDPRxPackets = 0, ts_UDPTxPackets = 0\<rparr>"

definition new_client_stats :: ClientStats where
  "new_client_stats = \<lparr>cs_RxBytes = 0, cs_TxBytes = 0, cs_ActiveConns = 0, cs_TotalConns = 0, cs_tunnels = []\<rparr>"

definition met_NewRegistry :: Registry where
  "met_NewRegistry = \<lparr>mr_clients = [], globalRx = 0, globalTx = 0, globalConns = 0, globalRate = NewRateWindow\<rparr>"

text \<open>\<^verbatim>\<open>Client\<close> and \<^verbatim>\<open>Tunnel\<close> return the entry and create it when it is missing.\<close>

definition met_Client :: "string \<Rightarrow> Registry \<Rightarrow> ClientStats \<times> Registry" where
  "met_Client cid r =
     (case mget (mr_clients r) cid of Some c \<Rightarrow> (c, r)
      | None \<Rightarrow> (new_client_stats, r\<lparr>mr_clients := mput cid new_client_stats (mr_clients r)\<rparr>))"

definition put_tunnel :: "string \<Rightarrow> string \<Rightarrow> TunnelStats \<Rightarrow> Registry \<Rightarrow> Registry" where
  "put_tunnel cid tid t r =
     (let (c, r1) = met_Client cid r
      in r1\<lparr>mr_clients := mput cid (c\<lparr>cs_tunnels := mput tid t (cs_tunnels c)\<rparr>) (mr_clients r1)\<rparr>)"

definition met_Tunnel :: "string \<Rightarrow> string \<Rightarrow> Registry \<Rightarrow> TunnelStats \<times> Registry" where
  "met_Tunnel cid tid r =
     (let (c, r1) = met_Client cid r
      in case mget (cs_tunnels c) tid of Some t \<Rightarrow> (t, r1)
         | None \<Rightarrow> (new_tunnel_stats, put_tunnel cid tid new_tunnel_stats r1))"

definition RemoveClient :: "string \<Rightarrow> Registry \<Rightarrow> Registry" where
  "RemoveClient cid r = r\<lparr>mr_clients := mdel cid (mr_clients r)\<rparr>"

definition RemoveTunnel :: "string \<Rightarrow> string \<Rightarrow> Registry \<Rightarrow> Registry" where
  "RemoveTunnel cid tid r =
     (case mget (mr_clients r) cid of None \<Rightarrow> r
      | Some c \<Rightarrow> r\<lparr>mr_clients := mput cid (c\<lparr>cs_tunnels := mdel tid (cs_tunnels c)\<rparr>) (mr_clients r)\<rparr>)"

text \<open>The counters of a client and of one of its tunnels are updated through the pointers obtained first.\<close>

definition add_client :: "(ClientStats \<Rightarrow> ClientStats) \<Rightarrow> string \<Rightarrow> Registry \<Rightarrow> Registry" where
  "add_client f cid r = (let (c, r1) = met_Client cid r in r1\<lparr>mr_clients := mput cid (f c) (mr_clients r1)\<rparr>)"

definition add_tunnel :: "(TunnelStats \<Rightarrow> TunnelStats) \<Rightarrow> string \<Rightarrow> string \<Rightarrow> Registry \<Rightarrow> Registry" where
  "add_tunnel f cid tid r = (let (t, r1) = met_Tunnel cid tid r in put_tunnel cid tid (f t) r1)"

definition RecordConn :: "int \<Rightarrow> string \<Rightarrow> string \<Rightarrow> int \<Rightarrow> int \<Rightarrow> Registry \<Rightarrow> Registry" where
  "RecordConn now cid tid rx tx r =
     (let r1 = add_tunnel (\<lambda>t. t\<lparr>ts_RxBytes := wrap64 (ts_RxBytes t + rx), ts_TxBytes := wrap64 (ts_TxBytes t + tx),
                                 ts_ActiveConns := wrap64 (ts_ActiveConns t - 1)\<rparr>) cid tid r;
          r2 = add_client (\<lambda>c. c\<lparr>cs_RxBytes := wrap64 (cs_RxBytes c + rx), cs_TxBytes := wrap64 (cs_TxBytes c + tx),
                                 cs_ActiveConns := wrap64 (cs_ActiveConns c - 1)\<rparr>) cid r1
      in r2\<lparr>globalRx := wrap64 (globalRx r2 + rx), globalTx := wrap64 (globalTx r2 + tx),
            globalRate := rw_Add now (wrap64 (rx + tx)) (globalRate r2)\<rparr>)"

definition ConnOpened :: "string \<Rightarrow> string \<Rightarrow> Registry \<Rightarrow> Registry" where
  "ConnOpened cid tid r =
     (let r1 = add_tunnel (\<lambda>t. t\<lparr>ts_ActiveConns := wrap64 (ts_ActiveConns t + 1), ts_TotalConns := wrap64 (ts_TotalConns t + 1)\<rparr>) cid tid r;
          r2 = add_client (\<lambda>c. c\<lparr>cs_ActiveConns := wrap64 (cs_ActiveConns c + 1), cs_TotalConns := wrap64 (cs_TotalConns c + 1)\<rparr>) cid r1
      in r2\<lparr>globalConns := wrap64 (globalConns r2 + 1)\<rparr>)"

definition RecordUDP :: "string \<Rightarrow> string \<Rightarrow> int \<Rightarrow> int \<Rightarrow> Registry \<Rightarrow> Registry" where
  "RecordUDP cid tid rx tx r =
     add_tunnel (\<lambda>t. t\<lparr>ts_UDPRxPackets := (if 0 < rx then wrap64 (ts_UDPRxPackets t + rx) else ts_UDPRxPackets t),
                       ts_UDPTxPackets := (if 0 < tx then wrap64 (ts_UDPTxPackets t + tx) else ts_UDPTxPackets t)\<rparr>) cid tid r"

record TunnelSnapshot = TunnelStats +
  tn_TunnelID :: string

record ClientSnapshot =
  cn_ClientID :: string
  cn_RxBytes :: int
  cn_TxBytes :: int
  cn_ActiveConns :: int
  cn_TotalConns :: int
  cn_Tunnels :: "TunnelSnapshot list"

record MetSnapshot =
  GlobalRxBytes :: int
  GlobalTxBytes :: int
  GlobalConns :: int
  RateBPS :: int
  AvgRateBPS :: int
  Clients :: "ClientSnapshot list"

definition tunnel_snapshot :: "string \<times> TunnelStats \<Rightarrow> TunnelSnapshot" where
  "tunnel_snapshot e = TunnelStats.extend (snd e) \<lparr>tn_TunnelID = fst e\<rparr>"

definition client_snapshot :: "string \<times> ClientStats \<Rightarrow> ClientSnapshot" where
  "client_snapshot e =
     \<lparr>cn_ClientID = fst e, cn_RxBytes = cs_RxBytes (snd e), cn_TxBytes = cs_TxBytes (snd e), cn_ActiveConns = cs_ActiveConns (snd e),
      cn_TotalConns = cs_TotalConns (snd e), cn_Tunnels = map tunnel_snapshot (cs_tunnels (snd e))\<rparr>"

definition met_Snapshot :: "int \<Rightarrow> Registry \<Rightarrow> MetSnapshot \<times> Registry" where
  "met_Snapshot now r =
     (let ((rateBPS, avg60), w) = Rate now (globalRate r)
      in (\<lparr>GlobalRxBytes = globalRx r, GlobalTxBytes = globalTx r, GlobalConns = globalConns r, RateBPS = rateBPS, AvgRateBPS = avg60,
           Clients = map client_snapshot (mr_clients r)\<rparr>, r\<lparr>globalRate := w\<rparr>))"


section \<open>What the counters count\<close>

datatype met_ev =
    Opened string string
  | Closed int string string int int
  | Udp string string int int
  | DropClient string
  | DropTunnel string string

fun met_step :: "met_ev \<Rightarrow> Registry \<Rightarrow> Registry" where
  "met_step (Opened c t) r = ConnOpened c t r"
| "met_step (Closed now c t rx tx) r = RecordConn now c t rx tx r"
| "met_step (Udp c t rx tx) r = RecordUDP c t rx tx r"
| "met_step (DropClient c) r = RemoveClient c r"
| "met_step (DropTunnel c t) r = RemoveTunnel c t r"

fun drops_client :: "string \<Rightarrow> met_ev \<Rightarrow> bool" where
  "drops_client c (DropClient c') \<longleftrightarrow> c' = c"
| "drops_client c _ \<longleftrightarrow> False"

fun drops_tunnel :: "string \<Rightarrow> string \<Rightarrow> met_ev \<Rightarrow> bool" where
  "drops_tunnel c t (DropTunnel c' t') \<longleftrightarrow> c' = c \<and> t' = t"
| "drops_tunnel c t ev \<longleftrightarrow> drops_client c ev"

text \<open>The events after the last one that satisfies \<open>P\<close>.\<close>

definition ev_since :: "('e \<Rightarrow> bool) \<Rightarrow> 'e list \<Rightarrow> 'e list" where
  "ev_since P evs = rev (takeWhile (\<lambda>e. \<not> P e) (rev evs))"

definition ev_total :: "(met_ev \<Rightarrow> int) \<Rightarrow> met_ev list \<Rightarrow> int" where
  "ev_total d evs = wrap64 (sum_list (map d evs))"

text \<open>What one event adds, for the clients and tunnels selected by \<open>p\<close>.\<close>

fun ev_rx :: "(string \<Rightarrow> string \<Rightarrow> bool) \<Rightarrow> met_ev \<Rightarrow> int" where
  "ev_rx p (Closed _ c t n _) = (if p c t then n else 0)"
| "ev_rx p _ = 0"

fun ev_tx :: "(string \<Rightarrow> string \<Rightarrow> bool) \<Rightarrow> met_ev \<Rightarrow> int" where
  "ev_tx p (Closed _ c t _ n) = (if p c t then n else 0)"
| "ev_tx p _ = 0"

fun ev_opened :: "(string \<Rightarrow> string \<Rightarrow> bool) \<Rightarrow> met_ev \<Rightarrow> int" where
  "ev_opened p (Opened c t) = (if p c t then 1 else 0)"
| "ev_opened p _ = 0"

fun ev_open_now :: "(string \<Rightarrow> string \<Rightarrow> bool) \<Rightarrow> met_ev \<Rightarrow> int" where
  "ev_open_now p (Opened c t) = (if p c t then 1 else 0)"
| "ev_open_now p (Closed _ c t _ _) = (if p c t then -1 else 0)"
| "ev_open_now p _ = 0"

fun ev_udp_rx :: "(string \<Rightarrow> string \<Rightarrow> bool) \<Rightarrow> met_ev \<Rightarrow> int" where
  "ev_udp_rx p (Udp c t n _) = (if p c t then max 0 n else 0)"
| "ev_udp_rx p _ = 0"

fun ev_udp_tx :: "(string \<Rightarrow> string \<Rightarrow> bool) \<Rightarrow> met_ev \<Rightarrow> int" where
  "ev_udp_tx p (Udp c t _ n) = (if p c t then max 0 n else 0)"
| "ev_udp_tx p _ = 0"

abbreviation this_tunnel :: "string \<Rightarrow> string \<Rightarrow> string \<Rightarrow> string \<Rightarrow> bool" where
  "this_tunnel c t \<equiv> \<lambda>c' t'. c' = c \<and> t' = t"

abbreviation this_client :: "string \<Rightarrow> string \<Rightarrow> string \<Rightarrow> bool" where
  "this_client c \<equiv> \<lambda>c' _. c' = c"

abbreviation everything :: "string \<Rightarrow> string \<Rightarrow> bool" where
  "everything \<equiv> \<lambda>_ _. True"

definition cli_stats :: "string \<Rightarrow> Registry \<Rightarrow> ClientStats" where
  "cli_stats c r = (case mget (mr_clients r) c of None \<Rightarrow> new_client_stats | Some x \<Rightarrow> x)"

definition tun_stats :: "string \<Rightarrow> string \<Rightarrow> Registry \<Rightarrow> TunnelStats" where
  "tun_stats c t r = (case mget (cs_tunnels (cli_stats c r)) t of None \<Rightarrow> new_tunnel_stats | Some x \<Rightarrow> x)"

lemma ev_since_snoc: "ev_since P (evs @ [e]) = (if P e then [] else ev_since P evs @ [e])"
  by (simp add: ev_since_def)

lemma ev_total_Nil [simp]: "ev_total d [] = 0"
  by (simp add: ev_total_def)

lemma ev_total_snoc [simp]: "ev_total d (evs @ [e]) = wrap64 (ev_total d evs + d e)"
  by (simp add: ev_total_def)

lemma ev_total_range [simp]: "wrap64 (ev_total d evs) = ev_total d evs"
  using wrap64_add_left [of _ 0] by (simp add: ev_total_def)

lemma cli_add_client: "cli_stats c (add_client f c' r) = (if c' = c then f (cli_stats c r) else cli_stats c r)"
  by (simp add: cli_stats_def add_client_def met_Client_def split: option.split)

lemma tun_add_client: "(\<And>x. cs_tunnels (f x) = cs_tunnels x) \<Longrightarrow> tun_stats c t (add_client f c' r) = tun_stats c t r"
  by (simp add: tun_stats_def cli_add_client)

lemma met_Client_cli: "fst (met_Client c r) = cli_stats c r" "cli_stats c' (snd (met_Client c r)) = cli_stats c' r"
  by (simp_all add: met_Client_def cli_stats_def split: option.split)

lemma cli_put_tunnel:
  "cli_stats c (put_tunnel c' t x r) = (if c' = c then (cli_stats c r)\<lparr>cs_tunnels := mput t x (cs_tunnels (cli_stats c r))\<rparr> else cli_stats c r)"
proof -
  have "mget (mr_clients (put_tunnel c' t x r)) c =
      (if c = c' then Some ((fst (met_Client c' r))\<lparr>cs_tunnels := mput t x (cs_tunnels (fst (met_Client c' r)))\<rparr>)
       else mget (mr_clients (snd (met_Client c' r))) c)"
    by (simp add: put_tunnel_def Let_def split: prod.split)
  then show ?thesis using met_Client_cli(2) [of c c' r] by (auto simp: met_Client_cli(1)) (auto simp: cli_stats_def)
qed

lemma met_Tunnel_tun: "fst (met_Tunnel c t r) = tun_stats c t r"
  using met_Client_cli(1) [of c r] by (auto simp: met_Tunnel_def tun_stats_def split: prod.split option.split)

lemma met_Tunnel_snd:
  "snd (met_Tunnel c t r) = (case mget (cs_tunnels (cli_stats c r)) t of Some _ \<Rightarrow> snd (met_Client c r)
     | None \<Rightarrow> put_tunnel c t new_tunnel_stats (snd (met_Client c r)))"
  using met_Client_cli(1) [of c r] by (auto simp: met_Tunnel_def split: prod.split option.split)

lemma cli_add_tunnel:
  "cli_stats c (add_tunnel f c' t r) =
     (if c' = c then (cli_stats c r)\<lparr>cs_tunnels := mput t (f (tun_stats c t r)) (cs_tunnels (cli_stats c r))\<rparr> else cli_stats c r)"
proof -
  have "add_tunnel f c' t r = put_tunnel c' t (f (tun_stats c' t r)) (snd (met_Tunnel c' t r))"
    using met_Tunnel_tun [of c' t r] by (auto simp: add_tunnel_def split: prod.split)
  then show ?thesis
    by (simp add: cli_put_tunnel met_Tunnel_snd met_Client_cli update_last split: option.split)
qed

lemma cli_add_tunnel_fields [simp]:
  "cs_RxBytes (cli_stats c (add_tunnel f c' t' r)) = cs_RxBytes (cli_stats c r)"
  "cs_TxBytes (cli_stats c (add_tunnel f c' t' r)) = cs_TxBytes (cli_stats c r)"
  "cs_ActiveConns (cli_stats c (add_tunnel f c' t' r)) = cs_ActiveConns (cli_stats c r)"
  "cs_TotalConns (cli_stats c (add_tunnel f c' t' r)) = cs_TotalConns (cli_stats c r)"
  by (simp_all add: cli_add_tunnel)

lemma tun_add_tunnel: "tun_stats c t (add_tunnel f c' t' r) = (if c' = c \<and> t' = t then f (tun_stats c t r) else tun_stats c t r)"
  by (auto simp: tun_stats_def cli_add_tunnel split: option.split)

lemma global_add [simp]:
  "globalRx (add_client g c r) = globalRx r" "globalTx (add_client g c r) = globalTx r"
  "globalConns (add_client g c r) = globalConns r" "globalRate (add_client g c r) = globalRate r"
  "globalRx (add_tunnel f c t r) = globalRx r" "globalTx (add_tunnel f c t r) = globalTx r"
  "globalConns (add_tunnel f c t r) = globalConns r" "globalRate (add_tunnel f c t r) = globalRate r"
  by (simp_all add: add_client_def add_tunnel_def met_Tunnel_def put_tunnel_def met_Client_def split: option.split)

lemma cli_cong [simp]:
  "cli_stats c (r\<lparr>globalRx := a, globalTx := b, globalRate := w\<rparr>) = cli_stats c r" "cli_stats c (r\<lparr>globalConns := n\<rparr>) = cli_stats c r"
  by (simp_all add: cli_stats_def)

lemma tun_cong [simp]:
  "tun_stats c t (r\<lparr>globalRx := a, globalTx := b, globalRate := w\<rparr>) = tun_stats c t r" "tun_stats c t (r\<lparr>globalConns := n\<rparr>) = tun_stats c t r"
  by (simp_all add: tun_stats_def)

lemma cli_RemoveClient: "cli_stats c (RemoveClient c' r) = (if c' = c then new_client_stats else cli_stats c r)"
  by (simp add: cli_stats_def RemoveClient_def)

lemma cli_RemoveTunnel: "\<exists>ts. cli_stats c (RemoveTunnel c' t' r) = (cli_stats c r)\<lparr>cs_tunnels := ts\<rparr>"
proof (cases "mget (mr_clients r) c' = None \<or> c' \<noteq> c")
  case True
  then have "cli_stats c (RemoveTunnel c' t' r) = (cli_stats c r)\<lparr>cs_tunnels := cs_tunnels (cli_stats c r)\<rparr>"
    by (auto simp: cli_stats_def RemoveTunnel_def split: option.split)
  then show ?thesis by blast
next
  case False
  then show ?thesis by (auto simp: cli_stats_def RemoveTunnel_def)
qed

lemma cli_RemoveTunnel_fields [simp]:
  "cs_RxBytes (cli_stats c (RemoveTunnel c' t' r)) = cs_RxBytes (cli_stats c r)"
  "cs_TxBytes (cli_stats c (RemoveTunnel c' t' r)) = cs_TxBytes (cli_stats c r)"
  "cs_ActiveConns (cli_stats c (RemoveTunnel c' t' r)) = cs_ActiveConns (cli_stats c r)"
  "cs_TotalConns (cli_stats c (RemoveTunnel c' t' r)) = cs_TotalConns (cli_stats c r)"
  using cli_RemoveTunnel [of c c' t' r] by auto

lemma tun_RemoveClient: "tun_stats c t (RemoveClient c' r) = (if c' = c then new_tunnel_stats else tun_stats c t r)"
  by (simp add: tun_stats_def cli_RemoveClient new_client_stats_def)

lemma tun_RemoveTunnel: "tun_stats c t (RemoveTunnel c' t' r) = (if c' = c \<and> t' = t then new_tunnel_stats else tun_stats c t r)"
  by (simp add: tun_stats_def cli_stats_def RemoveTunnel_def new_client_stats_def split: option.split)

lemma global_remove [simp]:
  "globalRx (RemoveClient c r) = globalRx r" "globalTx (RemoveClient c r) = globalTx r" "globalConns (RemoveClient c r) = globalConns r"
  "globalRx (RemoveTunnel c t r) = globalRx r" "globalTx (RemoveTunnel c t r) = globalTx r" "globalConns (RemoveTunnel c t r) = globalConns r"
  by (simp_all add: RemoveClient_def RemoveTunnel_def split: option.split)

lemmas met_views = cli_add_client tun_add_client tun_add_tunnel cli_RemoveClient tun_RemoveClient tun_RemoveTunnel
  new_client_stats_def new_tunnel_stats_def ev_since_snoc ConnOpened_def RecordConn_def RecordUDP_def Let_def

lemma tun_new: "tun_stats c t met_NewRegistry = new_tunnel_stats" "cli_stats c met_NewRegistry = new_client_stats"
  by (simp_all add: tun_stats_def cli_stats_def met_NewRegistry_def new_client_stats_def)

lemma since_Nil [simp]: "ev_since P [] = []"
  by (simp add: ev_since_def)

lemma tunnel_counters:
  "let r = fold met_step evs met_NewRegistry; E = ev_since (drops_tunnel c t) evs; p = this_tunnel c t
   in ts_RxBytes (tun_stats c t r) = ev_total (ev_rx p) E \<and> ts_TxBytes (tun_stats c t r) = ev_total (ev_tx p) E \<and>
     ts_ActiveConns (tun_stats c t r) = ev_total (ev_open_now p) E \<and> ts_TotalConns (tun_stats c t r) = ev_total (ev_opened p) E \<and>
     ts_UDPRxPackets (tun_stats c t r) = ev_total (ev_udp_rx p) E \<and> ts_UDPTxPackets (tun_stats c t r) = ev_total (ev_udp_tx p) E"
proof (induction evs rule: rev_induct)
  case (snoc ev evs)
  then show ?case by (cases ev) (simp_all add: met_views max_def)
qed (simp add: tun_new new_tunnel_stats_def)

lemma client_counters:
  "let r = fold met_step evs met_NewRegistry; E = ev_since (drops_client c) evs; p = this_client c
   in cs_RxBytes (cli_stats c r) = ev_total (ev_rx p) E \<and> cs_TxBytes (cli_stats c r) = ev_total (ev_tx p) E \<and>
     cs_ActiveConns (cli_stats c r) = ev_total (ev_open_now p) E \<and> cs_TotalConns (cli_stats c r) = ev_total (ev_opened p) E"
proof (induction evs rule: rev_induct)
  case (snoc ev evs)
  then show ?case by (cases ev) (simp_all add: met_views)
qed (simp add: tun_new new_client_stats_def)

lemma global_counters:
  "let r = fold met_step evs met_NewRegistry
   in globalRx r = ev_total (ev_rx everything) evs \<and> globalTx r = ev_total (ev_tx everything) evs \<and> globalConns r = ev_total (ev_opened everything) evs"
proof (induction evs rule: rev_induct)
  case (snoc ev evs)
  then show ?case by (cases ev) (simp_all add: met_views)
qed (simp add: met_NewRegistry_def)

definition reg_wf :: "Registry \<Rightarrow> bool" where
  "reg_wf r \<longleftrightarrow> mwf (mr_clients r) \<and> (\<forall>c. mwf (cs_tunnels (cli_stats c r)))"

lemma mwf_clients:
  "mwf (mr_clients r) \<Longrightarrow> mwf (mr_clients (add_client g c r))" "mwf (mr_clients r) \<Longrightarrow> mwf (mr_clients (add_tunnel f c t r))"
  "mwf (mr_clients r) \<Longrightarrow> mwf (mr_clients (RemoveClient c r))" "mwf (mr_clients r) \<Longrightarrow> mwf (mr_clients (RemoveTunnel c t r))"
  by (auto simp: add_client_def add_tunnel_def met_Tunnel_def put_tunnel_def met_Client_def RemoveClient_def RemoveTunnel_def Let_def
      split: option.split)

lemma reg_wf_add:
  "reg_wf r \<Longrightarrow> (\<And>x. cs_tunnels (g x) = cs_tunnels x) \<Longrightarrow> reg_wf (add_client g c r)" "reg_wf r \<Longrightarrow> reg_wf (add_tunnel f c t r)"
  by (simp_all add: reg_wf_def mwf_clients cli_add_client cli_add_tunnel)

lemma reg_wf_remove: "reg_wf r \<Longrightarrow> reg_wf (RemoveClient c r)" "reg_wf r \<Longrightarrow> reg_wf (RemoveTunnel c t r)"
proof -
  assume r: "reg_wf r"
  then show "reg_wf (RemoveClient c r)" by (simp add: reg_wf_def mwf_clients cli_RemoveClient new_client_stats_def)
  have "mwf (cs_tunnels (cli_stats c' (RemoveTunnel c t r)))" for c'
    using r by (auto simp: reg_wf_def cli_stats_def RemoveTunnel_def new_client_stats_def split: option.splits)
  then show "reg_wf (RemoveTunnel c t r)" using r by (simp add: reg_wf_def mwf_clients)
qed

lemma reg_wf_global:
  "reg_wf (r\<lparr>globalRx := a, globalTx := b, globalRate := w\<rparr>) = reg_wf r" "reg_wf (r\<lparr>globalConns := n\<rparr>) = reg_wf r"
  by (simp_all add: reg_wf_def)

lemma reg_wf_step: "reg_wf r \<Longrightarrow> reg_wf (met_step ev r)"
  by (cases ev) (auto simp: ConnOpened_def RecordConn_def RecordUDP_def Let_def reg_wf_global intro!: reg_wf_add reg_wf_remove)

lemma reg_wf_run: "reg_wf (fold met_step evs met_NewRegistry)"
proof (induction evs rule: rev_induct)
  case Nil
  show ?case by (simp add: reg_wf_def tun_new) (simp add: met_NewRegistry_def new_client_stats_def)
qed (simp add: reg_wf_step)

lemma snapshot_entries:
  assumes "reg_wf r" and "cn \<in> set (Clients (fst (met_Snapshot now r)))"
  shows "\<exists>c. cn_ClientID cn = c \<and> cn_RxBytes cn = cs_RxBytes (cli_stats c r) \<and> cn_TxBytes cn = cs_TxBytes (cli_stats c r) \<and>
     cn_ActiveConns cn = cs_ActiveConns (cli_stats c r) \<and> cn_TotalConns cn = cs_TotalConns (cli_stats c r) \<and>
     (\<forall>tn\<in>set (cn_Tunnels cn). tn = tunnel_snapshot (tn_TunnelID tn, tun_stats c (tn_TunnelID tn) r))"
proof -
  obtain c x where e: "(c, x) \<in> set (mr_clients r)" "cn = client_snapshot (c, x)"
    using assms(2) by (auto simp: met_Snapshot_def Let_def split: prod.splits)
  then have x: "cli_stats c r = x" using assms(1) by (simp add: reg_wf_def mwf_mget cli_stats_def)
  moreover have "tun_stats c t r = y" if "(t, y) \<in> set (cs_tunnels x)" for t y
    using that x assms(1) mwf_mget [of "cs_tunnels x" t y] by (auto simp: reg_wf_def tun_stats_def)
  ultimately show ?thesis by (auto simp: e client_snapshot_def tunnel_snapshot_def TunnelStats.extend_def)
qed

text \<open>
  Every number of a status snapshot is accounted for: whatever connections were opened and closed and
  whatever entries were removed, the byte and connection counts of the process, of each listed client and
  of each of its tunnels are the 64-bit totals of exactly the events of that client or tunnel since it was
  last removed; the active connections are those opened less those closed.
\<close>
theorem snapshot_accounts:
  assumes r: "r = fold met_step evs met_NewRegistry" and S: "S = fst (met_Snapshot now r)" and cn: "cn \<in> set (Clients S)"
    and c: "c = cn_ClientID cn" and E: "E = ev_since (drops_client c) evs"
    and tn: "tn \<in> set (cn_Tunnels cn)" and F: "F = ev_since (drops_tunnel c (tn_TunnelID tn)) evs"
  shows "GlobalRxBytes S = ev_total (ev_rx everything) evs \<and> GlobalTxBytes S = ev_total (ev_tx everything) evs \<and> GlobalConns S = ev_total (ev_opened everything) evs \<and>
     cn_RxBytes cn = ev_total (ev_rx (this_client c)) E \<and> cn_TxBytes cn = ev_total (ev_tx (this_client c)) E \<and>
     cn_ActiveConns cn = ev_total (ev_open_now (this_client c)) E \<and> cn_TotalConns cn = ev_total (ev_opened (this_client c)) E \<and>
     ts_RxBytes tn = ev_total (ev_rx (this_tunnel c (tn_TunnelID tn))) F \<and> ts_TxBytes tn = ev_total (ev_tx (this_tunnel c (tn_TunnelID tn))) F \<and>
     ts_ActiveConns tn = ev_total (ev_open_now (this_tunnel c (tn_TunnelID tn))) F \<and> ts_TotalConns tn = ev_total (ev_opened (this_tunnel c (tn_TunnelID tn))) F"
proof -
  have glob: "GlobalRxBytes S = globalRx r" "GlobalTxBytes S = globalTx r" "GlobalConns S = globalConns r"
    by (simp_all add: S met_Snapshot_def split: prod.split)
  have wf: "reg_wf r" unfolding r by (rule reg_wf_run)
  obtain y where y: "tn = tunnel_snapshot (tn_TunnelID tn, tun_stats c (tn_TunnelID tn) r)" "cn_RxBytes cn = cs_RxBytes (cli_stats c r)"
      "cn_TxBytes cn = cs_TxBytes (cli_stats c r)" "cn_ActiveConns cn = cs_ActiveConns (cli_stats c r)" "cn_TotalConns cn = cs_TotalConns (cli_stats c r)"
    using snapshot_entries [OF wf cn [unfolded S]] tn c by auto
  have "ts_RxBytes (tunnel_snapshot (a, x)) = ts_RxBytes x \<and> ts_TxBytes (tunnel_snapshot (a, x)) = ts_TxBytes x \<and>
      ts_ActiveConns (tunnel_snapshot (a, x)) = ts_ActiveConns x \<and> ts_TotalConns (tunnel_snapshot (a, x)) = ts_TotalConns x" for a x
    by (simp add: tunnel_snapshot_def TunnelStats.extend_def)
  then have t: "ts_RxBytes tn = ts_RxBytes (tun_stats c (tn_TunnelID tn) r)" "ts_TxBytes tn = ts_TxBytes (tun_stats c (tn_TunnelID tn) r)"
      "ts_ActiveConns tn = ts_ActiveConns (tun_stats c (tn_TunnelID tn) r)" "ts_TotalConns tn = ts_TotalConns (tun_stats c (tn_TunnelID tn) r)"
    using y(1) by metis+
  show ?thesis
    using glob y(2-) t global_counters [of evs] client_counters [of evs c] tunnel_counters [of evs c "tn_TunnelID tn"]
    by (simp add: r [symmetric] E F Let_def)
qed

theorem snapshot_accounts_witness:
  "let evs = [Opened ''a'' ''t'', Closed 9 ''a'' ''t'' 5 7, Closed 9 ''a'' ''t'' 1 1]
   in \<exists>cn\<in>set (Clients (fst (met_Snapshot 9 (fold met_step evs met_NewRegistry)))). \<exists>tn\<in>set (cn_Tunnels cn).
     cn_RxBytes cn = 6 \<and> ts_ActiveConns tn = -1"
proof -
  let ?evs = "[Opened ''a'' ''t'', Closed 9 ''a'' ''t'' 5 7, Closed 9 ''a'' ''t'' 1 1]"
  let ?S = "fst (met_Snapshot 9 (fold met_step ?evs met_NewRegistry))"
  have "list_all (\<lambda>cn. cn_ClientID cn = ''a'' \<and> list_all (\<lambda>tn. tn_TunnelID tn = ''t'') (cn_Tunnels cn) \<and> cn_Tunnels cn \<noteq> []) (Clients ?S) \<and> Clients ?S \<noteq> []"
    by code_simp
  then have "hd (Clients ?S) \<in> set (Clients ?S)" and
      all: "list_all (\<lambda>cn. cn_ClientID cn = ''a'' \<and> list_all (\<lambda>tn. tn_TunnelID tn = ''t'') (cn_Tunnels cn) \<and> cn_Tunnels cn \<noteq> []) (Clients ?S)"
    using hd_in_set by blast+
  then obtain cn where cn: "cn \<in> set (Clients ?S)" by blast
  then have "cn_Tunnels cn \<noteq> []" using all unfolding list_all_iff by blast
  then obtain tn where tn: "tn \<in> set (cn_Tunnels cn)" using hd_in_set by blast
  have *: "cn \<in> set (Clients ?S)" "tn \<in> set (cn_Tunnels cn)" "cn_ClientID cn = ''a''" "tn_TunnelID tn = ''t''"
    using cn tn all unfolding list_all_iff by blast+
  from snapshot_accounts [OF refl refl *(1) refl refl *(2) refl] * have "cn_RxBytes cn = 6 \<and> ts_ActiveConns tn = -1"
    by (simp add: ev_since_def ev_total_def)
  then show ?thesis using * by (auto simp: Let_def)
qed


end
