(* ===== verification/Control.thy ===== *)
theory Control
  imports Session Vhost Sniff TunnelManager Config Metrics
begin

text \<open>
  \<^verbatim>\<open>internal/control\<close>: the server-side control plane (server.go), its security wiring (security.go), the
  shared HTTP listener (vhost.go) and the shutdown negotiation (shutdown.go). One record holds the
  server's state; each handler is a function from the decoded frame and the environment's answers
  (clock, random bytes, listener results) to the next state. Frames written to control connections are
  appended to \<open>s_out\<close>, closed connections to \<open>s_closed\<close>. Logging is left out.

  The lemmas show what a registration response that says OK implies, how port reservations arbitrate
  between clients, that the connection quotas are exact, and that a silent client is dropped; and they
  exhibit where the wiring falls short of its contract.
\<close>

section \<open>State\<close>

record reservation =
  r_clientID :: string
  r_until :: instant

datatype ctl_msg =
    MError "64 word" proto_error
  | MServerHello server_hello
  | MRegisterResp "64 word" register_tunnel_resp
  | MOpenConnection open_connection
  | MPong "64 word" string
  | MShutdown shutdown_msg

record 'l Server =
  s_cfg :: "ServerConfig option"
  s_policy :: policy
  MaxHalfOpen :: int
  VhostPort :: int
  s_sessions :: registry
  s_heap :: session_heap
  s_managers :: "(string, 'l Manager) gomap"
  s_vhost :: VhostTable
  vhostLn :: bool
  vhostRefs :: int
  reservations :: "(int, reservation) gomap"
  clientSem :: "(string, Semaphore) gomap"
  tunnelSem :: "(string, Semaphore) gomap"
  clientBW :: "(string, nat) gomap"
  tunnelBW :: "(string, nat) gomap"
  s_bw :: bandwidth
  next_bucket :: nat
  regLim :: "(string, 'l) gomap"
  ipGate :: "'l IPGate"
  halfOpen :: halfOpenTracker
  dataConns :: "(string, unit) gomap"
  s_out :: "(nat \<times> ctl_msg) list"
  s_closed :: "nat list"
  s_Metrics :: "Registry option"

definition send :: "nat \<Rightarrow> ctl_msg \<Rightarrow> 'l Server \<Rightarrow> 'l Server" where
  "send conn msg s = s\<lparr>s_out := s_out s @ [(conn, msg)]\<rparr>"

definition close_conn :: "nat \<Rightarrow> 'l Server \<Rightarrow> 'l Server" where
  "close_conn conn s = s\<lparr>s_closed := s_closed s @ [conn]\<rparr>"

text \<open>Every call into the metrics is guarded by a check that the server has a registry.\<close>

definition record_metrics :: "(Registry \<Rightarrow> Registry) \<Rightarrow> 'l Server \<Rightarrow> 'l Server" where
  "record_metrics f s = s\<lparr>s_Metrics := map_option f (s_Metrics s)\<rparr>"

definition zero_policy :: policy where
  "zero_policy = \<lparr>AllowedPorts = [], MaxTunnels = 0, MaxConns = 0, MaxConnsTunnel = 0, BandwidthBPS = 0,
     BandwidthTunnelBPS = 0, UDP = \<lparr>MaxSessions = 0, MaxPacket = 0, SessionIdleTimeout = ''''\<rparr>, AllowedTargets = []\<rparr>"

definition policyFromConfig :: "ServerConfig option \<Rightarrow> policy" where
  "policyFromConfig arg =
     (case arg of
        None \<Rightarrow> zero_policy
      | Some c \<Rightarrow> zero_policy
          \<lparr>AllowedPorts := cp_AllowedPorts c, MaxTunnels := MaxTunnelsPerClient c, MaxConns := MaxConnsPerClient c,
           BandwidthBPS := BandwidthBpsPerClient c, AllowedTargets := cp_AllowedTargets c,
           UDP := \<lparr>MaxSessions = UDPMaxSessionsPerTunnel c, MaxPacket = cp_UDPMaxPacket c,
                   SessionIdleTimeout = UDPSessionIdleTimeout c\<rparr>\<rparr>)"

definition heartbeatFromConfig :: "ServerConfig option \<Rightarrow> heartbeat" where
  "heartbeatFromConfig arg =
     (case arg of
        None \<Rightarrow> \<lparr>IntervalS = 15, TimeoutS = 10, MissThreshold = 2\<rparr>
      | Some c \<Rightarrow> \<lparr>IntervalS = hb_IntervalS c, TimeoutS = hb_TimeoutS c, MissThreshold = hb_MissThreshold c\<rparr>)"

text \<open>The fields as \<^verbatim>\<open>Serve\<close> initialises them, with the tunables left at zero.\<close>

definition Serve_init :: "ServerConfig option \<Rightarrow> int \<Rightarrow> 'l Server" where
  "Serve_init c vport =
     \<lparr>s_cfg = c, s_policy = policyFromConfig c, MaxHalfOpen = 8, VhostPort = vport, s_sessions = NewRegistry,
      s_heap = [], s_managers = [], s_vhost = NewVhostTable, vhostLn = False, vhostRefs = 0, reservations = [],
      clientSem = [], tunnelSem = [], clientBW = [], tunnelBW = [],
      s_bw = \<lparr>buckets = [], cancelled = [], next_ctx = 0\<rparr>, next_bucket = 0, regLim = [],
      ipGate = NewIPGate 16 20, halfOpen = newHalfOpen, dataConns = [], s_out = [], s_closed = [], s_Metrics = Some met_NewRegistry\<rparr>"

section \<open>Quotas (security.go)\<close>

definition clientSemaphore :: "string \<Rightarrow> 'l Server \<Rightarrow> Semaphore" where
  "clientSemaphore cid s =
     (case mget (clientSem s) cid of Some sem \<Rightarrow> sem | None \<Rightarrow> NewSemaphore (MaxConns (s_policy s)))"

definition tunnelSemaphore :: "string \<Rightarrow> 'l Server \<Rightarrow> Semaphore" where
  "tunnelSemaphore tid s =
     (case mget (tunnelSem s) tid of Some sem \<Rightarrow> sem | None \<Rightarrow> NewSemaphore (MaxConnsTunnel (s_policy s)))"

text \<open>The semaphore after an operation is stored under its key, as the pointer in the map is.\<close>

definition put_clientSem :: "string \<Rightarrow> Semaphore option \<Rightarrow> 'l Server \<Rightarrow> 'l Server" where
  "put_clientSem cid ms s = (case ms of None \<Rightarrow> s | Some sem \<Rightarrow> s\<lparr>clientSem := mput cid sem (clientSem s)\<rparr>)"

definition put_tunnelSem :: "string \<Rightarrow> Semaphore option \<Rightarrow> 'l Server \<Rightarrow> 'l Server" where
  "put_tunnelSem tid ms s = (case ms of None \<Rightarrow> s | Some sem \<Rightarrow> s\<lparr>tunnelSem := mput tid sem (tunnelSem s)\<rparr>)"

definition acquireDataQuota :: "string \<Rightarrow> string \<Rightarrow> 'l Server \<Rightarrow> 'l Server \<times> bool" where
  "acquireDataQuota cid tid s =
     (let (c1, ok1) = TryAcquire (Some (clientSemaphore cid s));
          s1 = put_clientSem cid c1 s
      in if \<not> ok1 then (s1, False)
         else let (t1, ok2) = TryAcquire (Some (tunnelSemaphore tid s1));
                  s2 = put_tunnelSem tid t1 s1
              in if \<not> ok2 then (put_clientSem cid (sem_Release (Some (clientSemaphore cid s2))) s2, False)
                 else (s2, True))"

definition releaseDataQuota :: "string \<Rightarrow> string \<Rightarrow> 'l Server \<Rightarrow> 'l Server" where
  "releaseDataQuota cid tid s =
     (let s1 = put_tunnelSem tid (sem_Release (Some (tunnelSemaphore tid s))) s
      in put_clientSem cid (sem_Release (Some (clientSemaphore cid s1))) s1)"

definition clientBucket :: "string \<Rightarrow> 'l Server \<Rightarrow> nat \<times> 'l Server" where
  "clientBucket cid s =
     (case mget (clientBW s) cid of
        Some a \<Rightarrow> (a, s)
      | None \<Rightarrow>
          (let (tb, w) = NewTokenBucket (BandwidthBPS (s_policy s)) (s_bw s); a = next_bucket s
           in (a, s\<lparr>s_bw := w\<lparr>buckets := mput a tb (buckets w)\<rparr>, next_bucket := Suc a,
                    clientBW := mput cid a (clientBW s)\<rparr>)))"

definition tunnelBucket :: "string \<Rightarrow> 'l Server \<Rightarrow> nat \<times> 'l Server" where
  "tunnelBucket tid s =
     (case mget (tunnelBW s) tid of
        Some a \<Rightarrow> (a, s)
      | None \<Rightarrow>
          (let (tb, w) = NewTokenBucket (BandwidthTunnelBPS (s_policy s)) (s_bw s); a = next_bucket s
           in (a, s\<lparr>s_bw := w\<lparr>buckets := mput a tb (buckets w)\<rparr>, next_bucket := Suc a,
                    tunnelBW := mput tid a (tunnelBW s)\<rparr>)))"

text \<open>Wrapping a connection in the buckets of its client and tunnel.\<close>

definition shape_conn :: "string \<Rightarrow> string \<Rightarrow> nat \<Rightarrow> 'l Server \<Rightarrow> 'l Server" where
  "shape_conn cid tid c s =
     (let (a, s1) = clientBucket cid s; (b, s2) = tunnelBucket tid s1
      in s2\<lparr>s_bw := snd (NewRateLimitedConn c [Some a, Some b] (s_bw s2))\<rparr>)"

definition checkRegisterRate :: "'l rate_lib \<Rightarrow> instant \<Rightarrow> string \<Rightarrow> 'l Server \<Rightarrow> 'l Server \<times> bool" where
  "checkRegisterRate L now cid s =
     (let l = (case mget (regLim s) cid of None \<Rightarrow> rl_new L 5 32 | Some l \<Rightarrow> l); (l', ok) = rl_allow L now l
      in (s\<lparr>regLim := mput cid l' (regLim s)\<rparr>, ok))"

definition checkTargetAllowed :: "policy \<Rightarrow> local_target \<Rightarrow> string option" where
  "checkTargetAllowed pol loc =
     (if AllowedTargets pol = [] then Some ''local target not allowed by policy''
      else case ParseIP (lt_IP loc) of
        None \<Rightarrow> Some (''local target hostname not allowed: '' @ lt_IP loc)
      | Some x \<Rightarrow>
          if \<not> TargetsAllow (AllowedTargets pol) x (lt_Port loc)
          then Some (''local target '' @ lt_IP loc @ '':'' @ Itoa (lt_Port loc) @ '' not allowed by policy'')
          else None)"

definition cleanupSecurity :: "string \<Rightarrow> 'l Server \<Rightarrow> 'l Server" where
  "cleanupSecurity cid s =
     s\<lparr>clientSem := mdel cid (clientSem s), clientBW := mdel cid (clientBW s), regLim := mdel cid (regLim s)\<rparr>"

definition tunnelTeardown :: "string \<Rightarrow> 'l Server \<Rightarrow> 'l Server" where
  "tunnelTeardown tid s = s\<lparr>tunnelSem := mdel tid (tunnelSem s), tunnelBW := mdel tid (tunnelBW s)\<rparr>"

section \<open>The shared HTTP listener (vhost.go)\<close>

text \<open>\<open>listen_err\<close> is the operating system's error text, if binding the port fails.\<close>

definition startVhost :: "string option \<Rightarrow> 'l Server \<Rightarrow> 'l Server \<times> string option" where
  "startVhost listen_err s =
     (let s1 = s\<lparr>vhostRefs := vhostRefs s + 1\<rparr>
      in if vhostLn s1 then (s1, None)
         else if VhostPort s1 \<le> 0 then (s, Some ''control: http_vhost_port not configured'')
         else case listen_err of
                Some err \<Rightarrow> (s, Some (''control: vhost listen on '' @ Itoa (VhostPort s) @ '': '' @ err))
              | None \<Rightarrow> (s1\<lparr>vhostLn := True\<rparr>, None))"

definition stopVhost :: "'l Server \<Rightarrow> 'l Server" where
  "stopVhost s =
     (let s1 = (if 0 < vhostRefs s then s\<lparr>vhostRefs := vhostRefs s - 1\<rparr> else s)
      in if vhostRefs s1 \<le> 0 \<and> vhostLn s1 then s1\<lparr>vhostLn := False\<rparr> else s1)"

section \<open>Managers and reservations\<close>

text \<open>
  The manager of a client, created on first use with the server's UDP tunables, which are zero.
\<close>

definition fresh_manager :: "'l Manager" where
  "fresh_manager = NewManager\<lparr>UDPIdleTimeout := 0, UDPMaxSessions := 0, UDPMaxPacket := 0\<rparr>"

definition managerFor :: "string \<Rightarrow> 'l Server \<Rightarrow> 'l Manager" where
  "managerFor cid s = (case mget (s_managers s) cid of Some m \<Rightarrow> m | None \<Rightarrow> fresh_manager)"

definition put_manager :: "string \<Rightarrow> 'l Manager \<Rightarrow> 'l Server \<Rightarrow> 'l Server" where
  "put_manager cid m s = s\<lparr>s_managers := mput cid m (s_managers s)\<rparr>"

definition reservePort :: "instant \<Rightarrow> int \<Rightarrow> string \<Rightarrow> duration \<Rightarrow> 'l Server \<Rightarrow> 'l Server" where
  "reservePort now port cid ttl s =
     s\<lparr>reservations := mput port \<lparr>r_clientID = cid, r_until = now + ttl\<rparr> (reservations s)\<rparr>"

definition checkPortArbitration :: "instant \<Rightarrow> int \<Rightarrow> string \<Rightarrow> 'l Server \<Rightarrow> 'l Server \<times> string option" where
  "checkPortArbitration now port cid s =
     (let rs = mdel_where (\<lambda>p r. r_until r < now) (reservations s)
      in case mget rs port of
           None \<Rightarrow> (s\<lparr>reservations := rs\<rparr>, None)
         | Some r \<Rightarrow>
             if r_clientID r \<noteq> cid
             then (s\<lparr>reservations := rs\<rparr>, Some (''remote port '' @ Itoa port @ '' reserved by another client''))
             else (s\<lparr>reservations := mdel port rs\<rparr>, None))"

section \<open>Tunnel registration (server.go)\<close>

text \<open>What the environment answers while a control message is handled.\<close>

record env_answers =
  e_now :: instant
  e_os :: os_listen
  e_vhost_err :: "string option"
  e_rnd :: "bytes option"

definition resp_error :: "string \<Rightarrow> string \<Rightarrow> register_tunnel_resp" where
  "resp_error c m = \<lparr>rr_TunnelID = '''', rr_OK = False, rr_Error = Some \<lparr>Code = c, Message = m, Fatal = False\<rparr>, rr_Effective = None\<rparr>"

definition resp_fail :: "proto_error \<Rightarrow> register_tunnel_resp" where
  "resp_fail e = \<lparr>rr_TunnelID = '''', rr_OK = False, rr_Error = Some e, rr_Effective = None\<rparr>"

definition resp_ok :: "string \<Rightarrow> int option \<Rightarrow> register_tunnel_resp" where
  "resp_ok tid eff = \<lparr>rr_TunnelID = tid, rr_OK = True, rr_Error = None, rr_Effective = eff\<rparr>"

definition open_conn_msg :: "string \<Rightarrow> string \<Rightarrow> string \<Rightarrow> string \<Rightarrow> ctl_msg" where
  "open_conn_msg connID tid src transport =
     MOpenConnection \<lparr>oc_ConnID = connID, oc_TunnelID = tid, oc_SrcAddr = src, oc_DeadlineMS = 10000, oc_Transport = transport\<rparr>"

text \<open>\<open>NormalizeHostName\<close> reports its error by its text.\<close>

fun sniff_error_text :: "sniff_error \<Rightarrow> string" where
  "sniff_error_text ErrSniffTooLarge = ''http: request head exceeds 8KiB sniff limit''"
| "sniff_error_text ErrSniffNoHost = ''http: request has no usable Host''"
| "sniff_error_text ErrSniffBadHost = ''http: invalid Host value''"
| "sniff_error_text ErrSniffMalformed = ''http: malformed request head''"
| "sniff_error_text ErrSniffClosed = ''http: connection closed during sniff''"
| "sniff_error_text SniffReadError = ''read error''"

definition handleRegisterVhost ::
  "(string \<Rightarrow> string) \<Rightarrow> env_answers \<Rightarrow> nat \<Rightarrow> string \<Rightarrow> 64 word \<Rightarrow> register_tunnel \<Rightarrow> string \<Rightarrow> 'l Server \<Rightarrow> 'l Server" where
  "handleRegisterVhost ucase E conn cid sq req rawHost s =
     (case normalizeHost ucase rawHost of
        Inl e \<Rightarrow> send conn (MRegisterResp sq (resp_error ErrCodeNameInvalid (''invalid http.host: '' @ sniff_error_text e))) s
      | Inr host \<Rightarrow>
          (let (r, m1) = AddVhostTunnel (rt_Name req) host (MaxTunnels (policyFromConfig (s_cfg s))) (managerFor cid s);
               s1 = put_manager cid m1 s
           in case r of
                Inl e \<Rightarrow> send conn (MRegisterResp sq (resp_error (mapRegisterErr (register_msg e)) (register_msg e))) s1
              | Inr t \<Rightarrow>
                  (case vhost_Register host (t_ID t) cid (s_vhost s1) of
                     Inl _ \<Rightarrow>
                       send conn (MRegisterResp sq (resp_error ErrCodeNameConflict (''http.host already registered: '' @ host)))
                         (put_manager cid (mgr_Unregister (t_ID t) (managerFor cid s1)) s1)
                   | Inr vt \<Rightarrow>
                       (let s2 = s1\<lparr>s_vhost := vt\<rparr>; (s3, err) = startVhost (e_vhost_err E) s2
                        in case err of
                             Some msg \<Rightarrow>
                               send conn (MRegisterResp sq (resp_error ErrCodeInternal msg))
                                 (put_manager cid (mgr_Unregister (t_ID t) (managerFor cid s3))
                                   (s3\<lparr>s_vhost := UnregisterTunnel (t_ID t) (s_vhost s3)\<rparr>))
                           | None \<Rightarrow> send conn (MRegisterResp sq (resp_ok (t_ID t) (Some (VhostPort s3)))) s3))))"

text \<open>The dedicated-port branch: registration at the manager and, for UDP, the first data channel.\<close>

definition register_port ::
  "env_answers \<Rightarrow> nat \<Rightarrow> string \<Rightarrow> 64 word \<Rightarrow> register_tunnel \<Rightarrow> 'l Server \<Rightarrow> 'l Server" where
  "register_port E conn cid sq req s =
     (let pol = policyFromConfig (s_cfg s);
          (r, m1) = mgr_Register (e_os E) (rt_Name req) (rt_Type req) (rt_RemotePort req) (AllowedPorts pol) (MaxTunnels pol)
                      (managerFor cid s);
          s1 = put_manager cid m1 s
      in case r of
           Inl e \<Rightarrow> send conn (MRegisterResp sq (resp_error (mapRegisterErr (register_msg e)) (register_msg e))) s1
         | Inr t \<Rightarrow>
             (let s2 = send conn (MRegisterResp sq (resp_ok (t_ID t) (Some (t_RemotePort t)))) s1
              in if rt_Type req \<noteq> ''udp'' then s2
                 else case OpenConnection (e_rnd E) (e_now E) (t_ID t) None (10 * second) (managerFor cid s2) of
                        (None, m2) \<Rightarrow> put_manager cid m2 s2
                      | (Some connID, m2) \<Rightarrow>
                          send conn (open_conn_msg connID (t_ID t) '''' ''udp'') (put_manager cid m2 s2)))"

text \<open>\<open>arg\<close> is the decoded payload, or the decoder's error text.\<close>

definition handleRegisterTunnel ::
  "'l rate_lib \<Rightarrow> (string \<Rightarrow> string) \<Rightarrow> env_answers \<Rightarrow> nat \<Rightarrow> string \<Rightarrow> 64 word \<Rightarrow> string + register_tunnel
    \<Rightarrow> 'l Server \<Rightarrow> 'l Server" where
  "handleRegisterTunnel L ucase E conn cid sq arg s =
     (case arg of
        Inl err \<Rightarrow> send conn (MRegisterResp sq (resp_fail (ProtocolError err))) s
      | Inr req \<Rightarrow>
          (case ValidateRegisterTunnel (Some req) of
             Some e \<Rightarrow> send conn (MRegisterResp sq (resp_fail e)) s
           | None \<Rightarrow>
               (let (s1, ok) = checkRegisterRate L (e_now E) cid s
                in if \<not> ok then send conn (MRegisterResp sq (resp_error ErrCodeRateLimited ''register frequency exceeded'')) s1
                   else case checkTargetAllowed (s_policy s1) (rt_Local req) of
                     Some msg \<Rightarrow> send conn (MRegisterResp sq (resp_error ErrCodeTargetNotAllowed msg)) s1
                   | None \<Rightarrow>
                       if rt_Type req = ''http'' \<and> rt_RemotePort req = 0 \<and> rt_HTTP req \<noteq> None \<and> rt_HTTP req \<noteq> Some ''''
                       then handleRegisterVhost ucase E conn cid sq req (the (rt_HTTP req)) s1
                       else (case checkPortArbitration (e_now E) (rt_RemotePort req) cid s1 of
                               (s2, Some msg) \<Rightarrow> send conn (MRegisterResp sq (resp_error ErrCodePortInUse msg)) s2
                             | (s2, None) \<Rightarrow> register_port E conn cid sq req s2))))"

definition handleUnregisterTunnel ::
  "'l rate_lib \<Rightarrow> instant \<Rightarrow> nat \<Rightarrow> string \<Rightarrow> 64 word \<Rightarrow> string option \<Rightarrow> 'l Server \<Rightarrow> 'l Server" where
  "handleUnregisterTunnel L now conn cid sq arg s =
     (case arg of
        None \<Rightarrow> s
      | Some tid \<Rightarrow>
          (let (s1, ok) = checkRegisterRate L now cid s
           in if \<not> ok then send conn (MRegisterResp sq (resp_error ErrCodeRateLimited ''unregister frequency exceeded'')) s1
              else let s2 = (case TunnelByID tid (managerFor cid s1) of
                               Some t \<Rightarrow>
                                 if t_VhostHost t \<noteq> [] then stopVhost (s1\<lparr>s_vhost := UnregisterTunnel tid (s_vhost s1)\<rparr>) else s1
                             | None \<Rightarrow> s1);
                       s3 = tunnelTeardown tid s2;
                       s4 = put_manager cid (mgr_Unregister tid (managerFor cid s3)) s3
                   in send conn (MRegisterResp sq (resp_ok tid None)) s4))"

section \<open>Public and data connections\<close>

text \<open>
  The callback for an accepted public connection \<open>pub\<close> from \<open>addr\<close>, with the control connection \<open>conn\<close>
  of the client. The gate slot is returned when the callback returns.
\<close>

definition onOpen ::
  "'l rate_lib \<Rightarrow> env_answers \<Rightarrow> nat \<Rightarrow> string \<Rightarrow> string \<Rightarrow> nat \<Rightarrow> string \<Rightarrow> 'l Server \<Rightarrow> 'l Server" where
  "onOpen L E conn cid tid pub addr s =
     (let ip = (case SplitHostPort addr of Some (h, _) \<Rightarrow> h | None \<Rightarrow> '''');
          (g1, ok) = Allow L ip (e_now E) (ipGate s);
          s1 = s\<lparr>ipGate := g1\<rparr>;
          ungate = (\<lambda>t. t\<lparr>ipGate := gate_Release ip (ipGate t)\<rparr>)
      in if \<not> ok then close_conn pub s1
         else case acquireDataQuota cid tid s1 of
                (s2, False) \<Rightarrow> ungate (close_conn pub s2)
              | (s2, True) \<Rightarrow>
                  (let s3 = shape_conn cid tid pub (record_metrics (ConnOpened cid tid) s2);
                       (r, m) = OpenConnection (e_rnd E) (e_now E) tid (Some pub) (10 * second) (managerFor cid s3);
                       s4 = put_manager cid m s3
                   in case r of
                        None \<Rightarrow> ungate (close_conn pub (releaseDataQuota cid tid s4))
                      | Some connID \<Rightarrow> ungate (send conn (open_conn_msg connID tid ip '''') s4)))"

text \<open>
  A data connection that presents \<open>od\<close>. A splice that starts is reported with its ends, and finishes
  later through \<open>spliceDone\<close>.
\<close>

datatype data_outcome = Ignored | Refused | Channel string | Splicing "nat option" string

definition handleDataConn ::
  "instant \<Rightarrow> nat \<Rightarrow> string \<Rightarrow> open_data option \<Rightarrow> 'l Server \<Rightarrow> data_outcome \<times> 'l Server" where
  "handleDataConn now conn peerID arg s =
     (case arg of
        None \<Rightarrow> (Ignored, s)
      | Some od \<Rightarrow>
          if ValidateOpenData (Some od) \<noteq> None then (Ignored, s)
          else let (r, m) = ClaimData now (od_ConnID od) (managerFor peerID s); s1 = put_manager peerID m s
               in case r of
                    Inl e \<Rightarrow> (Refused, close_conn conn s1)
                  | Inr (pub, t) \<Rightarrow>
                      if t_Type t = ''udp''
                      then let s2 = (case pub of None \<Rightarrow> s1 | Some p \<Rightarrow> close_conn p s1)
                           in case acquireDataQuota peerID (t_ID t) s2 of
                                (s3, False) \<Rightarrow> (Refused, close_conn conn s3)
                              | (s3, True) \<Rightarrow>
                                  (let s4 = shape_conn peerID (t_ID t) conn (record_metrics (ConnOpened peerID (t_ID t)) s3)
                                   in (Channel (t_ID t), put_manager peerID (SetUDPChannel (t_ID t) conn (managerFor peerID s4)) s4))
                      else (Splicing pub (t_ID t), s1\<lparr>dataConns := mput (od_ConnID od) () (dataConns s1)\<rparr>))"

text \<open>The end of a splice, with the bytes copied to the public side (\<open>toA\<close>) and to the client (\<open>toB\<close>).\<close>

definition spliceDone :: "instant \<Rightarrow> string \<Rightarrow> string \<Rightarrow> string \<Rightarrow> int \<Rightarrow> int \<Rightarrow> 'l Server \<Rightarrow> 'l Server" where
  "spliceDone now peerID tid connID toA toB s =
     (let s1 = record_metrics (RecordConn (now div second) peerID tid toB toA) s;
          s2 = releaseDataQuota peerID tid s1
      in s2\<lparr>dataConns := mdel connID (dataConns s2)\<rparr>)"

text \<open>The callback when a UDP data channel drops: its quota is returned and a replacement is opened.\<close>

definition OnUDPChannelClosed :: "env_answers \<Rightarrow> string \<Rightarrow> string \<Rightarrow> 'l Server \<Rightarrow> 'l Server" where
  "OnUDPChannelClosed E cid tid s =
     (let s1 = releaseDataQuota cid tid s
      in case Option.bind (Get cid (s_sessions s1)) (\<lambda>a. Option.bind (mget (s_heap s1) a) Conn) of
           None \<Rightarrow> s1
         | Some conn \<Rightarrow>
             (case OpenConnection (e_rnd E) (e_now E) tid None (10 * second) (managerFor cid s1) of
                (None, m) \<Rightarrow> put_manager cid m s1
              | (Some connID, m) \<Rightarrow> send conn (open_conn_msg connID tid '''' ''udp'') (put_manager cid m s1)))"

text \<open>
  A connection to the shared HTTP port: \<open>stream\<close> is what the client sends and \<open>fin\<close> how it ends. The
  answers written to the public side are the status codes.
\<close>

datatype vhost_outcome = HTTPError int | Lost | Pairing string

definition handleVhostConn ::
  "(string \<Rightarrow> string) \<Rightarrow> env_answers \<Rightarrow> nat \<Rightarrow> string \<Rightarrow> stream_end \<Rightarrow> 'l Server \<Rightarrow> vhost_outcome \<times> 'l Server" where
  "handleVhostConn ucase E raw stream fin s =
     (case SniffHost ucase fin (int MaxSniffBytes) stream of
        Inl e \<Rightarrow> (HTTPError 400, close_conn raw s)
      | Inr res \<Rightarrow>
          (case Lookup (sr_Host res) (s_vhost s) of
             None \<Rightarrow> (HTTPError 421, close_conn raw s)
           | Some e \<Rightarrow>
               (let cid = clientID e; m = managerFor cid s; s0 = put_manager cid m s
                in case TunnelByID (tunnelID e) m of
                     None \<Rightarrow> (HTTPError 503, close_conn raw s0)
                   | Some t \<Rightarrow>
                       (case acquireDataQuota cid (t_ID t) s0 of
                          (s1, False) \<Rightarrow> (HTTPError 503, close_conn raw s1)
                        | (s1, True) \<Rightarrow>
                            (let s2 = shape_conn cid (t_ID t) raw s1;
                                 (r, m1) = OpenConnection (e_rnd E) (e_now E) (t_ID t) (Some raw) (10 * second) (managerFor cid s2);
                                 s3 = put_manager cid m1 s2
                             in case r of
                                  None \<Rightarrow> (HTTPError 503, close_conn raw (releaseDataQuota cid (t_ID t) s3))
                                | Some connID \<Rightarrow>
                                    (case Option.bind (Get cid (s_sessions s3)) (\<lambda>a. Option.bind (mget (s_heap s3) a) Conn) of
                                       None \<Rightarrow> (Lost, close_conn raw s3)
                                     | Some conn \<Rightarrow>
                                         (Pairing connID, send conn (open_conn_msg connID (tunnelID e) ''http'' '''') s3)))))))"

section \<open>Sessions\<close>

definition hello_error :: "string \<Rightarrow> string + client_hello \<Rightarrow> proto_error option" where
  "hello_error peerID arg =
     (case arg of
        Inl err \<Rightarrow> Some (ProtocolError err)
      | Inr h \<Rightarrow>
          (case ValidateClientHello (Some h) of
             Some e \<Rightarrow> Some e
           | None \<Rightarrow>
               if ch_ClientID h \<noteq> peerID then Some (NewError ErrCodeAuthFailed ''client_id does not match certificate'' True)
               else if ch_ProtocolVersion h \<noteq> ProtocolVersion then Some VersionUnsupportedError
               else None))"

text \<open>
  The hello exchange: on success the session is registered (an older one of the same client is told to
  stop and closed), its manager exists and the policy is sent. The session object lives at the address
  \<open>conn\<close>.
\<close>

definition kick_old :: "string \<Rightarrow> 'l Server \<Rightarrow> 'l Server" where
  "kick_old peerID s =
     (case Get peerID (s_sessions s) of
        None \<Rightarrow> s
      | Some a \<Rightarrow>
          (let s1 = (case Option.bind (mget (s_heap s) a) Conn of
                       None \<Rightarrow> s
                     | Some old \<Rightarrow>
                         close_conn old (send old (MError 0 (NewError ErrCodeAuthFailed ''replaced by a newer session'' True)) s))
           in s1\<lparr>s_sessions := snd (Unregister peerID (s_sessions s1))\<rparr>))"

definition handleControlConn_start ::
  "instant \<Rightarrow> nat \<Rightarrow> string \<Rightarrow> string + client_hello \<Rightarrow> 'l Server \<Rightarrow> bool \<times> 'l Server" where
  "handleControlConn_start now conn peerID arg s =
     (case hello_error peerID arg of
        Some e \<Rightarrow> (False, send conn (MError 0 e) s)
      | None \<Rightarrow>
          (let sess = \<lparr>ClientID = peerID, Conn = Some conn, tunnels = 0, conns = 0, lastActive = now\<rparr>;
               s1 = (case Register conn sess (s_sessions s) of Inr _ \<Rightarrow> s | Inl _ \<Rightarrow> kick_old peerID s)
           in case Register conn sess (s_sessions s1) of
                Inl _ \<Rightarrow> (False, send conn (MError 0 (NewError ErrCodeAuthFailed ''client already connected'' True)) s1)
              | Inr reg \<Rightarrow>
                  (let s2 = s1\<lparr>s_sessions := reg, s_heap := mput conn sess (s_heap s1)\<rparr>;
                       s3 = put_manager peerID (managerFor peerID s2) s2
                   in (True, send conn (MServerHello \<lparr>sh_SessionID = peerID @ ''-'' @ Itoa now,
                                  sh_Policy = policyFromConfig (s_cfg s3), sh_Heartbeat = heartbeatFromConfig (s_cfg s3)\<rparr>) s3))))"

text \<open>The deferred clean-up when the control connection ends.\<close>

definition forget_tunnel :: "'l Tunnel \<Rightarrow> 'l Server \<Rightarrow> 'l Server" where
  "forget_tunnel t s =
     tunnelTeardown (t_ID t) (if t_VhostHost t \<noteq> [] then s\<lparr>s_vhost := UnregisterTunnel (t_ID t) (s_vhost s)\<rparr> else s)"

definition handleControlConn_exit :: "instant \<Rightarrow> string \<Rightarrow> 'l Server \<Rightarrow> 'l Server" where
  "handleControlConn_exit now peerID s =
     (let m = managerFor peerID s;
          s1 = fold (\<lambda>p. reservePort now p peerID (60 * second)) (Ports m) s;
          s2 = fold forget_tunnel (Tunnels m) s1;
          s3 = cleanupSecurity peerID (stopVhost s2);
          s4 = put_manager peerID (UnregisterAll m) s3
      in s4\<lparr>s_sessions := snd (Unregister peerID (s_sessions s4))\<rparr>)"

text \<open>Control messages; an absent payload is one that did not decode.\<close>

datatype ctl_in =
    InPing "64 word" "string option"
  | InRegister "64 word" "string + register_tunnel"
  | InUnregister "64 word" "string option"
  | InCloseConnection "64 word"
  | InShutdown "64 word" "shutdown_msg option"
  | InUnknown "64 word"

fun in_seq :: "ctl_in \<Rightarrow> 64 word" where
  "in_seq (InPing sq _) = sq"
| "in_seq (InRegister sq _) = sq"
| "in_seq (InUnregister sq _) = sq"
| "in_seq (InCloseConnection sq) = sq"
| "in_seq (InShutdown sq _) = sq"
| "in_seq (InUnknown sq) = sq"

definition handleShutdownFromClient :: "string \<Rightarrow> 'l Server \<Rightarrow> 'l Server" where
  "handleShutdownFromClient cid s = put_manager cid (UnregisterAll (managerFor cid s)) s"

definition DefaultDrainTimeout :: duration where
  "DefaultDrainTimeout = 30 * second"

definition drain_timeout :: "shutdown_msg option \<Rightarrow> duration" where
  "drain_timeout arg =
     (let ms = (case arg of None \<Rightarrow> DefaultDrainTimeout div millisecond | Some m \<Rightarrow> sd_DrainTimeoutMS m);
          t = wrap64 (ms * millisecond)
      in if t \<le> 0 then DefaultDrainTimeout else t)"

text \<open>
  The drain loops poll every 50 ms; \<open>counts\<close> are the numbers of open connections they see, from the
  \<open>i\<close>-th poll on. The result is the poll at which the loop ends.
\<close>

function poll_loop :: "(nat \<Rightarrow> nat) \<Rightarrow> nat \<Rightarrow> instant \<Rightarrow> instant \<Rightarrow> nat" where
  "poll_loop counts i now deadline =
     (if 0 < counts i \<and> now < deadline then poll_loop counts (Suc i) (now + 50 * millisecond) deadline else i)"
  by pat_completeness auto

termination poll_loop
  by (relation "measure (\<lambda>(counts, i, now, deadline). nat (deadline - now))") auto

declare poll_loop.simps [simp del]

definition drainDataConns :: "(nat \<Rightarrow> nat) \<Rightarrow> instant \<Rightarrow> duration \<Rightarrow> nat" where
  "drainDataConns counts now timeout = poll_loop counts 0 now (now + (if timeout \<le> 0 then DefaultDrainTimeout else timeout))"

text \<open>Here the counts are those of the registered sessions.\<close>

definition BroadcastShutdown_wait :: "(nat \<Rightarrow> nat) \<Rightarrow> instant \<Rightarrow> duration \<Rightarrow> nat" where
  "BroadcastShutdown_wait counts now drainTimeout =
     poll_loop counts 0 now (now + (if drainTimeout \<le> 0 then DefaultDrainTimeout else drainTimeout))"

text \<open>
  One message of the read loop: the session is touched, the flood guard decides, the message is
  handled. The flag says whether the loop goes on.
\<close>

definition readLoop_step ::
  "'l rate_lib \<Rightarrow> (string \<Rightarrow> string) \<Rightarrow> env_answers \<Rightarrow> nat \<Rightarrow> string \<Rightarrow> bool \<Rightarrow> ctl_in \<Rightarrow> 'l Server \<Rightarrow> bool \<times> 'l Server" where
  "readLoop_step L ucase E conn cid allowed msg s =
     (let s1 = (case mget (s_heap s) conn of None \<Rightarrow> s | Some ss \<Rightarrow> s\<lparr>s_heap := mput conn (Touch (e_now E) ss) (s_heap s)\<rparr>)
      in if \<not> allowed
         then (False, send conn (MError (in_seq msg) (NewError ErrCodeRateLimited ''control message rate exceeded'' True)) s1)
         else case msg of
                InPing sq echo \<Rightarrow> (True, case echo of None \<Rightarrow> s1 | Some t \<Rightarrow> send conn (MPong sq t) s1)
              | InRegister sq req \<Rightarrow> (True, handleRegisterTunnel L ucase E conn cid sq req s1)
              | InUnregister sq tid \<Rightarrow> (True, handleUnregisterTunnel L (e_now E) conn cid sq tid s1)
              | InCloseConnection sq \<Rightarrow> (True, s1)
              | InShutdown sq req \<Rightarrow> (False, handleShutdownFromClient cid s1)
              | InUnknown sq \<Rightarrow> (True, send conn (MError sq (ProtocolError ''unknown message type'')) s1))"

text \<open>
  The heartbeat supervisor looks once a second; the connection is closed at the first tick at which the
  last activity is too old. Each tick is its time and the last activity it sees.
\<close>

definition heartbeat_expired :: "heartbeat \<Rightarrow> instant \<Rightarrow> instant \<Rightarrow> bool" where
  "heartbeat_expired hb now act = ((2 * IntervalS hb + TimeoutS hb) * second < now - act)"

fun superviseHeartbeat :: "heartbeat \<Rightarrow> (instant \<times> instant) list \<Rightarrow> nat option" where
  "superviseHeartbeat hb [] = None"
| "superviseHeartbeat hb ((now, act) # ticks) =
     (if heartbeat_expired hb now act then Some 0 else map_option Suc (superviseHeartbeat hb ticks))"

text \<open>Dispatch on the first frame; \<open>IsRevoked\<close> is the configured hook.\<close>

datatype first_frame = FReadError | FOpenData "open_data option" | FHello "string + client_hello" | FOther

datatype conn_state = Dropped | DataConn data_outcome | Online

definition handleConn ::
  "(string \<Rightarrow> bool) option \<Rightarrow> instant \<Rightarrow> nat \<Rightarrow> string \<Rightarrow> string \<Rightarrow> first_frame \<Rightarrow> 'l Server \<Rightarrow> conn_state \<times> 'l Server" where
  "handleConn IsRevoked now conn peerID addr frame s =
     (let host = (case SplitHostPort addr of Some (h, _) \<Rightarrow> h | None \<Rightarrow> addr)
      in if peerID = '''' then (Dropped, close_conn conn s)
         else if (case IsRevoked of None \<Rightarrow> False | Some f \<Rightarrow> f peerID)
         then (Dropped, close_conn conn (send conn (MError 0 (NewError ErrCodeAuthFailed ''client revoked'' True)) s))
         else case frame of
                FReadError \<Rightarrow> (Dropped, close_conn conn s)
              | FOpenData od \<Rightarrow> (let (r, s1) = handleDataConn now conn peerID od s in (DataConn r, s1))
              | FHello hello \<Rightarrow>
                  (case tryAcquire host (MaxHalfOpen s) (halfOpen s) of
                     (h1, False) \<Rightarrow> (Dropped, close_conn conn (s\<lparr>halfOpen := h1\<rparr>))
                   | (h1, True) \<Rightarrow>
                       (case handleControlConn_start now conn peerID hello (s\<lparr>halfOpen := h1\<rparr>) of
                          (True, s1) \<Rightarrow> (Online, s1)
                        | (False, s1) \<Rightarrow> (Dropped, close_conn conn (s1\<lparr>halfOpen := release host (halfOpen s1)\<rparr>))))
              | FOther \<Rightarrow>
                  (Dropped, close_conn conn (send conn (MError 0 (ProtocolError ''expected client_hello or open_data'')) s)))"

text \<open>The end of an online control connection.\<close>

definition handleConn_exit :: "instant \<Rightarrow> nat \<Rightarrow> string \<Rightarrow> string \<Rightarrow> 'l Server \<Rightarrow> 'l Server" where
  "handleConn_exit now conn peerID host s =
     (let s1 = close_conn conn (handleControlConn_exit now peerID s) in s1\<lparr>halfOpen := release host (halfOpen s1)\<rparr>)"

definition session_conns :: "'l Server \<Rightarrow> nat list" where
  "session_conns s = concat (map (\<lambda>a. case Option.bind (mget (s_heap s) a) Conn of None \<Rightarrow> [] | Some c \<Rightarrow> [c]) (All (s_sessions s)))"

definition BroadcastShutdown_notify :: "string \<Rightarrow> duration \<Rightarrow> 'l Server \<Rightarrow> 'l Server" where
  "BroadcastShutdown_notify reason drainTimeout s =
     (let d = (if drainTimeout \<le> 0 then DefaultDrainTimeout else drainTimeout)
      in fold (\<lambda>c. send c (MShutdown \<lparr>sd_Reason = reason, sd_DrainTimeoutMS = d div millisecond\<rparr>)) (session_conns s) s)"

definition BroadcastShutdown_force :: "'l Server \<Rightarrow> 'l Server" where
  "BroadcastShutdown_force s = fold close_conn (session_conns s) s"

section \<open>Lemmas: quotas\<close>

lemma record_metrics_frame [simp]:
  "s_sessions (record_metrics f s) = s_sessions s" "s_heap (record_metrics f s) = s_heap s" "s_managers (record_metrics f s) = s_managers s"
  "s_out (record_metrics f s) = s_out s" "s_closed (record_metrics f s) = s_closed s" "ipGate (record_metrics f s) = ipGate s"
  "dataConns (record_metrics f s) = dataConns s" "s_policy (record_metrics f s) = s_policy s"
  "clientSem (record_metrics f s) = clientSem s" "tunnelSem (record_metrics f s) = tunnelSem s"
  "s_Metrics (record_metrics f s) = map_option f (s_Metrics s)"
  by (simp_all add: record_metrics_def)

lemma managerFor_record [simp]: "managerFor cid (record_metrics f s) = managerFor cid s"
  by (simp add: managerFor_def)

lemma semaphores_put [simp]:
  "clientSemaphore c (put_clientSem cid (Some sem) s) = (if c = cid then sem else clientSemaphore c s)"
  "tunnelSemaphore t (put_tunnelSem tid (Some sem) s) = (if t = tid then sem else tunnelSemaphore t s)"
  "clientSemaphore c (put_tunnelSem tid ms s) = clientSemaphore c s"
  "tunnelSemaphore t (put_clientSem cid ms s) = tunnelSemaphore t s"
  by (auto simp: clientSemaphore_def tunnelSemaphore_def put_clientSem_def put_tunnelSem_def split: option.splits)

lemma put_sem_policy [simp]:
  "s_policy (put_clientSem cid ms s) = s_policy s" "s_policy (put_tunnelSem tid ms s) = s_policy s"
  by (auto simp: put_clientSem_def put_tunnelSem_def split: option.splits)

text \<open>The client's quota, as the connection handlers use it: one slot per data connection.\<close>

definition quota_invar :: "string \<Rightarrow> int \<Rightarrow> 'l Server \<Rightarrow> bool" where
  "quota_invar cid mx s \<longleftrightarrow> 0 < mx \<and> MaxConns (s_policy s) = mx \<and> sem_invar mx (Some (clientSemaphore cid s))"

lemma TryAcquire_Some: "\<exists>t ok. TryAcquire (Some x) = (Some t, ok)"
  by (cases "limit x \<le> 0"; cases "limit x \<le> active x") auto

lemma sem_Release_Some: "\<exists>t. sem_Release (Some x) = Some t"
  by (cases "limit x \<le> 0"; cases "0 < active x") auto

lemma acquireDataQuota_cases:
  assumes "acquireDataQuota cid tid s = (s', ok)"
  obtains (client_full) "\<not> ok" and "clientSemaphore cid s' = clientSemaphore cid s" and "s_policy s' = s_policy s"
      and "TryAcquire (Some (clientSemaphore cid s)) = (Some (clientSemaphore cid s), False)"
  | (tunnel_full) c where "\<not> ok" and "TryAcquire (Some (clientSemaphore cid s)) = (Some c, True)"
      and "Some (clientSemaphore cid s') = sem_Release (Some c)" and "s_policy s' = s_policy s"
  | (got) c where "ok" and "TryAcquire (Some (clientSemaphore cid s)) = (Some c, True)"
      and "clientSemaphore cid s' = c" and "s_policy s' = s_policy s"
proof -
  obtain c ok1 where c: "TryAcquire (Some (clientSemaphore cid s)) = (Some c, ok1)" using TryAcquire_Some by blast
  let ?s1 = "put_clientSem cid (Some c) s"
  obtain t ok2 where t: "TryAcquire (Some (tunnelSemaphore tid ?s1)) = (Some t, ok2)" using TryAcquire_Some by blast
  let ?s2 = "put_tunnelSem tid (Some t) ?s1"
  obtain c' where c': "sem_Release (Some c) = Some c'" using sem_Release_Some by blast
  note run = assms [unfolded acquireDataQuota_def Let_def c t split_conv]
  show ?thesis
  proof (cases ok1)
    case False
    then have "c = clientSemaphore cid s" using c by (auto split: if_splits)
    then show ?thesis using run False c by (intro client_full) auto
  next
    case ok1: True
    show ?thesis
    proof (cases ok2)
      case True
      then show ?thesis using run ok1 c by (intro got [of c]) auto
    next
      case False
      then show ?thesis using run ok1 c c' by (intro tunnel_full [of c]) auto
    qed
  qed
qed

lemma releaseDataQuota_sem:
  "Some (clientSemaphore cid (releaseDataQuota cid tid s)) = sem_Release (Some (clientSemaphore cid s))"
  "s_policy (releaseDataQuota cid tid s) = s_policy s"
proof -
  obtain c' where "sem_Release (Some (clientSemaphore cid s)) = Some c'" using sem_Release_Some by blast
  then show "Some (clientSemaphore cid (releaseDataQuota cid tid s)) = sem_Release (Some (clientSemaphore cid s))"
    and "s_policy (releaseDataQuota cid tid s) = s_policy s"
    by (simp_all add: releaseDataQuota_def Let_def del: sem_Release.simps)
qed

text \<open>The connection quota of a client is an instance of the quota contract, whatever tunnels the slots are for.\<close>

interpretation dq: quota "\<lambda>tid. acquireDataQuota cid tid" "releaseDataQuota cid tid0"
    "\<lambda>s. nat (active (clientSemaphore cid s))" "quota_invar cid mx" "nat mx"
  for cid tid0 mx
proof
  fix s :: "'a Server" and tid s'
  assume inv: "quota_invar cid mx s" and run: "acquireDataQuota cid tid s = (s', True)"
  from run show "quota_invar cid mx s' \<and> nat (active (clientSemaphore cid s)) < nat mx \<and>
      nat (active (clientSemaphore cid s')) = Suc (nat (active (clientSemaphore cid s)))"
  proof (cases rule: acquireDataQuota_cases)
    case (got c)
    then show ?thesis
      using inv sem.granted [of mx "Some (clientSemaphore cid s)" "Some c"] by (simp add: quota_invar_def del: TryAcquire.simps)
  qed simp_all
next
  fix s :: "'a Server" and tid s'
  assume inv: "quota_invar cid mx s" and run: "acquireDataQuota cid tid s = (s', False)"
  from run show "quota_invar cid mx s' \<and> nat (active (clientSemaphore cid s')) = nat (active (clientSemaphore cid s))"
  proof (cases rule: acquireDataQuota_cases)
    case (tunnel_full c)
    then have "sem_invar mx (Some c)" and "nat (active c) = Suc (nat (active (clientSemaphore cid s)))"
      using inv sem.granted [of mx "Some (clientSemaphore cid s)" "Some c"]
      by (simp_all add: quota_invar_def del: TryAcquire.simps)
    then show ?thesis
      using inv tunnel_full(3,4) sem.given [of mx "Some c"]
      by (simp add: quota_invar_def tunnel_full(3) [symmetric] del: sem_Release.simps)
  qed (use inv in \<open>simp_all add: quota_invar_def del: TryAcquire.simps\<close>)
next
  fix s :: "'a Server"
  assume inv: "quota_invar cid mx s"
  then show "quota_invar cid mx (releaseDataQuota cid tid0 s) \<and>
      nat (active (clientSemaphore cid (releaseDataQuota cid tid0 s))) = nat (active (clientSemaphore cid s)) - 1"
    using releaseDataQuota_sem [of cid tid0 s] sem.given [of mx "Some (clientSemaphore cid s)"]
    by (simp add: quota_invar_def releaseDataQuota_sem(1) [of cid tid0 s, symmetric] del: sem_Release.simps)
qed

section \<open>Lemmas: registration\<close>

definition sent :: "'l Server \<Rightarrow> 'l Server \<Rightarrow> (nat \<times> ctl_msg) list" where
  "sent s s' = drop (length (s_out s)) (s_out s')"

lemma out_simps [simp]:
  "s_out (send c msg s) = s_out s @ [(c, msg)]"
  "s_out (put_manager cid m s) = s_out s"
  "managerFor x (put_manager cid m s) = (if x = cid then m else managerFor x s)"
  "managerFor x (send c msg s) = managerFor x s"
  "s_vhost (put_manager cid m s) = s_vhost s"
  "s_vhost (send c msg s) = s_vhost s"
  "s_cfg (put_manager cid m s) = s_cfg s"
  "s_cfg (send c msg s) = s_cfg s"
  "vhostLn (put_manager cid m s) = vhostLn s"
  "vhostLn (send c msg s) = vhostLn s"
  by (simp_all add: send_def put_manager_def managerFor_def)

lemma sent_self: "s_out s' = s_out s \<Longrightarrow> sent s s' = []"
  by (simp add: sent_def)

lemma sent_append: "s_out s' = s_out s @ xs \<Longrightarrow> sent s s' = xs"
  by (simp add: sent_def)

lemma resp_OK [simp]: "\<not> rr_OK (resp_error c m)" "\<not> rr_OK (resp_fail e)" "rr_OK (resp_ok tid eff)" "rr_TunnelID (resp_ok tid eff) = tid"
  by (simp_all add: resp_error_def resp_fail_def resp_ok_def)

lemma open_conn_msg_not_resp [simp]: "open_conn_msg a b c d \<noteq> MRegisterResp q r" "MRegisterResp q r \<noteq> open_conn_msg a b c d"
  by (simp_all add: open_conn_msg_def)

lemma OpenConnection_tunnels: "OpenConnection rnd now tid pub d m = (r, m') \<Longrightarrow> m_tunnels m' = m_tunnels m"
  by (auto simp: OpenConnection_def Let_def split: option.splits)

lemma register_port_ok:
  assumes "(c, MRegisterResp q r) \<in> set (sent s (register_port E conn cid sq req s))" and "rr_OK r"
  shows "\<exists>t. TunnelByID (rr_TunnelID r) (managerFor cid (register_port E conn cid sq req s)) = Some t \<and>
     t_Name t = rt_Name req \<and> t_RemotePort t = rt_RemotePort req \<and> 1 \<le> rt_RemotePort req \<and> rt_RemotePort req \<le> 65535 \<and>
     portAllowed (AllowedPorts (policyFromConfig (s_cfg s))) (rt_RemotePort req) \<and>
     (0 < MaxTunnels (policyFromConfig (s_cfg s)) \<longrightarrow> int (TunnelCount (managerFor cid s)) < MaxTunnels (policyFromConfig (s_cfg s)))"
proof -
  let ?pol = "policyFromConfig (s_cfg s)"
  obtain r0 m1 where run: "mgr_Register (e_os E) (rt_Name req) (rt_Type req) (rt_RemotePort req) (AllowedPorts ?pol) (MaxTunnels ?pol)
      (managerFor cid s) = (r0, m1)" by fastforce
  show ?thesis
  proof (cases r0)
    case (Inl e)
    then have "sent s (register_port E conn cid sq req s) = [(conn, MRegisterResp sq (resp_error (mapRegisterErr (register_msg e)) (register_msg e)))]"
      by (intro sent_append) (simp add: register_port_def run Let_def)
    then show ?thesis using assms by auto
  next
    case (Inr t)
    let ?s2 = "send conn (MRegisterResp sq (resp_ok (t_ID t) (Some (t_RemotePort t)))) (put_manager cid m1 s)"
    obtain ro m2 where op: "OpenConnection (e_rnd E) (e_now E) (t_ID t) None 10000000000 m1 = (ro, m2)" by fastforce
    have out: "sent s (register_port E conn cid sq req s) = (conn, MRegisterResp sq (resp_ok (t_ID t) (Some (t_RemotePort t)))) #
        (case ro of None \<Rightarrow> [] | Some i \<Rightarrow> if rt_Type req = ''udp'' then [(conn, open_conn_msg i (t_ID t) '''' ''udp'')] else [])"
      by (rule sent_append) (auto simp: register_port_def run Inr op Let_def split: option.splits)
    have mgr: "m_tunnels (managerFor cid (register_port E conn cid sq req s)) = m_tunnels m1"
      using OpenConnection_tunnels [OF op] by (auto simp: register_port_def run Inr op Let_def split: option.splits)
    have tid: "rr_TunnelID r = t_ID t" using assms out by (auto split: option.splits if_splits)
    from run show ?thesis
    proof (cases rule: mgr_Register_cases)
      case (bound t')
      then have "t' = t" using Inr by simp
      then show ?thesis using bound tid mgr by (auto simp: TunnelByID_def)
    qed (use Inr in simp_all)
  qed
qed

lemma handleRegisterVhost_ok:
  assumes "(c, MRegisterResp q r) \<in> set (sent s (handleRegisterVhost ucase E conn cid sq req raw s))" and "rr_OK r"
  shows "\<exists>t host. normalizeHost ucase raw = Inr host \<and>
     TunnelByID (rr_TunnelID r) (managerFor cid (handleRegisterVhost ucase E conn cid sq req raw s)) = Some t \<and>
     t_Name t = rt_Name req \<and> t_VhostHost t = host \<and>
     Lookup host (s_vhost (handleRegisterVhost ucase E conn cid sq req raw s)) = Some \<lparr>tunnelID = rr_TunnelID r, clientID = cid\<rparr> \<and>
     vhostLn (handleRegisterVhost ucase E conn cid sq req raw s) \<and>
     (0 < MaxTunnels (policyFromConfig (s_cfg s)) \<longrightarrow> int (TunnelCount (managerFor cid s)) < MaxTunnels (policyFromConfig (s_cfg s)))"
proof (cases "normalizeHost ucase raw")
  case (Inl e)
  then have "sent s (handleRegisterVhost ucase E conn cid sq req raw s)
      = [(conn, MRegisterResp sq (resp_error ErrCodeNameInvalid (''invalid http.host: '' @ sniff_error_text e)))]"
    by (intro sent_append) (simp add: handleRegisterVhost_def)
  then show ?thesis using assms by auto
next
  case host: (Inr host)
  let ?lim = "MaxTunnels (policyFromConfig (s_cfg s))"
  obtain r0 m1 where run: "AddVhostTunnel (rt_Name req) host ?lim (managerFor cid s) = (r0, m1)" by fastforce
  show ?thesis
  proof (cases r0)
    case (Inl e)
    then have "sent s (handleRegisterVhost ucase E conn cid sq req raw s)
        = [(conn, MRegisterResp sq (resp_error (mapRegisterErr (register_msg e)) (register_msg e)))]"
      by (intro sent_append) (simp add: handleRegisterVhost_def host run Let_def)
    then show ?thesis using assms by auto
  next
    case t: (Inr t)
    show ?thesis
    proof (cases "vhost_Register host (t_ID t) cid (s_vhost s)")
      case (Inl e)
      then have "sent s (handleRegisterVhost ucase E conn cid sq req raw s)
          = [(conn, MRegisterResp sq (resp_error ErrCodeNameConflict (''http.host already registered: '' @ host)))]"
        by (intro sent_append) (simp add: handleRegisterVhost_def host run t Let_def)
      then show ?thesis using assms by auto
    next
      case vt: (Inr vt)
      obtain s3 err where sv: "startVhost (e_vhost_err E) (put_manager cid m1 s\<lparr>s_vhost := vt\<rparr>) = (s3, err)" by fastforce
      then have s3: "s_out s3 = s_out s" "managerFor cid s3 = m1" "s_vhost s3 = vt" "err = None \<Longrightarrow> vhostLn s3"
        by (auto simp: startVhost_def Let_def put_manager_def managerFor_def split: if_splits option.splits)
      show ?thesis
      proof (cases err)
        case (Some msg)
        then have "sent s (handleRegisterVhost ucase E conn cid sq req raw s)
            = [(conn, MRegisterResp sq (resp_error ErrCodeInternal msg))]"
          using s3 by (intro sent_append) (simp add: handleRegisterVhost_def host run t vt sv Let_def)
        then show ?thesis using assms by auto
      next
        case None
        then have eq: "handleRegisterVhost ucase E conn cid sq req raw s
            = send conn (MRegisterResp sq (resp_ok (t_ID t) (Some (VhostPort s3)))) s3"
          by (simp add: handleRegisterVhost_def host run t vt sv Let_def)
        then have "sent s (handleRegisterVhost ucase E conn cid sq req raw s)
            = [(conn, MRegisterResp sq (resp_ok (t_ID t) (Some (VhostPort s3))))]"
          using s3 by (intro sent_append) simp
        then have tid: "rr_TunnelID r = t_ID t" using assms by auto
        from run show ?thesis
        proof (cases rule: AddVhostTunnel_cases)
          case (added t')
          then have "t' = t" using t by simp
          then show ?thesis
            using added tid s3 None host vhost_Register_Lookup [OF vt] by (auto simp: eq TunnelByID_def)
        qed (use t in simp)
      qed
    qed
  qed
qed

lemma checkRegisterRate_frame:
  "checkRegisterRate L now cid s = (s1, ok) \<Longrightarrow>
     s_out s1 = s_out s \<and> s_cfg s1 = s_cfg s \<and> s_policy s1 = s_policy s \<and> managerFor x s1 = managerFor x s \<and>
     reservations s1 = reservations s \<and> s_vhost s1 = s_vhost s"
  by (auto simp: checkRegisterRate_def managerFor_def Let_def split: prod.splits)

lemma checkPortArbitration_frame:
  "checkPortArbitration now port cid s = (s1, err) \<Longrightarrow> s_out s1 = s_out s \<and> s_cfg s1 = s_cfg s \<and> managerFor x s1 = managerFor x s"
  by (auto simp: checkPortArbitration_def managerFor_def Let_def split: option.splits if_splits)

lemma checkPortArbitration_decides:
  assumes "mwf (reservations s)" and "checkPortArbitration now port cid s = (s1, err)"
  shows "err = None \<longleftrightarrow> (\<forall>r. mget (reservations s) port = Some r \<and> now \<le> r_until r \<longrightarrow> r_clientID r = cid)"
  using assms by (auto simp: checkPortArbitration_def mget_mdel_where Let_def split: option.splits if_splits)

lemma checkTargetAllowed_None:
  "checkTargetAllowed pol loc = None \<Longrightarrow>
     \<exists>x. ParseIP (lt_IP loc) = Some x \<and> TargetsAllow (AllowedTargets pol) x (lt_Port loc)"
  by (auto simp: checkTargetAllowed_def split: if_splits option.splits)

lemma handleRegisterTunnel_cases:
  assumes "s' = handleRegisterTunnel L ucase E conn cid sq arg s"
    and "(c, MRegisterResp q r) \<in> set (sent s s')" and "rr_OK r"
  obtains (vhost) req s1 h where "arg = Inr req" and "ValidateRegisterTunnel (Some req) = None"
      and "checkTargetAllowed (s_policy s) (rt_Local req) = None"
      and "rt_Type req = ''http''" and "rt_RemotePort req = 0" and "rt_HTTP req = Some h"
      and "s_out s1 = s_out s" and "s_cfg s1 = s_cfg s" and "managerFor cid s1 = managerFor cid s"
      and "s' = handleRegisterVhost ucase E conn cid sq req h s1"
  | (port) req s1 s2 where "arg = Inr req" and "ValidateRegisterTunnel (Some req) = None"
      and "checkTargetAllowed (s_policy s) (rt_Local req) = None"
      and "reservations s1 = reservations s" and "checkPortArbitration (e_now E) (rt_RemotePort req) cid s1 = (s2, None)"
      and "s_out s2 = s_out s" and "s_cfg s2 = s_cfg s" and "managerFor cid s2 = managerFor cid s"
      and "s' = register_port E conn cid sq req s2"
proof (cases arg)
  case (Inl err)
  then have "sent s s' = [(conn, MRegisterResp sq (resp_fail (ProtocolError err)))]"
    using assms(1) by (intro sent_append) (simp add: handleRegisterTunnel_def)
  then show ?thesis using assms by auto
next
  case req: (Inr req)
  show ?thesis
  proof (cases "ValidateRegisterTunnel (Some req)")
    case (Some e)
    then have "sent s s' = [(conn, MRegisterResp sq (resp_fail e))]"
      using assms(1) req by (intro sent_append) (simp add: handleRegisterTunnel_def)
    then show ?thesis using assms by auto
  next
    case valid: None
    obtain s1 ok where rate: "checkRegisterRate L (e_now E) cid s = (s1, ok)" by fastforce
    note f1 = checkRegisterRate_frame [OF rate, of cid]
    have unf: "s' = (if \<not> ok then send conn (MRegisterResp sq (resp_error ErrCodeRateLimited ''register frequency exceeded'')) s1
        else case checkTargetAllowed (s_policy s1) (rt_Local req) of
          Some msg \<Rightarrow> send conn (MRegisterResp sq (resp_error ErrCodeTargetNotAllowed msg)) s1
        | None \<Rightarrow>
            if rt_Type req = ''http'' \<and> rt_RemotePort req = 0 \<and> rt_HTTP req \<noteq> None \<and> rt_HTTP req \<noteq> Some ''''
            then handleRegisterVhost ucase E conn cid sq req (the (rt_HTTP req)) s1
            else (case checkPortArbitration (e_now E) (rt_RemotePort req) cid s1 of
                    (s2, Some msg) \<Rightarrow> send conn (MRegisterResp sq (resp_error ErrCodePortInUse msg)) s2
                  | (s2, None) \<Rightarrow> register_port E conn cid sq req s2))"
      unfolding assms(1) handleRegisterTunnel_def req sum.case valid option.case rate Let_def split_conv by (rule refl)
    show ?thesis
    proof (cases "\<not> ok \<or> checkTargetAllowed (s_policy s1) (rt_Local req) \<noteq> None")
      case True
      then have "\<exists>x. sent s s' = [(conn, MRegisterResp sq x)] \<and> \<not> rr_OK x"
        using f1 unf by (auto simp: sent_def)
      then show ?thesis using assms by auto
    next
      case False
      then have ok: "ok" and tgt: "checkTargetAllowed (s_policy s1) (rt_Local req) = None" by auto
      show ?thesis
      proof (cases "rt_Type req = ''http'' \<and> rt_RemotePort req = 0 \<and> rt_HTTP req \<noteq> None \<and> rt_HTTP req \<noteq> Some ''''")
        case True
        then show ?thesis using f1 unf ok tgt by (intro vhost [OF req valid, of "the (rt_HTTP req)" s1]) auto
      next
        case False
        obtain s2 err where arb: "checkPortArbitration (e_now E) (rt_RemotePort req) cid s1 = (s2, err)" by fastforce
        note f2 = checkPortArbitration_frame [OF arb, of cid]
        show ?thesis
        proof (cases err)
          case (Some msg)
          then have "sent s s' = [(conn, MRegisterResp sq (resp_error ErrCodePortInUse msg))]"
            using f1 f2 unf ok tgt False arb by (intro sent_append) auto
          then show ?thesis using assms by auto
        next
          case None
          then show ?thesis using f1 f2 unf ok tgt False arb by (intro port [OF req valid, of s1 s2]) auto
        qed
      qed
    qed
  qed
qed

section \<open>Lemmas: the end of a session\<close>

lemma fold_reserve_get:
  "mget (reservations (fold (\<lambda>p. reservePort now p cid ttl) ps s)) port =
     (if port \<in> set ps then Some \<lparr>r_clientID = cid, r_until = now + ttl\<rparr> else mget (reservations s) port)"
  by (induction ps arbitrary: s) (auto simp: reservePort_def)

lemma mwf_fold_reserve:
  "mwf (reservations s) \<Longrightarrow> mwf (reservations (fold (\<lambda>p. reservePort now p cid ttl) ps s))"
  by (induction ps arbitrary: s) (auto simp: reservePort_def)

lemma forget_tunnel_reservations [simp]: "reservations (forget_tunnel t s) = reservations s"
  by (simp add: forget_tunnel_def tunnelTeardown_def)

lemma fold_forget_reservations [simp]: "reservations (fold forget_tunnel ts s) = reservations s"
  by (induction ts arbitrary: s) auto

lemma stopVhost_frame [simp]:
  "reservations (stopVhost s) = reservations s" "s_vhost (stopVhost s) = s_vhost s" "s_sessions (stopVhost s) = s_sessions s"
  by (simp_all add: stopVhost_def Let_def)

lemma exit_reservations:
  "reservations (handleControlConn_exit now cid s) =
     reservations (fold (\<lambda>p. reservePort now p cid (60 * second)) (Ports (managerFor cid s)) s)"
  by (simp add: handleControlConn_exit_def cleanupSecurity_def put_manager_def Let_def)

lemma fold_reserve_frame [simp]:
  "s_vhost (fold (\<lambda>p. reservePort now p cid ttl) ps s) = s_vhost s"
  "s_sessions (fold (\<lambda>p. reservePort now p cid ttl) ps s) = s_sessions s"
  by (induction ps arbitrary: s) (simp_all add: reservePort_def)

lemma fold_forget_sessions [simp]: "s_sessions (fold forget_tunnel ts s) = s_sessions s"
  by (induction ts arbitrary: s) (simp_all add: forget_tunnel_def tunnelTeardown_def)

lemma exit_sessions: "s_sessions (handleControlConn_exit now cid s) = snd (Unregister cid (s_sessions s))"
  by (simp add: handleControlConn_exit_def cleanupSecurity_def put_manager_def Let_def)

lemma exit_vhost_no_tunnels:
  "m_tunnels (managerFor cid s) = [] \<Longrightarrow> s_vhost (handleControlConn_exit now cid s) = s_vhost s"
  by (simp add: handleControlConn_exit_def cleanupSecurity_def put_manager_def Tunnels_def Let_def)

lemma UnregisterAll_empty: "mgr_inv m \<Longrightarrow> m_tunnels (UnregisterAll m) = []"
proof -
  assume "mgr_inv m"
  then have "mget (m_tunnels (UnregisterAll m)) x = None" for x
    using fold_Unregister [of m "map fst (m_tunnels m)"] by (auto simp: UnregisterAll_def map_of_eq_None_iff)
  then show ?thesis by (metis map_of_eq_empty_iff ext)
qed

section \<open>Properties\<close>

text \<open>
  C1: The server enforces its policy: when it answers a registration request with OK, the request was
  valid, its local target is an IP address the target allow-list admits, the client was below its
  tunnel limit, and the new tunnel either listens on a public port that the port allow-list admits and
  that is not reserved for another client, or is bound to a normalised host name that now routes to it.
\<close>

theorem registration_enforces_policy:
  assumes s': "s' = handleRegisterTunnel L ucase E conn cid sq arg s"
    and ok: "(c, MRegisterResp q r) \<in> set (sent s s')" "rr_OK r"
    and wf: "mwf (reservations s)"
  shows "\<exists>req x t. arg = Inr req \<and> ValidateRegisterTunnel (Some req) = None \<and>
     ParseIP (lt_IP (rt_Local req)) = Some x \<and> TargetsAllow (AllowedTargets (s_policy s)) x (lt_Port (rt_Local req)) \<and>
     TunnelByID (rr_TunnelID r) (managerFor cid s') = Some t \<and> t_Name t = rt_Name req \<and>
     (0 < MaxTunnels (policyFromConfig (s_cfg s)) \<longrightarrow> int (TunnelCount (managerFor cid s)) < MaxTunnels (policyFromConfig (s_cfg s))) \<and>
     (t_RemotePort t = rt_RemotePort req \<and> portAllowed (AllowedPorts (policyFromConfig (s_cfg s))) (rt_RemotePort req) \<and>
        (\<forall>res. mget (reservations s) (rt_RemotePort req) = Some res \<and> e_now E \<le> r_until res \<longrightarrow> r_clientID res = cid)
      \<or> (\<exists>h host. rt_HTTP req = Some h \<and> normalizeHost ucase h = Inr host \<and> t_VhostHost t = host \<and>
           Lookup host (s_vhost s') = Some \<lparr>tunnelID = rr_TunnelID r, clientID = cid\<rparr>))"
  using s' ok
proof (cases rule: handleRegisterTunnel_cases)
  case (vhost req s1 h)
  then have "(c, MRegisterResp q r) \<in> set (sent s1 (handleRegisterVhost ucase E conn cid sq req h s1))"
    using ok by (simp add: sent_def)
  from handleRegisterVhost_ok [OF this ok(2)] vhost checkTargetAllowed_None [OF vhost(3)] show ?thesis by fastforce
next
  case (port req s1 s2)
  then have "(c, MRegisterResp q r) \<in> set (sent s2 (register_port E conn cid sq req s2))"
    using ok by (simp add: sent_def)
  from register_port_ok [OF this ok(2)] port checkTargetAllowed_None [OF port(3)]
    checkPortArbitration_decides [of s1, OF _ port(5)] wf show ?thesis by fastforce
qed

definition sample_srv :: "int Server" where
  "sample_srv = Serve_init (Some sample_server) 8080"

definition sample_answers :: env_answers where
  "sample_answers = \<lparr>e_now = 0, e_os = granting_os, e_vhost_err = None, e_rnd = Some [1, 2]\<rparr>"

definition sample_reg :: register_tunnel where
  "sample_reg = sample_request\<lparr>rt_RemotePort := 7100\<rparr>"

lemma sample_registration:
  "sent sample_srv (handleRegisterTunnel counting_limiter id sample_answers 5 ''alice'' 9 (Inr sample_reg) sample_srv)
     = [(5, MRegisterResp 9 (resp_ok ''t_1'' (Some 7100)))]"
proof -
  have v: "ValidateRegisterTunnel (Some sample_reg) = None" by code_simp
  have t: "checkTargetAllowed (policyFromConfig (Some sample_server)) (rt_Local sample_reg) = None" by code_simp
  have p: "portAllowed (cp_AllowedPorts sample_server) 7100" by code_simp
  have n: "nat_string (Suc 0) = ''1''" by code_simp
  have mt: "MaxTunnelsPerClient sample_server = 16" by (simp add: sample_server_def DefaultServerConfig_def)
  have pp: "AllowedPorts (policyFromConfig (Some c)) = cp_AllowedPorts c" "MaxTunnels (policyFromConfig (Some c)) = MaxTunnelsPerClient c" for c
    by (simp_all add: policyFromConfig_def)
  have r: "rt_Type sample_reg = ''tcp''" "rt_RemotePort sample_reg = 7100" by (simp_all add: sample_reg_def sample_request_def)
  show ?thesis
    by (rule sent_append)
      (simp add: handleRegisterTunnel_def v checkRegisterRate_def counting_limiter_def sample_srv_def Serve_init_def t r
        checkPortArbitration_def mdel_where_def register_port_def pp p mt mgr_Register_def fresh_manager_def managerFor_def NewManager_def
        TunnelCount_def nextSeq_def tunnel_id_def n bind_listener_def sample_answers_def granting_os_def)
qed

theorem registration_enforces_policy_witness:
  "\<exists>x. ParseIP ''10.0.0.7'' = Some x \<and> TargetsAllow [''10.0.0.0/8:*''] x 22"
proof -
  have wf: "mwf (reservations sample_srv)" by (simp add: sample_srv_def Serve_init_def)
  have pol: "AllowedTargets (s_policy sample_srv) = [''10.0.0.0/8:*'']"
    by (simp add: sample_srv_def Serve_init_def policyFromConfig_def sample_server_def DefaultServerConfig_def)
  have loc: "lt_IP (rt_Local sample_reg) = ''10.0.0.7''" "lt_Port (rt_Local sample_reg) = 22"
    by (simp_all add: sample_reg_def sample_request_def)
  have "(5, MRegisterResp 9 (resp_ok ''t_1'' (Some 7100)))
      \<in> set (sent sample_srv (handleRegisterTunnel counting_limiter id sample_answers 5 ''alice'' 9 (Inr sample_reg) sample_srv))"
    by (simp add: sample_registration)
  from registration_enforces_policy [OF refl this _ wf] show ?thesis by (auto simp: pol loc)
qed

text \<open>
  Ports survive a reconnect: for 60 seconds after a client's control connection ended, each port it
  had is refused to every other client and granted to the client itself; after that the reservation is
  void.
\<close>

theorem port_reserved_after_disconnect:
  assumes s': "s' = handleControlConn_exit t cid s" and wf: "mwf (reservations s)"
    and port: "port \<in> set (Ports (managerFor cid s))"
  shows "(snd (checkPortArbitration now port other s') = None) \<longleftrightarrow> other = cid \<or> t + 60 * second < now"
proof -
  have "mget (reservations s') port = Some \<lparr>r_clientID = cid, r_until = t + 60 * second\<rparr>"
    using port by (simp add: s' exit_reservations fold_reserve_get)
  moreover have "mwf (reservations s')" using mwf_fold_reserve [OF wf] by (simp add: s' exit_reservations)
  moreover obtain s1 err where arb: "checkPortArbitration now port other s' = (s1, err)" by fastforce
  ultimately show ?thesis using checkPortArbitration_decides [OF _ arb] by auto
qed

definition online_srv :: "int Server" where
  "online_srv = put_manager ''alice'' claimed_manager sample_srv"

theorem port_reserved_after_disconnect_witness:
  "snd (checkPortArbitration 5 8080 ''bob'' (handleControlConn_exit 0 ''alice'' online_srv)) \<noteq> None"
proof -
  have "mwf (reservations online_srv)" by (simp add: online_srv_def sample_srv_def Serve_init_def put_manager_def)
  moreover have "8080 \<in> set (Ports (managerFor ''alice'' online_srv))"
    by (simp add: online_srv_def Ports_def claimed_manager_simp)
  ultimately show ?thesis
    using port_reserved_after_disconnect [OF refl, of online_srv 8080 "''alice''" 5 "''bob''" 0] by auto
qed



lemma supervise_none:
  "list_all (\<lambda>(now, act). \<not> heartbeat_expired hb now act) ticks \<Longrightarrow>
    superviseHeartbeat hb (ticks @ later) = map_option ((+) (length ticks)) (superviseHeartbeat hb later)"
proof (induction ticks)
  case (Cons x ticks)
  then show ?case by (cases x) (simp add: option.map_comp comp_def)
qed (cases "superviseHeartbeat hb later"; simp)

text \<open>
  A client that falls silent is dropped: with ticks once a second from its last message on, the
  supervisor closes the connection at the tick after twice the interval plus the timeout, and at no
  earlier one.
\<close>

theorem silent_client_dropped:
  assumes "0 \<le> IntervalS hb" and "0 \<le> TimeoutS hb"
  shows "superviseHeartbeat hb (map (\<lambda>k. (t0 + (int k + 1) * second, t0)) [0..<n]) =
     (if 2 * IntervalS hb + TimeoutS hb < int n then Some (nat (2 * IntervalS hb + TimeoutS hb)) else None)"
proof -
  let ?d = "2 * IntervalS hb + TimeoutS hb" and ?tick = "\<lambda>k. (t0 + (int k + 1) * second, t0)"
  have exp: "heartbeat_expired hb (t0 + (int k + 1) * second) t0 \<longleftrightarrow> ?d \<le> int k" for k
    by (auto simp: heartbeat_expired_def)
  have quiet: "list_all (\<lambda>(now, act). \<not> heartbeat_expired hb now act) (map ?tick [0..<k])" if "int k \<le> ?d" for k
    using that by (auto simp: list_all_iff heartbeat_expired_def)
  show ?thesis
  proof (cases "?d < int n")
    case True
    let ?k = "nat ?d"
    have k: "int ?k = ?d" "?k < n" using True assms by auto
    then have "[0..<n] = [0..<?k] @ ?k # [Suc ?k..<n]"
      using upt_add_eq_append [of 0 ?k "n - ?k"] upt_conv_Cons [of ?k n] by simp
    then have "map ?tick [0..<n] = map ?tick [0..<?k] @ ?tick ?k # map ?tick [Suc ?k..<n]" by simp
    then show ?thesis using supervise_none [OF quiet [of ?k]] k True exp [of ?k] by simp
  next
    case False
    then show ?thesis using supervise_none [OF quiet [of n], of "[]"] by simp
  qed
qed

theorem silent_client_dropped_witness:
  "superviseHeartbeat \<lparr>IntervalS = 15, TimeoutS = 10, MissThreshold = 2\<rparr> (map (\<lambda>k. (0 + (int k + 1) * second, 0)) [0..<60]) = Some 40"
  using silent_client_dropped [of "\<lparr>IntervalS = 15, TimeoutS = 10, MissThreshold = 2\<rparr>" 0 60] by simp

text \<open>
  The per-tunnel quotas of the configuration are never enforced: the resolved policy carries no
  per-tunnel connection limit and no per-tunnel bandwidth, whatever the configuration says, so the
  semaphore of a tunnel grants every request and its bucket limits nothing.
\<close>

theorem per_tunnel_limits_dropped:
  "TryAcquire (Some (NewSemaphore (MaxConnsTunnel (policyFromConfig c)))) = (Some (NewSemaphore (MaxConnsTunnel (policyFromConfig c))), True)
   \<and> lim (fst (NewTokenBucket (BandwidthTunnelBPS (policyFromConfig c)) w)) = None"
  by (auto simp: policyFromConfig_def zero_policy_def NewSemaphore_def NewTokenBucket_def split: option.splits)

lemma put_sem_gate [simp]:
  "ipGate (put_clientSem cid ms s) = ipGate s" "ipGate (put_tunnelSem tid ms s) = ipGate s"
  by (simp_all add: put_clientSem_def put_tunnelSem_def split: option.splits)

lemma acquire_gate: "acquireDataQuota cid tid s = (s', ok) \<Longrightarrow> ipGate s' = ipGate s"
  by (auto simp: acquireDataQuota_def Let_def split: if_splits prod.splits)

lemma shape_gate: "ipGate (shape_conn cid tid c s) = ipGate s"
  by (auto simp: shape_conn_def clientBucket_def tunnelBucket_def Let_def split: prod.splits option.splits)

lemma release_gate: "ipGate (releaseDataQuota cid tid s) = ipGate s"
  by (simp add: releaseDataQuota_def Let_def)

lemma gate_Allow_Release:
  assumes "Allow L ip now g = (g', True)" and "0 \<le> gate_Active ip g"
  shows "gate_Active x (gate_Release ip g') = gate_Active x g"
  using assms by (auto simp: Allow_def gate_Release_def gate_Active_def Let_def split: prod.splits if_splits dest!: gate_rate_frame)

lemma gate_Allow_denied:
  "Allow L ip now g = (g', False) \<Longrightarrow> gate_Active x g' = gate_Active x g"
  by (auto simp: Allow_def gate_Active_def Let_def split: prod.splits if_splits dest!: gate_rate_frame)

text \<open>
  The cap on concurrent connections per public address has no effect: the callback gives the
  gate's slot back when it returns, long before the connection ends, so after any accepted connection
  the gate counts as many connections of that address as before.
\<close>

theorem ip_gate_slot_returned_early:
  assumes "\<And>ip. 0 \<le> gate_Active ip (ipGate s)"
  shows "gate_Active x (ipGate (onOpen L E conn cid tid pub addr s)) = gate_Active x (ipGate s)"
proof -
  let ?ip = "case SplitHostPort addr of Some (h, _) \<Rightarrow> h | None \<Rightarrow> ''''"
  obtain g1 ok where g: "Allow L ?ip (e_now E) (ipGate s) = (g1, ok)" by fastforce
  obtain s2 ok2 where q: "acquireDataQuota cid tid (s\<lparr>ipGate := g1\<rparr>) = (s2, ok2)" by fastforce
  obtain r m where o: "OpenConnection (e_rnd E) (e_now E) tid (Some pub) 10000000000 (managerFor cid (shape_conn cid tid pub (record_metrics (ConnOpened cid tid) s2))) = (r, m)"
    by fastforce
  have g2: "ipGate s2 = g1" using acquire_gate [OF q] by simp
  have "ipGate (onOpen L E conn cid tid pub addr s) = (if ok then gate_Release ?ip g1 else g1)"
    by (auto simp: onOpen_def g q o Let_def close_conn_def send_def put_manager_def shape_gate release_gate g2
        split: bool.splits option.splits)
  then show ?thesis
    using gate_Allow_Release [of L ?ip "e_now E" "ipGate s" g1 x] gate_Allow_denied [of L ?ip "e_now E" "ipGate s" g1 x] g assms
    by (cases ok) auto
qed

theorem ip_gate_slot_returned_early_witness:
  "gate_Active ''192.0.2.1'' (ipGate (onOpen counting_limiter sample_answers 5 ''alice'' ''t_1'' 77 ''192.0.2.1:4000'' sample_srv)) = 0"
proof -
  have init: "gate_Active ip (ipGate sample_srv) = 0" for ip
    by (simp add: sample_srv_def Serve_init_def gate_Active_def NewIPGate_def Let_def)
  show ?thesis
    using ip_gate_slot_returned_early [of sample_srv "''192.0.2.1''" counting_limiter sample_answers 5 "''alice''" "''t_1''" 77 "''192.0.2.1:4000''"]
    by (simp add: init)
qed

lemma start_online:
  assumes "handleControlConn_start now conn cid arg s = (True, s')"
  shows "Get cid (s_sessions s') = Some conn"
  using assms
  by (auto simp: handleControlConn_start_def Register_def Get_def send_def put_manager_def Let_def split: option.splits sum.splits if_splits)

text \<open>
  The hello exchange authenticates: a control connection comes online only for a hello whose client
  id is the common name of the peer's certificate and whose protocol version is the server's, and it is
  then the one registered session of that client, the sessions of all other clients being untouched.
\<close>

theorem hello_authenticates:
  assumes "handleControlConn_start now conn peerID arg s = (True, s')"
  shows "(\<exists>h. arg = Inr h \<and> ch_ClientID h = peerID \<and> ch_ProtocolVersion h = ProtocolVersion) \<and>
     Get peerID (s_sessions s') = Some conn \<and> (\<forall>x. x \<noteq> peerID \<longrightarrow> Get x (s_sessions s') = Get x (s_sessions s))"
proof (intro conjI)
  from assms have none: "hello_error peerID arg = None"
    by (auto simp: handleControlConn_start_def split: option.splits)
  then show "\<exists>h. arg = Inr h \<and> ch_ClientID h = peerID \<and> ch_ProtocolVersion h = ProtocolVersion"
    by (auto simp: hello_error_def split: sum.splits option.splits if_splits)
  show "Get peerID (s_sessions s') = Some conn" by (rule start_online [OF assms])
  show "\<forall>x. x \<noteq> peerID \<longrightarrow> Get x (s_sessions s') = Get x (s_sessions s)"
    using assms
    by (auto simp: handleControlConn_start_def Register_def Get_def Unregister_def kick_old_def send_def close_conn_def put_manager_def Let_def
        split: option.splits sum.splits if_splits)
qed

definition sample_hello :: client_hello where
  "sample_hello = \<lparr>ch_ClientID = ''alice'', ch_ProtocolVersion = 1, ch_Name = ''laptop'', ch_Note = '''', ch_Capabilities = []\<rparr>"

lemma sample_hello_ok: "hello_error ''alice'' (Inr sample_hello) = None"
  by (simp add: hello_error_def ValidateClientHello_def sample_hello_def)

lemma sample_start: "\<exists>s'. handleControlConn_start now conn ''alice'' (Inr sample_hello) s = (True, s')"
  using sample_hello_ok
  by (auto simp: handleControlConn_start_def Register_def Get_def Unregister_def kick_old_def Let_def split: option.splits)

theorem hello_authenticates_witness:
  "\<exists>s'. handleControlConn_start 0 5 ''alice'' (Inr sample_hello) sample_srv = (True, s') \<and> Get ''alice'' (s_sessions s') = Some 5"
proof -
  obtain s' where s': "handleControlConn_start 0 5 ''alice'' (Inr sample_hello) sample_srv = (True, s')" using sample_start by blast
  from hello_authenticates [OF this] s' show ?thesis by blast
qed

text \<open>
  C40: Replacing a session undoes itself: when a second connection of a client has displaced the first,
  the first connection's deferred clean-up removes the registration of the second, which stays open,
  and with it the tunnels the client has registered since.
\<close>

theorem kicked_session_unregisters_successor:
  assumes "handleControlConn_start t1 conn1 cid h1 s = (True, s1)"
    and "handleControlConn_start t2 conn2 cid h2 s1 = (True, s2)"
    and "mgr_inv (managerFor cid s3)" and "Get cid (s_sessions s3) = Some conn2"
    and "s4 = handleConn_exit t3 conn1 cid host s3"
  shows "Get cid (s_sessions s2) = Some conn2 \<and> Get cid (s_sessions s4) = None \<and> m_tunnels (managerFor cid s4) = []"
proof -
  have "managerFor cid s4 = UnregisterAll (managerFor cid s3)"
    by (simp add: assms(5) handleConn_exit_def handleControlConn_exit_def close_conn_def put_manager_def managerFor_def Let_def)
  moreover have "s_sessions s4 = snd (Unregister cid (s_sessions s3))"
    by (simp add: assms(5) handleConn_exit_def close_conn_def exit_sessions Let_def)
  ultimately show ?thesis
    using start_online [OF assms(2)] UnregisterAll_empty [OF assms(3)] by (simp add: Get_def Unregister_def)
qed

theorem kicked_session_unregisters_successor_witness:
  "\<exists>s1 s2. handleControlConn_start 0 5 ''alice'' (Inr sample_hello) online_srv = (True, s1) \<and>
     handleControlConn_start 1 6 ''alice'' (Inr sample_hello) s1 = (True, s2) \<and>
     Get ''alice'' (s_sessions s2) = Some 6 \<and> Get ''alice'' (s_sessions (handleConn_exit 2 5 ''alice'' ''192.0.2.1'' s2)) = None"
proof -
  obtain s1 where 1: "handleControlConn_start 0 5 ''alice'' (Inr sample_hello) online_srv = (True, s1)" using sample_start by blast
  obtain s2 where 2: "handleControlConn_start 1 6 ''alice'' (Inr sample_hello) s1 = (True, s2)" using sample_start by blast
  have keep: "managerFor ''alice'' s' = managerFor ''alice'' s"
    if "handleControlConn_start t c ''alice'' (Inr sample_hello) s = (True, s')" for t c s' and s :: "int Server"
    using that by (auto simp: handleControlConn_start_def kick_old_def send_def close_conn_def put_manager_def managerFor_def Let_def
        split: option.splits sum.splits if_splits)
  have "mgr_inv (managerFor ''alice'' s2)"
    using mgr_run_inv [where ?'l = int, of "[EvRegister granting_os ''a'' ''tcp'' 8080 [''*''], EvOpen (Some [1, 2]) 0 ''t_1'' (Some 77) 0]" 4]
      keep [OF 1] keep [OF 2] by (simp add: online_srv_def claimed_manager_def)
  from kicked_session_unregisters_successor [OF 1 2 this start_online [OF 2] refl] 1 2 show ?thesis by blast
qed

text \<open>
  A graceful shutdown leaks the client's host names: the shutdown message empties the manager before
  the clean-up of the connection looks for host-bound tunnels, so every binding of the routing table
  survives the disconnect, and registering one of those hosts again is refused as a conflict.
\<close>

theorem shutdown_leaks_host_bindings:
  assumes "mgr_inv (managerFor cid s)"
    and step: "readLoop_step L ucase E conn cid True (InShutdown sq req) s = (go, s1)"
    and "s2 = handleConn_exit t conn cid host s1" and bound: "mget (s_vhost s) h = Some e"
  shows "\<not> go \<and> mget (s_vhost s2) h = Some e \<and> vhost_Register h tid cid2 (s_vhost s2) = Inl ErrNameConflict"
proof -
  have s1: "s_vhost s1 = s_vhost s" "managerFor cid s1 = UnregisterAll (managerFor cid s)" "\<not> go"
    using step by (auto simp: readLoop_step_def handleShutdownFromClient_def put_manager_def managerFor_def Let_def split: option.splits)
  have "m_tunnels (managerFor cid s1) = []" by (simp add: s1 UnregisterAll_empty [OF assms(1)])
  then have "s_vhost s2 = s_vhost s"
    using exit_vhost_no_tunnels [of cid s1 t] s1 by (simp add: assms(3) handleConn_exit_def close_conn_def Let_def)
  then show ?thesis using bound s1 by (simp add: vhost_Register_def)
qed

definition vhost_srv :: "int Server" where
  "vhost_srv = (put_manager ''alice'' (snd (AddVhostTunnel ''web'' ''git.example.com'' 16 NewManager)) sample_srv)
     \<lparr>s_vhost := [(''git.example.com'', \<lparr>tunnelID = ''t_1'', clientID = ''alice''\<rparr>)]\<rparr>"

lemma vhost_srv_inv: "mgr_inv (managerFor ''alice'' vhost_srv)"
proof -
  have "mgr_inv (fold (mgr_exec 16) [EvVhost ''web'' ''git.example.com''] (NewManager :: int Manager))"
    using mgr_run_inv [where ?'l = int, of "[EvVhost ''web'' ''git.example.com'']" 16] by simp
  moreover have "managerFor ''alice'' vhost_srv = snd (AddVhostTunnel ''web'' ''git.example.com'' 16 NewManager)"
    by (simp add: vhost_srv_def put_manager_def managerFor_def)
  ultimately show ?thesis by simp
qed

theorem shutdown_leaks_host_bindings_witness:
  "\<exists>s1. readLoop_step counting_limiter id sample_answers 5 ''alice'' True (InShutdown 3 None) vhost_srv = (False, s1) \<and>
     vhost_Register ''git.example.com'' ''t_1'' ''alice'' (s_vhost (handleConn_exit 1 5 ''alice'' ''192.0.2.1'' s1)) = Inl ErrNameConflict"
proof -
  obtain go s1 where step: "readLoop_step counting_limiter id sample_answers 5 ''alice'' True (InShutdown 3 None) vhost_srv = (go, s1)"
    by fastforce
  have "mget (s_vhost vhost_srv) ''git.example.com'' = Some \<lparr>tunnelID = ''t_1'', clientID = ''alice''\<rparr>"
    by (simp add: vhost_srv_def)
  from shutdown_leaks_host_bindings [OF vhost_srv_inv step refl this, of 1 "''192.0.2.1''" "''t_1''" "''alice''"] step
  show ?thesis by auto
qed

text \<open>
  Tunnel ids are unique per client only, but the routing table is cleaned by tunnel id: unregistering
  a host-bound tunnel of one client also removes the hosts another client has bound under the same id.
\<close>

theorem unregister_removes_foreign_host:
  assumes "mwf (s_vhost s)"
    and "TunnelByID tid (managerFor cid s) = Some t" and "t_VhostHost t \<noteq> []"
    and "mget (s_vhost s) h = Some \<lparr>tunnelID = tid, clientID = other\<rparr>" and "other \<noteq> cid"
    and "snd (checkRegisterRate L now cid s)"
  shows "mget (s_vhost (handleUnregisterTunnel L now conn cid sq (Some tid) s)) h = None"
proof -
  obtain s1 ok where r: "checkRegisterRate L now cid s = (s1, ok)" by fastforce
  have ok: ok using r assms(6) by simp
  note f = checkRegisterRate_frame [OF r, of cid]
  have "s_vhost (handleUnregisterTunnel L now conn cid sq (Some tid) s) = UnregisterTunnel tid (s_vhost s)"
    using f assms(2,3) ok by (simp add: handleUnregisterTunnel_def r Let_def tunnelTeardown_def put_manager_def)
  then show ?thesis using assms(1,4) by (simp add: UnregisterTunnel_get)
qed

theorem unregister_removes_foreign_host_witness:
  "mget (s_vhost (handleUnregisterTunnel counting_limiter 0 5 ''alice'' 7 (Some ''t_1'')
      (vhost_srv\<lparr>s_vhost := s_vhost vhost_srv @ [(''wiki.example.org'', \<lparr>tunnelID = ''t_1'', clientID = ''bob''\<rparr>)]\<rparr>)))
     ''wiki.example.org'' = None"
proof -
  have n: "nat_string (Suc 0) = ''1''" by code_simp
  show ?thesis
    by (rule unregister_removes_foreign_host [where other = "''bob''" and
          t = "\<lparr>t_ID = ''t_1'', t_Name = ''web'', t_Type = ''http'', t_RemotePort = 0, t_ln = False, t_VhostHost = ''git.example.com'', t_udp = None, t_ch = None\<rparr>"])
      (simp_all add: vhost_srv_def mwf_def TunnelByID_def managerFor_def put_manager_def AddVhostTunnel_def NewManager_def TunnelCount_def
        nextSeq_def tunnel_id_def n checkRegisterRate_def counting_limiter_def sample_srv_def Serve_init_def Let_def)
qed

text \<open>
  The server's and the client's validation disagree: a configuration with a heartbeat timeout between
  61 and 300 seconds passes the server's validation, and the hello built from it is refused by the
  client's protocol validation, so no client can connect.
\<close>

theorem accepted_config_refused_by_client:
  assumes "ValidateServer ucase c = Inr c" and "60 < hb_TimeoutS c"
  shows "ValidateServerHello (Some \<lparr>sh_SessionID = sid, sh_Policy = policyFromConfig (Some c), sh_Heartbeat = heartbeatFromConfig (Some c)\<rparr>) \<noteq> None"
proof -
  have "validateHeartbeat (Some (heartbeatFromConfig (Some c))) \<noteq> None"
    using assms(2) by (auto simp: validateHeartbeat_ok heartbeatFromConfig_def)
  then show ?thesis by (simp add: ValidateServerHello_ok)
qed

theorem accepted_config_refused_by_client_witness:
  "\<exists>c. ValidateServer id c = Inr c \<and>
     ValidateServerHello (Some \<lparr>sh_SessionID = ''s'', sh_Policy = policyFromConfig (Some c), sh_Heartbeat = heartbeatFromConfig (Some c)\<rparr>) \<noteq> None"
proof -
  let ?c = "sample_server\<lparr>hb_TimeoutS := 90\<rparr>"
  have "list_all fst (server_checks id ?c)" by code_simp
  moreover have "fill_server ?c = ?c" by (simp add: fill_server_def sample_server_def DefaultServerConfig_def)
  ultimately have ok: "ValidateServer id ?c = Inr ?c" by (simp add: ValidateServer_Inr)
  have "60 < hb_TimeoutS ?c" by simp
  from accepted_config_refused_by_client [OF ok this] ok show ?thesis by blast
qed


section \<open>Draining ends\<close>

lemma poll_loop_spec:
  assumes "n = poll_loop counts i now deadline"
  shows "i \<le> n \<and> (\<forall>j. i \<le> j \<and> j < n \<longrightarrow> 0 < counts j) \<and> (counts n = 0 \<or> deadline \<le> now + int (n - i) * (50 * millisecond)) \<and>
     (i < n \<longrightarrow> int (n - i - 1) * (50 * millisecond) < deadline - now)"
  using assms
proof (induction counts i now deadline arbitrary: n rule: poll_loop.induct)
  case (1 counts i now deadline)
  show ?case
  proof (cases "0 < counts i \<and> now < deadline")
    case True
    have n: "n = poll_loop counts (Suc i) (now + 50 * millisecond) deadline" using 1(2) True by (simp add: poll_loop.simps [of counts i now])
    note ih = 1(1) [OF True n]
    have pos: "\<forall>j. i \<le> j \<and> j < n \<longrightarrow> 0 < counts j" using ih True by (metis Suc_leI le_neq_implies_less)
    have "int (n - i) = int (n - Suc i) + 1" using ih by simp
    then have "counts n = 0 \<or> deadline \<le> now + int (n - i) * (50 * millisecond)" using ih by (auto simp: algebra_simps)
    moreover have "int (n - i - 1) * (50 * millisecond) < deadline - now"
    proof (cases "n = Suc i")
      case False
      then have "int (n - i - 1) = int (n - Suc i - 1) + 1" and "Suc i < n" using ih by simp_all
      then show ?thesis using ih by (simp add: algebra_simps)
    qed (use True in simp)
    ultimately show ?thesis using ih pos by auto
  next
    case False
    then have "n = i" using 1(2) by (subst (asm) poll_loop.simps) (simp only: if_False)
    then show ?thesis using False by auto
  qed
qed

text \<open>
  C35: However the number of open data connections develops, the drain of a client's shutdown ends: with the
  first poll that finds none, or else at the first poll at or after the end of the time the client asked
  for (or the default of thirty seconds), never later than one polling interval past it.
\<close>

theorem drain_ends:
  assumes "n = drainDataConns counts now (drain_timeout req)"
  shows "(\<forall>j<n. 0 < counts j) \<and> (counts n = 0 \<or> drain_timeout req \<le> int n * (50 * millisecond)) \<and>
     int n * (50 * millisecond) < drain_timeout req + 50 * millisecond"
proof -
  have pos: "0 < drain_timeout req" by (simp add: drain_timeout_def Let_def DefaultDrainTimeout_def)
  then have "n = poll_loop counts 0 now (now + drain_timeout req)" using assms by (simp add: drainDataConns_def)
  from poll_loop_spec [OF this] have spec: "\<forall>j. j < n \<longrightarrow> 0 < counts j" "counts n = 0 \<or> drain_timeout req \<le> int n * (50 * millisecond)"
    "0 < n \<longrightarrow> int (n - 1) * (50 * millisecond) < drain_timeout req" by auto
  have "int n * (50 * millisecond) < drain_timeout req + 50 * millisecond"
    using spec(3) pos by (cases n) (simp_all add: algebra_simps)
  then show ?thesis using spec(1,2) by blast
qed

theorem drain_ends_witness:
  "drainDataConns (\<lambda>j. if j < 3 then 2 else 0) 0 (drain_timeout None) = 3"
proof -
  let ?n = "drainDataConns (\<lambda>j. if j < 3 then 2 else 0) 0 (drain_timeout None)"
  have t: "drain_timeout None = 30000 * millisecond" by code_simp
  from drain_ends [OF refl, of "\<lambda>j. if j < 3 then 2 else 0" 0 None] have "\<forall>j<?n. j < 3"
      "\<not> ?n < 3 \<or> 30000 * millisecond \<le> int ?n * (50 * millisecond)" by (auto simp: t split: if_splits)
  moreover have "?n \<le> 3" using calculation(1) by (metis less_irrefl not_le)
  ultimately show ?thesis by auto
qed

end
