(* ===== verification/Accounts.thy ===== *)
theory Accounts
  imports Control
begin

text \<open>
  What the control server keeps account of (\<^verbatim>\<open>internal/control/server.go\<close>): the status query, the counting
  of datagrams by the callback that \<^verbatim>\<open>managerFor\<close> installs, and the whole life of a public connection
  through the handlers of \<^verbatim>\<open>Control\<close>: accepted, paired with a data connection, spliced and finished.

  The lemmas show that a connection gives back everything it took and is counted once with its bytes, on
  the ports; and that on the shared HTTP port the gauge of active connections is only ever decreased.
\<close>

section \<open>Status\<close>

record StatusSnapshot =
  ss_Sessions :: nat
  ss_TunnelCount :: nat
  ss_VhostHosts :: nat
  ss_ActiveConns :: int
  ss_Metrics :: "MetSnapshot option"

definition VhostCount :: "'l Server \<Rightarrow> nat" where
  "VhostCount s = Count (s_vhost s)"

definition Managers :: "'l Server \<Rightarrow> 'l Manager list" where
  "Managers s = map snd (s_managers s)"

text \<open>Without a registry the metrics of the answer are the zero value, here \<^const>\<open>None\<close>.\<close>

definition srv_Status :: "instant \<Rightarrow> 'l Server \<Rightarrow> StatusSnapshot \<times> 'l Server" where
  "srv_Status now s =
     (let (conns, reg1) = (case s_Metrics s of None \<Rightarrow> (0, None)
                           | Some r \<Rightarrow> (let (sn, r1) = met_Snapshot (now div second) r in (GlobalConns sn, Some r1)));
          n = sum_list (map TunnelCount (Managers s));
          (met, reg2) = (case reg1 of None \<Rightarrow> (None, None)
                         | Some r \<Rightarrow> (let (sn, r2) = met_Snapshot (now div second) r in (Some sn, Some r2)))
      in (\<lparr>ss_Sessions = Len (s_sessions s), ss_TunnelCount = n, ss_VhostHosts = VhostCount s, ss_ActiveConns = conns, ss_Metrics = met\<rparr>,
          s\<lparr>s_Metrics := reg2\<rparr>))"

section \<open>Datagrams\<close>

definition OnUDPStats :: "string \<Rightarrow> string \<Rightarrow> int \<Rightarrow> int \<Rightarrow> 'l Server \<Rightarrow> 'l Server" where
  "OnUDPStats cid tid rx tx s = record_metrics (RecordUDP cid tid rx tx) s"

text \<open>A datagram the public socket of the tunnel \<open>tid\<close> of the client \<open>cid\<close> has received.\<close>

definition public_datagram ::
  "'l rate_lib \<Rightarrow> instant \<Rightarrow> bytes option \<Rightarrow> string \<Rightarrow> string \<Rightarrow> string \<Rightarrow> bytes \<Rightarrow> 'l Server \<Rightarrow> udp_outcome option \<times> 'l Server" where
  "public_datagram L now rnd cid tid peer payload s =
     (let m = managerFor cid s
      in case Option.bind (TunnelByID tid m) (\<lambda>t. map_option (Pair t) (t_udp t)) of
           None \<Rightarrow> (None, s)
         | Some (t, u) \<Rightarrow>
             (let (r, u1) = HandleUDPPacket L (t_ch t \<noteq> None) peer payload now rnd u;
                  s1 = put_manager cid (m\<lparr>m_tunnels := mput tid (t\<lparr>t_udp := Some u1\<rparr>) (m_tunnels m)\<rparr>) s
              in (Some r, case r of Forwarded _ \<Rightarrow> OnUDPStats cid tid 1 0 s1 | _ \<Rightarrow> s1)))"

text \<open>
  One round of the loop that reads a data channel: the answer is the datagram for the public peer and the
  rest of the stream, and \<^const>\<open>None\<close> when the channel is lost; \<open>written\<close> is the outcome of the send.
\<close>

definition udpChannelRead ::
  "env_answers \<Rightarrow> bool \<Rightarrow> string \<Rightarrow> string \<Rightarrow> nat \<Rightarrow> bytes \<Rightarrow> 'l Server \<Rightarrow> ((string \<times> bytes) option \<times> bytes) option \<times> 'l Server" where
  "udpChannelRead E written cid tid ch stream s =
     (case Option.bind (TunnelByID tid (managerFor cid s)) t_udp of
        None \<Rightarrow> (None, s)
      | Some u \<Rightarrow>
          (case udpChannelStep u stream of
             None \<Rightarrow> (None, OnUDPChannelClosed E cid tid (put_manager cid (udpChannelDropped tid ch (managerFor cid s)) s))
           | Some (None, rest) \<Rightarrow> (Some (None, rest), s)
           | Some (Some d, rest) \<Rightarrow>
               if written then (Some (Some d, rest), OnUDPStats cid tid 0 1 s) else (Some (None, rest), s)))"

section \<open>What the connection handlers leave as it is\<close>

lemma acquire_frame:
  "acquireDataQuota cid tid s = (s', ok) \<Longrightarrow> s_out s' = s_out s \<and> managerFor x s' = managerFor x s"
  by (auto simp: acquireDataQuota_def put_clientSem_def put_tunnelSem_def managerFor_def Let_def split: if_splits prod.splits option.splits)

lemma release_frame: "s_out (releaseDataQuota cid tid s) = s_out s"
  by (simp add: releaseDataQuota_def put_clientSem_def put_tunnelSem_def Let_def split: option.split)

lemma shape_frame: "s_out (shape_conn cid tid c s) = s_out s \<and> managerFor x (shape_conn cid tid c s) = managerFor x s"
  by (auto simp: shape_conn_def clientBucket_def tunnelBucket_def managerFor_def Let_def split: prod.splits option.splits)

lemma onOpen_sent:
  assumes "(conn, MOpenConnection oc) \<in> set (sent s (onOpen L E conn' cid tid pub addr s))"
  shows "\<exists>connID. NewConnID (e_rnd E) = Some connID \<and> oc_ConnID oc = connID \<and> oc_TunnelID oc = tid \<and> oc_Transport oc = '''' \<and>
     mget (pending (managerFor cid (onOpen L E conn' cid tid pub addr s))) connID =
       Some \<lparr>pc_conn = Some pub, pc_tunnelID = tid, pc_deadline = e_now E + 10 * second\<rparr> \<and>
     m_tunnels (managerFor cid (onOpen L E conn' cid tid pub addr s)) = m_tunnels (managerFor cid s)"
proof -
  let ?ip = "case SplitHostPort addr of Some (h, _) \<Rightarrow> h | None \<Rightarrow> ''''"
  obtain g1 ok where g: "Allow L ?ip (e_now E) (ipGate s) = (g1, ok)" by fastforce
  obtain s2 ok2 where q: "acquireDataQuota cid tid (s\<lparr>ipGate := g1\<rparr>) = (s2, ok2)" by fastforce
  have f2: "s_out s2 = s_out s" "managerFor cid s2 = managerFor cid s"
    using acquire_frame [OF q, of cid] by (simp_all add: managerFor_def)
  have gate [simp]: "managerFor cid (t\<lparr>ipGate := g\<rparr>) = managerFor cid t" "s_out (t\<lparr>ipGate := g\<rparr>) = s_out t" for t :: "'a Server" and g
    by (simp_all add: managerFor_def)
  show ?thesis
    using assms f2 shape_frame [of cid tid pub "record_metrics (ConnOpened cid tid) s2" cid]
    by (auto simp: onOpen_def g q Let_def sent_def close_conn_def release_frame OpenConnection_def open_conn_msg_def
        split: if_splits option.splits bool.splits)
qed


definition holdings :: "'l Server \<Rightarrow> (string, Semaphore) gomap \<times> (string, Semaphore) gomap \<times> policy" where
  "holdings s = (clientSem s, tunnelSem s, s_policy s)"

lemma holdings_sems:
  "holdings s' = holdings s \<Longrightarrow> clientSemaphore c s' = clientSemaphore c s \<and> tunnelSemaphore t s' = tunnelSemaphore t s"
  by (simp add: holdings_def clientSemaphore_def tunnelSemaphore_def split: option.split)

lemma shape_holdings [simp]:
  "holdings (shape_conn cid tid c s) = holdings s" "s_Metrics (shape_conn cid tid c s) = s_Metrics s"
  by (auto simp: holdings_def shape_conn_def clientBucket_def tunnelBucket_def Let_def split: prod.splits option.splits)

lemma small_holdings [simp]:
  "holdings (record_metrics f s) = holdings s" "holdings (put_manager cid m s) = holdings s" "holdings (send c msg s) = holdings s"
  "holdings (s\<lparr>ipGate := g\<rparr>) = holdings s" "holdings (s\<lparr>dataConns := d\<rparr>) = holdings s"
  "s_Metrics (put_manager cid m s) = s_Metrics s" "s_Metrics (send c msg s) = s_Metrics s"
  by (simp_all add: holdings_def put_manager_def send_def)

lemma quota_metrics [simp]:
  "s_Metrics (put_clientSem cid x s) = s_Metrics s" "s_Metrics (put_tunnelSem tid x s) = s_Metrics s"
  "s_Metrics (releaseDataQuota cid tid s) = s_Metrics s"
  by (simp_all add: releaseDataQuota_def put_clientSem_def put_tunnelSem_def Let_def split: option.split)

lemma acquire_metrics: "acquireDataQuota cid tid s = (s', ok) \<Longrightarrow> s_Metrics s' = s_Metrics s"
  by (auto simp: acquireDataQuota_def Let_def split: if_splits prod.splits)

lemma slot_back: "TryAcquire (Some x) = (Some y, True) \<Longrightarrow> 0 \<le> active x \<Longrightarrow> sem_Release (Some y) = Some x"
  by (auto split: if_splits)

lemma acquire_slots:
  assumes "acquireDataQuota cid tid s = (s', True)"
  shows "TryAcquire (Some (clientSemaphore cid s)) = (Some (clientSemaphore cid s'), True) \<and>
     TryAcquire (Some (tunnelSemaphore tid s)) = (Some (tunnelSemaphore tid s'), True)"
proof -
  obtain c ok1 where c: "TryAcquire (Some (clientSemaphore cid s)) = (Some c, ok1)" using TryAcquire_Some by blast
  obtain t ok2 where t: "TryAcquire (Some (tunnelSemaphore tid s)) = (Some t, ok2)" using TryAcquire_Some by blast
  show ?thesis
    using assms by (auto simp: acquireDataQuota_def c t Let_def simp del: TryAcquire.simps split: if_splits)
qed

lemma release_slots:
  "Some (clientSemaphore cid (releaseDataQuota cid tid s)) = sem_Release (Some (clientSemaphore cid s)) \<and>
   Some (tunnelSemaphore tid (releaseDataQuota cid tid s)) = sem_Release (Some (tunnelSemaphore tid s))"
proof -
  obtain t where t: "sem_Release (Some (tunnelSemaphore tid s)) = Some t" using sem_Release_Some by blast
  obtain c where c: "sem_Release (Some (clientSemaphore cid s)) = Some c" using sem_Release_Some by blast
  show ?thesis by (simp add: releaseDataQuota_def t c Let_def del: sem_Release.simps)
qed

text \<open>A quota that was taken and is given back leaves both semaphores as they were.\<close>

lemma quota_returned:
  assumes "acquireDataQuota cid tid s = (s1, True)" and "holdings s2 = holdings s1"
    and "0 \<le> active (clientSemaphore cid s)" and "0 \<le> active (tunnelSemaphore tid s)"
  shows "clientSemaphore cid (releaseDataQuota cid tid s2) = clientSemaphore cid s \<and>
     tunnelSemaphore tid (releaseDataQuota cid tid s2) = tunnelSemaphore tid s"
  using acquire_slots [OF assms(1)] holdings_sems [OF assms(2), of cid tid] release_slots [of cid tid s2] slot_back assms(3,4)
  by (metis option.inject)


section \<open>The life of a connection\<close>

lemma onOpen_took:
  assumes "(conn, MOpenConnection oc) \<in> set (sent s (onOpen L E conn' cid tid pub addr s))"
  shows "\<exists>g s2. acquireDataQuota cid tid (s\<lparr>ipGate := g\<rparr>) = (s2, True) \<and> holdings (onOpen L E conn' cid tid pub addr s) = holdings s2 \<and>
     s_Metrics (onOpen L E conn' cid tid pub addr s) = map_option (ConnOpened cid tid) (s_Metrics s)"
proof -
  let ?ip = "case SplitHostPort addr of Some (h, _) \<Rightarrow> h | None \<Rightarrow> ''''"
  obtain g1 ok where g: "Allow L ?ip (e_now E) (ipGate s) = (g1, ok)" by fastforce
  obtain s2 ok2 where q: "acquireDataQuota cid tid (s\<lparr>ipGate := g1\<rparr>) = (s2, ok2)" by fastforce
  have f2: "s_out s2 = s_out s" "s_Metrics s2 = s_Metrics s" using acquire_frame [OF q, of cid] acquire_metrics [OF q] by simp_all
  have gate [simp]: "s_out (t\<lparr>ipGate := x\<rparr>) = s_out t" for t :: "'a Server" and x by simp
  have "ok \<and> ok2 \<and> holdings (onOpen L E conn' cid tid pub addr s) = holdings s2 \<and>
      s_Metrics (onOpen L E conn' cid tid pub addr s) = map_option (ConnOpened cid tid) (s_Metrics s)"
    using assms f2 shape_frame [of cid tid pub "record_metrics (ConnOpened cid tid) s2" cid]
    by (auto simp: onOpen_def g q Let_def sent_def close_conn_def release_frame OpenConnection_def open_conn_msg_def
        split: if_splits option.splits bool.splits)
  then show ?thesis using q by metis
qed

lemma splicing_frame:
  assumes "handleDataConn now dc cid (Some od) s = (Splicing p tid, s')"
  shows "holdings s' = holdings s \<and> s_Metrics s' = s_Metrics s \<and> mget (pending (managerFor cid s')) (od_ConnID od) = None"
  using assms
  by (auto simp: handleDataConn_def ClaimData_def managerFor_def put_manager_def holdings_def Let_def
      split: if_splits option.splits sum.splits prod.splits bool.splits)

lemma spliceDone_holdings:
  "holdings (spliceDone now cid tid connID toA toB s) = holdings (releaseDataQuota cid tid (record_metrics (RecordConn (now div second) cid tid toB toA) s))"
  "s_Metrics (spliceDone now cid tid connID toA toB s) = map_option (RecordConn (now div second) cid tid toB toA) (s_Metrics s)"
  "mget (dataConns (spliceDone now cid tid connID toA toB s)) connID = None"
  by (simp_all add: spliceDone_def Let_def)

lemma put_sem_managers [simp]:
  "s_managers (put_clientSem cid x s) = s_managers s" "s_managers (put_tunnelSem tid x s) = s_managers s"
  by (simp_all add: put_clientSem_def put_tunnelSem_def split: option.split)

lemma quota_managers: "s_managers (releaseDataQuota cid tid s) = s_managers s"
  by (simp add: releaseDataQuota_def Let_def)

lemma spliceDone_manager: "managerFor cid' (spliceDone now cid tid connID toA toB s) = managerFor cid' s"
  by (simp add: spliceDone_def managerFor_def quota_managers Let_def)

lemma client_after:
  "cs_TotalConns (cli_stats c (ConnOpened c t r)) = wrap64 (cs_TotalConns (cli_stats c r) + 1)"
  "cs_ActiveConns (cli_stats c (ConnOpened c t r)) = wrap64 (cs_ActiveConns (cli_stats c r) + 1)"
  "cs_RxBytes (cli_stats c (ConnOpened c t r)) = cs_RxBytes (cli_stats c r)" "cs_TxBytes (cli_stats c (ConnOpened c t r)) = cs_TxBytes (cli_stats c r)"
  "globalConns (ConnOpened c t r) = wrap64 (globalConns r + 1)"
  "cs_TotalConns (cli_stats c (RecordConn now c t a b r)) = cs_TotalConns (cli_stats c r)"
  "cs_ActiveConns (cli_stats c (RecordConn now c t a b r)) = wrap64 (cs_ActiveConns (cli_stats c r) - 1)"
  "cs_RxBytes (cli_stats c (RecordConn now c t a b r)) = wrap64 (cs_RxBytes (cli_stats c r) + a)"
  "cs_TxBytes (cli_stats c (RecordConn now c t a b r)) = wrap64 (cs_TxBytes (cli_stats c r) + b)"
  "globalConns (RecordConn now c t a b r) = globalConns r"
  by (simp_all add: met_views)

lemma Status_active: "ss_ActiveConns (fst (srv_Status now s)) = (case s_Metrics s of None \<Rightarrow> 0 | Some r \<Rightarrow> globalConns r)"
  by (simp add: srv_Status_def met_Snapshot_def Let_def split: option.split prod.split)


lemma finished_metrics:
  assumes "s_Metrics s = Some r" and "handleDataConn now dc cid (Some od) s = (Splicing p tid, s')"
  shows "s_Metrics (spliceDone fin cid tid connID toA toB s') = Some (RecordConn (fin div second) cid tid toB toA r)"
  using assms splicing_frame [OF assms(2)] by (simp add: spliceDone_holdings)

text \<open>
  C7: A public connection of a port tunnel, from the accepted socket through the pairing with the client's data
  connection to the end of the splice, gives back what it took: both connection quotas are as before, and
  neither the pending table nor the table of data connections knows it any more. It is counted as one
  connection of the client, with the bytes of both directions, and is no longer active afterwards. Only
  the status query's number of active connections still includes it, and always will.
\<close>

theorem connection_accounted:
  assumes s1: "s1 = onOpen L E conn cid tid pub addr s" and announced: "(conn, MOpenConnection oc) \<in> set (sent s s1)"
    and paired: "handleDataConn now dc cid (Some od) s1 = (Splicing (Some pub) tid, s2)" and id: "od_ConnID od = oc_ConnID oc"
    and s3: "s3 = spliceDone fin cid tid (od_ConnID od) toA toB s2"
    and quota: "0 \<le> active (clientSemaphore cid s)" "0 \<le> active (tunnelSemaphore tid s)" and r: "s_Metrics s = Some r"
  shows "clientSemaphore cid s3 = clientSemaphore cid s \<and> tunnelSemaphore tid s3 = tunnelSemaphore tid s \<and>
     mget (dataConns s3) (oc_ConnID oc) = None \<and> mget (pending (managerFor cid s3)) (oc_ConnID oc) = None \<and>
     ss_ActiveConns (fst (srv_Status later s3)) = wrap64 (globalConns r + 1) \<and>
     (\<exists>r3. s_Metrics s3 = Some r3 \<and> cs_TotalConns (cli_stats cid r3) = wrap64 (cs_TotalConns (cli_stats cid r) + 1) \<and>
        cs_ActiveConns (cli_stats cid r3) = wrap64 (cs_ActiveConns (cli_stats cid r)) \<and>
        cs_RxBytes (cli_stats cid r3) = wrap64 (cs_RxBytes (cli_stats cid r) + toB) \<and>
        cs_TxBytes (cli_stats cid r3) = wrap64 (cs_TxBytes (cli_stats cid r) + toA))"
proof -
  obtain g t where t: "acquireDataQuota cid tid (s\<lparr>ipGate := g\<rparr>) = (t, True)" "holdings s1 = holdings t"
      "s_Metrics s1 = map_option (ConnOpened cid tid) (s_Metrics s)"
    using onOpen_took announced unfolding s1 by blast
  have two: "holdings s2 = holdings s1" "mget (pending (managerFor cid s2)) (od_ConnID od) = None" using splicing_frame [OF paired] by auto
  let ?u = "record_metrics (RecordConn (fin div second) cid tid toB toA) s2"
  have gate: "clientSemaphore cid (s\<lparr>ipGate := g\<rparr>) = clientSemaphore cid s" "tunnelSemaphore tid (s\<lparr>ipGate := g\<rparr>) = tunnelSemaphore tid s"
    using holdings_sems [of "s\<lparr>ipGate := g\<rparr>" s cid tid] by simp_all
  have "clientSemaphore cid (releaseDataQuota cid tid ?u) = clientSemaphore cid s \<and> tunnelSemaphore tid (releaseDataQuota cid tid ?u) = tunnelSemaphore tid s"
    using quota_returned [OF t(1), of ?u] two t(2) quota gate by simp
  then have sems: "clientSemaphore cid s3 = clientSemaphore cid s" "tunnelSemaphore tid s3 = tunnelSemaphore tid s"
    using holdings_sems [of s3 "releaseDataQuota cid tid ?u" cid tid] spliceDone_holdings(1) [of fin cid tid "od_ConnID od" toA toB s2]
    by (simp_all add: s3)
  have met: "s_Metrics s3 = Some (RecordConn (fin div second) cid tid toB toA (ConnOpened cid tid r))"
    using finished_metrics [OF _ paired] t(3) r by (simp add: s3)
  have wrap: "wrap64 (wrap64 (x + 1) - 1) = wrap64 x" for x using wrap64_add_left [of "x + 1" "-1"] by simp
  show ?thesis
    using sems met two id spliceDone_holdings(3) [of fin cid tid "od_ConnID od" toA toB s2]
    by (simp add: s3 [symmetric] Status_active client_after wrap) (simp add: s3 spliceDone_manager)
qed

definition full_answers :: env_answers where
  "full_answers = \<lparr>e_now = 0, e_os = granting_os, e_vhost_err = None, e_rnd = Some (replicate 16 7)\<rparr>"

definition announced_srv :: "int Server" where
  "announced_srv = onOpen counting_limiter full_answers 5 ''alice'' ''t_1'' 77 ''192.0.2.1:4000'' online_srv"

definition announcement :: open_connection where
  "announcement = \<lparr>oc_ConnID = hex_encode (replicate 16 7), oc_TunnelID = ''t_1'', oc_SrcAddr = ''192.0.2.1'', oc_DeadlineMS = 10000, oc_Transport = ''''\<rparr>"

lemma announced_sent: "(5, MOpenConnection announcement) \<in> set (sent online_srv announced_srv)"
proof -
  have sent: "list_ex (\<lambda>(c, m). c = 5 \<and> (case m of MOpenConnection oc \<Rightarrow> oc_ConnID oc = oc_ConnID announcement \<and> oc_TunnelID oc = ''t_1'' \<and>
      oc_SrcAddr oc = ''192.0.2.1'' \<and> oc_DeadlineMS oc = 10000 \<and> oc_Transport oc = '''' | _ \<Rightarrow> False)) (sent online_srv announced_srv)"
    by code_simp
  then obtain m where m: "(5, m) \<in> set (sent online_srv announced_srv)" "case m of MOpenConnection oc \<Rightarrow> oc_ConnID oc = oc_ConnID announcement \<and>
      oc_TunnelID oc = ''t_1'' \<and> oc_SrcAddr oc = ''192.0.2.1'' \<and> oc_DeadlineMS oc = 10000 \<and> oc_Transport oc = '''' | _ \<Rightarrow> False"
    by (auto simp: list_ex_iff)
  then have "m = MOpenConnection announcement"
    by (cases m) (auto simp: announcement_def intro: open_connection.equality)
  with m(1) show ?thesis by simp
qed

theorem connection_accounted_witness:
  "\<exists>s2 s3 r3. handleDataConn 9 6 ''alice'' (Some \<lparr>od_ConnID = oc_ConnID announcement, od_TunnelID = ''t_1''\<rparr>) announced_srv = (Splicing (Some 77) ''t_1'', s2) \<and>
     s3 = spliceDone 20 ''alice'' ''t_1'' (oc_ConnID announcement) 100 30 s2 \<and> s_Metrics s3 = Some r3 \<and>
     cs_RxBytes (cli_stats ''alice'' r3) = 30 \<and> cs_TotalConns (cli_stats ''alice'' r3) = 1"
proof -
  let ?od = "\<lparr>od_ConnID = oc_ConnID announcement, od_TunnelID = ''t_1''\<rparr>"
  have "case fst (handleDataConn 9 6 ''alice'' (Some ?od) announced_srv) of Splicing p t \<Rightarrow> p = Some 77 \<and> t = ''t_1'' | _ \<Rightarrow> False" by code_simp
  then have "fst (handleDataConn 9 6 ''alice'' (Some ?od) announced_srv) = Splicing (Some 77) ''t_1''" by (simp split: data_outcome.splits)
  then obtain s2 where s2: "handleDataConn 9 6 ''alice'' (Some ?od) announced_srv = (Splicing (Some 77) ''t_1'', s2)" by (metis prod.collapse)
  have q: "0 \<le> active (clientSemaphore ''alice'' online_srv)" "0 \<le> active (tunnelSemaphore ''t_1'' online_srv)" by code_simp+
  have r: "s_Metrics online_srv = Some met_NewRegistry" by (simp add: online_srv_def sample_srv_def Serve_init_def)
  have zero: "wrap64 (cs_RxBytes (cli_stats ''alice'' met_NewRegistry) + 30) = 30" "wrap64 (cs_TotalConns (cli_stats ''alice'' met_NewRegistry) + 1) = 1"
    by code_simp+
  have id: "od_ConnID ?od = oc_ConnID announcement" by simp
  from connection_accounted [OF announced_srv_def announced_sent s2 id refl q r, of 20 100 30]
  show ?thesis using s2 zero by auto
qed

lemma handleVhostConn_metrics: "s_Metrics (snd (handleVhostConn ucase E raw stream fin s)) = s_Metrics s"
  by (auto simp: handleVhostConn_def Let_def close_conn_def dest!: acquire_metrics split: sum.split option.split prod.split bool.split)

text \<open>
  A request on the shared HTTP port is never counted when it is accepted, but its end is: every such
  connection leaves the client's number of active connections one lower than it was, and its total as it
  was.
\<close>

theorem vhost_gauge_falls:
  assumes "handleVhostConn ucase E raw stream eof s = (Pairing connID, s1)" and "s_Metrics s = Some r"
    and "handleDataConn now dc cid (Some od) s1 = (Splicing p tid, s2)" and "s3 = spliceDone fin cid tid (od_ConnID od) toA toB s2"
  shows "\<exists>r3. s_Metrics s3 = Some r3 \<and> cs_ActiveConns (cli_stats cid r3) = wrap64 (cs_ActiveConns (cli_stats cid r) - 1) \<and>
     cs_TotalConns (cli_stats cid r3) = cs_TotalConns (cli_stats cid r)"
  using finished_metrics [OF _ assms(3)] assms(1,2,4) handleVhostConn_metrics [of ucase E raw stream eof s]
  by (simp add: client_after)

end
