(* ===== verification/Lifecycle.thy ===== *)
theory Lifecycle
  imports Accounts
begin

text \<open>
  The server process from the first signal to its exit (\<^verbatim>\<open>runServer\<close> in \<^verbatim>\<open>cmd/server/main.go\<close>, \<^verbatim>\<open>Serve\<close> in
  \<^verbatim>\<open>internal/control/server.go\<close> with its wait group, \<^verbatim>\<open>BroadcastShutdown\<close>), and the loop that writes the
  status file. The goroutines that are still running are part of the state; each transition is one step
  of one of them, on the server record of \<^verbatim>\<open>Control\<close>. Connections whose first frame has not been
  read yet are left out: the handshake deadline ends them.

  The lemmas show when the process can exit, that the shutdown needs nobody's cooperation as long as only
  registered control connections are open, and that a single spliced connection keeps it from ending.
\<close>

section \<open>The status file\<close>

text \<open>
  One tick of \<^verbatim>\<open>writeStatusLoop\<close>; \<open>marshal\<close> is \<^verbatim>\<open>encoding/json\<close> on the snapshot and \<open>written\<close> the outcome of
  the atomic write.
\<close>

definition status_tick ::
  "(StatusSnapshot \<Rightarrow> string option) \<Rightarrow> bool \<Rightarrow> instant \<Rightarrow> 'l Server \<times> string option \<Rightarrow> 'l Server \<times> string option" where
  "status_tick marshal written now st =
     (let (sn, s1) = srv_Status now (fst st)
      in (s1, case marshal sn of None \<Rightarrow> snd st | Some data \<Rightarrow> if written then Some data else snd st))"

section \<open>The process\<close>

datatype broadcast = NotStarted | Polling instant | Finished

text \<open>A running control handler: its connection, the client and its address; and a running splice.\<close>

record ctl_handler =
  ch_conn :: nat
  ch_peer :: string
  ch_host :: string

record splice_handler =
  sh_connID :: string
  sh_peer :: string
  sh_tunnel :: string

record 'l process =
  p_srv :: "'l Server"
  p_now :: instant
  p_cancelled :: bool
  p_broadcast :: broadcast
  p_ctl :: "ctl_handler list"
  p_splices :: "splice_handler list"
  p_exit :: "int option"

definition drain_time :: duration where
  "drain_time = 30 * second"

text \<open>
  The steps the process makes by itself after the context was cancelled: the broadcast notifies the
  sessions, polls, and closes what is left at its deadline; a control handler whose connection is closed
  returns; and the accept loop, stopped by the closed listener, returns when its wait group is empty.
\<close>

inductive own_step :: "'l process \<Rightarrow> 'l process \<Rightarrow> bool" where
  notify: "p_exit p = None \<Longrightarrow> p_cancelled p \<Longrightarrow> p_broadcast p = NotStarted \<Longrightarrow>
     own_step p (p\<lparr>p_srv := BroadcastShutdown_notify ''server shutdown'' drain_time (p_srv p), p_broadcast := Polling (p_now p + drain_time)\<rparr>)"
| poll: "p_exit p = None \<Longrightarrow> p_broadcast p = Polling dl \<Longrightarrow> p_now p < dl \<Longrightarrow> Len (s_sessions (p_srv p)) \<noteq> 0 \<Longrightarrow>
     own_step p (p\<lparr>p_now := p_now p + 50 * millisecond\<rparr>)"
| drained: "p_exit p = None \<Longrightarrow> p_broadcast p = Polling dl \<Longrightarrow> p_now p < dl \<Longrightarrow> Len (s_sessions (p_srv p)) = 0 \<Longrightarrow>
     own_step p (p\<lparr>p_broadcast := Finished\<rparr>)"
| force_close: "p_exit p = None \<Longrightarrow> p_broadcast p = Polling dl \<Longrightarrow> dl \<le> p_now p \<Longrightarrow>
     own_step p (p\<lparr>p_srv := BroadcastShutdown_force (p_srv p), p_broadcast := Finished\<rparr>)"
| ctl_return: "p_exit p = None \<Longrightarrow> p_ctl p = as @ h # bs \<Longrightarrow> ch_conn h \<in> set (s_closed (p_srv p)) \<Longrightarrow>
     own_step p (p\<lparr>p_srv := handleConn_exit (p_now p) (ch_conn h) (ch_peer h) (ch_host h) (p_srv p), p_ctl := as @ bs\<rparr>)"
| serve_return: "p_exit p = None \<Longrightarrow> p_cancelled p \<Longrightarrow> p_ctl p = [] \<Longrightarrow> p_splices p = [] \<Longrightarrow>
     own_step p (p\<lparr>p_exit := Some 0\<rparr>)"

text \<open>
  And what comes from outside: a signal, of which the second ends the process at once, a client that closes
  its control connection, and a splice whose ends close.
\<close>

inductive outside_step :: "'l process \<Rightarrow> 'l process \<Rightarrow> bool" where
  first_signal: "p_exit p = None \<Longrightarrow> \<not> p_cancelled p \<Longrightarrow> outside_step p (p\<lparr>p_cancelled := True\<rparr>)"
| second_signal: "p_exit p = None \<Longrightarrow> p_cancelled p \<Longrightarrow> outside_step p (p\<lparr>p_exit := Some 130\<rparr>)"
| client_closes: "p_exit p = None \<Longrightarrow> p_ctl p = as @ h # bs \<Longrightarrow>
     outside_step p (p\<lparr>p_srv := handleConn_exit (p_now p) (ch_conn h) (ch_peer h) (ch_host h) (p_srv p), p_ctl := as @ bs\<rparr>)"
| splice_ends: "p_exit p = None \<Longrightarrow> p_splices p = as @ h # bs \<Longrightarrow>
     outside_step p (p\<lparr>p_srv := spliceDone (p_now p) (sh_peer h) (sh_tunnel h) (sh_connID h) toA toB (p_srv p), p_splices := as @ bs\<rparr>)"

definition process_step :: "'l process \<Rightarrow> 'l process \<Rightarrow> bool" where
  "process_step p q \<longleftrightarrow> own_step p q \<or> outside_step p q"

inductive_cases own_stepE: "own_step p q"
inductive_cases outside_stepE: "outside_step p q"

section \<open>When the process exits\<close>

definition exit_inv :: "'l process \<Rightarrow> bool" where
  "exit_inv p \<longleftrightarrow>
     (case p_exit p of None \<Rightarrow> True
      | Some e \<Rightarrow> p_cancelled p \<and> (e = 0 \<and> p_ctl p = [] \<and> p_splices p = [] \<or> e = 130)) \<and>
     (p_broadcast p \<noteq> NotStarted \<longrightarrow> p_cancelled p)"

lemma exit_inv_step: "process_step p q \<Longrightarrow> exit_inv p \<Longrightarrow> exit_inv q"
  unfolding process_step_def
  by (auto simp: exit_inv_def elim!: own_stepE outside_stepE)

lemma exit_inv_reachable: "process_step\<^sup>*\<^sup>* p q \<Longrightarrow> exit_inv p \<Longrightarrow> exit_inv q"
  by (induction rule: rtranclp_induct) (auto intro: exit_inv_step)


section \<open>The shutdown by itself\<close>

lemma fold_send_frame [simp]:
  "s_sessions (fold (\<lambda>c. send c msg) cs s) = s_sessions s" "s_heap (fold (\<lambda>c. send c msg) cs s) = s_heap s"
  "s_closed (fold (\<lambda>c. send c msg) cs s) = s_closed s"
  by (induction cs arbitrary: s) (simp_all add: send_def)

lemma notify_frame [simp]:
  "session_conns (BroadcastShutdown_notify reason d s) = session_conns s" "s_closed (BroadcastShutdown_notify reason d s) = s_closed s"
  by (simp_all add: session_conns_def BroadcastShutdown_notify_def Let_def)

lemma fold_close: "s_closed (fold close_conn cs s) = s_closed s @ cs"
  by (induction cs arbitrary: s) (simp_all add: close_conn_def)

lemma force_closed: "set (s_closed (BroadcastShutdown_force s)) = set (s_closed s) \<union> set (session_conns s)"
  by (simp add: BroadcastShutdown_force_def fold_close)

lemma no_sessions: "Len (s_sessions s) = 0 \<Longrightarrow> session_conns s = []"
  by (simp add: Len_def session_conns_def All_def)

lemma fold_reserve_closed: "s_closed (fold (\<lambda>p. reservePort now p cid ttl) ps s) = s_closed s"
  by (induction ps arbitrary: s) (simp_all add: reservePort_def)

lemma fold_forget_closed: "s_closed (fold forget_tunnel ts s) = s_closed s"
  by (induction ts arbitrary: s) (simp_all add: forget_tunnel_def tunnelTeardown_def)

lemma stopVhost_closed: "s_closed (stopVhost s) = s_closed s"
  by (simp add: stopVhost_def Let_def)

lemma exit_frame_closed:
  "s_closed (cleanupSecurity cid s) = s_closed s" "s_closed (put_manager cid m s) = s_closed s"
  "s_closed (s\<lparr>s_sessions := r\<rparr>) = s_closed s" "s_closed (s\<lparr>halfOpen := h\<rparr>) = s_closed s"
  by (simp_all add: cleanupSecurity_def put_manager_def)

lemma control_exit_closed: "s_closed (handleControlConn_exit now peer s) = s_closed s"
  by (simp only: handleControlConn_exit_def Let_def exit_frame_closed stopVhost_closed fold_reserve_closed fold_forget_closed)

lemma exit_closed: "s_closed (handleConn_exit now c peer host s) = s_closed s @ [c]"
  by (simp only: handleConn_exit_def Let_def exit_frame_closed) (simp add: close_conn_def control_exit_closed)

text \<open>Every control handler still running will find its connection closed.\<close>

definition closable :: "'l process \<Rightarrow> bool" where
  "closable p \<longleftrightarrow> (\<forall>h\<in>set (p_ctl p). ch_conn h \<in> set (s_closed (p_srv p)) \<union> set (session_conns (p_srv p)))"

definition all_closed :: "'l process \<Rightarrow> bool" where
  "all_closed p \<longleftrightarrow> (\<forall>h\<in>set (p_ctl p). ch_conn h \<in> set (s_closed (p_srv p)))"

lemma polling_ends:
  assumes "p_exit p = None" and "p_broadcast p = Polling dl" and "closable p"
  shows "\<exists>q. own_step\<^sup>*\<^sup>* p q \<and> p_exit q = None \<and> p_cancelled q = p_cancelled p \<and> p_ctl q = p_ctl p \<and> p_splices q = p_splices p \<and>
     all_closed q \<and> p_now q \<le> max (p_now p) (dl + 50 * millisecond)"
  using assms
proof (induction "nat (dl - p_now p)" arbitrary: p rule: less_induct)
  case less
  show ?case
  proof (cases "dl \<le> p_now p")
    case True
    let ?q = "p\<lparr>p_srv := BroadcastShutdown_force (p_srv p), p_broadcast := Finished\<rparr>"
    have "own_step p ?q" using less.prems True by (intro force_close)
    moreover have "all_closed ?q" using less.prems(3) by (simp add: all_closed_def closable_def force_closed)
    ultimately show ?thesis using less.prems(1) by (intro exI [of _ ?q]) auto
  next
    case running: False
    show ?thesis
    proof (cases "Len (s_sessions (p_srv p)) = 0")
      case True
      let ?q = "p\<lparr>p_broadcast := Finished\<rparr>"
      have "own_step p ?q" using less.prems running True by (intro drained [of p dl]) auto
      moreover have "all_closed ?q" using less.prems(3) no_sessions [OF True] by (simp add: all_closed_def closable_def)
      ultimately show ?thesis using less.prems(1) by (intro exI [of _ ?q]) auto
    next
      case False
      let ?q = "p\<lparr>p_now := p_now p + 50 * millisecond\<rparr>"
      have step: "own_step p ?q" using less.prems running False by (intro poll [of p dl]) auto
      have "closable ?q" using less.prems(3) by (simp add: closable_def)
      then obtain r where "own_step\<^sup>*\<^sup>* ?q r" "p_exit r = None" "p_cancelled r = p_cancelled ?q" "p_ctl r = p_ctl ?q" "p_splices r = p_splices ?q"
          "all_closed r" "p_now r \<le> max (p_now ?q) (dl + 50 * millisecond)"
        using less.hyps [of ?q] less.prems running by auto
      moreover have "own_step\<^sup>*\<^sup>* p r" using step calculation(1) by (rule converse_rtranclp_into_rtranclp)
      ultimately show ?thesis using running by (intro exI [of _ r]) auto
    qed
  qed
qed

lemma handlers_return:
  assumes "p_exit p = None" and "all_closed p"
  shows "\<exists>q. own_step\<^sup>*\<^sup>* p q \<and> p_exit q = None \<and> p_cancelled q = p_cancelled p \<and> p_ctl q = [] \<and> p_splices q = p_splices p \<and> p_now q = p_now p"
  using assms
proof (induction "p_ctl p" arbitrary: p)
  case Nil
  then show ?case by (intro exI [of _ p]) auto
next
  case (Cons h hs)
  let ?q = "p\<lparr>p_srv := handleConn_exit (p_now p) (ch_conn h) (ch_peer h) (ch_host h) (p_srv p), p_ctl := hs\<rparr>"
  have ctl: "p_ctl p = h # hs" using Cons.hyps(2) by (rule sym)
  have open_h: "ch_conn h \<in> set (s_closed (p_srv p))" using Cons.prems(2) unfolding all_closed_def ctl by simp
  have "own_step p (p\<lparr>p_srv := handleConn_exit (p_now p) (ch_conn h) (ch_peer h) (ch_host h) (p_srv p), p_ctl := [] @ hs\<rparr>)"
    using Cons.prems(1) ctl [THEN trans, of "[] @ h # hs"] open_h by (intro ctl_return) auto
  then have step: "own_step p ?q" by simp
  have "all_closed ?q" using Cons.prems(2) unfolding all_closed_def ctl by (simp add: exit_closed)
  then obtain r where "own_step\<^sup>*\<^sup>* ?q r" "p_exit r = None" "p_cancelled r = p_cancelled ?q" "p_ctl r = []" "p_splices r = p_splices ?q" "p_now r = p_now ?q"
    using Cons.hyps(1) [of ?q] Cons.prems(1) by fastforce
  moreover have "own_step\<^sup>*\<^sup>* p r" using step calculation(1) by (rule converse_rtranclp_into_rtranclp)
  ultimately show ?case by (intro exI [of _ r]) auto
qed

lemma ends_by_itself:
  assumes "p_exit p = None" and "p_cancelled p" and "p_broadcast p = NotStarted" and "p_splices p = []" and "closable p"
  shows "\<exists>q. own_step\<^sup>*\<^sup>* p q \<and> p_exit q = Some 0 \<and> p_now q \<le> p_now p + drain_time + 50 * millisecond"
proof -
  let ?p1 = "p\<lparr>p_srv := BroadcastShutdown_notify ''server shutdown'' drain_time (p_srv p), p_broadcast := Polling (p_now p + drain_time)\<rparr>"
  have 1: "own_step p ?p1" using assms(1-3) by (rule notify)
  have "closable ?p1" using assms(5) by (simp add: closable_def)
  then obtain p2 where 2: "own_step\<^sup>*\<^sup>* ?p1 p2" "p_exit p2 = None" "p_cancelled p2 = p_cancelled ?p1" "p_splices p2 = p_splices ?p1" "all_closed p2"
      "p_now p2 \<le> max (p_now ?p1) (p_now p + drain_time + 50 * millisecond)"
    using polling_ends [of ?p1 "p_now p + drain_time"] assms(1) by auto
  obtain p3 where 3: "own_step\<^sup>*\<^sup>* p2 p3" "p_exit p3 = None" "p_cancelled p3 = p_cancelled p2" "p_ctl p3 = []" "p_splices p3 = p_splices p2" "p_now p3 = p_now p2"
    using handlers_return [OF 2(2,5)] by blast
  have "own_step p3 (p3\<lparr>p_exit := Some 0\<rparr>)" using 2 3 assms by (intro serve_return) auto
  with 1 2(1) 3(1) have "own_step\<^sup>*\<^sup>* p (p3\<lparr>p_exit := Some 0\<rparr>)"
    by (meson converse_rtranclp_into_rtranclp rtranclp.rtrancl_into_rtrancl rtranclp_trans)
  moreover have "p_now p3 \<le> p_now p + drain_time + 50 * millisecond" using 2(6) 3(6) by (simp add: drain_time_def)
  ultimately show ?thesis by (intro exI [of _ "p3\<lparr>p_exit := Some 0\<rparr>"]) simp
qed

lemma splice_blocks_exit:
  assumes "own_step\<^sup>*\<^sup>* p q" and "p_exit p = None" and "p_splices p \<noteq> []"
  shows "p_exit q = None \<and> p_splices q = p_splices p"
  using assms by (induction rule: rtranclp_induct) (auto elim!: own_stepE)


text \<open>One client is connected and silent; in the second process it also has a download running.\<close>

definition signalled :: "splice_handler list \<Rightarrow> int process" where
  "signalled sp = \<lparr>p_srv = snd (handleControlConn_start 0 5 ''alice'' (Inr sample_hello) sample_srv), p_now = 0, p_cancelled = True,
     p_broadcast = NotStarted, p_ctl = [\<lparr>ch_conn = 5, ch_peer = ''alice'', ch_host = ''192.0.2.1''\<rparr>], p_splices = sp, p_exit = None\<rparr>"

lemma signalled_closable: "closable (signalled sp)"
proof -
  have "5 \<in> set (session_conns (p_srv (signalled [])))" by code_simp
  then show ?thesis by (simp add: closable_def signalled_def)
qed


end
