(* ===== verification/Tokens.thy ===== *)
theory Tokens
  imports Snapshot Protocol
begin

text \<open>
  \<^verbatim>\<open>internal/auth\<close>: the enrolment tokens (token.go) and the store that hands each of them out once
  (store.go). SHA-256 is the argument \<open>sha256\<close>, \<^verbatim>\<open>encoding/json\<close> the record \<open>token_json\<close>; the backing file
  is part of the state, with its modification time, because another process writes it too, and what
  the operating system answers to the calls of one operation is a \<open>file_io\<close>.
  The lemmas show that the display encoding is injective and of fixed width, what a successful
  \<^verbatim>\<open>Consume\<close> requires, that a store used by one process never accepts a token twice, and that two
  processes on the same file can.
\<close>

section \<open>Token format (token.go)\<close>

definition alphabet :: string where
  "alphabet = ''0123456789ABCDEFGHIJKLMNOPQRSTUVWXYZabcdefghijklmnopqrstuvwxyz''"

text \<open>\<^verbatim>\<open>big.Int.SetBytes\<close>: the big-endian value of the bytes.\<close>

definition be_value :: "bytes \<Rightarrow> nat" where
  "be_value raw = foldl (\<lambda>n b. 256 * n + unat b) 0 raw"

fun base62_digits :: "nat \<Rightarrow> string" where
  "base62_digits n = (if n = 0 then [] else alphabet ! (n mod 62) # base62_digits (n div 62))"

declare base62_digits.simps [simp del]

definition base62Encode :: "bytes \<Rightarrow> string" where
  "base62Encode raw =
     (let ds = base62_digits (be_value raw)
      in rev (ds @ replicate (43 - length ds) (CHR ''0'')))"

definition HashToken :: "(bytes \<Rightarrow> bytes) \<Rightarrow> string \<Rightarrow> string" where
  "HashToken sha256 token = hex_encode (sha256 (map (\<lambda>c. of_nat (code c)) token))"

text \<open>\<open>r1\<close> and \<open>r2\<close> are what the two \<^verbatim>\<open>rand.Read\<close> put into their buffers, \<open>None\<close> on failure.\<close>

definition CreateToken ::
  "(bytes \<Rightarrow> bytes) \<Rightarrow> bytes option \<Rightarrow> bytes option \<Rightarrow> (string \<times> string \<times> string) option" where
  "CreateToken sha256 r1 r2 =
     (case r1 of None \<Rightarrow> None
      | Some raw \<Rightarrow>
          (let plaintext = ''qen_'' @ base62Encode raw
           in case r2 of None \<Rightarrow> None
              | Some idBytes \<Rightarrow> Some (plaintext, hex_encode idBytes, HashToken sha256 plaintext)))"

section \<open>The store (store.go)\<close>

record TokenRecord =
  tr_TokenID :: string
  tr_Hash :: string
  tr_ExpiresAt :: instant
  tr_Used :: bool
  tr_Revoked :: bool
  tr_CreatedBy :: string
  tr_CreatedAt :: instant

record TokenStore =
  tok_byID :: "(string, TokenRecord) gomap"
  lastMod :: instant
  lastSize :: nat

datatype token_error =
    ErrTokenInvalid
  | ErrTokenExpired
  | ErrTokenUsed
  | ErrTokenRevoked
  | BadTTL
  | MissingField
  | TokenNotFound
  | ReadStore
  | ParseStore
  | MarshalStore
  | SaveStore
  | PersistConsumption

record token_json =
  marshal_tokens :: "TokenRecord list \<Rightarrow> bytes option"
  unmarshal_tokens :: "bytes \<Rightarrow> TokenRecord list option"

text \<open>
  The backing file: \<open>None\<close> when it does not exist. \<open>io_stat\<close> and \<open>io_read\<close> tell whether \<^verbatim>\<open>os.Stat\<close> and
  \<^verbatim>\<open>os.ReadFile\<close> of an existing file succeed; \<open>io_save\<close> is the modification time the file has after
  \<^verbatim>\<open>MkdirAll\<close> and \<^verbatim>\<open>atomicfile.Write\<close>, \<open>None\<close> when one of them fails, which leaves the file as it was.
\<close>

record disk_file =
  f_data :: bytes
  f_mod :: instant

record file_io =
  io_stat :: bool
  io_read :: bool
  io_save :: "instant option"

type_synonym tokens_state = "TokenStore \<times> disk_file option"

definition load_record :: "TokenRecord \<Rightarrow> (string, TokenRecord) gomap \<Rightarrow> (string, TokenRecord) gomap" where
  "load_record r m = (if tr_TokenID r = '''' then m else mput (tr_TokenID r) r m)"

definition replaceFrom :: "token_json \<Rightarrow> bytes \<Rightarrow> TokenStore \<Rightarrow> TokenStore option" where
  "replaceFrom J data s =
     (case unmarshal_tokens J data of
        None \<Rightarrow> None
      | Some records \<Rightarrow>
          Some (s\<lparr>tok_byID := fold load_record records []\<rparr>))"

definition LoadTokenStore :: "token_json \<Rightarrow> file_io \<Rightarrow> disk_file option \<Rightarrow> token_error + TokenStore" where
  "LoadTokenStore J io disk =
     (let s = \<lparr>tok_byID = [], lastMod = zero_time, lastSize = 0\<rparr>
      in case disk of
           None \<Rightarrow> Inr s
         | Some f \<Rightarrow>
             (if \<not> io_read io then Inl ReadStore
              else case replaceFrom J (f_data f) s of
                     None \<Rightarrow> Inl ParseStore
                   | Some s' \<Rightarrow>
                       Inr (if io_stat io then s'\<lparr>lastMod := f_mod f, lastSize := length (f_data f)\<rparr> else s')))"

definition reloadIfChanged :: "token_json \<Rightarrow> file_io \<Rightarrow> disk_file option \<Rightarrow> TokenStore \<Rightarrow> TokenStore" where
  "reloadIfChanged J io disk s =
     (case disk of
        None \<Rightarrow> s
      | Some f \<Rightarrow>
          (if \<not> io_stat io then s
           else if length (f_data f) = lastSize s \<and> f_mod f = lastMod s then s
           else if \<not> io_read io then s
           else case replaceFrom J (f_data f) s of
                  None \<Rightarrow> s
                | Some s' \<Rightarrow> s'\<lparr>lastMod := f_mod f, lastSize := length (f_data f)\<rparr>))"

definition purgeExpiredLocked :: "instant \<Rightarrow> TokenStore \<Rightarrow> TokenStore" where
  "purgeExpiredLocked now s =
     s\<lparr>tok_byID := mdel_where (\<lambda>_ r. tr_ExpiresAt r < now \<and> \<not> tr_Used r) (tok_byID s)\<rparr>"

definition saveLocked ::
  "token_json \<Rightarrow> file_io \<Rightarrow> tokens_state \<Rightarrow> disk_file option \<times> token_error option" where
  "saveLocked J io st =
     (case st of (s, disk) \<Rightarrow>
        (case marshal_tokens J (map snd (tok_byID s)) of
           None \<Rightarrow> (disk, Some MarshalStore)
         | Some data \<Rightarrow>
             (case io_save io of
                None \<Rightarrow> (disk, Some SaveStore)
              | Some t \<Rightarrow> (Some \<lparr>f_data = data @ [10], f_mod = t\<rparr>, None))))"

text \<open>\<open>now1\<close> and \<open>now2\<close> are the two readings of the clock.\<close>

definition Create ::
  "(bytes \<Rightarrow> bytes) \<Rightarrow> token_json \<Rightarrow> file_io \<Rightarrow> instant \<Rightarrow> instant \<Rightarrow> string \<Rightarrow> string \<Rightarrow> string \<Rightarrow> duration \<Rightarrow>
   tokens_state \<Rightarrow> tokens_state \<times> (token_error + TokenRecord)" where
  "Create sha256 J io now1 now2 plaintext tokenID createdBy ttl st =
     (case st of (s, disk) \<Rightarrow>
        (if ttl \<le> 0 \<or> 24 * hour < ttl then (st, Inl BadTTL)
         else if tokenID = '''' \<or> plaintext = '''' then (st, Inl MissingField)
         else
           let rec = \<lparr>tr_TokenID = tokenID, tr_Hash = HashToken sha256 plaintext, tr_ExpiresAt = now1 + ttl,
                      tr_Used = False, tr_Revoked = False, tr_CreatedBy = createdBy, tr_CreatedAt = now2\<rparr>;
               s' = s\<lparr>tok_byID := mput tokenID rec (tok_byID s)\<rparr>;
               (disk', err) = saveLocked J io (s', disk)
           in ((s', disk'), case err of Some e \<Rightarrow> Inl e | None \<Rightarrow> Inr rec)))"

text \<open>The search loop stops at a record with the hash; the empty id counts as not found.\<close>

definition find_hash :: "string \<Rightarrow> (string, TokenRecord) gomap \<Rightarrow> string" where
  "find_hash h m = (case find (\<lambda>(tid, r). tr_Hash r = h) m of None \<Rightarrow> '''' | Some (tid, r) \<Rightarrow> tid)"

definition Consume ::
  "(bytes \<Rightarrow> bytes) \<Rightarrow> token_json \<Rightarrow> file_io \<Rightarrow> instant \<Rightarrow> string \<Rightarrow>
   tokens_state \<Rightarrow> tokens_state \<times> (token_error + string)" where
  "Consume sha256 J io now plaintext st =
     (case st of (s0, disk) \<Rightarrow>
        let hash = HashToken sha256 plaintext;
            s = reloadIfChanged J io disk s0;
            tid = find_hash hash (tok_byID s);
            purged = purgeExpiredLocked now s
        in if tid = '''' then ((purged, fst (saveLocked J io (purged, disk))), Inl ErrTokenInvalid)
           else case mget (tok_byID s) tid of
             None \<Rightarrow> ((s, disk), Inl ErrTokenInvalid)
           | Some rec \<Rightarrow>
               (if tr_Revoked rec then ((s, disk), Inl ErrTokenRevoked)
                else if tr_ExpiresAt rec < now
                  then ((purged, fst (saveLocked J io (purged, disk))), Inl ErrTokenExpired)
                else if tr_Used rec then ((s, disk), Inl ErrTokenUsed)
                else
                  let s' = s\<lparr>tok_byID := mput tid (rec\<lparr>tr_Used := True\<rparr>) (tok_byID s)\<rparr>;
                      (disk', err) = saveLocked J io (s', disk)
                  in ((s', disk'), case err of Some _ \<Rightarrow> Inl PersistConsumption | None \<Rightarrow> Inr tid)))"

definition tok_Revoke ::
  "token_json \<Rightarrow> file_io \<Rightarrow> string \<Rightarrow> tokens_state \<Rightarrow> tokens_state \<times> token_error option" where
  "tok_Revoke J io tokenID st =
     (case st of (s, disk) \<Rightarrow>
        (case mget (tok_byID s) tokenID of
           None \<Rightarrow> (st, Some TokenNotFound)
         | Some rec \<Rightarrow>
             let s' = s\<lparr>tok_byID := mput tokenID (rec\<lparr>tr_Revoked := True\<rparr>) (tok_byID s)\<rparr>;
                 (disk', err) = saveLocked J io (s', disk)
             in ((s', disk'), err)))"

definition tok_Get :: "TokenStore \<Rightarrow> string \<Rightarrow> TokenRecord option" where
  "tok_Get s tokenID = mget (tok_byID s) tokenID"

definition tok_All :: "TokenStore \<Rightarrow> TokenRecord list" where
  "tok_All s = sort_by tr_TokenID (map snd (tok_byID s))"

section \<open>The display encoding\<close>

fun le_value :: "string \<Rightarrow> nat" where
  "le_value [] = 0"
| "le_value (c # cs) = the (index_byte alphabet c) + 62 * le_value cs"

lemma alphabet_index: "i < 62 \<Longrightarrow> index_byte alphabet (alphabet ! i) = Some i"
proof -
  have "list_all (\<lambda>i. index_byte alphabet (alphabet ! i) = Some i) [0..<62]"
    by code_simp
  then show "i < 62 \<Longrightarrow> ?thesis" by (simp add: list_all_iff)
qed

lemma le_value_digits: "le_value (base62_digits n) = n"
proof (induction n rule: base62_digits.induct)
  case (1 n)
  then show ?case
    by (subst base62_digits.simps) (simp add: alphabet_index)
qed

lemma le_value_pad: "le_value (ds @ replicate k (CHR ''0'')) = le_value ds"
proof -
  have "index_byte alphabet (CHR ''0'') = Some 0" by code_simp
  then have "le_value (replicate k (CHR ''0'')) = 0" by (induction k) auto
  then show ?thesis by (induction ds) auto
qed

lemma length_base62_digits: "n < 62 ^ k \<Longrightarrow> length (base62_digits n) \<le> k"
proof (induction k arbitrary: n)
  case (Suc k)
  from Suc.prems have "n div 62 < 62 ^ k" by (simp add: less_mult_imp_div_less mult.commute)
  then show ?case using Suc.IH by (subst base62_digits.simps) simp
qed (simp add: base62_digits.simps)

lemma be_value_Nil [simp]: "be_value [] = 0"
  by (simp add: be_value_def)

lemma be_value_snoc [simp]: "be_value (raw @ [b]) = 256 * be_value raw + unat b"
  by (simp add: be_value_def)

lemma unat_byte: "unat (b :: byte) < 256"
  using unsigned_less [of b, where ?'a = nat] by simp

lemma be_value_bound: "be_value raw < 256 ^ length raw"
proof (induction raw rule: rev_induct)
  case (snoc b raw)
  then have "be_value raw + 1 \<le> 256 ^ length raw" by simp
  then have "256 * (be_value raw + 1) \<le> 256 * 256 ^ length raw" by (rule mult_le_mono2)
  then show ?case using unat_byte [of b] by simp
qed simp

lemma digit_split:
  fixes a b x y :: nat
  assumes "256 * a + x = 256 * b + y" "x < 256" "y < 256"
  shows "a = b \<and> x = y"
proof -
  have "a = (256 * a + x) div 256" using assms(2) by simp
  also have "\<dots> = b" using assms(1,3) by simp
  finally show ?thesis using assms(1) by simp
qed

lemma be_value_inj: "length a = length b \<Longrightarrow> be_value a = be_value b \<Longrightarrow> a = b"
proof (induction a arbitrary: b rule: rev_induct)
  case (snoc x a)
  then obtain y b' where b: "b = b' @ [y]" by (metis append_Nil2 length_0_conv rev_exhaust length_append_singleton nat.distinct(1))
  have "256 * be_value a + unat x = 256 * be_value b' + unat y" using snoc.prems by (simp add: b)
  then have "be_value a = be_value b' \<and> unat x = unat y"
    using unat_byte [of x] unat_byte [of y] by (rule digit_split)
  then show ?case using snoc by (simp add: b word_eq_iff_unsigned [where ?'a = nat])
qed simp

lemma base62Encode_value: "le_value (rev (base62Encode raw)) = be_value raw"
  by (simp add: base62Encode_def Let_def le_value_pad le_value_digits)

lemma base62Encode_width: "length raw = 32 \<Longrightarrow> length (base62Encode raw) = 43"
proof -
  assume "length raw = 32"
  then have "be_value raw < 62 ^ 43" using be_value_bound [of raw] by simp
  then have "length (base62_digits (be_value raw)) \<le> 43" by (rule length_base62_digits)
  then show ?thesis by (simp add: base62Encode_def Let_def)
qed

text \<open>
  The display form of a token never loses entropy: distinct 32-byte secrets print as distinct
  tokens, and every one of them prints as exactly 43 characters after the prefix.
\<close>
theorem CreateToken_injective:
  assumes "length raw = 32" and "length raw' = 32"
    and "CreateToken sha256 (Some raw) (Some tid) = Some (p, i, h)"
    and "CreateToken sha256 (Some raw') (Some tid') = Some (p', i', h')"
  shows "length p = 47 \<and> (p = p' \<longleftrightarrow> raw = raw')"
proof -
  have p: "p = ''qen_'' @ base62Encode raw" "p' = ''qen_'' @ base62Encode raw'"
    using assms by (auto simp: CreateToken_def Let_def)
  moreover have "base62Encode raw = base62Encode raw' \<Longrightarrow> raw = raw'"
    using base62Encode_value [of raw] base62Encode_value [of raw'] be_value_inj assms by metis
  ultimately show ?thesis using base62Encode_width [OF assms(1)] by auto
qed

theorem CreateToken_injective_witness:
  "length (fst (the (CreateToken (\<lambda>_. []) (Some (replicate 32 7)) (Some [1])))) = 47"
  using CreateToken_injective [of "replicate 32 7" "replicate 32 7" "\<lambda>_. []" "[1]"]
  by (simp add: CreateToken_def Let_def)


section \<open>What the store knows of one hash\<close>

text \<open>
  A run of one process: the operations with what the system answers to each. \<open>tok_run\<close> collects the
  plaintexts whose consumption succeeded.
\<close>

datatype tok_op =
    OpCreate file_io instant instant string string string duration
  | OpConsume file_io instant string
  | OpRevoke file_io string

fun tok_exec :: "(bytes \<Rightarrow> bytes) \<Rightarrow> token_json \<Rightarrow> tok_op \<Rightarrow> tokens_state \<Rightarrow> tokens_state \<times> string list" where
  "tok_exec sha256 J (OpCreate io n1 n2 p i who ttl) st = (fst (Create sha256 J io n1 n2 p i who ttl st), [])"
| "tok_exec sha256 J (OpConsume io now p) st =
     (let (st', res) = Consume sha256 J io now p st in (st', case res of Inr _ \<Rightarrow> [p] | Inl _ \<Rightarrow> []))"
| "tok_exec sha256 J (OpRevoke io i) st = (fst (tok_Revoke J io i st), [])"

fun tok_run :: "(bytes \<Rightarrow> bytes) \<Rightarrow> token_json \<Rightarrow> tok_op list \<Rightarrow> tokens_state \<Rightarrow> tokens_state \<times> string list" where
  "tok_run sha256 J [] st = (st, [])"
| "tok_run sha256 J (op # ops) st =
     (let (st1, a) = tok_exec sha256 J op st; (st2, b) = tok_run sha256 J ops st1 in (st2, a @ b))"

fun created :: "(bytes \<Rightarrow> bytes) \<Rightarrow> tok_op \<Rightarrow> string list" where
  "created sha256 (OpCreate io n1 n2 p i who ttl) = [HashToken sha256 p]"
| "created sha256 _ = []"

definition disk_records :: "token_json \<Rightarrow> disk_file option \<Rightarrow> TokenRecord list" where
  "disk_records J disk =
     (case disk of None \<Rightarrow> [] | Some f \<Rightarrow> (case unmarshal_tokens J (f_data f) of None \<Rightarrow> [] | Some rs \<Rightarrow> rs))"

abbreviation recs :: "TokenStore \<Rightarrow> TokenRecord set" where
  "recs s \<equiv> snd ` set (tok_byID s)"

definition recs_wf :: "(string, TokenRecord) gomap \<Rightarrow> bool" where
  "recs_wf m \<longleftrightarrow> mwf m \<and> (\<forall>k r. (k, r) \<in> set m \<longrightarrow> tr_TokenID r = k \<and> k \<noteq> '''')"

abbreviation store_wf :: "TokenStore \<Rightarrow> bool" where
  "store_wf s \<equiv> recs_wf (tok_byID s)"

text \<open>\<open>Q\<close> holds of the records in memory, and of those on disk unless the store has already seen that file.\<close>

definition known :: "(TokenRecord set \<Rightarrow> bool) \<Rightarrow> token_json \<Rightarrow> tokens_state \<Rightarrow> bool" where
  "known Q J st \<longleftrightarrow>
     (case st of (s, disk) \<Rightarrow>
        Q (recs s) \<and>
        (case disk of None \<Rightarrow> True
         | Some f \<Rightarrow> length (f_data f) = lastSize s \<and> f_mod f = lastMod s \<or> Q (set (disk_records J disk))))"

definition json_law :: "token_json \<Rightarrow> bool" where
  "json_law J \<longleftrightarrow> (\<forall>rs data. marshal_tokens J rs = Some data \<longrightarrow> unmarshal_tokens J (data @ [10]) = Some rs)"

lemma put_wf: "recs_wf m \<Longrightarrow> tr_TokenID r = k \<Longrightarrow> k \<noteq> '''' \<Longrightarrow> recs_wf (mput k r m)"
  by (auto simp: recs_wf_def dest!: set_mput_subset)

lemma rebuild_wf: "recs_wf m \<Longrightarrow> recs_wf (fold load_record rs m)"
  by (induction rs arbitrary: m) (auto simp: load_record_def put_wf)

lemma recs_put: "snd ` set (mput k r m) \<subseteq> insert r (snd ` set m)"
  by (force dest: set_mput_subset)

lemma recs_rebuild: "snd ` set (fold load_record rs m) \<subseteq> set rs \<union> snd ` set m"
proof (induction rs arbitrary: m)
  case (Cons a rs)
  have "snd ` set (load_record a m) \<subseteq> insert a (snd ` set m)"
    using recs_put [of "tr_TokenID a" a m] by (auto simp: load_record_def)
  then show ?case using Cons.IH [of "load_record a m"] by simp blast
qed simp

lemma replaceFrom_facts:
  assumes "replaceFrom J data s = Some s'"
  shows "recs s' \<subseteq> set (the (unmarshal_tokens J data)) \<and> unmarshal_tokens J data \<noteq> None \<and> store_wf s'"
proof -
  obtain rs where rs: "unmarshal_tokens J data = Some rs" "tok_byID s' = fold load_record rs []"
    using assms by (auto simp: replaceFrom_def split: option.splits)
  moreover have "recs_wf []" by (simp add: recs_wf_def)
  ultimately show ?thesis using rebuild_wf [of "[]" rs] recs_rebuild [of rs "[]"] by simp
qed

lemma reload_wf: "store_wf s \<Longrightarrow> store_wf (reloadIfChanged J io disk s)"
  by (auto simp: reloadIfChanged_def dest: replaceFrom_facts split: option.splits)

lemma purge_wf: "store_wf s \<Longrightarrow> store_wf (purgeExpiredLocked now s)"
  by (auto simp: recs_wf_def purgeExpiredLocked_def set_mdel_where)

lemma store_wf_get: "store_wf s \<Longrightarrow> mget (tok_byID s) k = Some r \<Longrightarrow> tr_TokenID r = k \<and> k \<noteq> '''' \<and> r \<in> recs s"
  by (force simp: recs_wf_def dest!: mget_in_set)

lemma recs_purge: "recs (purgeExpiredLocked now s) \<subseteq> recs s"
  by (auto simp: purgeExpiredLocked_def set_mdel_where)


text \<open>
  A view of the records that concern the hash \<open>h\<close>: it survives losing records, gaining one with
  another hash, and marking one as used or revoked. Whatever is such a view is kept by every operation
  that does not create a token with this hash.
\<close>

locale token_view =
  fixes Q :: "TokenRecord set \<Rightarrow> bool" and h :: string
  assumes fewer: "Q A \<Longrightarrow> B \<subseteq> A \<Longrightarrow> Q B"
    and other: "Q A \<Longrightarrow> tr_Hash r \<noteq> h \<Longrightarrow> Q (insert r A)"
    and mark_used: "Q A \<Longrightarrow> r \<in> A \<Longrightarrow> Q (insert (r\<lparr>tr_Used := True\<rparr>) A)"
    and mark_revoked: "Q A \<Longrightarrow> r \<in> A \<Longrightarrow> Q (insert (r\<lparr>tr_Revoked := True\<rparr>) A)"
begin

lemma reload: "known Q J (s, disk) \<Longrightarrow> known Q J (reloadIfChanged J io disk s, disk)"
proof (cases disk)
  case (Some f)
  assume k: "known Q J (s, disk)"
  show ?thesis
  proof (cases "reloadIfChanged J io disk s = s")
    case False
    then obtain s' where s': "replaceFrom J (f_data f) s = Some s'"
        "reloadIfChanged J io disk s = s'\<lparr>lastMod := f_mod f, lastSize := length (f_data f)\<rparr>"
        "\<not> (length (f_data f) = lastSize s \<and> f_mod f = lastMod s)"
      by (auto simp: reloadIfChanged_def Some split: option.splits if_splits)
    then have "Q (set (disk_records J disk))" using k by (auto simp: known_def Some)
    moreover have "recs s' \<subseteq> set (disk_records J disk)"
      using replaceFrom_facts [OF s'(1)] by (auto simp: disk_records_def Some)
    ultimately show ?thesis using fewer s'(2) by (auto simp: known_def Some)
  qed (use k in simp)
qed (simp add: reloadIfChanged_def)

lemma in_memory: "known Q J (s, disk) \<Longrightarrow> Q (snd ` set m) \<Longrightarrow> known Q J (s\<lparr>tok_byID := m\<rparr>, disk)"
  by (simp add: known_def split: option.splits)

lemma saved:
  assumes "json_law J" and "known Q J (s, disk)"
  shows "known Q J (s, fst (saveLocked J io (s, disk)))"
  using assms
  by (auto simp: saveLocked_def known_def json_law_def disk_records_def split: option.splits)

lemma purged: "known Q J (s, disk) \<Longrightarrow> known Q J (purgeExpiredLocked now s, disk)"
  using fewer [OF _ recs_purge] by (auto simp: known_def purgeExpiredLocked_def split: option.splits)

lemma put: "known Q J (s, disk) \<Longrightarrow> Q (insert r (recs s)) \<Longrightarrow> known Q J (s\<lparr>tok_byID := mput k r (tok_byID s)\<rparr>, disk)"
  by (rule in_memory) (auto intro: fewer [OF _ recs_put])

lemma put_saved:
  assumes "json_law J" and "known Q J (s, disk)" and "Q (insert r (recs s))"
    and "saveLocked J io (s\<lparr>tok_byID := mput k r (tok_byID s)\<rparr>, disk) = (disk', e)"
  shows "known Q J (s\<lparr>tok_byID := mput k r (tok_byID s)\<rparr>, disk')"
  using saved [OF assms(1) put [OF assms(2,3)], of k io] assms(4) by simp

lemma memory: "known Q J (s, disk) \<Longrightarrow> Q (recs s)"
  by (simp add: known_def)

lemma Create_keeps:
  assumes "json_law J" and "known Q J (s, disk)" and "HashToken sha256 p \<noteq> h"
  shows "known Q J (fst (Create sha256 J io n1 n2 p i who ttl (s, disk)))"
proof -
  have "Q (insert r (recs s))" if "tr_Hash r = HashToken sha256 p" for r
    using other [OF memory [OF assms(2)]] assms(3) that by simp
  then show ?thesis
    using assms(2) put_saved [OF assms(1,2)] by (simp add: Create_def Let_def split: prod.split)
qed

lemma Revoke_keeps:
  assumes "json_law J" and "known Q J (s, disk)" and "store_wf s"
  shows "known Q J (fst (tok_Revoke J io i (s, disk)))"
proof (cases "mget (tok_byID s) i")
  case (Some r)
  then have "Q (insert (r\<lparr>tr_Revoked := True\<rparr>) (recs s))"
    using mark_revoked [OF memory [OF assms(2)]] store_wf_get [OF assms(3)] by blast
  then show ?thesis
    using put_saved [OF assms(1,2)] by (simp add: tok_Revoke_def Some Let_def split: prod.split)
qed (simp add: tok_Revoke_def assms)

lemma Consume_keeps:
  assumes "json_law J" and "known Q J (s0, disk)" and "store_wf s0"
  shows "known Q J (fst (Consume sha256 J io now p (s0, disk)))"
proof -
  define s where "s = reloadIfChanged J io disk s0"
  have k: "known Q J (s, disk)" unfolding s_def by (rule reload [OF assms(2)])
  have wf: "store_wf s" unfolding s_def by (rule reload_wf [OF assms(3)])
  have purge: "known Q J (purgeExpiredLocked now s, fst (saveLocked J io (purgeExpiredLocked now s, disk)))"
    by (rule saved [OF assms(1) purged [OF k]])
  have mark: "Q (insert (r\<lparr>tr_Used := True\<rparr>) (recs s))" if "mget (tok_byID s) i = Some r" for i r
    using mark_used [OF memory [OF k]] store_wf_get [OF wf that] by blast
  show ?thesis
    using k purge put_saved [OF assms(1) k mark]
    by (simp add: Consume_def Let_def s_def [symmetric] split: option.split prod.split)
qed

end

lemma mark_wf:
  "store_wf s \<Longrightarrow> mget (tok_byID s) k = Some r \<Longrightarrow> tr_TokenID r' = tr_TokenID r \<Longrightarrow> recs_wf (mput k r' (tok_byID s))"
  using store_wf_get [of s k r] put_wf by simp

lemma Create_wf: "store_wf s \<Longrightarrow> store_wf (fst (fst (Create sha256 J io n1 n2 p i who ttl (s, disk))))"
  by (auto simp: Create_def Let_def put_wf split: prod.split)

lemma Revoke_wf: "store_wf s \<Longrightarrow> store_wf (fst (fst (tok_Revoke J io i (s, disk))))"
  by (auto simp: tok_Revoke_def Let_def intro: mark_wf split: prod.split option.split)

lemma Consume_wf:
  assumes "store_wf s0"
  shows "store_wf (fst (fst (Consume sha256 J io now p (s0, disk))))"
proof -
  define s where "s = reloadIfChanged J io disk s0"
  have wf: "store_wf s" unfolding s_def by (rule reload_wf [OF assms])
  show ?thesis
    using wf purge_wf [OF wf] mark_wf [OF wf]
    by (simp add: Consume_def Let_def s_def [symmetric] split: option.split prod.split)
qed


text \<open>The three views: no record with the hash, all its records under one id, all of them used.\<close>

definition absent :: "string \<Rightarrow> TokenRecord set \<Rightarrow> bool" where
  "absent h A \<longleftrightarrow> (\<forall>r \<in> A. tr_Hash r \<noteq> h)"

definition one_id :: "string \<Rightarrow> TokenRecord set \<Rightarrow> bool" where
  "one_id h A \<longleftrightarrow> (\<exists>i. \<forall>r \<in> A. tr_Hash r = h \<longrightarrow> tr_TokenID r = i)"

definition spent :: "string \<Rightarrow> TokenRecord set \<Rightarrow> bool" where
  "spent h A \<longleftrightarrow> (\<forall>r \<in> A. tr_Hash r = h \<longrightarrow> tr_Used r)"

interpretation ab: token_view "absent h" h for h
  by unfold_locales (auto simp: absent_def)

interpretation oi: token_view "one_id h" h for h
  by unfold_locales (fastforce simp: one_id_def)+

interpretation sp: token_view "spent h" h for h
  by unfold_locales (auto simp: spent_def)

lemma absent_spent: "known (absent h) J st \<Longrightarrow> known (spent h) J st"
  by (auto simp: known_def absent_def spent_def split: option.splits)

lemma absent_one_id: "known (absent h) J st \<Longrightarrow> known (one_id h) J st"
  by (auto simp: known_def absent_def one_id_def split: option.splits)

lemma find_hash_mem:
  "find_hash h m \<noteq> '''' \<Longrightarrow> mwf m \<Longrightarrow> \<exists>r. mget m (find_hash h m) = Some r \<and> tr_Hash r = h"
proof -
  assume ne: "find_hash h m \<noteq> ''''" and wf: "mwf m"
  then obtain tid r where f: "find (\<lambda>(tid, r). tr_Hash r = h) m = Some (tid, r)"
    by (auto simp: find_hash_def split: option.splits)
  then have "(tid, r) \<in> set m" "tr_Hash r = h" by (auto simp: find_Some_iff in_set_conv_nth)
  then show ?thesis using wf f by (auto simp: find_hash_def mwf_mget)
qed

text \<open>What a successful consumption found, and what it left.\<close>

lemma Consume_ok:
  assumes "Consume sha256 J io now p (s0, disk) = ((s', disk'), Inr tid)" and "store_wf s0"
  shows "\<exists>s r. s = reloadIfChanged J io disk s0 \<and> mget (tok_byID s) tid = Some r \<and> tr_Hash r = HashToken sha256 p \<and>
     \<not> tr_Revoked r \<and> now \<le> tr_ExpiresAt r \<and> \<not> tr_Used r \<and>
     s' = s\<lparr>tok_byID := mput tid (r\<lparr>tr_Used := True\<rparr>) (tok_byID s)\<rparr> \<and> saveLocked J io (s', disk) = (disk', None)"
proof -
  define s where "s = reloadIfChanged J io disk s0"
  have "store_wf s" unfolding s_def by (rule reload_wf [OF assms(2)])
  then have wf: "mwf (tok_byID s)" by (simp add: recs_wf_def)
  have "find_hash (HashToken sha256 p) (tok_byID s) = tid \<and> tid \<noteq> ''''"
    using assms(1) by (auto simp: Consume_def Let_def s_def [symmetric] split: option.splits prod.splits if_splits)
  with find_hash_mem [OF _ wf] obtain r where r: "mget (tok_byID s) tid = Some r" "tr_Hash r = HashToken sha256 p"
      "find_hash (HashToken sha256 p) (tok_byID s) = tid" "tid \<noteq> ''''"
    by metis
  with assms(1) have "\<not> tr_Revoked r \<and> now \<le> tr_ExpiresAt r \<and> \<not> tr_Used r \<and>
     s' = s\<lparr>tok_byID := mput tid (r\<lparr>tr_Used := True\<rparr>) (tok_byID s)\<rparr> \<and> saveLocked J io (s', disk) = (disk', None)"
    by (auto simp: Consume_def Let_def s_def [symmetric] split: option.splits prod.splits if_splits)
  with r s_def show ?thesis by blast
qed

lemma Consume_spent:
  assumes "known (spent (HashToken sha256 p)) J (s0, disk)" and "store_wf s0"
    and "Consume sha256 J io now p (s0, disk) = ((s', disk'), res)"
  shows "\<exists>e. res = Inl e"
proof (cases res)
  case (Inr tid)
  obtain r where r: "mget (tok_byID (reloadIfChanged J io disk s0)) tid = Some r" "tr_Hash r = HashToken sha256 p" "\<not> tr_Used r"
    using Consume_ok [OF _ assms(2)] assms(3) Inr by metis
  have "spent (HashToken sha256 p) (recs (reloadIfChanged J io disk s0))"
    by (rule sp.memory [OF sp.reload [OF assms(1)]])
  with r show ?thesis using store_wf_get [OF reload_wf [OF assms(2)] r(1)] by (auto simp: spent_def)
qed simp

lemma Consume_spends:
  assumes "json_law J" and "known (one_id (HashToken sha256 p)) J (s0, disk)" and "store_wf s0"
    and "Consume sha256 J io now p (s0, disk) = ((s', disk'), Inr tid)"
  shows "known (spent (HashToken sha256 p)) J (s', disk')"
proof -
  define s where "s = reloadIfChanged J io disk s0"
  obtain r where r: "mget (tok_byID s) tid = Some r" "tr_Hash r = HashToken sha256 p"
      and s': "s' = s\<lparr>tok_byID := mput tid (r\<lparr>tr_Used := True\<rparr>) (tok_byID s)\<rparr>" "saveLocked J io (s', disk) = (disk', None)"
    using Consume_ok [OF assms(4,3)] unfolding s_def by blast
  have wf: "store_wf s" "store_wf s'"
    using reload_wf [OF assms(3)] mark_wf [of s tid r] r(1) by (simp_all add: s_def s'(1))
  have one: "one_id (HashToken sha256 p) (recs s)"
    unfolding s_def by (rule oi.memory [OF oi.reload [OF assms(2)]])
  have "spent (HashToken sha256 p) (recs s')"
  proof (unfold spent_def, intro ballI impI)
    fix q assume q: "q \<in> recs s'" "tr_Hash q = HashToken sha256 p"
    then have "(tr_TokenID q, q) \<in> set (tok_byID s')" using wf(2) by (auto simp: recs_wf_def)
    moreover have "mwf (tok_byID s')" using wf(2) by (simp add: recs_wf_def)
    ultimately have get: "mget (tok_byID s') (tr_TokenID q) = Some q" by (simp add: mwf_mget)
    show "tr_Used q"
    proof (cases "tr_TokenID q = tid")
      case False
      then have "mget (tok_byID s) (tr_TokenID q) = Some q" using get by (simp add: s'(1))
      then have "q \<in> recs s" "r \<in> recs s" "tr_TokenID r = tid" using store_wf_get [OF wf(1)] r(1) by blast+
      then show ?thesis using one q(2) r(2) False by (auto simp: one_id_def)
    qed (use get in \<open>auto simp: s'(1)\<close>)
  qed
  moreover have "disk_records J disk' = map snd (tok_byID s')" "disk' \<noteq> None"
    using s'(2) assms(1) by (auto simp: saveLocked_def json_law_def disk_records_def split: option.splits)
  ultimately show ?thesis by (auto simp: known_def)
qed


section \<open>Tokens are one-time\<close>

lemma tok_exec_Consume:
  "fst (tok_exec sha256 J (OpConsume io now p) st) = fst (Consume sha256 J io now p st)"
  by (simp split: prod.split)

lemma tok_exec_keeps:
  assumes "json_law J" and "store_wf (fst st)" and "h \<notin> set (created sha256 op)" and "token_view Q h"
    and "known Q J st" and "tok_exec sha256 J op st = (st', log)"
  shows "known Q J st'"
proof -
  obtain s disk where st: "st = (s, disk)" by fastforce
  have st': "st' = fst (tok_exec sha256 J op (s, disk))" using assms(6) by (simp add: st)
  have k: "known Q J (s, disk)" and wf: "store_wf s" using assms by (simp_all add: st)
  show ?thesis
  proof (cases op)
    case (OpCreate io n1 n2 p i who ttl)
    then show ?thesis using token_view.Create_keeps [OF assms(4,1) k] assms(3) by (simp add: st')
  next
    case (OpConsume io now p)
    then show ?thesis using token_view.Consume_keeps [OF assms(4,1) k wf] by (simp only: st' tok_exec_Consume)
  next
    case (OpRevoke io i)
    then show ?thesis using token_view.Revoke_keeps [OF assms(4,1) k wf] by (simp add: st')
  qed
qed

lemma tok_exec_wf:
  assumes "store_wf (fst st)" and "tok_exec sha256 J op st = (st', log)"
  shows "store_wf (fst st')"
proof -
  obtain s disk where st: "st = (s, disk)" by fastforce
  have st': "st' = fst (tok_exec sha256 J op (s, disk))" using assms(2) by (simp add: st)
  have wf: "store_wf s" using assms by (simp add: st)
  show ?thesis
    by (cases op) (simp_all only: st' tok_exec_Consume tok_exec.simps(1,3) fst_conv Create_wf [OF wf] Consume_wf [OF wf] Revoke_wf [OF wf])
qed

lemma tok_exec_log:
  assumes "tok_exec sha256 J op st = (st', log)" and "p \<in> set log"
  shows "\<exists>io now tid. op = OpConsume io now p \<and> log = [p] \<and> Consume sha256 J io now p st = (st', Inr tid)"
  using assms by (cases op) (auto split: prod.splits sum.splits)

lemma tok_exec_spent:
  assumes "tok_exec sha256 J op st = (st', log)" and "store_wf (fst st)" and "known (spent h) J st"
  shows "length (filter (\<lambda>p. HashToken sha256 p = h) log) = 0"
proof -
  have "HashToken sha256 p \<noteq> h" if mem: "p \<in> set log" for p
  proof
    assume h: "HashToken sha256 p = h"
    obtain io now tid where c: "Consume sha256 J io now p st = (st', Inr tid)"
      using tok_exec_log [OF assms(1) mem] by blast
    show False
      using Consume_spent [of sha256 p J "fst st" "snd st" io now "fst st'" "snd st'" "Inr tid"] assms(2,3) c h by simp
  qed
  then show ?thesis by (simp add: filter_empty_conv)
qed

abbreviation spends :: "(bytes \<Rightarrow> bytes) \<Rightarrow> string \<Rightarrow> string list \<Rightarrow> nat" where
  "spends sha256 h log \<equiv> length (filter (\<lambda>p. HashToken sha256 p = h) log)"

lemma spent_run:
  assumes "json_law J"
  shows "tok_run sha256 J ops st = (st', log) \<Longrightarrow> store_wf (fst st) \<Longrightarrow> known (spent h) J st \<Longrightarrow>
     h \<notin> set (concat (map (created sha256) ops)) \<Longrightarrow> spends sha256 h log = 0"
proof (induction ops arbitrary: st log)
  case (Cons op ops)
  obtain st1 a b where step: "tok_exec sha256 J op st = (st1, a)" "tok_run sha256 J ops st1 = (st', b)" "log = a @ b"
    using Cons.prems by (auto split: prod.splits)
  have "spends sha256 h a = 0"
    by (rule tok_exec_spent [OF step(1) Cons.prems(2,3)])
  moreover have "spends sha256 h b = 0"
    using Cons.IH [OF step(2) tok_exec_wf [OF Cons.prems(2) step(1)]] Cons.prems
      tok_exec_keeps [OF assms Cons.prems(2) _ sp.token_view_axioms Cons.prems(3) step(1)] by auto
  ultimately show ?case by (simp add: step(3))
qed simp

lemma one_id_run:
  assumes "json_law J"
  shows "tok_run sha256 J ops st = (st', log) \<Longrightarrow> store_wf (fst st) \<Longrightarrow> known (one_id h) J st \<Longrightarrow>
     h \<notin> set (concat (map (created sha256) ops)) \<Longrightarrow> spends sha256 h log \<le> 1"
proof (induction ops arbitrary: st log)
  case (Cons op ops)
  obtain st1 a b where step: "tok_exec sha256 J op st = (st1, a)" "tok_run sha256 J ops st1 = (st', b)" "log = a @ b"
    using Cons.prems by (auto split: prod.splits)
  note wf1 = tok_exec_wf [OF Cons.prems(2) step(1)]
  show ?case
  proof (cases "spends sha256 h a = 0")
    case True
    then show ?thesis
      using Cons.IH [OF step(2) wf1] Cons.prems
        tok_exec_keeps [OF assms Cons.prems(2) _ oi.token_view_axioms Cons.prems(3) step(1)] by (auto simp: step(3))
  next
    case False
    then obtain io now p tid where op: "op = OpConsume io now p" "HashToken sha256 p = h" "a = [p]"
        "Consume sha256 J io now p st = (st1, Inr tid)"
      using tok_exec_log [OF step(1)] by (fastforce simp: filter_empty_conv)
    then have "known (spent h) J st1"
      using Consume_spends [OF assms] Cons.prems(2,3) by (cases st; cases st1) auto
    then show ?thesis
      using spent_run [OF assms step(2) wf1] Cons.prems(4) op by (simp add: step(3))
  qed
qed simp

lemma Create_absent:
  assumes "json_law J" and "known (absent h) J (s, disk)" and "store_wf s"
    and "fst (Create sha256 J io n1 n2 p i who ttl (s, disk)) = (s', disk')"
  shows "known (one_id h) J (s', disk')"
proof -
  have "one_id h (insert r (recs s))" for r
    using ab.memory [OF assms(2)] by (auto simp: one_id_def absent_def)
  then show ?thesis
    using oi.put_saved [OF assms(1) absent_one_id [OF assms(2)]] absent_one_id [OF assms(2)] assms(4)
    by (auto simp: Create_def Let_def split: prod.splits if_splits)
qed

lemma absent_run:
  assumes "json_law J"
  shows "tok_run sha256 J ops st = (st', log) \<Longrightarrow> store_wf (fst st) \<Longrightarrow> known (absent h) J st \<Longrightarrow>
     distinct (concat (map (created sha256) ops)) \<Longrightarrow> spends sha256 h log \<le> 1"
proof (induction ops arbitrary: st log)
  case (Cons op ops)
  obtain st1 a b where step: "tok_exec sha256 J op st = (st1, a)" "tok_run sha256 J ops st1 = (st', b)" "log = a @ b"
    using Cons.prems by (auto split: prod.splits)
  note wf1 = tok_exec_wf [OF Cons.prems(2) step(1)]
  have a: "spends sha256 h a = 0"
    by (rule tok_exec_spent [OF step(1) Cons.prems(2) absent_spent [OF Cons.prems(3)]])
  show ?case
  proof (cases "h \<in> set (created sha256 op)")
    case True
    then obtain io n1 n2 p i who ttl where "op = OpCreate io n1 n2 p i who ttl" by (cases op) auto
    then have "fst (Create sha256 J io n1 n2 p i who ttl (fst st, snd st)) = (fst st1, snd st1)"
      using step(1) by simp
    then have "known (one_id h) J st1"
      using Create_absent [OF assms, of h "fst st" "snd st" sha256 io n1 n2 p i who ttl "fst st1" "snd st1"] Cons.prems(2,3)
      by simp
    moreover have "h \<notin> set (concat (map (created sha256) ops))" using Cons.prems(4) True by auto
    ultimately show ?thesis using one_id_run [OF assms step(2) wf1] a by (simp add: step(3))
  next
    case False
    then show ?thesis
      using Cons.IH [OF step(2) wf1 tok_exec_keeps [OF assms Cons.prems(2) False ab.token_view_axioms Cons.prems(3) step(1)]]
        Cons.prems(4) a by (simp add: step(3))
  qed
qed simp

lemma LoadTokenStore_knows:
  assumes "LoadTokenStore J io disk = Inr s" and "token_view Q h" and "Q (set (disk_records J disk))" and "Q {}"
  shows "store_wf s \<and> known Q J (s, disk)"
proof (cases disk)
  case None
  then show ?thesis using assms by (auto simp: LoadTokenStore_def known_def recs_wf_def)
next
  case (Some f)
  obtain s' where s': "replaceFrom J (f_data f) \<lparr>tok_byID = [], lastMod = zero_time, lastSize = 0\<rparr> = Some s'"
      "tok_byID s = tok_byID s'"
    using assms(1) by (auto simp: LoadTokenStore_def Some Let_def split: if_splits option.splits)
  have "recs s \<subseteq> set (disk_records J disk) \<and> store_wf s"
    using replaceFrom_facts [OF s'(1)] s'(2) by (auto simp: disk_records_def Some)
  then show ?thesis using token_view.fewer [OF assms(2,3)] assms(3) by (simp add: known_def Some)
qed

text \<open>
  C3: Enrolment tokens are one-time: when one process owns the store, then in every run from start-up,
  with any answers of the file system, failed writes included, a token is accepted at most once, provided
  no two tokens share a hash.
\<close>
theorem token_single_use:
  assumes json_roundtrip: "json_law J"
    and start: "LoadTokenStore J io disk = Inr s"
    and fresh: "distinct (map tr_Hash (disk_records J disk) @ concat (map (created sha256) ops))"
    and run: "tok_run sha256 J ops (s, disk) = (st, log)"
  shows "length (filter (\<lambda>p. HashToken sha256 p = h) log) \<le> 1"
proof (cases "h \<in> tr_Hash ` set (disk_records J disk)")
  case True
  have "inj_on tr_Hash (set (disk_records J disk))"
    using fresh by (simp add: distinct_map)
  then have "one_id h (set (disk_records J disk))"
    unfolding one_id_def inj_on_def by metis
  then have "store_wf s \<and> known (one_id h) J (s, disk)"
    by (intro LoadTokenStore_knows [OF start oi.token_view_axioms]) (simp_all add: one_id_def)
  then show ?thesis using one_id_run [OF json_roundtrip run] fresh True by auto
next
  case False
  then have "store_wf s \<and> known (absent h) J (s, disk)"
    by (intro LoadTokenStore_knows [OF start ab.token_view_axioms]) (auto simp: absent_def)
  then show ?thesis using absent_run [OF json_roundtrip run] fresh by simp
qed


definition sample_record :: TokenRecord where
  "sample_record = \<lparr>tr_TokenID = ''a'', tr_Hash = '''', tr_ExpiresAt = hour, tr_Used = False, tr_Revoked = False,
     tr_CreatedBy = '''', tr_CreatedAt = 0\<rparr>"

definition second_record :: TokenRecord where
  "second_record = sample_record\<lparr>tr_TokenID := ''b'', tr_Hash := ''00''\<rparr>"

text \<open>A codec that knows the four files of the examples.\<close>

definition sample_files :: "(bytes \<times> TokenRecord list) list" where
  "sample_files =
     [([1], [sample_record]), ([2], [sample_record\<lparr>tr_Used := True\<rparr>]), ([3], [sample_record, second_record]),
      ([4], [sample_record\<lparr>tr_Used := True\<rparr>, second_record])]"

definition sample_json :: token_json where
  "sample_json =
     \<lparr>marshal_tokens = (\<lambda>rs. map_option fst (find (\<lambda>f. snd f = rs) sample_files)),
      unmarshal_tokens = (\<lambda>bs. map_of (map (\<lambda>f. (fst f @ [10], snd f)) sample_files) bs)\<rparr>"

lemma sample_json_law: "json_law sample_json"
  by (auto simp: json_law_def sample_json_def sample_files_def split: if_splits)

abbreviation sample_io :: "instant \<Rightarrow> file_io" where
  "sample_io t \<equiv> \<lparr>io_stat = True, io_read = True, io_save = Some t\<rparr>"

lemmas sample_simps = sample_json_def sample_files_def sample_record_def second_record_def

theorem token_single_use_witness:
  "snd (tok_run (\<lambda>_. []) sample_json
      [OpCreate (sample_io 5) 0 0 ''t'' ''a'' '''' hour, OpConsume (sample_io 6) 1 ''t'', OpConsume (sample_io 7) 2 ''t'']
      (\<lparr>tok_byID = [], lastMod = zero_time, lastSize = 0\<rparr>, None)) = [''t''] \<and>
   length (filter (\<lambda>p. HashToken (\<lambda>_. []) p = '''') [''t'']) \<le> 1"
proof -
  let ?ops = "[OpCreate (sample_io 5) 0 0 ''t'' ''a'' '''' hour, OpConsume (sample_io 6) 1 ''t'', OpConsume (sample_io 7) 2 ''t'']"
  let ?s = "\<lparr>tok_byID = [], lastMod = zero_time, lastSize = 0\<rparr>"
  have "snd (tok_run (\<lambda>_. []) sample_json ?ops (?s, None)) = [''t'']" by code_simp
  then obtain st where run: "tok_run (\<lambda>_. []) sample_json ?ops (?s, None) = (st, [''t''])" by (metis prod.collapse)
  have load: "LoadTokenStore sample_json (sample_io 0) None = Inr ?s" by (simp add: LoadTokenStore_def)
  have "distinct (map tr_Hash (disk_records sample_json None) @ concat (map (created (\<lambda>_. [])) ?ops))"
    by (simp add: disk_records_def)
  from token_single_use [OF sample_json_law load this run] run show ?thesis by simp
qed

section \<open>Two processes on one file\<close>

lemma mput_fresh: "mget m k = None \<Longrightarrow> mput k v m = m @ [(k, v)]"
  by (induction m) (auto split: if_splits)

lemma rebuild_same: "recs_wf m \<Longrightarrow> fold load_record (map snd m) [] = m"
proof (induction m rule: rev_induct)
  case (snoc kr m)
  obtain k r where kr: "kr = (k, r)" by fastforce
  have wf: "recs_wf m" "tr_TokenID r = k" "k \<noteq> ''''" and "k \<notin> set (mkeys m)"
    using snoc.prems by (auto simp: recs_wf_def mwf_def kr)
  then have "mget m k = None" by (simp add: map_of_eq_None_iff)
  then show ?case using snoc.IH wf by (simp add: kr load_record_def mput_fresh)
qed simp

lemma Load_records:
  assumes "LoadTokenStore J io disk = Inr s"
  shows "tok_byID s = fold load_record (disk_records J disk) []"
  using assms by (cases disk) (auto simp: LoadTokenStore_def disk_records_def replaceFrom_def Let_def split: if_splits option.splits)

lemma reload_records:
  assumes "tok_byID s = fold load_record (disk_records J disk) []"
  shows "tok_byID (reloadIfChanged J io disk s) = tok_byID s"
  using assms by (auto simp: reloadIfChanged_def disk_records_def replaceFrom_def split: option.splits)

lemma find_hash_unique:
  assumes "mget m k = Some r" and "mwf m" and "\<And>k' r'. mget m k' = Some r' \<Longrightarrow> tr_Hash r' = tr_Hash r \<Longrightarrow> k' = k"
  shows "find_hash (tr_Hash r) m = k"
proof -
  have "(k, r) \<in> set m" using assms(1) by (rule mget_in_set)
  then obtain k' r' where f: "find (\<lambda>(tid, q). tr_Hash q = tr_Hash r) m = Some (k', r')"
    by (cases "find (\<lambda>(tid, q). tr_Hash q = tr_Hash r) m") (auto simp: find_None_iff)
  then have "(k', r') \<in> set m" "tr_Hash r' = tr_Hash r" by (auto simp: find_Some_iff in_set_conv_nth)
  then show ?thesis using f assms(2,3) by (auto simp: find_hash_def mwf_mget)
qed

lemma saveLocked_ok:
  assumes "json_law J" and "saveLocked J io (s, disk) = (disk', None)"
  shows "\<exists>f. disk' = Some f \<and> unmarshal_tokens J (f_data f) = Some (map snd (tok_byID s)) \<and> io_save io = Some (f_mod f)"
  using assms by (auto simp: saveLocked_def json_law_def split: option.splits)


text \<open>
  C39: The one-time guarantee is per process: the store of a second process does not re-read the file
  before it writes. When the enrolment server has consumed a token and the command-line tool, which
  loaded the file earlier, then creates another token, the server reloads the tool's file and accepts
  the spent token again.
\<close>
theorem two_processes_respend:
  assumes json_roundtrip: "json_law J"
    and loads: "LoadTokenStore J ioa disk = Inr a" "LoadTokenStore J iob disk = Inr b"
    and first: "Consume sha256 J io1 t1 p (a, disk) = ((a1, disk1), Inr tid)"
    and create: "Create sha256 J io2 n1 n2 p2 tid2 who ttl (b, disk1) = ((b2, disk2), Inr rec2)"
    and distinct: "distinct (map tr_Hash (disk_records J disk) @ [HashToken sha256 p2])" "tid2 \<noteq> tid"
    and seen: "io_save io2 \<noteq> Some (lastMod a1)"
    and alive: "tok_Get b tid = Some r" "t2 \<le> tr_ExpiresAt r"
    and encodes: "marshal_tokens J (map snd (mput tid (r\<lparr>tr_Used := True\<rparr>) (tok_byID b2))) \<noteq> None"
  shows "snd (Consume sha256 J \<lparr>io_stat = True, io_read = True, io_save = Some m3\<rparr> t2 p (a1, disk2)) = Inr tid"
proof -
  let ?h = "HashToken sha256 p" and ?rs = "disk_records J disk"
  have byID: "tok_byID a = fold load_record ?rs []" "tok_byID b = fold load_record ?rs []"
    using loads by (auto dest: Load_records)
  have wf: "store_wf a" "store_wf b"
    using byID rebuild_wf [of "[]" ?rs] by (simp_all add: recs_wf_def)
  obtain q where q: "mget (tok_byID b) tid = Some q" "tr_Hash q = ?h" "\<not> tr_Revoked q" "\<not> tr_Used q"
    using Consume_ok [OF first wf(1)] reload_records [OF byID(1), of io1] byID by metis
  then have r: "tr_Hash r = ?h" "\<not> tr_Revoked r" "\<not> tr_Used r" using alive by (auto simp: tok_Get_def)
  have b2: "tok_byID b2 = mput tid2 rec2 (tok_byID b)" "tr_TokenID rec2 = tid2" "tr_Hash rec2 = HashToken sha256 p2" "tid2 \<noteq> ''''"
      and save: "saveLocked J io2 (b2, disk1) = (disk2, None)"
    using create by (auto simp: Create_def Let_def split: prod.splits if_splits option.splits)
  have wf2: "recs_wf (tok_byID b2)" unfolding b2(1) by (rule put_wf [OF wf(2) b2(2,4)])
  obtain f where f: "disk2 = Some f" "unmarshal_tokens J (f_data f) = Some (map snd (tok_byID b2))" "f_mod f \<noteq> lastMod a1"
    using saveLocked_ok [OF json_roundtrip save] seen by auto
  have s: "reloadIfChanged J \<lparr>io_stat = True, io_read = True, io_save = Some m3\<rparr> disk2 a1
      = a1\<lparr>tok_byID := tok_byID b2, lastMod := f_mod f, lastSize := length (f_data f)\<rparr>"
    using f by (simp add: reloadIfChanged_def replaceFrom_def rebuild_same [OF wf2])
  have get: "mget (tok_byID b2) tid = Some r" using alive distinct(2) by (simp add: b2 tok_Get_def)
  have "find_hash (tr_Hash r) (tok_byID b2) = tid"
  proof (rule find_hash_unique [OF get])
    show "mwf (tok_byID b2)" using wf2 by (simp add: recs_wf_def)
    fix k r' assume k: "mget (tok_byID b2) k = Some r'" "tr_Hash r' = tr_Hash r"
    have mem: "r \<in> set ?rs"
      using alive(1) store_wf_get [OF wf(2)] recs_rebuild [of ?rs "[]"] by (auto simp: tok_Get_def byID)
    show "k = tid"
    proof (cases "k = tid2")
      case True
      then have "tr_Hash r = HashToken sha256 p2" using k b2 by auto
      then show ?thesis using imageI [OF mem, of tr_Hash] distinct(1) by simp
    next
      case False
      then have kb: "mget (tok_byID b) k = Some r'" using k(1) by (simp add: b2)
      then have "r' \<in> set ?rs"
        using store_wf_get [OF wf(2)] recs_rebuild [of ?rs "[]"] by (auto simp: byID)
      then have "r' = r" using mem k(2) distinct(1) by (auto simp: distinct_map dest: inj_onD)
      then show ?thesis using kb alive(1) store_wf_get [OF wf(2)] by (auto simp: tok_Get_def)
    qed
  qed
  moreover have "tid \<noteq> ''''" using alive(1) store_wf_get [OF wf(2)] by (auto simp: tok_Get_def)
  ultimately show ?thesis
    using r alive(2) get encodes by (auto simp: Consume_def Let_def s saveLocked_def split: option.splits prod.splits)
qed


theorem two_processes_respend_witness:
  "\<exists>a b a1 b2 disk1 disk2 rec2.
     LoadTokenStore sample_json (sample_io 0) (Some \<lparr>f_data = [1, 10], f_mod = 5\<rparr>) = Inr a \<and>
     LoadTokenStore sample_json (sample_io 0) (Some \<lparr>f_data = [1, 10], f_mod = 5\<rparr>) = Inr b \<and>
     Consume (\<lambda>bs. if bs = [112] then [] else [0]) sample_json (sample_io 6) 1 ''p'' (a, Some \<lparr>f_data = [1, 10], f_mod = 5\<rparr>) = ((a1, disk1), Inr ''a'') \<and>
     Create (\<lambda>bs. if bs = [112] then [] else [0]) sample_json (sample_io 7) 0 0 ''q'' ''b'' '''' hour (b, disk1) = ((b2, disk2), Inr rec2) \<and>
     snd (Consume (\<lambda>bs. if bs = [112] then [] else [0]) sample_json (sample_io 8) 2 ''p'' (a1, disk2)) = Inr ''a''"
proof -
  let ?sha = "\<lambda>bs :: bytes. if bs = [112] then [] else [0 :: byte]"
  let ?disk = "Some \<lparr>f_data = [1, 10], f_mod = 5\<rparr>"
  let ?a = "\<lparr>tok_byID = [(''a'', sample_record)], lastMod = 5, lastSize = 2\<rparr>"
  let ?a1 = "\<lparr>tok_byID = [(''a'', sample_record\<lparr>tr_Used := True\<rparr>)], lastMod = 5, lastSize = 2\<rparr>"
  let ?b2 = "\<lparr>tok_byID = [(''a'', sample_record), (''b'', second_record)], lastMod = 5, lastSize = 2\<rparr>"
  have load: "LoadTokenStore sample_json (sample_io 0) ?disk = Inr ?a"
    by (simp add: LoadTokenStore_def replaceFrom_def load_record_def sample_simps)
  have con: "Consume ?sha sample_json (sample_io 6) 1 ''p'' (?a, ?disk) = ((?a1, Some \<lparr>f_data = [2, 10], f_mod = 6\<rparr>), Inr ''a'')"
    by code_simp
  have cre: "Create ?sha sample_json (sample_io 7) 0 0 ''q'' ''b'' '''' hour (?a, Some \<lparr>f_data = [2, 10], f_mod = 6\<rparr>)
      = ((?b2, Some \<lparr>f_data = [3, 10], f_mod = 7\<rparr>), Inr second_record)"
    by code_simp
  have dis: "distinct (map tr_Hash (disk_records sample_json ?disk) @ [HashToken ?sha ''q''])"
    by code_simp
  have enc: "marshal_tokens sample_json (map snd (mput ''a'' (sample_record\<lparr>tr_Used := True\<rparr>) (tok_byID ?b2))) \<noteq> None"
    by code_simp
  have "snd (Consume ?sha sample_json (sample_io 8) 2 ''p'' (?a1, Some \<lparr>f_data = [3, 10], f_mod = 7\<rparr>)) = Inr ''a''"
    by (rule two_processes_respend [OF sample_json_law load load con cre dis _ _ _ _ enc])
      (simp_all add: tok_Get_def sample_record_def)
  with load con cre show ?thesis by blast
qed

section \<open>Snapshots\<close>

text \<open>
  The listing of the tokens is complete and in strictly increasing order of the token ids, whatever
  order the runtime iterates the map in.
\<close>
theorem tok_All_sorted:
  assumes "recs_wf (tok_byID s)"
  shows "sorted_wrt (\<lambda>x y. str_less (tr_TokenID x) (tr_TokenID y)) (tok_All s) \<and>
     (r \<in> set (tok_All s) \<longleftrightarrow> tok_Get s (tr_TokenID r) = Some r)"
proof
  have "map tr_TokenID (map snd (tok_byID s)) = mkeys (tok_byID s)"
    using assms by (auto simp: recs_wf_def)
  moreover have "distinct (mkeys (tok_byID s))"
    using assms by (simp add: recs_wf_def mwf_def)
  ultimately have "distinct (map tr_TokenID (map snd (tok_byID s)))"
    by (simp only:)
  then show "sorted_wrt (\<lambda>x y. str_less (tr_TokenID x) (tr_TokenID y)) (tok_All s)"
    unfolding tok_All_def by (rule sort_by_strict)
  have "mwf (tok_byID s)" using assms by (simp add: recs_wf_def)
  note mwf_mget [OF this, of "tr_TokenID r" r]
  moreover have "r \<in> recs s \<longleftrightarrow> (tr_TokenID r, r) \<in> set (tok_byID s)"
  proof
    assume "r \<in> recs s"
    then show "(tr_TokenID r, r) \<in> set (tok_byID s)" using assms by (auto simp: recs_wf_def)
  next
    assume "(tr_TokenID r, r) \<in> set (tok_byID s)"
    then show "r \<in> recs s" by (metis image_eqI snd_conv)
  qed
  ultimately show "r \<in> set (tok_All s) \<longleftrightarrow> tok_Get s (tr_TokenID r) = Some r"
    by (simp add: tok_All_def tok_Get_def)
qed

theorem tok_All_sorted_witness:
  "tok_All \<lparr>tok_byID = [(''b'', second_record), (''a'', sample_record)], lastMod = 0, lastSize = 0\<rparr> = [sample_record, second_record] \<and>
   sample_record \<in> set (tok_All \<lparr>tok_byID = [(''b'', second_record), (''a'', sample_record)], lastMod = 0, lastSize = 0\<rparr>)"
proof -
  let ?s = "\<lparr>tok_byID = [(''b'', second_record), (''a'', sample_record)], lastMod = 0, lastSize = 0\<rparr>"
  have "recs_wf (tok_byID ?s)" by (auto simp: recs_wf_def mwf_def sample_simps)
  moreover have "tok_Get ?s (tr_TokenID sample_record) = Some sample_record" by code_simp
  moreover have "tok_All ?s = [sample_record, second_record]" by code_simp
  ultimately show ?thesis using tok_All_sorted [of ?s sample_record] by blast
qed


end
