(* ===== verification/Pki.thy ===== *)
theory Pki
  imports Tokens
begin

text \<open>
  \<^verbatim>\<open>internal/pki\<close>: client ids (pki.go), issuing and checking certificates (sign.go, parse.go), the
  revocation list (revoked.go) and the registry of enrolled clients (registry.go).
  \<^verbatim>\<open>crypto/x509\<close> and \<^verbatim>\<open>encoding/pem\<close> enter as the record \<open>x509_lib\<close>, with what the code relies on as the
  law \<open>x509_law\<close>; \<^verbatim>\<open>encoding/json\<close> as a codec for the list a store persists. Keys are numbers.
  The lemmas show that generated client ids are valid and distinct, what an issued certificate
  carries, and that a revocation survives a restart.
\<close>

section \<open>Client ids (pki.go)\<close>

definition base32_alphabet :: string where
  "base32_alphabet = ''abcdefghijklmnopqrstuvwxyz234567''"

text \<open>The bits of a byte, most significant first, and groups of five of them as digits.\<close>

definition byte_bits :: "byte \<Rightarrow> bool list" where
  "byte_bits b = map (bit b) [7, 6, 5, 4, 3, 2, 1, 0]"

fun bits_value :: "bool list \<Rightarrow> nat" where
  "bits_value [] = 0"
| "bits_value (x # xs) = (if x then 2 ^ length xs else 0) + bits_value xs"

text \<open>The last group is filled up with zero bits.\<close>

definition pad5 :: "bool list \<Rightarrow> bool list" where
  "pad5 bs = take 5 (bs @ replicate 4 False)"

fun base32_groups :: "bool list \<Rightarrow> string" where
  "base32_groups bs =
     (if bs = [] then [] else base32_alphabet ! bits_value (pad5 bs) # base32_groups (drop 5 bs))"

declare base32_groups.simps [simp del]

definition base32Lower :: "bytes \<Rightarrow> string" where
  "base32Lower buf = base32_groups (concat (map byte_bits buf))"

definition is_base32 :: "char \<Rightarrow> bool" where
  "is_base32 c \<longleftrightarrow> is_lower c \<or> (50 \<le> code c \<and> code c \<le> 55)"

definition ValidateClientID :: "string \<Rightarrow> bool" where
  "ValidateClientID i \<longleftrightarrow> take 3 i = ''cl_'' \<and> length i = 29 \<and> list_all is_base32 (drop 3 i)"

definition ClientID :: "bytes option \<Rightarrow> string option" where
  "ClientID rnd = map_option (\<lambda>buf. ''cl_'' @ base32Lower buf) rnd"

definition randomSerial :: "bytes option \<Rightarrow> nat option" where
  "randomSerial rnd =
     (case rnd of None \<Rightarrow> None
      | Some serial \<Rightarrow> (let n = be_value serial in if n \<le> 0 then None else Some n))"

section \<open>Certificates (pki.go, parse.go, sign.go)\<close>

datatype eku = ClientAuth | ServerAuth

datatype key_usage = DigitalSignature | CertSign | CRLSign

record certificate =
  c_serial :: nat
  c_CN :: string
  c_O :: "string list"
  c_OU :: "string list"
  c_NotBefore :: instant
  c_NotAfter :: instant
  c_KeyUsage :: "key_usage list"
  c_EKU :: "eku list"
  c_IsCA :: bool
  c_MaxPathLenZero :: bool
  c_IPs :: "string list"
  c_DNS :: "string list"
  c_key :: nat
  c_Raw :: bytes

record csr =
  csr_Ed25519 :: bool
  csr_sigOK :: bool
  csr_CN :: string
  csr_O :: "string list"
  csr_OU :: "string list"
  csr_key :: nat

record CA =
  ca_Cert :: certificate
  ca_Key :: nat

datatype pki_error =
    CARequired
  | BadPEM
  | ParseCSRFailed
  | ParseCertFailed
  | BadKeyAlgorithm
  | BadCSRSignature
  | BadClientID
  | BadValidity
  | SerialFailed
  | KeyFailed
  | SignFailed
  | ChainFailed
  | NotClientAuth
  | CreateCSRFailed

text \<open>
  \<open>x_create\<close> signs a template for a public key with the parent's key and gives the DER bytes;
  \<open>x_verify\<close> is chain verification to a root at the current time.
\<close>

record x509_lib =
  x_pem_decode :: "string \<Rightarrow> (string \<times> bytes) option"
  x_pem_encode :: "string \<Rightarrow> bytes \<Rightarrow> string"
  x_parse_csr :: "bytes \<Rightarrow> csr option"
  x_create_csr :: "csr \<Rightarrow> bytes option"
  x_parse_cert :: "bytes \<Rightarrow> certificate option"
  x_create :: "certificate \<Rightarrow> CA \<Rightarrow> bytes option"
  x_verify :: "instant \<Rightarrow> certificate \<Rightarrow> certificate \<Rightarrow> bool"

definition ParseCSR :: "x509_lib \<Rightarrow> string \<Rightarrow> pki_error + csr" where
  "ParseCSR X pem =
     (case x_pem_decode X pem of
        None \<Rightarrow> Inl BadPEM
      | Some (ty, der) \<Rightarrow>
          (if ty \<noteq> ''CERTIFICATE REQUEST'' then Inl BadPEM
           else case x_parse_csr X der of None \<Rightarrow> Inl ParseCSRFailed | Some c \<Rightarrow> Inr c))"

definition ParseCertificate :: "x509_lib \<Rightarrow> string \<Rightarrow> pki_error + certificate" where
  "ParseCertificate X pem =
     (case x_pem_decode X pem of
        None \<Rightarrow> Inl BadPEM
      | Some (ty, der) \<Rightarrow>
          (if ty \<noteq> ''CERTIFICATE'' then Inl BadPEM
           else case x_parse_cert X der of None \<Rightarrow> Inl ParseCertFailed | Some c \<Rightarrow> Inr c))"

fun colon_pairs :: "string \<Rightarrow> string" where
  "colon_pairs (a # b # c # h) = a # b # CHR '':'' # colon_pairs (c # h)"
| "colon_pairs h = h"

definition Fingerprint :: "(bytes \<Rightarrow> bytes) \<Rightarrow> certificate \<Rightarrow> string" where
  "Fingerprint sha256 cert = colon_pairs (hex_encode (sha256 (c_Raw cert)))"

definition ExpiresIn :: "instant \<Rightarrow> certificate \<Rightarrow> duration" where
  "ExpiresIn now cert = c_NotAfter cert - now"

definition IsExpired :: "instant \<Rightarrow> certificate \<Rightarrow> bool" where
  "IsExpired now cert \<longleftrightarrow> now < c_NotBefore cert \<or> c_NotAfter cert < now"

definition VerifyChain :: "x509_lib \<Rightarrow> instant \<Rightarrow> certificate \<Rightarrow> certificate \<Rightarrow> pki_error option" where
  "VerifyChain X now cert root = (if x_verify X now cert root then None else Some ChainFailed)"

definition VerifyClientCertificate :: "x509_lib \<Rightarrow> instant \<Rightarrow> certificate \<Rightarrow> certificate \<Rightarrow> pki_error option" where
  "VerifyClientCertificate X now cert root =
     (case VerifyChain X now cert root of
        Some e \<Rightarrow> Some e
      | None \<Rightarrow> if list_ex (\<lambda>e. e = ClientAuth) (c_EKU cert) then None else Some NotClientAuth)"

text \<open>\<open>kp\<close> is the key pair that was generated, \<open>None\<close> when that failed.\<close>

definition GenerateCA :: "x509_lib \<Rightarrow> instant \<Rightarrow> nat option \<Rightarrow> bytes option \<Rightarrow> duration \<Rightarrow> pki_error + CA" where
  "GenerateCA X now kp rnd validity =
     (if validity \<le> 0 then Inl BadValidity
      else case kp of None \<Rightarrow> Inl KeyFailed
      | Some key \<Rightarrow>
          (case randomSerial rnd of None \<Rightarrow> Inl SerialFailed
           | Some serial \<Rightarrow>
               (let tmpl = \<lparr>c_serial = serial, c_CN = ''qoqtun Root CA'', c_O = [], c_OU = [],
                            c_NotBefore = now - 5 * minute, c_NotAfter = now + validity,
                            c_KeyUsage = [CertSign, CRLSign], c_EKU = [], c_IsCA = True, c_MaxPathLenZero = True,
                            c_IPs = [], c_DNS = [], c_key = key, c_Raw = []\<rparr>
                in case x_create X tmpl \<lparr>ca_Cert = tmpl, ca_Key = key\<rparr> of None \<Rightarrow> Inl SignFailed
                   | Some der \<Rightarrow>
                       (case x_parse_cert X der of None \<Rightarrow> Inl ParseCertFailed
                        | Some cert \<Rightarrow> Inr \<lparr>ca_Cert = cert, ca_Key = key\<rparr>))))"

definition CreateCSR :: "x509_lib \<Rightarrow> nat \<Rightarrow> string \<Rightarrow> string \<Rightarrow> pki_error + string" where
  "CreateCSR X key clientID name =
     (if \<not> ValidateClientID clientID then Inl BadClientID
      else let ou = (if 64 < length name then take 64 name else name)
      in case x_create_csr X \<lparr>csr_Ed25519 = True, csr_sigOK = True, csr_CN = clientID,
                csr_O = [''qoqtun-client''], csr_OU = [ou], csr_key = key\<rparr> of
           None \<Rightarrow> Inl CreateCSRFailed
         | Some der \<Rightarrow> Inr (x_pem_encode X ''CERTIFICATE REQUEST'' der))"

definition client_template :: "instant \<Rightarrow> nat \<Rightarrow> CA \<Rightarrow> csr \<Rightarrow> int \<Rightarrow> certificate" where
  "client_template now serial ca csr validityDays =
     (let t = now + validityDays * 24 * hour;
          notAfter = (if c_NotAfter (ca_Cert ca) < t then c_NotAfter (ca_Cert ca) else t)
      in \<lparr>c_serial = serial, c_CN = csr_CN csr, c_O = [''qoqtun-client''], c_OU = csr_OU csr,
          c_NotBefore = now - 5 * minute, c_NotAfter = notAfter,
          c_KeyUsage = [DigitalSignature], c_EKU = [ClientAuth], c_IsCA = False,
          c_MaxPathLenZero = False, c_IPs = [], c_DNS = [], c_key = csr_key csr, c_Raw = []\<rparr>)"

definition SignClientCertificate ::
  "x509_lib \<Rightarrow> instant \<Rightarrow> bytes option \<Rightarrow> CA option \<Rightarrow> string \<Rightarrow> int \<Rightarrow> pki_error + string" where
  "SignClientCertificate X now rnd arg csrPEM validityDays =
     (case arg of None \<Rightarrow> Inl CARequired
      | Some ca \<Rightarrow>
          (case ParseCSR X csrPEM of Inl e \<Rightarrow> Inl e
           | Inr csr \<Rightarrow>
               (if \<not> csr_Ed25519 csr then Inl BadKeyAlgorithm
                else if \<not> csr_sigOK csr then Inl BadCSRSignature
                else if \<not> ValidateClientID (csr_CN csr) then Inl BadClientID
                else if validityDays < 1 \<or> 825 < validityDays then Inl BadValidity
                else case randomSerial rnd of None \<Rightarrow> Inl SerialFailed
                | Some serial \<Rightarrow>
                    (case x_create X (client_template now serial ca csr validityDays) ca of None \<Rightarrow> Inl SignFailed
                     | Some der \<Rightarrow> Inr (x_pem_encode X ''CERTIFICATE'' der)))))"

definition SignServerCertificate ::
  "x509_lib \<Rightarrow> instant \<Rightarrow> nat option \<Rightarrow> bytes option \<Rightarrow> (nat \<Rightarrow> string option) \<Rightarrow> CA option \<Rightarrow> int \<Rightarrow> string list \<Rightarrow> string list
   \<Rightarrow> pki_error + (string \<times> string)" where
  "SignServerCertificate X now kp rnd marshal_key arg validityDays ips dnsNames =
     (case arg of None \<Rightarrow> Inl CARequired
      | Some ca \<Rightarrow>
          (case kp of None \<Rightarrow> Inl KeyFailed
           | Some key \<Rightarrow>
               (case randomSerial rnd of None \<Rightarrow> Inl SerialFailed
                | Some serial \<Rightarrow>
                    (let t = now + wrap64 (validityDays * 24 * hour);
                         notAfter = (if c_NotAfter (ca_Cert ca) < t then c_NotAfter (ca_Cert ca) else t);
                         tmpl = \<lparr>c_serial = serial, c_CN = ''qoqtun server'', c_O = [], c_OU = [],
                                 c_NotBefore = now - 5 * minute, c_NotAfter = notAfter,
                                 c_KeyUsage = [DigitalSignature], c_EKU = [ServerAuth], c_IsCA = False,
                                 c_MaxPathLenZero = False, c_IPs = ips, c_DNS = dnsNames, c_key = key, c_Raw = []\<rparr>
                     in case x_create X tmpl ca of None \<Rightarrow> Inl SignFailed
                        | Some der \<Rightarrow>
                            (case marshal_key key of None \<Rightarrow> Inl KeyFailed
                             | Some keyPEM \<Rightarrow> Inr (x_pem_encode X ''CERTIFICATE'' der, keyPEM))))))"

section \<open>The revocation list (revoked.go) and the client registry (registry.go)\<close>

text \<open>
  Both keep a map in memory and its values in a JSON file (\<open>None\<close>: no such file). \<open>rd\<close> and \<open>wr\<close> tell
  whether reading an existing file, and creating the directory and replacing the file, succeed.
\<close>

record 'r list_json =
  marshal_list :: "'r list \<Rightarrow> bytes option"
  unmarshal_list :: "bytes \<Rightarrow> 'r list option"

datatype store_error = ReadFailed | ParseFailed | MarshalFailed | WriteFailed | EmptySerial | InvalidClientID

definition load_entry :: "('r \<Rightarrow> string) \<Rightarrow> 'r \<Rightarrow> (string, 'r) gomap \<Rightarrow> (string, 'r) gomap" where
  "load_entry key e m = (if key e = '''' then m else mput (key e) e m)"

definition load_map ::
  "('r \<Rightarrow> string) \<Rightarrow> 'r list_json \<Rightarrow> bool \<Rightarrow> bytes option \<Rightarrow> store_error + (string, 'r) gomap" where
  "load_map key J rd file =
     (case file of None \<Rightarrow> Inr []
      | Some data \<Rightarrow>
          (if \<not> rd then Inl ReadFailed
           else case unmarshal_list J data of None \<Rightarrow> Inl ParseFailed
             | Some entries \<Rightarrow> Inr (fold (load_entry key) entries [])))"

definition save_map ::
  "'r list_json \<Rightarrow> bool \<Rightarrow> (string, 'r) gomap \<Rightarrow> bytes option \<Rightarrow> bytes option \<times> store_error option" where
  "save_map J wr m file =
     (case marshal_list J (map snd m) of None \<Rightarrow> (file, Some MarshalFailed)
      | Some data \<Rightarrow> if wr then (Some (data @ [10]), None) else (file, Some WriteFailed))"

record RevokedEntry =
  Serial :: string
  RevokedAt :: instant
  Reason :: string

record RevocationList =
  rl_byID :: "(string, RevokedEntry) gomap"
  rl_file :: "bytes option"

definition LoadRevocationList ::
  "RevokedEntry list_json \<Rightarrow> bool \<Rightarrow> bytes option \<Rightarrow> store_error + RevocationList" where
  "LoadRevocationList J rd file =
     (case load_map Serial J rd file of Inl e \<Rightarrow> Inl e | Inr m \<Rightarrow> Inr \<lparr>rl_byID = m, rl_file = file\<rparr>)"

definition rl_save :: "RevokedEntry list_json \<Rightarrow> bool \<Rightarrow> RevocationList \<Rightarrow> RevocationList \<times> store_error option" where
  "rl_save J wr rl = (let (f, e) = save_map J wr (rl_byID rl) (rl_file rl) in (rl\<lparr>rl_file := f\<rparr>, e))"

definition rl_Revoke ::
  "RevokedEntry list_json \<Rightarrow> bool \<Rightarrow> instant \<Rightarrow> string \<Rightarrow> string \<Rightarrow> RevocationList \<Rightarrow> RevocationList \<times> store_error option" where
  "rl_Revoke J wr now serial reason rl =
     (if serial = '''' then (rl, Some EmptySerial)
      else rl_save J wr (rl\<lparr>rl_byID := mput serial \<lparr>Serial = serial, RevokedAt = now, Reason = reason\<rparr> (rl_byID rl)\<rparr>))"

definition IsRevoked :: "RevocationList \<Rightarrow> string \<Rightarrow> bool" where
  "IsRevoked rl serial \<longleftrightarrow> mget (rl_byID rl) serial \<noteq> None"

definition rl_Revoked :: "RevocationList \<Rightarrow> RevokedEntry list" where
  "rl_Revoked rl = sort_by Serial (map snd (rl_byID rl))"

record ClientRecord =
  cr_ClientID :: string
  cr_Name :: string
  cr_Note :: string
  cr_CertSerial :: string
  cr_CreatedAt :: instant

record ClientRegistry =
  cr_byID :: "(string, ClientRecord) gomap"
  cr_file :: "bytes option"

definition LoadClientRegistry ::
  "ClientRecord list_json \<Rightarrow> bool \<Rightarrow> bytes option \<Rightarrow> store_error + ClientRegistry" where
  "LoadClientRegistry J rd file =
     (case load_map cr_ClientID J rd file of Inl e \<Rightarrow> Inl e | Inr m \<Rightarrow> Inr \<lparr>cr_byID = m, cr_file = file\<rparr>)"

definition cr_save :: "ClientRecord list_json \<Rightarrow> bool \<Rightarrow> ClientRegistry \<Rightarrow> ClientRegistry \<times> store_error option" where
  "cr_save J wr r = (let (f, e) = save_map J wr (cr_byID r) (cr_file r) in (r\<lparr>cr_file := f\<rparr>, e))"

definition cr_Add ::
  "ClientRecord list_json \<Rightarrow> bool \<Rightarrow> ClientRecord \<Rightarrow> ClientRegistry \<Rightarrow> ClientRegistry \<times> store_error option" where
  "cr_Add J wr rec r =
     (if \<not> ValidateClientID (cr_ClientID rec) then (r, Some InvalidClientID)
      else cr_save J wr (r\<lparr>cr_byID := mput (cr_ClientID rec) rec (cr_byID r)\<rparr>))"

definition cr_Get :: "ClientRegistry \<Rightarrow> string \<Rightarrow> ClientRecord option" where
  "cr_Get r clientID = mget (cr_byID r) clientID"

definition Exists :: "ClientRegistry \<Rightarrow> string \<Rightarrow> bool" where
  "Exists r clientID \<longleftrightarrow> mget (cr_byID r) clientID \<noteq> None"

definition cr_All :: "ClientRegistry \<Rightarrow> ClientRecord list" where
  "cr_All r = sort_by cr_ClientID (map snd (cr_byID r))"

section \<open>Client ids are valid and distinct\<close>

lemma bits_value_bound: "bits_value bs < 2 ^ length bs"
  by (induction bs) auto

lemma base32_digit:
  assumes "i < 32" and "j < 32"
  shows "is_base32 (base32_alphabet ! i) \<and> (base32_alphabet ! i = base32_alphabet ! j \<longleftrightarrow> i = j)"
proof -
  have "list_all (\<lambda>i. is_base32 (base32_alphabet ! i)) [0..<32]" by code_simp
  moreover have "distinct base32_alphabet" "length base32_alphabet = 32" by code_simp+
  ultimately show ?thesis using assms by (simp add: list_all_iff nth_eq_iff_index_eq)
qed

lemma bits_value_inj: "length xs = length ys \<Longrightarrow> bits_value xs = bits_value ys \<Longrightarrow> xs = ys"
proof (induction xs arbitrary: ys)
  case (Cons x xs)
  then obtain y zs where ys: "ys = y # zs" "length zs = length xs" by (cases ys) auto
  have "bits_value xs < 2 ^ length xs" "bits_value zs < 2 ^ length xs"
    using bits_value_bound [of xs] bits_value_bound [of zs] ys by simp_all
  then have "x = y \<and> bits_value xs = bits_value zs"
    using Cons.prems ys by (cases x; cases y) auto
  then show ?case using Cons.IH ys by simp
qed simp

lemma pad5_facts: "bs \<noteq> [] \<Longrightarrow> length (pad5 bs) = 5 \<and> bits_value (pad5 bs) < 32"
proof -
  assume "bs \<noteq> []"
  then have "length (pad5 bs) = 5" by (cases bs) (auto simp: pad5_def)
  then show ?thesis using bits_value_bound [of "pad5 bs"] by simp
qed

lemma base32_groups_inj:
  "length xs = length ys \<Longrightarrow> base32_groups xs = base32_groups ys \<Longrightarrow> xs = ys"
proof (induction xs arbitrary: ys rule: base32_groups.induct)
  case (1 xs)
  show ?case
  proof (cases "xs = []")
    case False
    then have ne: "ys \<noteq> []" using "1.prems" by auto
    have "base32_alphabet ! bits_value (pad5 xs) = base32_alphabet ! bits_value (pad5 ys)"
        and tl: "base32_groups (drop 5 xs) = base32_groups (drop 5 ys)"
      using "1.prems"(2) False ne base32_groups.simps [of xs] base32_groups.simps [of ys] by simp_all
    then have "bits_value (pad5 xs) = bits_value (pad5 ys)"
      using base32_digit pad5_facts [OF False] pad5_facts [OF ne] by blast
    then have "pad5 xs = pad5 ys" using bits_value_inj pad5_facts [OF False] pad5_facts [OF ne] by simp
    then have "take 5 xs = take 5 ys" using "1.prems"(1) by (simp add: pad5_def)
    moreover have "drop 5 xs = drop 5 ys" using "1.IH" [OF False _ tl] "1.prems"(1) by simp
    ultimately show ?thesis by (metis append_take_drop_id)
  qed (use "1.prems" in simp)
qed

lemma base32_groups_chars: "list_all is_base32 (base32_groups bs) \<and> length (base32_groups bs) = (length bs + 4) div 5"
proof (induction bs rule: base32_groups.induct)
  case (1 bs)
  show ?case
  proof (cases "bs = []")
    case False
    have "is_base32 (base32_alphabet ! bits_value (pad5 bs))"
      using base32_digit pad5_facts [OF False] by blast
    moreover have "Suc ((n - 5 + 4) div 5) = (n + 4) div 5" if "0 < n" for n :: nat
    proof (cases "n < 5")
      case True
      then show ?thesis using that by (auto intro: div_nat_eqI [symmetric])
    next
      case False
      then obtain m where "n = m + 5" by (metis add.commute le_Suc_ex not_less)
      then show ?thesis by (simp add: div_add_self2 [of 5 "m + 4", simplified add.commute add.assoc])
    qed
    ultimately show ?thesis using "1.IH" [OF False] False by (simp add: base32_groups.simps [of bs])
  qed (simp add: base32_groups.simps)
qed

lemma length_byte_bit [simp]: "length (byte_bits b) = 8"
  by (simp add: byte_bits_def)

lemma length_byte_bits: "length (concat (map byte_bits buf)) = 8 * length buf"
  by (induction buf) simp_all

lemma byte_bits_inj: "byte_bits a = byte_bits b \<Longrightarrow> a = b"
proof (rule bit_word_eqI)
  fix n assume "byte_bits a = byte_bits b" "n < LENGTH(8)"
  then have n: "n < 8" and eq: "map (bit a) [7, 6, 5, 4, 3, 2, 1, 0] = map (bit b) [7, 6, 5, 4, 3, 2, 1, 0]"
    by (simp_all add: byte_bits_def)
  from n have "n \<in> set [7, 6, 5, 4, 3, 2, 1, 0]" by (simp; linarith)
  then show "bit a n \<longleftrightarrow> bit b n" using eq unfolding map_eq_conv by blast
qed

lemma bytes_bits_inj: "length a = length b \<Longrightarrow> concat (map byte_bits a) = concat (map byte_bits b) \<Longrightarrow> a = b"
  by (induction a b rule: list_induct2) (auto dest: byte_bits_inj)

text \<open>
  A generated client id always has the form the validation asks for, and different random bytes give
  different ids.
\<close>
theorem ClientID_valid:
  assumes "length rnd = 16" and "length rnd' = 16" and "ClientID (Some rnd) = Some i" and "ClientID (Some rnd') = Some i'"
  shows "ValidateClientID i \<and> (i = i' \<longleftrightarrow> rnd = rnd')"
proof -
  have i: "i = ''cl_'' @ base32Lower rnd" "i' = ''cl_'' @ base32Lower rnd'" using assms by (auto simp: ClientID_def)
  have "ValidateClientID i"
    using base32_groups_chars [of "concat (map byte_bits rnd)"] assms(1)
    by (simp add: i ValidateClientID_def base32Lower_def length_byte_bits)
  moreover have "base32Lower rnd = base32Lower rnd' \<Longrightarrow> rnd = rnd'"
    using base32_groups_inj [of "concat (map byte_bits rnd)" "concat (map byte_bits rnd')"] bytes_bits_inj [of rnd rnd'] assms(1,2)
    by (simp add: base32Lower_def length_byte_bits)
  ultimately show ?thesis by (auto simp: i)
qed

theorem ClientID_valid_witness:
  "ClientID (Some (replicate 16 255)) = Some ''cl_77777777777777777777777774'' \<and> ValidateClientID ''cl_77777777777777777777777774''"
proof -
  have c: "ClientID (Some (replicate 16 255)) = Some ''cl_77777777777777777777777774''" by code_simp
  with ClientID_valid [OF _ _ c c] show ?thesis by simp
qed

section \<open>Issued certificates\<close>

text \<open>
  What the code relies on of \<^verbatim>\<open>encoding/pem\<close> and \<^verbatim>\<open>crypto/x509\<close>: a block is read back as written, and a created
  certificate parses with the fields of its template, its times rounded down to seconds.
\<close>

definition x509_law :: "x509_lib \<Rightarrow> bool" where
  "x509_law X \<longleftrightarrow>
     (\<forall>ty der. x_pem_decode X (x_pem_encode X ty der) = Some (ty, der)) \<and>
     (\<forall>t ca der. x_create X t ca = Some der \<longrightarrow>
        (\<exists>c. x_parse_cert X der = Some c \<and> c_serial c = c_serial t \<and> c_CN c = c_CN t \<and> c_EKU c = c_EKU t \<and>
             c_IsCA c = c_IsCA t \<and> c_key c = c_key t \<and> c_NotAfter c \<le> c_NotAfter t))"

lemma SignClientCertificate_template:
  assumes "SignClientCertificate X now rnd (Some ca) csrPEM days = Inr out"
  shows "\<exists>req t der. ParseCSR X csrPEM = Inr req \<and> csr_Ed25519 req \<and> csr_sigOK req \<and> ValidateClientID (csr_CN req) \<and>
     1 \<le> days \<and> days \<le> 825 \<and> x_create X t ca = Some der \<and> out = x_pem_encode X ''CERTIFICATE'' der \<and>
     0 < c_serial t \<and> c_CN t = csr_CN req \<and> c_EKU t = [ClientAuth] \<and> \<not> c_IsCA t \<and> c_key t = csr_key req \<and>
     c_NotAfter t = min (c_NotAfter (ca_Cert ca)) (now + days * 24 * hour)"
proof -
  obtain req where req: "ParseCSR X csrPEM = Inr req"
    using assms by (auto simp: SignClientCertificate_def split: sum.splits)
  obtain n where n: "randomSerial rnd = Some n"
    using assms req by (auto simp: SignClientCertificate_def split: if_splits option.splits)
  then have "0 < n" by (auto simp: randomSerial_def Let_def split: option.splits if_splits)
  moreover obtain der where "x_create X (client_template now n ca req days) ca = Some der"
      "out = x_pem_encode X ''CERTIFICATE'' der" "csr_Ed25519 req" "csr_sigOK req" "ValidateClientID (csr_CN req)"
      "1 \<le> days" "days \<le> 825"
    using assms req n by (auto simp: SignClientCertificate_def split: if_splits option.splits)
  ultimately show ?thesis
    using req by (intro exI [of _ req] exI [of _ "client_template now n ca req days"] exI [of _ der]) (simp add: client_template_def Let_def min_def)
qed

lemma SignClientCertificate_parsed:
  assumes "x509_law X" and "SignClientCertificate X now rnd (Some ca) csrPEM days = Inr out"
  shows "\<exists>c req. ParseCertificate X out = Inr c \<and> ParseCSR X csrPEM = Inr req \<and> csr_Ed25519 req \<and> csr_sigOK req \<and>
     c_CN c = csr_CN req \<and> ValidateClientID (c_CN c) \<and> c_key c = csr_key req \<and> c_EKU c = [ClientAuth] \<and> \<not> c_IsCA c \<and>
     c_NotAfter c \<le> c_NotAfter (ca_Cert ca) \<and> c_NotAfter c \<le> now + days * 24 * hour \<and> 1 \<le> days \<and> days \<le> 825 \<and> 0 < c_serial c"
proof -
  obtain req t der where t: "ParseCSR X csrPEM = Inr req" "csr_Ed25519 req" "csr_sigOK req" "ValidateClientID (csr_CN req)"
      "1 \<le> days" "days \<le> 825" "x_create X t ca = Some der" "out = x_pem_encode X ''CERTIFICATE'' der"
      "0 < c_serial t" "c_CN t = csr_CN req" "c_EKU t = [ClientAuth]" "\<not> c_IsCA t" "c_key t = csr_key req"
      "c_NotAfter t = min (c_NotAfter (ca_Cert ca)) (now + days * 24 * hour)"
    using SignClientCertificate_template [OF assms(2)] by blast
  obtain c where c: "x_parse_cert X der = Some c" "c_serial c = c_serial t" "c_CN c = c_CN t" "c_EKU c = c_EKU t"
      "c_IsCA c = c_IsCA t" "c_key c = c_key t" "c_NotAfter c \<le> c_NotAfter t"
    using assms(1) t(7) unfolding x509_law_def by blast
  have "ParseCertificate X out = Inr c"
    using assms(1) c(1) by (simp add: ParseCertificate_def t(8) x509_law_def)
  then show ?thesis using t c by auto
qed

section \<open>Revocations survive a restart\<close>

definition keyed :: "('r \<Rightarrow> string) \<Rightarrow> (string, 'r) gomap \<Rightarrow> bool" where
  "keyed key m \<longleftrightarrow> mwf m \<and> (\<forall>k e. (k, e) \<in> set m \<longrightarrow> key e = k \<and> k \<noteq> '''')"

definition list_law :: "'r list_json \<Rightarrow> bool" where
  "list_law J \<longleftrightarrow> (\<forall>rs data. marshal_list J rs = Some data \<longrightarrow> unmarshal_list J (data @ [10]) = Some rs)"

lemma keyed_put: "keyed key m \<Longrightarrow> key e \<noteq> '''' \<Longrightarrow> keyed key (mput (key e) e m)"
  by (auto simp: keyed_def dest!: set_mput_subset)

lemma keyed_load: "keyed key m \<Longrightarrow> keyed key (fold (load_entry key) es m)"
  by (induction es arbitrary: m) (auto simp: load_entry_def keyed_put)

lemma load_map_keyed: "load_map key J rd file = Inr m \<Longrightarrow> keyed key m"
  using keyed_load [of key "[]"] by (auto simp: load_map_def keyed_def split: option.splits if_splits)

lemma load_same: "keyed key m \<Longrightarrow> fold (load_entry key) (map snd m) [] = m"
proof (induction m rule: rev_induct)
  case (snoc ke m)
  obtain k e where ke: "ke = (k, e)" by fastforce
  have wf: "keyed key m" "key e = k" "k \<noteq> ''''" and "k \<notin> set (mkeys m)"
    using snoc.prems by (auto simp: keyed_def mwf_def ke)
  then have "mget m k = None" by (simp add: map_of_eq_None_iff)
  then show ?case using snoc.IH wf by (simp add: ke load_entry_def mput_fresh)
qed simp

lemma load_saved:
  "list_law J \<Longrightarrow> keyed key m \<Longrightarrow> save_map J wr m file = (file', None) \<Longrightarrow> load_map key J True file' = Inr m"
  by (auto simp: save_map_def load_map_def list_law_def load_same split: option.splits if_splits)

text \<open>
  A revocation survives a restart: once the revocation reported success, the list loaded from the file
  revokes that serial and exactly the serials revoked before; and a failed write still revokes it in the
  running process.
\<close>
theorem revocation_persists:
  assumes json_roundtrip: "list_law J" and start: "LoadRevocationList J rd file = Inr rl"
    and run: "rl_Revoke J wr now serial reason rl = (rl', err)" and "serial \<noteq> ''''"
  shows "(\<forall>x. IsRevoked rl' x \<longleftrightarrow> x = serial \<or> IsRevoked rl x) \<and>
     (err = None \<longrightarrow> (\<exists>rl2. LoadRevocationList J True (rl_file rl') = Inr rl2 \<and> (\<forall>x. IsRevoked rl2 x \<longleftrightarrow> IsRevoked rl' x)))"
proof -
  let ?e = "\<lparr>Serial = serial, RevokedAt = now, Reason = reason\<rparr>"
  have "keyed Serial (rl_byID rl)"
    using start load_map_keyed by (auto simp: LoadRevocationList_def split: sum.splits)
  then have k: "keyed Serial (mput serial ?e (rl_byID rl))" using keyed_put [of Serial _ ?e] assms(4) by simp
  have rl': "rl_byID rl' = mput serial ?e (rl_byID rl)"
      "save_map J wr (mput serial ?e (rl_byID rl)) (rl_file rl) = (rl_file rl', err)"
    using run assms(4) by (auto simp: rl_Revoke_def rl_save_def Let_def split: prod.splits)
  have "err = None \<Longrightarrow> LoadRevocationList J True (rl_file rl') = Inr \<lparr>rl_byID = rl_byID rl', rl_file = rl_file rl'\<rparr>"
    using load_saved [OF json_roundtrip k] rl' by (simp add: LoadRevocationList_def)
  then show ?thesis by (auto simp: IsRevoked_def rl'(1))
qed

definition lost_json :: "RevokedEntry list_json" where
  "lost_json =
     \<lparr>marshal_list = (\<lambda>rs. if rs = [\<lparr>Serial = ''7'', RevokedAt = 3, Reason = ''lost''\<rparr>] then Some [1] else None),
      unmarshal_list = (\<lambda>_. Some [\<lparr>Serial = ''7'', RevokedAt = 3, Reason = ''lost''\<rparr>])\<rparr>"

theorem revocation_persists_witness:
  "IsRevoked (fst (rl_Revoke lost_json True 3 ''7'' ''lost'' \<lparr>rl_byID = [], rl_file = None\<rparr>)) ''7'' \<and>
   (\<exists>rl2. LoadRevocationList lost_json True (rl_file (fst (rl_Revoke lost_json True 3 ''7'' ''lost'' \<lparr>rl_byID = [], rl_file = None\<rparr>))) = Inr rl2 \<and>
     IsRevoked rl2 ''7'')"
proof -
  let ?rl = "\<lparr>rl_byID = [], rl_file = None\<rparr>"
  let ?r = "rl_Revoke lost_json True 3 ''7'' ''lost'' ?rl"
  have law: "list_law lost_json" by (simp add: list_law_def lost_json_def)
  have load: "LoadRevocationList lost_json True None = Inr ?rl" by (simp add: LoadRevocationList_def load_map_def)
  have run: "?r = (fst ?r, snd ?r)" by simp
  have "snd ?r = None" by code_simp
  with revocation_persists [OF law load run] show ?thesis by blast
qed

end
