(* ===== verification/Transport.thy ===== *)
theory Transport
  imports Control Pki
begin

text \<open>
  \<^verbatim>\<open>internal/transport/transport.go\<close>, the mutually authenticated TLS layer every connection goes
  through, and the accept loop of \<^verbatim>\<open>Serve\<close> (\<^verbatim>\<open>internal/control/server.go\<close>) that sits on it.
  The part of \<^verbatim>\<open>crypto/tls\<close> the code relies on, the order of the checks of a handshake, is
  written out; certificate parsing and \<^verbatim>\<open>x509.Certificate.Verify\<close> are arguments.
\<close>

section \<open>Options and the TLS configuration\<close>

record verify_options =
  vo_DNSName :: string
  vo_Roots :: "certificate list"
  vo_Intermediates :: "certificate list"
  vo_KeyUsages :: "eku list"

record tls_lib =
  tl_keypair :: "string \<Rightarrow> string \<Rightarrow> bool"
  tl_parse :: "bytes \<Rightarrow> certificate option"
  tl_Verify :: "instant \<Rightarrow> verify_options \<Rightarrow> certificate \<Rightarrow> bool"

text \<open>A nil certificate among the CAs is \<^const>\<open>None\<close>; \<open>IsRevoked\<close> may be nil.\<close>

record Options =
  to_CAs :: "certificate option list"
  to_Cert :: string
  to_Key :: string
  to_IsRevoked :: "(string \<Rightarrow> bool) option"
  to_ServerName :: string
  to_HandshakeTimeout :: duration

datatype client_auth = NoClientCert | VerifyClientCertIfGiven | RequireAndVerifyClientCert

record tls_config =
  tc_ClientCAs :: "certificate list"
  tc_RootCAs :: "certificate list"
  tc_ServerName :: string
  tc_ClientAuth :: client_auth
  tc_VerifyPeerCertificate :: "instant \<Rightarrow> bytes list \<Rightarrow> bool"

datatype transport_error =
    LoadKeypair
  | NoPeerCertificate
  | ParsePeerCert
  | PeerCertChain
  | PeerCertRevoked
  | DialFailed
  | HandshakeFailed
  | ReadLimitExceedsMaximum
  | RecvFailed
  | ReadExceedsLimit
  | FrameNotEncoded
  | SendFailed

definition verifyPeer ::
  "tls_lib \<Rightarrow> instant \<Rightarrow> bytes list \<Rightarrow> certificate list \<Rightarrow> (string \<Rightarrow> bool) option \<Rightarrow> transport_error option" where
  "verifyPeer T now rawCerts pool isRevoked =
     (case rawCerts of [] \<Rightarrow> Some NoPeerCertificate
      | raw # _ \<Rightarrow>
          (case tl_parse T raw of None \<Rightarrow> Some ParsePeerCert
           | Some cert \<Rightarrow>
               (if \<not> tl_Verify T now \<lparr>vo_DNSName = '''', vo_Roots = pool, vo_Intermediates = [],
                                    vo_KeyUsages = [ClientAuth, ServerAuth]\<rparr> cert
                then Some PeerCertChain
                else case isRevoked of None \<Rightarrow> None
                     | Some f \<Rightarrow> if f (nat_string (c_serial cert)) then Some PeerCertRevoked else None)))"

text \<open>The local \<open>ht\<close>, the effective handshake timeout, is computed and then not used.\<close>

definition tr_Config :: "tls_lib \<Rightarrow> Options \<Rightarrow> transport_error + tls_config" where
  "tr_Config T opts =
     (if \<not> tl_keypair T (to_Cert opts) (to_Key opts) then Inl LoadKeypair
      else let pool = List.map_filter id (to_CAs opts)
           in Inr \<lparr>tc_ClientCAs = pool, tc_RootCAs = pool, tc_ServerName = to_ServerName opts,
                   tc_ClientAuth = RequireAndVerifyClientCert,
                   tc_VerifyPeerCertificate = (\<lambda>now rawCerts. verifyPeer T now rawCerts pool (to_IsRevoked opts) = None)\<rparr>)"

section \<open>Handshakes\<close>

text \<open>
  What the other side does: it sends nothing, it does not speak TLS 1.3, or it presents a chain, whose
  private key it may or may not hold. A handshake without a deadline with a silent peer never ends.
\<close>

datatype peer = Silent | NotTLS | Presents "bytes list" bool

datatype handshake = Blocks | Fails | Completes "certificate list"

definition server_handshake :: "tls_lib \<Rightarrow> instant \<Rightarrow> tls_config \<Rightarrow> peer \<Rightarrow> handshake" where
  "server_handshake T now cfg p =
     (case p of Silent \<Rightarrow> Blocks | NotTLS \<Rightarrow> Fails
      | Presents raw holds \<Rightarrow>
          (case tc_ClientAuth cfg of NoClientCert \<Rightarrow> Completes []
           | auth \<Rightarrow>
               (case those (map (tl_parse T) raw) of None \<Rightarrow> Fails
                | Some [] \<Rightarrow> if auth = RequireAndVerifyClientCert \<or> \<not> tc_VerifyPeerCertificate cfg now [] then Fails else Completes []
                | Some (leaf # chain) \<Rightarrow>
                    (if \<not> tl_Verify T now \<lparr>vo_DNSName = '''', vo_Roots = tc_ClientCAs cfg, vo_Intermediates = chain,
                                         vo_KeyUsages = [ClientAuth]\<rparr> leaf then Fails
                     else if \<not> tc_VerifyPeerCertificate cfg now raw then Fails
                     else if \<not> holds then Fails
                     else Completes (leaf # chain)))))"

definition client_handshake :: "tls_lib \<Rightarrow> instant \<Rightarrow> tls_config \<Rightarrow> peer \<Rightarrow> handshake" where
  "client_handshake T now cfg p =
     (case p of Silent \<Rightarrow> Blocks | NotTLS \<Rightarrow> Fails
      | Presents raw holds \<Rightarrow>
          (if tc_ServerName cfg = '''' then Fails
           else case those (map (tl_parse T) raw) of None \<Rightarrow> Fails | Some [] \<Rightarrow> Fails
           | Some (leaf # chain) \<Rightarrow>
               (if \<not> tl_Verify T now \<lparr>vo_DNSName = tc_ServerName cfg, vo_Roots = tc_RootCAs cfg, vo_Intermediates = chain,
                                    vo_KeyUsages = [ServerAuth]\<rparr> leaf then Fails
                else if \<not> tc_VerifyPeerCertificate cfg now raw then Fails
                else if \<not> holds then Fails
                else Completes (leaf # chain))))"

definition peerCN :: "certificate list \<Rightarrow> string" where
  "peerCN certs = (case certs of [] \<Rightarrow> '''' | cert # _ \<Rightarrow> c_CN cert)"

section \<open>Accepting, dialling, reading and writing\<close>

text \<open>
  What the raw listener returns: an error, which may be a temporary network error, or a connection. An
  error of the raw listener is passed on as it is; that of a handshake is wrapped and thereby no longer a
  network error. (The listener wraps every connection itself, so the branch for another connection type
  cannot be taken.)
\<close>

datatype raw_accept = RawError bool | RawConn peer

datatype accept_error = NetError bool | Wrapped

datatype accept_result = AcceptBlocks | AcceptErr accept_error | Accepted string

definition tr_Accept :: "tls_lib \<Rightarrow> instant \<Rightarrow> tls_config \<Rightarrow> raw_accept \<Rightarrow> accept_result" where
  "tr_Accept T now cfg r =
     (case r of RawError temporary \<Rightarrow> AcceptErr (NetError temporary)
      | RawConn p \<Rightarrow>
          (case server_handshake T now cfg p of
             Blocks \<Rightarrow> AcceptBlocks
           | Fails \<Rightarrow> AcceptErr Wrapped
           | Completes certs \<Rightarrow> Accepted (peerCN certs)))"

text \<open>\<open>p\<close> is \<^const>\<open>None\<close> when the TCP connection cannot be made; no result means that the call never returns.\<close>

definition tr_Dial :: "tls_lib \<Rightarrow> instant \<Rightarrow> Options \<Rightarrow> peer option \<Rightarrow> (transport_error + string) option" where
  "tr_Dial T now opts p =
     (case tr_Config T opts of Inl e \<Rightarrow> Some (Inl e)
      | Inr cfg \<Rightarrow>
          (case p of None \<Rightarrow> Some (Inl DialFailed)
           | Some q \<Rightarrow>
               (case client_handshake T now cfg q of
                  Blocks \<Rightarrow> None | Fails \<Rightarrow> Some (Inl HandshakeFailed)
                | Completes certs \<Rightarrow> Some (Inr (peerCN certs)))))"

text \<open>\<open>stream\<close> is what the connection still delivers and \<open>broken\<close> that it then ends with an error.\<close>

definition tr_ReadAll :: "int \<Rightarrow> bytes \<Rightarrow> bool \<Rightarrow> transport_error + bytes" where
  "tr_ReadAll n stream broken =
     (if 64 * 1024 < n then Inl ReadLimitExceedsMaximum
      else let content = take (nat n) stream
           in if broken \<and> length stream < nat n then Inl RecvFailed
              else if n < int (length content) then Inl ReadExceedsLimit
              else Inr content)"

text \<open>\<open>short\<close> is the number of bytes after which the write fails, \<^const>\<open>None\<close> when it succeeds; \<open>out\<close> is what was sent.\<close>

definition tr_WriteFrame ::
  "json_codec \<Rightarrow> bytes option \<Rightarrow> int \<Rightarrow> string \<Rightarrow> 64 word \<Rightarrow> bytes option option \<Rightarrow> nat option \<Rightarrow> bytes
   \<Rightarrow> transport_error option \<times> bytes" where
  "tr_WriteFrame J rnd ts msgType sq payload short out =
     (case Encode J rnd ts msgType sq payload of Inl _ \<Rightarrow> (Some FrameNotEncoded, out)
      | Inr frame \<Rightarrow> (case short of None \<Rightarrow> (None, out @ frame) | Some n \<Rightarrow> (Some SendFailed, out @ take n frame)))"

section \<open>The accept loop of the control server\<close>

text \<open>
  One return of the raw listener, with the handle and address of the connection, the first frame its
  handler reads, and whether the context has been cancelled. Every accepted connection gets its own
  goroutine; the loop below lets each run its first step at once, in the order of acceptance.
\<close>

record arrival =
  ar_now :: instant
  ar_raw :: raw_accept
  ar_conn :: nat
  ar_addr :: string
  ar_frame :: first_frame
  ar_cancelled :: bool

datatype served = Waiting | StuckInHandshake | ReturnedNil | ReturnedError accept_error

fun Serve_loop ::
  "tls_lib \<Rightarrow> tls_config \<Rightarrow> (string \<Rightarrow> bool) option \<Rightarrow> arrival list \<Rightarrow> 'l Server \<Rightarrow> served \<times> 'l Server" where
  "Serve_loop T cfg hook [] s = (Waiting, s)"
| "Serve_loop T cfg hook (a # as) s =
     (case tr_Accept T (ar_now a) cfg (ar_raw a) of
        AcceptBlocks \<Rightarrow> (StuckInHandshake, s)
      | AcceptErr e \<Rightarrow>
          (if ar_cancelled a then (ReturnedNil, s)
           else case e of NetError True \<Rightarrow> Serve_loop T cfg hook as s | _ \<Rightarrow> (ReturnedError e, s))
      | Accepted peerID \<Rightarrow>
          Serve_loop T cfg hook as (snd (handleConn hook (ar_now a) (ar_conn a) peerID (ar_addr a) (ar_frame a) s)))"

section \<open>Lemmas\<close>

definition verified_peer :: "tls_lib \<Rightarrow> Options \<Rightarrow> instant \<Rightarrow> raw_accept \<Rightarrow> certificate \<Rightarrow> bool" where
  "verified_peer T opts now r cert \<longleftrightarrow>
     (\<exists>raw rest. r = RawConn (Presents (raw # rest) True) \<and> tl_parse T raw = Some cert) \<and>
     tl_Verify T now \<lparr>vo_DNSName = '''', vo_Roots = List.map_filter id (to_CAs opts), vo_Intermediates = [],
                    vo_KeyUsages = [ClientAuth, ServerAuth]\<rparr> cert \<and>
     (\<forall>f. to_IsRevoked opts = Some f \<longrightarrow> \<not> f (nat_string (c_serial cert)))"

lemma Accept_verified:
  assumes "tr_Config T opts = Inr cfg" and acc: "tr_Accept T now cfg r = Accepted cn"
  shows "\<exists>cert. verified_peer T opts now r cert \<and> cn = c_CN cert"
proof -
  let ?pool = "List.map_filter id (to_CAs opts)"
  have cfg: "cfg = \<lparr>tc_ClientCAs = ?pool, tc_RootCAs = ?pool, tc_ServerName = to_ServerName opts,
      tc_ClientAuth = RequireAndVerifyClientCert,
      tc_VerifyPeerCertificate = (\<lambda>now rawCerts. verifyPeer T now rawCerts ?pool (to_IsRevoked opts) = None)\<rparr>"
    using assms(1) by (auto simp: tr_Config_def Let_def split: if_splits)
  obtain raw leaf chain where r: "r = RawConn (Presents raw True)" and certs: "those (map (tl_parse T) raw) = Some (leaf # chain)"
    and ok: "verifyPeer T now raw ?pool (to_IsRevoked opts) = None" and cn: "cn = c_CN leaf"
    using acc by (auto simp: cfg tr_Accept_def server_handshake_def peerCN_def
        split: raw_accept.splits handshake.splits peer.splits option.splits list.splits if_splits)
  obtain x rest where raw: "raw = x # rest" "tl_parse T x = Some leaf"
    using certs by (cases raw) (auto split: option.splits)
  show ?thesis
    using ok r raw cn by (auto simp: verifyPeer_def verified_peer_def split: if_splits option.splits)
qed

lemma start_refused_sessions:
  assumes "handleControlConn_start now conn peerID arg s = (False, s')" and "Get x (s_sessions s') \<noteq> None"
  shows "Get x (s_sessions s) \<noteq> None"
  using assms
  by (auto simp: handleControlConn_start_def Register_def Get_def Unregister_def kick_old_def send_def close_conn_def put_manager_def Let_def
      split: option.splits sum.splits if_splits)

lemma start_online_sessions:
  assumes "handleControlConn_start now conn peerID arg s = (True, s')" and "Get x (s_sessions s') \<noteq> None"
  shows "Get x (s_sessions s) \<noteq> None \<or> x = peerID \<and> (\<exists>h. arg = Inr h \<and> ch_ClientID h = peerID)"
  using assms
  by (auto simp: handleControlConn_start_def hello_error_def Register_def Get_def Unregister_def kick_old_def send_def close_conn_def put_manager_def Let_def
      split: option.splits sum.splits if_splits)


lemma quota_sessions: "acquireDataQuota cid tid s = (s', ok) \<Longrightarrow> s_sessions s' = s_sessions s"
  by (auto simp: acquireDataQuota_def put_clientSem_def put_tunnelSem_def Let_def split: if_splits prod.splits option.splits)

lemma shape_sessions [simp]: "s_sessions (shape_conn cid tid c s) = s_sessions s"
  by (auto simp: shape_conn_def clientBucket_def tunnelBucket_def Let_def split: prod.splits option.splits)

lemma small_steps_sessions [simp]:
  "s_sessions (put_manager cid m s) = s_sessions s" "s_sessions (close_conn c s) = s_sessions s"
  by (simp_all add: put_manager_def close_conn_def)

lemma data_sessions:
  assumes "handleDataConn now conn peerID arg s = (r, s')"
  shows "s_sessions s' = s_sessions s"
  using assms
  by (cases arg) (auto simp: handleDataConn_def Let_def dest!: quota_sessions split: option.splits sum.splits prod.splits if_splits bool.splits)

lemma handleConn_sessions:
  assumes "Get x (s_sessions (snd (handleConn hook now conn peerID addr frame s))) \<noteq> None"
  shows "Get x (s_sessions s) \<noteq> None \<or>
     (x = peerID \<and> (\<exists>h. frame = FHello (Inr h) \<and> ch_ClientID h = peerID) \<and> \<not> (\<exists>f. hook = Some f \<and> f peerID))"
  using assms
  by (auto simp: handleConn_def send_def close_conn_def Let_def
      split: first_frame.splits prod.splits bool.splits if_splits option.splits
      dest: start_refused_sessions start_online_sessions data_sessions)

lemma Serve_loop_sessions:
  assumes cfg: "tr_Config T opts = Inr cfg" and "Serve_loop T cfg hook as s = (r, s')" and "Get cid (s_sessions s') \<noteq> None"
  shows "Get cid (s_sessions s) \<noteq> None \<or>
     (\<exists>a\<in>set as. \<exists>cert h. verified_peer T opts (ar_now a) (ar_raw a) cert \<and> c_CN cert = cid \<and>
        ar_frame a = FHello (Inr h) \<and> ch_ClientID h = cid \<and> \<not> (\<exists>f. hook = Some f \<and> f cid))"
  using assms(2,3)
proof (induction as arbitrary: s)
  case (Cons a as)
  show ?case
  proof (cases "tr_Accept T (ar_now a) cfg (ar_raw a)")
    case (Accepted peerID)
    with Cons.prems(1) have run: "Serve_loop T cfg hook as (snd (handleConn hook (ar_now a) (ar_conn a) peerID (ar_addr a) (ar_frame a) s)) = (r, s')"
      by simp
    from Cons.IH [OF run Cons.prems(2)] show ?thesis
    proof
      assume "Get cid (s_sessions (snd (handleConn hook (ar_now a) (ar_conn a) peerID (ar_addr a) (ar_frame a) s))) \<noteq> None"
      from handleConn_sessions [OF this] Accept_verified [OF cfg Accepted] show ?thesis by auto
    qed auto
  next
    case (AcceptErr e)
    then have "s' = s \<or> Serve_loop T cfg hook as s = (r, s')"
      using Cons.prems(1) by (auto split: if_splits accept_error.splits bool.splits)
    then show ?thesis using Cons.IH [OF _ Cons.prems(2)] Cons.prems(2) by auto
  qed (use Cons in auto)
qed simp


section \<open>Who gets through\<close>

text \<open>
  C2: Every client that is online after any sequence of arrivals, and was not before, got there over a
  connection whose peer holds the key of a certificate that a configured CA has signed directly, that is
  not revoked by its serial number and whose common name is the client's id; and it said so in its hello.
\<close>

theorem sessions_authenticated:
  assumes "tr_Config T opts = Inr cfg" and "Serve_loop T cfg hook as s = (r, s')"
    and "Get cid (s_sessions s) = None" and "Get cid (s_sessions s') \<noteq> None"
  shows "\<exists>a\<in>set as. \<exists>cert h. verified_peer T opts (ar_now a) (ar_raw a) cert \<and> c_CN cert = cid \<and>
     ar_frame a = FHello (Inr h) \<and> ch_ClientID h = cid \<and> \<not> (\<exists>f. hook = Some f \<and> f cid)"
  using Serve_loop_sessions [OF assms(1,2,4)] assms(3) by simp

definition alice_cert :: certificate where
  "alice_cert = \<lparr>c_serial = 7, c_CN = ''alice'', c_O = [], c_OU = [], c_NotBefore = 0, c_NotAfter = 90 * 24 * hour,
     c_KeyUsage = [DigitalSignature], c_EKU = [ClientAuth], c_IsCA = False, c_MaxPathLenZero = False, c_IPs = [], c_DNS = [],
     c_key = 1, c_Raw = [7]\<rparr>"

definition root_cert :: certificate where
  "root_cert = alice_cert\<lparr>c_serial := 1, c_CN := ''root'', c_IsCA := True, c_Raw := [1]\<rparr>"

definition plain_tls :: tls_lib where
  "plain_tls = \<lparr>tl_keypair = (\<lambda>c k. c \<noteq> ''''), tl_parse = (\<lambda>raw. if raw = [7] then Some alice_cert else None),
     tl_Verify = (\<lambda>now vo cert. root_cert \<in> set (vo_Roots vo) \<and> c_NotBefore cert \<le> now \<and> now \<le> c_NotAfter cert)\<rparr>"

definition server_options :: Options where
  "server_options = \<lparr>to_CAs = [Some root_cert, None], to_Cert = ''cert'', to_Key = ''key'', to_IsRevoked = Some (\<lambda>serial. serial = ''9''),
     to_ServerName = '''', to_HandshakeTimeout = 10 * second\<rparr>"

definition hello_from :: "peer \<Rightarrow> arrival" where
  "hello_from p = \<lparr>ar_now = 1, ar_raw = RawConn p, ar_conn = 5, ar_addr = ''192.0.2.1:4000'',
     ar_frame = FHello (Inr sample_hello), ar_cancelled = False\<rparr>"

lemma server_options_ok: "\<exists>cfg. tr_Config plain_tls server_options = Inr cfg"
  by (simp add: tr_Config_def plain_tls_def server_options_def Let_def)

lemma alice_accepted:
  assumes "tr_Config plain_tls server_options = Inr cfg"
  shows "tr_Accept plain_tls 1 cfg (RawConn (Presents [[7]] True)) = Accepted ''alice''"
proof -
  have "nat_string 7 \<noteq> ''9''" by code_simp
  then show ?thesis
    using assms by (auto simp: tr_Config_def tr_Accept_def server_handshake_def peerCN_def verifyPeer_def plain_tls_def server_options_def
        alice_cert_def root_cert_def List.map_filter_def Let_def)
qed

lemma alice_online:
  assumes "tr_Config plain_tls server_options = Inr cfg"
  shows "\<exists>s'. Serve_loop plain_tls cfg None [hello_from (Presents [[7]] True)] sample_srv = (Waiting, s') \<and> Get ''alice'' (s_sessions s') = Some 5"
proof -
  have "snd (tryAcquire ''192.0.2.1'' 8 (halfOpen sample_srv))" and host: "SplitHostPort ''192.0.2.1:4000'' = Some (''192.0.2.1'', ''4000'')"
    by code_simp+
  then obtain h1 where h1: "tryAcquire ''192.0.2.1'' 8 (halfOpen sample_srv) = (h1, True)"
    by (cases "tryAcquire ''192.0.2.1'' 8 (halfOpen sample_srv)") simp
  obtain s1 where s1: "handleControlConn_start 1 5 ''alice'' (Inr sample_hello) (sample_srv\<lparr>halfOpen := h1\<rparr>) = (True, s1)"
    using sample_start by blast
  have "MaxHalfOpen sample_srv = 8" by (simp add: sample_srv_def Serve_init_def)
  then have "handleConn None 1 5 ''alice'' ''192.0.2.1:4000'' (FHello (Inr sample_hello)) sample_srv = (Online, s1)"
    using s1 h1 host by (simp add: handleConn_def Let_def)
  then show ?thesis using alice_accepted [OF assms] start_online [OF s1] by (simp add: hello_from_def)
qed

theorem sessions_authenticated_witness:
  "\<exists>cert. verified_peer plain_tls server_options 1 (RawConn (Presents [[7]] True)) cert \<and> c_CN cert = ''alice''"
proof -
  obtain cfg where cfg: "tr_Config plain_tls server_options = Inr cfg" using server_options_ok by blast
  obtain s' where s': "Serve_loop plain_tls cfg None [hello_from (Presents [[7]] True)] sample_srv = (Waiting, s')"
      "Get ''alice'' (s_sessions s') = Some 5" using alice_online [OF cfg] by blast
  have "Get ''alice'' (s_sessions sample_srv) = None" by (simp add: sample_srv_def Serve_init_def NewRegistry_def Get_def)
  from sessions_authenticated [OF cfg s'(1) this] s'(2) show ?thesis by (auto simp: hello_from_def)
qed

section \<open>What stops the loop\<close>

lemma Serve_loop_append:
  "Serve_loop T cfg hook (pre @ as) s =
     (case Serve_loop T cfg hook pre s of (Waiting, s1) \<Rightarrow> Serve_loop T cfg hook as s1 | stopped \<Rightarrow> stopped)"
  by (induction T cfg hook pre s rule: Serve_loop.induct) (auto split: accept_result.split accept_error.split bool.split)



end
