(* ===== verification/Enroll.thy ===== *)
theory Enroll
  imports Pki Security
begin

text \<open>
  \<^verbatim>\<open>internal/enroll\<close>: the messages and their framing (messages.go), the per-address limiter with its
  escalating bans (ratelimit.go), the endpoint that exchanges tokens for certificates and renews them
  (server.go), and the client's side of the exchange (client.go). The standard library functions the
  code calls (JSON, X.509, PEM, SHA-256, time formatting) are collected in the record \<open>enroll_lib\<close>; what
  the system answers while a request is handled is an \<open>enroll_env\<close>.
  The lemmas show when a certificate is issued, to whom and for how long, how bans escalate and where
  the arithmetic of the ban overflows, and what the pinned fingerprint is compared with.
\<close>

section \<open>Messages and framing (messages.go)\<close>

record Meta =
  me_Name :: string
  me_Note :: string
  me_OS :: string
  me_Arch :: string

record Request =
  rq_Type :: string
  rq_Token :: string
  rq_CSR :: string
  rq_Meta :: Meta

record enroll_error =
  ee_Code :: string
  ee_Message :: string

record Response =
  rs_OK :: bool
  rs_ClientCert :: string
  rs_CACert :: string
  rs_ExpiresAt :: string
  rs_Error :: "enroll_error option"

abbreviation maxFrameSize :: nat where
  "maxFrameSize \<equiv> 65536"

definition errResponse :: "string \<Rightarrow> string \<Rightarrow> Response" where
  "errResponse cd msg =
     \<lparr>rs_OK = False, rs_ClientCert = '''', rs_CACert = '''', rs_ExpiresAt = '''', rs_Error = Some \<lparr>ee_Code = cd, ee_Message = msg\<rparr>\<rparr>"

text \<open>\<open>data\<close> is the marshalled value, \<open>None\<close> when marshalling failed; the result is what goes on the wire.\<close>

definition enr_writeFrame :: "bytes option \<Rightarrow> bytes option" where
  "enr_writeFrame arg =
     (case arg of None \<Rightarrow> None
      | Some data \<Rightarrow> if maxFrameSize < length data then None else Some (put_be32 (length data) @ data))"

definition enr_readFrame :: "(bytes \<Rightarrow> 'v option) \<Rightarrow> bytes \<Rightarrow> ('v \<times> bytes) option" where
  "enr_readFrame dec s =
     (case read_full 4 s of Inl _ \<Rightarrow> None
      | Inr (hdr, s1) \<Rightarrow>
          (let sz = get_be32 hdr
           in if sz = 0 \<or> maxFrameSize < sz then None
              else case read_full sz s1 of Inl _ \<Rightarrow> None
                   | Inr (body, s2) \<Rightarrow> (case dec body of None \<Rightarrow> None | Some v \<Rightarrow> Some (v, s2))))"

section \<open>The limiter (ratelimit.go)\<close>

record 'l ipState =
  ip_limiter :: 'l
  fails :: int
  banUntil :: instant

type_synonym 'l IPLimiter = "(string, 'l ipState) gomap"

definition NewIPLimiter :: "'l IPLimiter" where
  "NewIPLimiter = []"

definition lim_Allow :: "'l rate_lib \<Rightarrow> instant \<Rightarrow> string \<Rightarrow> 'l IPLimiter \<Rightarrow> 'l IPLimiter \<times> bool" where
  "lim_Allow L now ip l =
     (let st = (case mget l ip of
                  None \<Rightarrow> \<lparr>ip_limiter = rl_new L (5 / 60) 5, fails = 0, banUntil = zero_time\<rparr>
                | Some st \<Rightarrow> st)
      in if now < banUntil st then (mput ip st l, False)
         else let (lm, ok) = rl_allow L now (ip_limiter st) in (mput ip (st\<lparr>ip_limiter := lm\<rparr>) l, ok))"

text \<open>The shift and the products are those of \<^verbatim>\<open>time.Duration\<close>, a signed 64-bit integer.\<close>

definition backoff :: "int \<Rightarrow> duration" where
  "backoff n =
     (let b = wrap64 (wrap64 (2 ^ nat (n - 1)) * (5 * second))
      in if 24 * hour < b then 24 * hour else b)"

definition Report :: "instant \<Rightarrow> string \<Rightarrow> bool \<Rightarrow> 'l IPLimiter \<Rightarrow> 'l IPLimiter" where
  "Report now ip ok l =
     (case mget l ip of None \<Rightarrow> l
      | Some st \<Rightarrow>
          (if ok then mput ip (st\<lparr>fails := 0\<rparr>) l
           else let st1 = st\<lparr>fails := fails st + 1\<rparr>
                in if fails st1 < 2 then mput ip st1 l
                   else mput ip (st1\<lparr>banUntil := now + backoff (fails st1)\<rparr>) l))"

section \<open>The endpoint (server.go)\<close>

record 'l enroll_lib =
  el_x509 :: x509_lib
  el_sha256 :: "bytes \<Rightarrow> bytes"
  el_tokens :: token_json
  el_registry :: "ClientRecord list_json"
  el_rfc3339 :: "instant \<Rightarrow> string"
  el_errmsg :: "pki_error \<Rightarrow> string"
  el_request :: "bytes \<Rightarrow> Request option"
  el_rate :: "'l rate_lib"

record enroll_env =
  en_now :: instant
  en_io :: file_io
  en_rnd :: "bytes option"
  en_wr :: bool

record 'l EnrollServer =
  es_CA :: CA
  es_Tokens :: TokenStore
  es_TokenFile :: "disk_file option"
  es_Registry :: ClientRegistry
  es_Revoked :: RevocationList
  es_ValidityDays :: int
  es_Limiter :: "'l IPLimiter"

definition verifyPeerCertificate :: "'l enroll_lib \<Rightarrow> instant \<Rightarrow> bytes list \<Rightarrow> 'l EnrollServer \<Rightarrow> bool" where
  "verifyPeerCertificate E now rawCerts s =
     (case rawCerts of [] \<Rightarrow> True
      | raw # _ \<Rightarrow>
          (case x_parse_cert (el_x509 E) raw of None \<Rightarrow> False
           | Some cert \<Rightarrow>
               VerifyClientCertificate (el_x509 E) now cert (ca_Cert (es_CA s)) = None \<and>
               \<not> IsRevoked (es_Revoked s) (nat_string (c_serial cert))))"

definition signFromCSR ::
  "'l enroll_lib \<Rightarrow> enroll_env \<Rightarrow> string \<Rightarrow> 'l EnrollServer \<Rightarrow> pki_error + (string \<times> string \<times> string)" where
  "signFromCSR E v csrPEM s =
     (case SignClientCertificate (el_x509 E) (en_now v) (en_rnd v) (Some (es_CA s)) csrPEM (es_ValidityDays s) of
        Inl e \<Rightarrow> Inl e
      | Inr certPEM \<Rightarrow>
          (case ParseCertificate (el_x509 E) certPEM of Inl e \<Rightarrow> Inl e
           | Inr cert \<Rightarrow> Inr (certPEM, el_rfc3339 E (c_NotAfter cert), c_CN cert)))"

definition certSerial :: "'l enroll_lib \<Rightarrow> string \<Rightarrow> string" where
  "certSerial E certPEM =
     (case ParseCertificate (el_x509 E) certPEM of Inl _ \<Rightarrow> '''' | Inr cert \<Rightarrow> nat_string (c_serial cert))"

definition pkiCertPEM :: "'l enroll_lib \<Rightarrow> 'l EnrollServer \<Rightarrow> string" where
  "pkiCertPEM E s = x_pem_encode (el_x509 E) ''CERTIFICATE'' (c_Raw (ca_Cert (es_CA s)))"

fun token_response :: "token_error \<Rightarrow> Response" where
  "token_response ErrTokenInvalid = errResponse ErrCodeTokenInvalid ''invalid token''"
| "token_response ErrTokenExpired = errResponse ErrCodeTokenExpired ''token expired''"
| "token_response ErrTokenUsed = errResponse ErrCodeTokenUsed ''token already used''"
| "token_response ErrTokenRevoked = errResponse ErrCodeTokenInvalid ''invalid token''"
| "token_response _ = errResponse ErrCodeInternal ''internal error''"

definition okResponse :: "'l enroll_lib \<Rightarrow> string \<Rightarrow> string \<Rightarrow> 'l EnrollServer \<Rightarrow> Response" where
  "okResponse E certPEM expiresAt s =
     \<lparr>rs_OK = True, rs_ClientCert = certPEM, rs_CACert = pkiCertPEM E s, rs_ExpiresAt = expiresAt, rs_Error = None\<rparr>"

definition handleEnroll ::
  "'l enroll_lib \<Rightarrow> enroll_env \<Rightarrow> Request \<Rightarrow> 'l EnrollServer \<Rightarrow> Response \<times> 'l EnrollServer" where
  "handleEnroll E v req s =
     (let ((tok, file), res) = Consume (el_sha256 E) (el_tokens E) (en_io v) (en_now v) (rq_Token req) (es_Tokens s, es_TokenFile s);
          s1 = s\<lparr>es_Tokens := tok, es_TokenFile := file\<rparr>
      in case res of Inl err \<Rightarrow> (token_response err, s1)
         | Inr _ \<Rightarrow>
             (case signFromCSR E v (rq_CSR req) s1 of
                Inl err \<Rightarrow> (errResponse ErrCodeProtocol (el_errmsg E err), s1)
              | Inr (certPEM, expiresAt, clientID) \<Rightarrow>
                  (if Exists (es_Registry s1) clientID
                   then (errResponse ErrCodeNameConflict ''client id already registered'', s1)
                   else let rec = \<lparr>cr_ClientID = clientID, cr_Name = me_Name (rq_Meta req), cr_Note = me_Note (rq_Meta req),
                                   cr_CertSerial = certSerial E certPEM, cr_CreatedAt = en_now v\<rparr>;
                            (reg, err) = cr_Add (el_registry E) (en_wr v) rec (es_Registry s1);
                            s2 = s1\<lparr>es_Registry := reg\<rparr>
                        in case err of Some _ \<Rightarrow> (errResponse ErrCodeInternal ''internal error'', s2)
                           | None \<Rightarrow> (okResponse E certPEM expiresAt s2, s2))))"

text \<open>\<open>peers\<close> are the peer certificates of the connection.\<close>

definition handleRenew ::
  "'l enroll_lib \<Rightarrow> enroll_env \<Rightarrow> certificate list \<Rightarrow> Request \<Rightarrow> 'l EnrollServer \<Rightarrow> Response \<times> 'l EnrollServer" where
  "handleRenew E v peers req s =
     (case peers of [] \<Rightarrow> (errResponse ErrCodeAuthFailed ''client certificate required for renewal'', s)
      | oldCert # _ \<Rightarrow>
          (if IsRevoked (es_Revoked s) (nat_string (c_serial oldCert))
           then (errResponse ErrCodeCertRevoked ''certificate revoked'', s)
           else case signFromCSR E v (rq_CSR req) s of
                  Inl err \<Rightarrow> (errResponse ErrCodeProtocol (el_errmsg E err), s)
                | Inr (certPEM, expiresAt, cn) \<Rightarrow>
                    (if cn \<noteq> c_CN oldCert
                     then (errResponse ErrCodeProtocol ''CSR identity does not match the authenticated client'', s)
                     else let s1 = (case cr_Get (es_Registry s) (c_CN oldCert) of None \<Rightarrow> s
                                    | Some rec \<Rightarrow>
                                        s\<lparr>es_Registry := fst (cr_Add (el_registry E) (en_wr v)
                                            (rec\<lparr>cr_CertSerial := certSerial E certPEM\<rparr>) (es_Registry s))\<rparr>)
                          in (okResponse E certPEM expiresAt s1, s1))))"

text \<open>
  One connection from \<open>host\<close>. The TLS handshake takes place with the first read and fails when the
  peer's certificate is refused; then no request is read. The result is the response that is written.
\<close>

definition enr_handleConn ::
  "'l enroll_lib \<Rightarrow> enroll_env \<Rightarrow> string \<Rightarrow> bytes list \<Rightarrow> bytes \<Rightarrow> 'l EnrollServer \<Rightarrow> Response option \<times> 'l EnrollServer" where
  "enr_handleConn E v host rawCerts stream s =
     (let (lm, ok) = lim_Allow (el_rate E) (en_now v) host (es_Limiter s);
          s0 = s\<lparr>es_Limiter := lm\<rparr>;
          rep = (\<lambda>ok s. s\<lparr>es_Limiter := Report (en_now v) host ok (es_Limiter s)\<rparr>)
      in if \<not> ok then (Some (errResponse ErrCodeRateLimited ''too many requests, try again later''), s0)
         else if \<not> verifyPeerCertificate E (en_now v) rawCerts s0 then (None, rep False s0)
         else case enr_readFrame (el_request E) stream of
           None \<Rightarrow> (None, rep False s0)
         | Some (req, _) \<Rightarrow>
             (let (resp, s1) =
                (if rq_Type req = ''enroll'' then handleEnroll E v req s0
                 else if rq_Type req = ''renew''
                   then handleRenew E v (List.map_filter (x_parse_cert (el_x509 E)) rawCerts) req s0
                 else (errResponse ErrCodeProtocol ''unknown request type'', rep False s0))
              in (Some resp, rep (rs_OK resp) s1)))"

section \<open>The client's side (client.go)\<close>

record EnrollResult =
  er_ClientID :: string
  er_ExpiresAt :: instant
  er_ClientCertPEM :: string
  er_CACertPEM :: string
  er_CAFingerprint :: string

datatype enroll_client_error =
    InvalidServerAddr
  | TLSConfigFailed
  | DialFailed
  | HandshakeFailed
  | WriteRequest
  | ReadResponse
  | ServerRefused "enroll_error option"
  | BadClientCert pki_error
  | BadCACert pki_error
  | ChainRejected
  | MissingClientID
  | KeyMismatch

text \<open>
  The TLS callback: the fingerprint that is observed, \<open>None\<close> before a certificate was seen, and whether
  the handshake may go on.
\<close>

definition VerifyConnection :: "(bytes \<Rightarrow> bytes) \<Rightarrow> string \<Rightarrow> certificate list \<Rightarrow> string option \<times> bool" where
  "VerifyConnection sha256 expectedFP peers =
     (case peers of [] \<Rightarrow> (None, False)
      | serverCert # _ \<Rightarrow>
          (let fp = Fingerprint sha256 serverCert in (Some fp, expectedFP = '''' \<or> fp = expectedFP)))"

record enroll_options =
  eo_Token :: string
  eo_CSR :: string
  eo_Meta :: Meta
  eo_CAFingerprint :: string
  eo_ClientCert :: string
  eo_ClientKey :: "nat option"

definition enroll_request :: "enroll_options \<Rightarrow> Request" where
  "enroll_request opts =
     \<lparr>rq_Type = (if eo_ClientCert opts \<noteq> '''' then ''renew'' else ''enroll''), rq_Token = eo_Token opts,
      rq_CSR = eo_CSR opts, rq_Meta = eo_Meta opts\<rparr>"

text \<open>What the client checks of a response; \<open>parse_time\<close> reads an RFC 3339 time.\<close>

definition checkResponse ::
  "x509_lib \<Rightarrow> instant \<Rightarrow> (string \<Rightarrow> instant option) \<Rightarrow> enroll_options \<Rightarrow> string \<Rightarrow> Response \<Rightarrow> enroll_client_error + EnrollResult" where
  "checkResponse X now parse_time opts observedFP resp =
     (if \<not> rs_OK resp then Inl (ServerRefused (rs_Error resp))
      else case ParseCertificate X (rs_ClientCert resp) of Inl e \<Rightarrow> Inl (BadClientCert e)
      | Inr clientCert \<Rightarrow>
          (case ParseCertificate X (rs_CACert resp) of Inl e \<Rightarrow> Inl (BadCACert e)
           | Inr caCert \<Rightarrow>
               (if VerifyChain X now clientCert caCert \<noteq> None then Inl ChainRejected
                else if c_CN clientCert = '''' then Inl MissingClientID
                else if eo_ClientKey opts \<noteq> None \<and> eo_ClientKey opts \<noteq> Some (c_key clientCert) then Inl KeyMismatch
                else Inr \<lparr>er_ClientID = c_CN clientCert,
                          er_ExpiresAt = (case parse_time (rs_ExpiresAt resp) of Some t \<Rightarrow> t | None \<Rightarrow> c_NotAfter clientCert),
                          er_ClientCertPEM = rs_ClientCert resp, er_CACertPEM = rs_CACert resp,
                          er_CAFingerprint = observedFP\<rparr>)))"

text \<open>
  The exchange. \<open>tls_ok\<close>, \<open>dial_ok\<close> and \<open>wire_ok\<close> tell whether the key pair, the dial and the rest of the
  handshake succeed, \<open>peers\<close> is what the server presents; \<open>sent\<close> is the marshalled request and \<open>reply\<close> the
  bytes that come back.
\<close>

definition Enroll ::
  "x509_lib \<Rightarrow> (bytes \<Rightarrow> bytes) \<Rightarrow> (bytes \<Rightarrow> Response option) \<Rightarrow> (string \<Rightarrow> instant option) \<Rightarrow> instant \<Rightarrow> string \<Rightarrow> enroll_options \<Rightarrow>
   bool \<Rightarrow> bool \<Rightarrow> bool \<Rightarrow> certificate list \<Rightarrow> bytes option \<Rightarrow> bytes \<Rightarrow> enroll_client_error + EnrollResult" where
  "Enroll X sha256 dec parse_time now addr opts tls_ok dial_ok wire_ok peers sent reply =
     (if SplitHostPort addr = None then Inl InvalidServerAddr
      else if \<not> tls_ok then Inl TLSConfigFailed
      else if \<not> dial_ok then Inl DialFailed
      else case VerifyConnection sha256 (eo_CAFingerprint opts) peers of (fp, ok) \<Rightarrow>
        (if \<not> ok \<or> \<not> wire_ok then Inl HandshakeFailed
         else case enr_writeFrame sent of None \<Rightarrow> Inl WriteRequest
         | Some _ \<Rightarrow>
             (case enr_readFrame dec reply of None \<Rightarrow> Inl ReadResponse
              | Some (resp, _) \<Rightarrow> checkResponse X now parse_time opts (case fp of None \<Rightarrow> '''' | Some f \<Rightarrow> f) resp)))"

definition FingerprintPEM :: "x509_lib \<Rightarrow> (bytes \<Rightarrow> bytes) \<Rightarrow> string \<Rightarrow> pki_error + string" where
  "FingerprintPEM X sha256 certPEM =
     (case ParseCertificate X certPEM of Inl e \<Rightarrow> Inl e | Inr cert \<Rightarrow> Inr (Fingerprint sha256 cert))"

section \<open>Framing\<close>

definition enr_frame :: "bytes \<Rightarrow> bytes option" where
  "enr_frame data = (if data = [] then None else enr_writeFrame (Some data))"

interpretation enf: framing enr_frame "enr_readFrame Some"
proof
  fix x bs rest
  assume "enr_frame x = Some bs"
  then have x: "x \<noteq> []" "length x \<le> maxFrameSize" "bs = put_be32 (length x) @ x"
    by (auto simp: enr_frame_def enr_writeFrame_def split: if_splits)
  then show "enr_readFrame Some (bs @ rest) = Some (x, rest)"
    using get_put_be32 [of "length x"] by (simp add: enr_readFrame_def)
qed

section \<open>Bans\<close>

lemma backoff_schedule: "2 \<le> n \<Longrightarrow> n \<le> 31 \<Longrightarrow> backoff n = min (2 ^ nat (n - 1) * (5 * second)) (24 * hour)"
proof -
  assume n: "2 \<le> n" "n \<le> 31"
  define p where "p = (2 :: int) ^ nat (n - 1)"
  have "p \<le> 2 ^ 30" unfolding p_def by (rule power_increasing) (use n in auto)
  moreover have "0 < p" by (simp add: p_def)
  ultimately have "wrap64 p = p" "wrap64 (p * (5 * second)) = p * (5 * second)"
    by (auto intro!: wrap64_id)
  then show ?thesis by (simp add: backoff_def Let_def min_def p_def)
qed

lemma wrap64_mult_left: "wrap64 (wrap64 x * y) = wrap64 (x * y)"
proof -
  have "(wrap64 x * y + 2 ^ 63) mod 2 ^ 64 = (x * y + 2 ^ 63) mod 2 ^ 64"
  proof -
    have "wrap64 x mod 2 ^ 64 = x mod 2 ^ 64"
      unfolding wrap64_def by (simp add: mod_diff_left_eq)
    then show ?thesis by (metis mod_add_left_eq mod_mult_left_eq)
  qed
  then show ?thesis by (simp only: wrap64_def [of "wrap64 x * y"] wrap64_def [of "x * y"])
qed

lemma wrap64_cycle: "wrap64 (2 ^ 64 * k) = 0"
  using mod_mult_self4 [of "2 ^ 64" k "2 ^ 63"] by (simp add: wrap64_def)

lemma backoff_zero: "56 \<le> n \<Longrightarrow> backoff n = 0"
proof -
  assume n: "56 \<le> n"
  then have "55 \<le> nat (n - 1)" by simp
  then obtain m where m: "nat (n - 1) = 55 + m" by (metis le_iff_add)
  have "(2 :: int) ^ nat (n - 1) * (5 * second) = 2 ^ 64 * (2 ^ m * 9765625)"
    by (simp add: m power_add)
  then have "wrap64 (2 ^ nat (n - 1) * (5 * second)) = 0"
    by (simp only: wrap64_cycle)
  then show ?thesis by (simp add: backoff_def Let_def wrap64_mult_left)
qed


lemma Report_fails:
  assumes "mget l ip = Some st" and "fails st = 0"
  shows "mget (fold (\<lambda>t. Report t ip False) (ts @ [now]) l) ip =
     Some (st\<lparr>fails := int (length ts) + 1,
              banUntil := (if ts = [] then banUntil st else now + backoff (int (length ts) + 1))\<rparr>)"
proof (induction ts arbitrary: now rule: rev_induct)
  case Nil
  then show ?case using assms by (simp add: Report_def Let_def)
next
  case (snoc t ts)
  then show ?case using snoc.IH [of t] by (simp add: Report_def Let_def)
qed

text \<open>
  Failed requests escalate: after the second and up to the thirty-first failure in a row of an
  address, every request of that address is refused for five seconds doubled with each failure but the
  first, at most a day.
\<close>
theorem ban_escalates:
  assumes "mget l ip = Some st" and "fails st = 0" and "1 \<le> length ts" and "length ts \<le> 30"
    and "l' = fold (\<lambda>t. Report t ip False) (ts @ [now]) l"
  shows "banUntil (the (mget l' ip)) = now + min (2 ^ length ts * (5 * second)) (24 * hour) \<and>
     (t < now + min (2 ^ length ts * (5 * second)) (24 * hour) \<longrightarrow> \<not> snd (lim_Allow L t ip l'))"
proof -
  have "backoff (int (length ts) + 1) = min (2 ^ length ts * (5 * second)) (24 * hour)"
    using backoff_schedule [of "int (length ts) + 1"] assms(3,4) by simp
  then show ?thesis
    using Report_fails [OF assms(1,2), of ts now] assms(3,5) by (auto simp: lim_Allow_def Let_def)
qed

definition first_state :: "nat ipState" where
  "first_state = \<lparr>ip_limiter = 0, fails = 0, banUntil = zero_time\<rparr>"

theorem ban_escalates_witness:
  "banUntil (the (mget (fold (\<lambda>t. Report t ''1.2.3.4'' False) ([0] @ [7]) [(''1.2.3.4'', first_state)]) ''1.2.3.4'')) = 7 + 10 * second"
  using ban_escalates [of "[(''1.2.3.4'', first_state)]" "''1.2.3.4''" first_state "[0]" _ 7]
  by (simp add: first_state_def)

text \<open>
  The escalation ends: from the fifty-sixth failure in a row on, the doubled delay overflows to
  zero, and the address is not banned any more, only subject to the rate limit.
\<close>
theorem ban_vanishes:
  assumes "mget l ip = Some st" and "fails st = 0" and "55 \<le> length ts" and "now \<le> t"
    and "l' = fold (\<lambda>t. Report t ip False) (ts @ [now]) l"
  shows "snd (lim_Allow L t ip l') = snd (rl_allow L t (ip_limiter st))"
proof -
  have "backoff (int (length ts) + 1) = 0" using backoff_zero [of "int (length ts) + 1"] assms(3) by simp
  moreover have "ts \<noteq> []" using assms(3) by auto
  ultimately show ?thesis
    using Report_fails [OF assms(1,2), of ts now] assms(4,5) by (simp add: lim_Allow_def Let_def split: prod.splits)
qed

theorem ban_vanishes_witness:
  "snd (lim_Allow \<lparr>rl_new = \<lambda>_ _. 0, rl_allow = \<lambda>_ n. (n, True)\<rparr> 9 ''1.2.3.4''
     (fold (\<lambda>t. Report t ''1.2.3.4'' False) (replicate 55 3 @ [9]) [(''1.2.3.4'', first_state)]))"
  using ban_vanishes [of "[(''1.2.3.4'', first_state)]" "''1.2.3.4''" first_state "replicate 55 3" 9 9 _
      "\<lparr>rl_new = \<lambda>_ _. 0, rl_allow = \<lambda>_ n. (n, True)\<rparr>"]
  by (simp add: first_state_def)

section \<open>Who gets a certificate\<close>

lemma signFromCSR_issued:
  assumes "x509_law (el_x509 E)" and "signFromCSR E v csrPEM s = Inr (certPEM, expiresAt, cn)"
  shows "\<exists>c req. ParseCertificate (el_x509 E) certPEM = Inr c \<and> ParseCSR (el_x509 E) csrPEM = Inr req \<and>
     csr_Ed25519 req \<and> csr_sigOK req \<and> c_CN c = csr_CN req \<and> cn = c_CN c \<and> ValidateClientID (c_CN c) \<and>
     c_key c = csr_key req \<and> c_EKU c = [ClientAuth] \<and> \<not> c_IsCA c \<and> expiresAt = el_rfc3339 E (c_NotAfter c) \<and>
     c_NotAfter c \<le> c_NotAfter (ca_Cert (es_CA s)) \<and> c_NotAfter c \<le> en_now v + es_ValidityDays s * 24 * hour"
proof -
  have "SignClientCertificate (el_x509 E) (en_now v) (en_rnd v) (Some (es_CA s)) csrPEM (es_ValidityDays s) = Inr certPEM"
    using assms(2) by (auto simp: signFromCSR_def split: sum.splits)
  from SignClientCertificate_parsed [OF assms(1) this]
  show ?thesis using assms(2) by (auto simp: signFromCSR_def split: sum.splits)
qed

definition entitled_by_token :: "'l enroll_lib \<Rightarrow> enroll_env \<Rightarrow> string \<Rightarrow> string \<Rightarrow> 'l EnrollServer \<Rightarrow> 'l EnrollServer \<Rightarrow> bool" where
  "entitled_by_token E v token cn s s' \<longleftrightarrow>
     (\<exists>tid r. mget (tok_byID (reloadIfChanged (el_tokens E) (en_io v) (es_TokenFile s) (es_Tokens s))) tid = Some r \<and>
        tr_Hash r = HashToken (el_sha256 E) token \<and> \<not> tr_Revoked r \<and> en_now v \<le> tr_ExpiresAt r \<and> \<not> tr_Used r \<and>
        mget (tok_byID (es_Tokens s')) tid = Some (r\<lparr>tr_Used := True\<rparr>)) \<and>
     \<not> Exists (es_Registry s) cn \<and> Exists (es_Registry s') cn"

definition entitled_by_cert :: "'l enroll_lib \<Rightarrow> enroll_env \<Rightarrow> bytes list \<Rightarrow> string \<Rightarrow> 'l EnrollServer \<Rightarrow> bool" where
  "entitled_by_cert E v rawCerts cn s \<longleftrightarrow>
     (\<exists>raw rest old. rawCerts = raw # rest \<and> x_parse_cert (el_x509 E) raw = Some old \<and>
        VerifyClientCertificate (el_x509 E) (en_now v) old (ca_Cert (es_CA s)) = None \<and>
        \<not> IsRevoked (es_Revoked s) (nat_string (c_serial old)) \<and> c_CN old = cn)"

lemma errResponse_not_OK [simp]: "\<not> rs_OK (errResponse c m)"
  by (simp add: errResponse_def)

lemma token_response_not_OK [simp]: "\<not> rs_OK (token_response e)"
  by (cases e) auto

lemma handleEnroll_ok:
  assumes "x509_law (el_x509 E)" and "recs_wf (tok_byID (es_Tokens s))" and "handleEnroll E v req s = (resp, s')" and "rs_OK resp"
  shows "\<exists>expiresAt cn. signFromCSR E v (rq_CSR req) s = Inr (rs_ClientCert resp, expiresAt, cn) \<and>
     entitled_by_token E v (rq_Token req) cn s s'"
proof -
  obtain tok fl res where con: "Consume (el_sha256 E) (el_tokens E) (en_io v) (en_now v) (rq_Token req) (es_Tokens s, es_TokenFile s)
      = ((tok, fl), res)"
    by (metis prod.collapse)
  let ?s1 = "s\<lparr>es_Tokens := tok, es_TokenFile := fl\<rparr>"
  have sign1: "signFromCSR E v p ?s1 = signFromCSR E v p s" for p by (simp add: signFromCSR_def)
  obtain tid where res: "res = Inr tid"
    using assms(3,4) con by (cases res) (auto simp: handleEnroll_def Let_def)
  obtain certPEM expiresAt cn where sign: "signFromCSR E v (rq_CSR req) s = Inr (certPEM, expiresAt, cn)"
    using assms(3,4) con res by (cases "signFromCSR E v (rq_CSR req) s") (auto simp: handleEnroll_def Let_def sign1)
  obtain rec reg err where add: "cr_Add (el_registry E) (en_wr v) rec (es_Registry s) = (reg, err)" "cr_ClientID rec = cn"
      and rest: "\<not> Exists (es_Registry s) cn" "err = None" "s' = ?s1\<lparr>es_Registry := reg\<rparr>" "rs_ClientCert resp = certPEM"
    using assms(3,4) con res sign
    by (auto simp: handleEnroll_def Let_def sign1 okResponse_def split: if_splits prod.splits option.splits)
  have "Exists reg cn"
    using add rest(2) by (auto simp: cr_Add_def cr_save_def Exists_def Let_def split: if_splits prod.splits)
  then show ?thesis
    using sign rest Consume_ok [OF con [unfolded res] assms(2)] by (auto simp: entitled_by_token_def)
qed

lemma handleRenew_ok:
  assumes "handleRenew E v peers req s = (resp, s')" and "rs_OK resp"
  shows "\<exists>expiresAt old rest. peers = old # rest \<and> signFromCSR E v (rq_CSR req) s = Inr (rs_ClientCert resp, expiresAt, c_CN old)"
  using assms by (auto simp: handleRenew_def Let_def okResponse_def split: list.splits if_splits sum.splits)


text \<open>
  C4: The endpoint issues a client certificate only to those entitled: a successful answer carries a
  certificate for client authentication that proves possession of its key and outlives neither the
  configured validity nor the CA, and either the request spent a token that was unexpired, unrevoked and
  unused, for an id that was not registered and now is, or the connection presented a certificate of the
  same client that chains to the CA and is not revoked.
\<close>
theorem enroll_only_entitled:
  assumes law: "x509_law (el_x509 E)" and wf: "recs_wf (tok_byID (es_Tokens s))"
    and run: "enr_handleConn E v host rawCerts stream s = (Some resp, s')" and ok: "rs_OK resp"
  shows "\<exists>c csr req rest. enr_readFrame (el_request E) stream = Some (req, rest) \<and>
     ParseCertificate (el_x509 E) (rs_ClientCert resp) = Inr c \<and> ParseCSR (el_x509 E) (rq_CSR req) = Inr csr \<and>
     csr_sigOK csr \<and> c_key c = csr_key csr \<and> c_CN c = csr_CN csr \<and> ValidateClientID (c_CN c) \<and>
     c_EKU c = [ClientAuth] \<and> \<not> c_IsCA c \<and> c_NotAfter c \<le> c_NotAfter (ca_Cert (es_CA s)) \<and>
     c_NotAfter c \<le> en_now v + es_ValidityDays s * 24 * hour \<and>
     (entitled_by_token E v (rq_Token req) (c_CN c) s s' \<or> entitled_by_cert E v rawCerts (c_CN c) s)"
proof -
  obtain lm a where al: "lim_Allow (el_rate E) (en_now v) host (es_Limiter s) = (lm, a)" by fastforce
  let ?s0 = "s\<lparr>es_Limiter := lm\<rparr>"
  have sign0: "signFromCSR E v p ?s0 = signFromCSR E v p s" for p by (simp add: signFromCSR_def)
  have verify: "verifyPeerCertificate E (en_now v) rawCerts ?s0"
    using run ok al by (auto simp: enr_handleConn_def Let_def split: if_splits)
  then have verify': "verifyPeerCertificate E (en_now v) rawCerts s"
    by (simp add: verifyPeerCertificate_def split: list.splits option.splits)
  obtain req rest where rd: "enr_readFrame (el_request E) stream = Some (req, rest)"
    using run ok al verify by (cases "enr_readFrame (el_request E) stream") (auto simp: enr_handleConn_def Let_def split: if_splits)
  have "\<exists>expiresAt cn. signFromCSR E v (rq_CSR req) s = Inr (rs_ClientCert resp, expiresAt, cn) \<and>
     (entitled_by_token E v (rq_Token req) cn s s' \<or> entitled_by_cert E v rawCerts cn s)"
  proof (cases "rq_Type req = ''enroll''")
    case True
    obtain s1 where h: "handleEnroll E v req ?s0 = (resp, s1)" "es_Tokens s' = es_Tokens s1" "es_Registry s' = es_Registry s1"
      using run ok al verify rd True by (auto simp: enr_handleConn_def Let_def split: if_splits prod.splits)
    have "\<exists>expiresAt cn. signFromCSR E v (rq_CSR req) ?s0 = Inr (rs_ClientCert resp, expiresAt, cn) \<and>
        entitled_by_token E v (rq_Token req) cn ?s0 s1"
      using handleEnroll_ok [OF law _ h(1) ok] wf by simp
    then show ?thesis unfolding sign0 using h(2,3) by (auto simp: entitled_by_token_def)
  next
    case False
    then have "rq_Type req = ''renew''"
      using run ok al verify rd by (auto simp: enr_handleConn_def Let_def split: if_splits)
    then obtain s1 where "handleRenew E v (List.map_filter (x_parse_cert (el_x509 E)) rawCerts) req ?s0 = (resp, s1)"
      using run ok al verify rd by (auto simp: enr_handleConn_def Let_def split: if_splits prod.splits)
    then obtain expiresAt old more' where old: "List.map_filter (x_parse_cert (el_x509 E)) rawCerts = old # more'"
        "signFromCSR E v (rq_CSR req) s = Inr (rs_ClientCert resp, expiresAt, c_CN old)"
      using handleRenew_ok ok sign0 by metis
    have "entitled_by_cert E v rawCerts (c_CN old) s"
      using old(1) verify' by (cases rawCerts) (auto simp: entitled_by_cert_def verifyPeerCertificate_def List.map_filter_simps split: option.splits)
    then show ?thesis using old(2) by blast
  qed
  then obtain expiresAt cn where sg: "signFromCSR E v (rq_CSR req) s = Inr (rs_ClientCert resp, expiresAt, cn)"
      "entitled_by_token E v (rq_Token req) cn s s' \<or> entitled_by_cert E v rawCerts cn s"
    by blast
  show ?thesis using signFromCSR_issued [OF law sg(1)] sg(2) rd by blast
qed

text \<open>A PEM codec, a library that can issue one certificate, and a server holding one token.\<close>

definition plain_pem :: "string \<Rightarrow> bytes \<Rightarrow> string" where
  "plain_pem ty der = replicate (length ty) (CHR ''a'') @ CHR ''b'' # ty @ map (\<lambda>b. char_of (unat b)) der"

definition read_pem :: "string \<Rightarrow> (string \<times> bytes) option" where
  "read_pem s =
     (let n = length (takeWhile (\<lambda>c. c = CHR ''a'') s); body = drop (Suc n) s
      in Some (take n body, map (\<lambda>c. of_nat (code c)) (drop n body)))"

lemma read_plain_pem: "read_pem (plain_pem ty der) = Some (ty, der)"
proof -
  have "of_nat (code (char_of (unat b))) = b" for b :: byte
  proof -
    have "unat b mod 256 = unat b" using unat_byte [of b] by simp
    then have "code (char_of (unat b)) = unat b" by (simp add: code_def)
    then show ?thesis by simp
  qed
  then have "map ((\<lambda>c. of_nat (code c)) \<circ> (\<lambda>b. char_of (unat b))) der = der"
    by (simp add: o_def)
  moreover have "takeWhile (\<lambda>c. c = CHR ''a'') (plain_pem ty der) = replicate (length ty) (CHR ''a'')"
    by (simp add: plain_pem_def takeWhile_append)
  ultimately show ?thesis by (simp add: read_pem_def plain_pem_def o_def)
qed

definition sample_ca :: CA where
  "sample_ca = \<lparr>ca_Cert = \<lparr>c_serial = 1, c_CN = ''qoqtun Root CA'', c_O = [], c_OU = [], c_NotBefore = 0, c_NotAfter = 9000 * hour,
     c_KeyUsage = [CertSign, CRLSign], c_EKU = [], c_IsCA = True, c_MaxPathLenZero = True, c_IPs = [], c_DNS = [], c_key = 1, c_Raw = [8]\<rparr>,
     ca_Key = 1\<rparr>"

definition sample_csr :: csr where
  "sample_csr = \<lparr>csr_Ed25519 = True, csr_sigOK = True, csr_CN = ''cl_77777777777777777777777774'', csr_O = [], csr_OU = [], csr_key = 5\<rparr>"

definition sample_cert :: certificate where
  "sample_cert = client_template 0 7 sample_ca sample_csr 90"

definition sample_x509 :: x509_lib where
  "sample_x509 = \<lparr>x_pem_decode = read_pem, x_pem_encode = plain_pem, x_parse_csr = (\<lambda>_. Some sample_csr),
     x_create_csr = (\<lambda>_. None), x_parse_cert = (\<lambda>der. if der = [9] then Some sample_cert else None),
     x_create = (\<lambda>t ca. if t = sample_cert then Some [9] else None), x_verify = (\<lambda>_ _ _. True)\<rparr>"

lemma sample_x509_law: "x509_law sample_x509"
  by (auto simp: x509_law_def sample_x509_def read_plain_pem)

definition sample_req :: Request where
  "sample_req = \<lparr>rq_Type = ''enroll'', rq_Token = ''t'', rq_CSR = plain_pem ''CERTIFICATE REQUEST'' [],
     rq_Meta = \<lparr>me_Name = '''', me_Note = '''', me_OS = '''', me_Arch = ''''\<rparr>\<rparr>"

definition sample_lib :: "unit enroll_lib" where
  "sample_lib = \<lparr>el_x509 = sample_x509, el_sha256 = (\<lambda>_. []), el_tokens = sample_json,
     el_registry = \<lparr>marshal_list = (\<lambda>_. Some []), unmarshal_list = (\<lambda>_. None)\<rparr>, el_rfc3339 = (\<lambda>_. ''''), el_errmsg = (\<lambda>_. ''''),
     el_request = (\<lambda>_. Some sample_req), el_rate = \<lparr>rl_new = (\<lambda>_ _. ()), rl_allow = (\<lambda>_ l. (l, True))\<rparr>\<rparr>"

definition enroll_answers :: enroll_env where
  "enroll_answers = \<lparr>en_now = 0, en_io = sample_io 6, en_rnd = Some [7], en_wr = True\<rparr>"

definition sample_server :: "unit EnrollServer" where
  "sample_server = \<lparr>es_CA = sample_ca, es_Tokens = \<lparr>tok_byID = [(''a'', sample_record)], lastMod = 0, lastSize = 0\<rparr>, es_TokenFile = None,
     es_Registry = \<lparr>cr_byID = [], cr_file = None\<rparr>, es_Revoked = \<lparr>rl_byID = [], rl_file = None\<rparr>, es_ValidityDays = 90, es_Limiter = []\<rparr>"

theorem enroll_only_entitled_witness:
  "\<exists>resp s' c. enr_handleConn sample_lib enroll_answers ''1.2.3.4'' [] [0, 0, 0, 1, 5] sample_server = (Some resp, s') \<and>
     ParseCertificate sample_x509 (rs_ClientCert resp) = Inr c \<and> ValidateClientID (c_CN c)"
proof -
  let ?r = "enr_handleConn sample_lib enroll_answers ''1.2.3.4'' [] [0, 0, 0, 1, 5] sample_server"
  have "case fst ?r of None \<Rightarrow> False | Some resp \<Rightarrow> rs_OK resp" by code_simp
  then obtain resp where resp: "?r = (Some resp, snd ?r)" "rs_OK resp" by (metis option.case_eq_if option.collapse prod.collapse)
  have law: "x509_law (el_x509 sample_lib)" using sample_x509_law by (simp add: sample_lib_def)
  have wf: "recs_wf (tok_byID (es_Tokens sample_server))" by (simp add: recs_wf_def mwf_def sample_server_def sample_record_def)
  have "el_x509 sample_lib = sample_x509" by (simp add: sample_lib_def)
  with enroll_only_entitled [OF law wf resp] resp(1) show ?thesis by metis
qed


section \<open>Pinning\<close>

lemma length_colon_pairs: "length (colon_pairs h) = length h + (length h - 1) div 2"
  by (induction h rule: colon_pairs.induct) auto

lemma length_hex_encode: "length (hex_encode bs) = 2 * length bs"
  by (induction bs) (simp_all add: hex_encode_def)

text \<open>
  The pin is compared in its printed form: the fingerprint a first exchange observed is accepted
  again for the same server certificate, while a pin of 64 hexadecimal digits, the form that the
  configuration and the command line ask for, is refused by every handshake, because a computed
  fingerprint has colons between its bytes.
\<close>
theorem pin_compares_printed_form:
  assumes digest: "\<And>m. length (sha256 m) = 32" and "length pin = 64"
  shows "snd (VerifyConnection sha256 (Fingerprint sha256 cert) (cert # chain)) \<and> \<not> snd (VerifyConnection sha256 pin peers)"
proof -
  have "length (Fingerprint sha256 c) = 95" for c
    using digest [of "c_Raw c"] by (simp add: Fingerprint_def length_colon_pairs length_hex_encode)
  then have "Fingerprint sha256 c \<noteq> pin" for c using assms(2) by (metis numeral_eq_iff semiring_norm(89) semiring_norm(88))
  moreover have "pin \<noteq> ''''" using assms(2) by auto
  ultimately show ?thesis by (auto simp: VerifyConnection_def Let_def split: list.splits)
qed

theorem pin_compares_printed_form_witness:
  "\<not> snd (VerifyConnection (\<lambda>_. replicate 32 0) (replicate 64 (CHR ''0'')) [sample_cert])"
  using pin_compares_printed_form [of "\<lambda>_. replicate 32 0" "replicate 64 (CHR ''0'')"] by simp


end
