(* ===== verification/EnrollServe.thy ===== *)
theory EnrollServe
  imports Transport Enroll
begin

text \<open>
  The enrolment endpoint on the network (\<^verbatim>\<open>internal/enroll/server.go\<close>): its TLS configuration, which asks
  for a client certificate but does not insist on one, the accept loop with a goroutine per connection, and
  the client's TLS configuration (\<^verbatim>\<open>client.go\<close>). The handlers are those of \<^verbatim>\<open>Enroll\<close>, the handshake that
  of \<^verbatim>\<open>Transport\<close>.

  The lemmas compose the two ends: what the endpoint grants the client accepts, a renewal is only granted
  to the holder of the private key, and connections whose handshake never ends do not keep the endpoint
  from serving others, in contrast to the control server's loop.
\<close>

section \<open>The endpoint\<close>

text \<open>
  \<open>TLSConfig\<close> fails without a key pair. Its callback reads the revocation list when the handshake happens,
  so the configuration of a handshake is taken from the state at that time.
\<close>

definition enr_tls :: "'l enroll_lib \<Rightarrow> 'l EnrollServer \<Rightarrow> tls_config" where
  "enr_tls E s =
     \<lparr>tc_ClientCAs = [ca_Cert (es_CA s)], tc_RootCAs = [], tc_ServerName = '''', tc_ClientAuth = VerifyClientCertIfGiven,
      tc_VerifyPeerCertificate = (\<lambda>now rawCerts. verifyPeerCertificate E now rawCerts s)\<rparr>"

definition enr_TLSConfig :: "tls_lib \<Rightarrow> 'l enroll_lib \<Rightarrow> string \<Rightarrow> string \<Rightarrow> 'l EnrollServer \<Rightarrow> transport_error + tls_config" where
  "enr_TLSConfig T E certPEM keyPEM s = (if tl_keypair T certPEM keyPEM then Inr (enr_tls E s) else Inl LoadKeypair)"

text \<open>
  A connection of the peer \<open>p\<close> that sends \<open>stream\<close> after the handshake. The handler's first read runs the
  handshake under the deadline it has set; a handshake that fails, or has not ended by then, is a read
  error, as an empty stream is.
\<close>

definition enr_connection ::
  "tls_lib \<Rightarrow> 'l enroll_lib \<Rightarrow> enroll_env \<Rightarrow> string \<Rightarrow> peer \<Rightarrow> bytes \<Rightarrow> 'l EnrollServer \<Rightarrow> Response option \<times> 'l EnrollServer" where
  "enr_connection T E v host p stream s =
     (case server_handshake T (en_now v) (enr_tls E s) p of
        Completes _ \<Rightarrow> enr_handleConn E v host (case p of Presents raw _ \<Rightarrow> raw | _ \<Rightarrow> []) stream s
      | _ \<Rightarrow> enr_handleConn E v host [] [] s)"

text \<open>
  The accept loop: every connection has its own goroutine, so a handler that waits does not hold up the
  loop. Handlers take effect in the order of the list. An error of the listener ends the loop unless it
  is temporary; after the context was cancelled it ends without an error.
\<close>

datatype enr_arrival = EnrError bool bool | EnrConn enroll_env string peer bytes

datatype enr_served = EnrWaiting | EnrStopped | EnrFailed

fun enr_Serve :: "tls_lib \<Rightarrow> 'l enroll_lib \<Rightarrow> enr_arrival list \<Rightarrow> 'l EnrollServer \<Rightarrow> enr_served \<times> 'l EnrollServer" where
  "enr_Serve T E [] s = (EnrWaiting, s)"
| "enr_Serve T E (EnrError temporary stopped # as) s =
     (if stopped then (EnrStopped, s) else if temporary then enr_Serve T E as s else (EnrFailed, s))"
| "enr_Serve T E (EnrConn v host p stream # as) s = enr_Serve T E as (snd (enr_connection T E v host p stream s))"

text \<open>\<open>listens\<close> is whether the address could be bound.\<close>

definition enr_ListenAndServe ::
  "tls_lib \<Rightarrow> 'l enroll_lib \<Rightarrow> string \<Rightarrow> string \<Rightarrow> bool \<Rightarrow> enr_arrival list \<Rightarrow> 'l EnrollServer \<Rightarrow> enr_served \<times> 'l EnrollServer" where
  "enr_ListenAndServe T E certPEM keyPEM listens as s =
     (case enr_TLSConfig T E certPEM keyPEM s of Inl _ \<Rightarrow> (EnrFailed, s)
      | Inr _ \<Rightarrow> if \<not> listens then (EnrFailed, s) else enr_Serve T E as s)"

section \<open>The client's configuration\<close>

text \<open>
  The chain the client has for the handshake: \<open>keypair\<close> is \<^verbatim>\<open>tls.X509KeyPair\<close> on the certificate and the key
  as PEM. It is sent when the server asks for a certificate of its issuer (\<open>asked\<close>).
\<close>

definition enr_tlsConfig :: "(string \<Rightarrow> nat \<Rightarrow> bytes list option) \<Rightarrow> enroll_options \<Rightarrow> enroll_client_error + bytes list" where
  "enr_tlsConfig keypair opts =
     (case eo_ClientKey opts of None \<Rightarrow> Inr []
      | Some k \<Rightarrow>
          if eo_ClientCert opts = '''' then Inr []
          else case keypair (eo_ClientCert opts) k of None \<Rightarrow> Inl TLSConfigFailed | Some raw \<Rightarrow> Inr raw)"

definition enr_presents :: "(string \<Rightarrow> nat \<Rightarrow> bytes list option) \<Rightarrow> bool \<Rightarrow> enroll_options \<Rightarrow> peer" where
  "enr_presents keypair asked opts =
     (case enr_tlsConfig keypair opts of Inr raw \<Rightarrow> Presents (if asked then raw else []) True | Inl _ \<Rightarrow> Silent)"


section \<open>Renewals\<close>

lemma enr_handshake:
  assumes "server_handshake T now (enr_tls E s) p = Completes certs"
  shows "\<exists>raw holds. p = Presents raw holds \<and> those (map (tl_parse T) raw) = Some certs \<and>
     (certs \<noteq> [] \<longrightarrow> holds \<and> verifyPeerCertificate E now raw s \<and>
        tl_Verify T now \<lparr>vo_DNSName = '''', vo_Roots = [ca_Cert (es_CA s)], vo_Intermediates = tl certs, vo_KeyUsages = [ClientAuth]\<rparr> (hd certs))"
  using assms by (auto simp: server_handshake_def enr_tls_def split: peer.splits option.splits list.splits if_splits)

lemma enr_request_read:
  assumes "enr_handleConn E v host rawCerts stream s = (Some resp, s')" and "rs_OK resp"
  shows "\<exists>req rest. enr_readFrame (el_request E) stream = Some (req, rest)"
  using assms by (auto simp: enr_handleConn_def Let_def split: prod.splits if_splits option.splits)

lemma enr_readFrame_Nil: "enr_readFrame dec [] = None"
  by (simp add: enr_readFrame_def read_full_def)

lemma enr_granted:
  assumes "enr_connection T E v host p stream s = (Some resp, s')" and "rs_OK resp"
  shows "\<exists>certs raw holds. server_handshake T (en_now v) (enr_tls E s) p = Completes certs \<and> p = Presents raw holds \<and>
     enr_handleConn E v host raw stream s = (Some resp, s')"
proof (cases "server_handshake T (en_now v) (enr_tls E s) p")
  case (Completes certs)
  then show ?thesis using assms(1) enr_handshake [OF Completes] by (auto simp: enr_connection_def)
qed (use assms enr_request_read [of E v host "[]" "[]" s resp s'] in \<open>auto simp: enr_connection_def enr_readFrame_Nil\<close>)

lemma enr_renewed:
  assumes "enr_handleConn E v host raw stream s = (Some resp, s')" and "rs_OK resp"
    and "enr_readFrame (el_request E) stream = Some (req, rest)" and "rq_Type req = ''renew''"
  shows "\<exists>old others expiresAt. List.map_filter (x_parse_cert (el_x509 E)) raw = old # others \<and>
     \<not> IsRevoked (es_Revoked s) (nat_string (c_serial old)) \<and>
     signFromCSR E v (rq_CSR req) s = Inr (rs_ClientCert resp, expiresAt, c_CN old)"
proof -
  obtain lm a where al: "lim_Allow (el_rate E) (en_now v) host (es_Limiter s) = (lm, a)" by fastforce
  let ?s0 = "s\<lparr>es_Limiter := lm\<rparr>"
  have same: "signFromCSR E v (rq_CSR req) ?s0 = signFromCSR E v (rq_CSR req) s" by (simp add: signFromCSR_def)
  obtain s1 where h: "handleRenew E v (List.map_filter (x_parse_cert (el_x509 E)) raw) req ?s0 = (resp, s1)"
    using assms al by (auto simp: enr_handleConn_def Let_def split: if_splits prod.splits)
  obtain expiresAt old others where o: "List.map_filter (x_parse_cert (el_x509 E)) raw = old # others"
      "signFromCSR E v (rq_CSR req) s = Inr (rs_ClientCert resp, expiresAt, c_CN old)"
    using handleRenew_ok [OF h assms(2)] same by auto
  moreover have "\<not> IsRevoked (es_Revoked s) (nat_string (c_serial old))"
    using h assms(2) o(1) by (auto simp: handleRenew_def split: if_splits)
  ultimately show ?thesis by blast
qed

lemma parsed_leaf:
  assumes "those (map f raw) = Some certs"
  shows "List.map_filter f raw = certs"
  using assms
proof (induction raw arbitrary: certs)
  case Nil
  then show ?case by (simp add: List.map_filter_def)
next
  case (Cons x raw)
  then show ?case by (auto simp: List.map_filter_simps split: option.splits)
qed

text \<open>
  C5: A renewal is granted only to whoever holds the private key of a current certificate: the connection
  completed a handshake with a chain whose key the peer proved to hold, whose first certificate is
  valid for client authentication under the endpoint's CA and not revoked, and the new certificate is
  for the same client id.
\<close>

theorem renewal_needs_key:
  assumes lib: "tl_parse T = x_parse_cert (el_x509 E)"
    and run: "enr_connection T E v host p stream s = (Some resp, s')" "rs_OK resp"
    and req: "enr_readFrame (el_request E) stream = Some (req, rest)" "rq_Type req = ''renew''"
  shows "\<exists>raw old chain new. p = Presents raw True \<and> those (map (tl_parse T) raw) = Some (old # chain) \<and>
     tl_Verify T (en_now v) \<lparr>vo_DNSName = '''', vo_Roots = [ca_Cert (es_CA s)], vo_Intermediates = chain, vo_KeyUsages = [ClientAuth]\<rparr> old \<and>
     \<not> IsRevoked (es_Revoked s) (nat_string (c_serial old)) \<and>
     ParseCertificate (el_x509 E) (rs_ClientCert resp) = Inr new \<and> c_CN new = c_CN old"
proof -
  obtain certs raw holds where h: "server_handshake T (en_now v) (enr_tls E s) p = Completes certs" "p = Presents raw holds"
      "enr_handleConn E v host raw stream s = (Some resp, s')"
    using enr_granted [OF run] by blast
  have certs: "those (map (tl_parse T) raw) = Some certs"
      "certs \<noteq> [] \<longrightarrow> holds \<and> tl_Verify T (en_now v) \<lparr>vo_DNSName = '''', vo_Roots = [ca_Cert (es_CA s)], vo_Intermediates = tl certs, vo_KeyUsages = [ClientAuth]\<rparr> (hd certs)"
    using enr_handshake [OF h(1)] h(2) by auto
  obtain old others expiresAt where o: "List.map_filter (x_parse_cert (el_x509 E)) raw = old # others"
      "\<not> IsRevoked (es_Revoked s) (nat_string (c_serial old))" "signFromCSR E v (rq_CSR req) s = Inr (rs_ClientCert resp, expiresAt, c_CN old)"
    using enr_renewed [OF h(3) run(2) req] by blast
  have leaf: "certs = old # others" using parsed_leaf [OF certs(1)] o(1) by (simp add: lib)
  obtain new where "ParseCertificate (el_x509 E) (rs_ClientCert resp) = Inr new" "c_CN new = c_CN old"
    using o(3) by (auto simp: signFromCSR_def split: sum.splits)
  then show ?thesis using h(2) certs o(2) unfolding leaf by auto
qed


section \<open>Connections that lead nowhere\<close>

text \<open>What a connection from \<open>h\<close> depends on: everything but the limiter's entries for other addresses.\<close>

definition es_view :: "string \<Rightarrow> 'l EnrollServer \<Rightarrow> 'l EnrollServer \<times> 'l ipState option" where
  "es_view h s = (s\<lparr>es_Limiter := []\<rparr>, mget (es_Limiter s) h)"

lemma es_view_limiter: "es_view h (s\<lparr>es_Limiter := l\<rparr>) = (s\<lparr>es_Limiter := []\<rparr>, mget l h)"
  by (simp add: es_view_def)

lemma es_view_eq: "es_view h s = es_view h t \<longleftrightarrow> (\<exists>l. s = t\<lparr>es_Limiter := l\<rparr> \<and> mget l h = mget (es_Limiter t) h)"
  by (cases s; cases t) (auto simp: es_view_def)

lemma lim_Allow_own:
  assumes "mget l h = mget l' h"
  shows "snd (lim_Allow L now h l) = snd (lim_Allow L now h l') \<and> mget (fst (lim_Allow L now h l)) h = mget (fst (lim_Allow L now h l')) h"
  using assms by (auto simp: lim_Allow_def Let_def split: prod.split option.split)

lemma Report_own: "mget l h = mget l' h \<Longrightarrow> mget (Report now h ok l) h = mget (Report now h ok l') h"
  by (auto simp: Report_def Let_def split: option.split)

lemma limiter_other:
  "h \<noteq> ip \<Longrightarrow> mget (fst (lim_Allow L now ip l)) h = mget l h" "h \<noteq> ip \<Longrightarrow> mget (Report now ip ok l) h = mget l h"
  by (auto simp: lim_Allow_def Report_def Let_def split: prod.split option.split)

lemma handle_without_limiter:
  "handleEnroll E v req (s\<lparr>es_Limiter := l\<rparr>) = apsnd (\<lambda>t. t\<lparr>es_Limiter := l\<rparr>) (handleEnroll E v req s)"
  "handleRenew E v peers req (s\<lparr>es_Limiter := l\<rparr>) = apsnd (\<lambda>t. t\<lparr>es_Limiter := l\<rparr>) (handleRenew E v peers req s)"
proof -
  have sign: "signFromCSR E v p (t\<lparr>es_Limiter := l\<rparr>) = signFromCSR E v p t" for p and t :: "'a EnrollServer" by (simp add: signFromCSR_def)
  have sign2: "signFromCSR E v p (t\<lparr>es_Limiter := l, es_Tokens := a, es_TokenFile := b\<rparr>) = signFromCSR E v p (t\<lparr>es_Tokens := a, es_TokenFile := b\<rparr>)"
    for p a b and t :: "'a EnrollServer" by (simp add: signFromCSR_def)
  show "handleEnroll E v req (s\<lparr>es_Limiter := l\<rparr>) = apsnd (\<lambda>t. t\<lparr>es_Limiter := l\<rparr>) (handleEnroll E v req s)"
    by (auto simp: handleEnroll_def sign2 okResponse_def pkiCertPEM_def Let_def split: prod.split sum.split option.split)
  show "handleRenew E v peers req (s\<lparr>es_Limiter := l\<rparr>) = apsnd (\<lambda>t. t\<lparr>es_Limiter := l\<rparr>) (handleRenew E v peers req s)"
    by (auto simp: handleRenew_def sign okResponse_def pkiCertPEM_def Let_def split: prod.split sum.split option.split list.split)
qed

lemma verifyPeer_limiter: "verifyPeerCertificate E now raw (s\<lparr>es_Limiter := l\<rparr>) = verifyPeerCertificate E now raw s"
  by (simp add: verifyPeerCertificate_def split: list.split option.split)

lemma enr_tls_limiter: "enr_tls E (s\<lparr>es_Limiter := l\<rparr>) = enr_tls E s"
  by (simp add: enr_tls_def verifyPeer_limiter)

lemma enr_handleConn_response:
  assumes "mget l h = mget (es_Limiter s) h"
  shows "fst (enr_handleConn E v h raw stream (s\<lparr>es_Limiter := l\<rparr>)) = fst (enr_handleConn E v h raw stream s)"
proof -
  obtain l1 a1 where l1: "lim_Allow (el_rate E) (en_now v) h l = (l1, a1)" by fastforce
  obtain l2 a2 where l2: "lim_Allow (el_rate E) (en_now v) h (es_Limiter s) = (l2, a2)" by fastforce
  have "a1 = a2" using lim_Allow_own [OF assms, of "el_rate E" "en_now v"] l1 l2 by simp
  have [simp]: "fst (apsnd f x) = fst x" for f :: "'x \<Rightarrow> 'y" and x :: "'z \<times> 'x" by (cases x) simp
  show ?thesis
    using \<open>a1 = a2\<close> by (simp add: enr_handleConn_def l1 l2 verifyPeer_limiter handle_without_limiter split_beta Let_def split: option.split)
qed

lemma enr_nowhere:
  assumes "enr_readFrame (el_request E) stream = None" and "h \<noteq> host"
  shows "es_view h (snd (enr_handleConn E v host raw stream s)) = es_view h s"
proof -
  obtain l a where l: "lim_Allow (el_rate E) (en_now v) host (es_Limiter s) = (l, a)" by fastforce
  then show ?thesis using assms limiter_other(1) [OF assms(2), of "el_rate E" "en_now v" "es_Limiter s"]
    by (auto simp: enr_handleConn_def es_view_def limiter_other Let_def)
qed


definition leads_nowhere :: "tls_lib \<Rightarrow> 'l enroll_lib \<Rightarrow> 'l EnrollServer \<Rightarrow> string \<Rightarrow> enr_arrival \<Rightarrow> bool" where
  "leads_nowhere T E s h a \<longleftrightarrow>
     (case a of EnrError temporary ended \<Rightarrow> temporary \<and> \<not> ended
      | EnrConn v host p stream \<Rightarrow> host \<noteq> h \<and>
          ((case server_handshake T (en_now v) (enr_tls E s) p of Completes _ \<Rightarrow> False | _ \<Rightarrow> True) \<or> enr_readFrame (el_request E) stream = None))"

lemma enr_connection_nowhere:
  assumes "leads_nowhere T E s h (EnrConn v host p stream)"
  shows "es_view h (snd (enr_connection T E v host p stream s)) = es_view h s"
  using assms enr_nowhere [of E stream h host v _ s] enr_nowhere [of E "[]" h host v "[]" s]
  by (auto simp: leads_nowhere_def enr_connection_def enr_readFrame_Nil split: handshake.splits)

lemma leads_nowhere_limiter: "leads_nowhere T E (s\<lparr>es_Limiter := l\<rparr>) h = leads_nowhere T E s h"
  by (rule ext) (simp add: leads_nowhere_def enr_tls_limiter split: enr_arrival.split)

lemma enr_Serve_nowhere:
  "list_all (leads_nowhere T E s h) as \<Longrightarrow> fst (enr_Serve T E as s) = EnrWaiting \<and> es_view h (snd (enr_Serve T E as s)) = es_view h s"
proof (induction T E as s rule: enr_Serve.induct)
  case (2 T E temporary ended as s)
  then show ?case by (auto simp: leads_nowhere_def)
next
  case (3 T E v host p stream as s)
  let ?t = "snd (enr_connection T E v host p stream s)"
  have same: "es_view h ?t = es_view h s" using 3(2) by (intro enr_connection_nowhere) simp
  then obtain l where "?t = s\<lparr>es_Limiter := l\<rparr>" by (auto simp: es_view_eq)
  then have "list_all (leads_nowhere T E ?t h) as" using 3(2) by (simp add: leads_nowhere_limiter)
  then show ?case using 3(1) same by simp
qed simp

text \<open>
  C31: Peers that never get as far as a request do not keep the endpoint from others: after any number of
  connections from other addresses that say nothing, do not speak TLS, present a refused certificate or
  send no complete request, and of temporary errors of the listener, the loop still accepts, no token and no
  registration has changed, and a connection from one more address gets the answer it would have got at once.
\<close>

theorem endpoint_keeps_serving:
  assumes "list_all (leads_nowhere T E s h) as"
  shows "\<exists>t. enr_Serve T E as s = (EnrWaiting, t) \<and> es_Tokens t = es_Tokens s \<and> es_TokenFile t = es_TokenFile s \<and>
     es_Registry t = es_Registry s \<and> es_Revoked t = es_Revoked s \<and>
     fst (enr_connection T E v h p stream t) = fst (enr_connection T E v h p stream s)"
proof -
  let ?t = "snd (enr_Serve T E as s)"
  obtain l where l: "?t = s\<lparr>es_Limiter := l\<rparr>" "mget l h = mget (es_Limiter s) h"
    using enr_Serve_nowhere [OF assms] by (auto simp: es_view_eq)
  have "fst (enr_connection T E v h p stream ?t) = fst (enr_connection T E v h p stream s)"
    unfolding l(1) by (simp add: enr_connection_def enr_tls_limiter enr_handleConn_response [OF l(2)] split: handshake.split)
  moreover have "enr_Serve T E as s = (EnrWaiting, ?t)" using enr_Serve_nowhere [OF assms] by (metis prod.collapse)
  ultimately show ?thesis using l(1) by (intro exI [of _ ?t]) simp
qed

definition open_tls :: tls_lib where
  "open_tls = \<lparr>tl_keypair = (\<lambda>_ _. True), tl_parse = x_parse_cert sample_x509, tl_Verify = (\<lambda>_ _ _. True)\<rparr>"

theorem endpoint_keeps_serving_witness:
  "\<exists>t. enr_Serve open_tls sample_lib
         [EnrConn enroll_answers ''5.6.7.8'' Silent [], EnrError True False, EnrConn enroll_answers ''5.6.7.8'' (Presents [[1]] True) [0]] sample_server =
       (EnrWaiting, t) \<and>
     fst (enr_connection open_tls sample_lib enroll_answers ''1.2.3.4'' (Presents [] True) [0, 0, 0, 1, 5] t) \<noteq> None"
proof -
  let ?as = "[EnrConn enroll_answers ''5.6.7.8'' Silent [], EnrError True False, EnrConn enroll_answers ''5.6.7.8'' (Presents [[1]] True) [0]]"
  have w: "list_all (leads_nowhere open_tls sample_lib sample_server ''1.2.3.4'') ?as"
    by (simp add: leads_nowhere_def server_handshake_def enr_tls_def open_tls_def sample_x509_def)
  have "fst (enr_connection open_tls sample_lib enroll_answers ''1.2.3.4'' (Presents [] True) [0, 0, 0, 1, 5] sample_server) \<noteq> None"
    by code_simp
  with endpoint_keeps_serving [OF w, of enroll_answers "Presents [] True" "[0, 0, 0, 1, 5]"] show ?thesis by metis
qed

definition renew_lib :: "unit enroll_lib" where
  "renew_lib = sample_lib\<lparr>el_request := (\<lambda>_. Some (sample_req\<lparr>rq_Type := ''renew''\<rparr>))\<rparr>"

theorem renewal_needs_key_witness:
  "\<exists>resp s' new. enr_connection open_tls renew_lib enroll_answers ''1.2.3.4'' (Presents [[9]] True) [0, 0, 0, 1, 5] sample_server = (Some resp, s') \<and>
     ParseCertificate sample_x509 (rs_ClientCert resp) = Inr new \<and> c_CN new = ''cl_77777777777777777777777774''"
proof -
  let ?r = "enr_connection open_tls renew_lib enroll_answers ''1.2.3.4'' (Presents [[9]] True) [0, 0, 0, 1, 5] sample_server"
  have "case fst ?r of None \<Rightarrow> False | Some resp \<Rightarrow> rs_OK resp" by code_simp
  then obtain resp where resp: "?r = (Some resp, snd ?r)" "rs_OK resp" by (metis option.case_eq_if option.collapse prod.collapse)
  have lib: "tl_parse open_tls = x_parse_cert (el_x509 renew_lib)" by (simp add: open_tls_def renew_lib_def sample_lib_def)
  have rd: "map_option fst (enr_readFrame (el_request renew_lib) [0, 0, 0, 1, 5]) = Some (sample_req\<lparr>rq_Type := ''renew''\<rparr>)" by code_simp
  then obtain rest where rest: "enr_readFrame (el_request renew_lib) [0, 0, 0, 1, 5] = Some (sample_req\<lparr>rq_Type := ''renew''\<rparr>, rest)" by auto
  have "c_CN sample_cert = ''cl_77777777777777777777777774''" by code_simp
  moreover have "x_parse_cert sample_x509 x = Some c \<Longrightarrow> c = sample_cert" for x c by (simp add: sample_x509_def split: if_splits)
  moreover have "el_x509 renew_lib = sample_x509" by (simp add: renew_lib_def sample_lib_def)
  ultimately show ?thesis
    using renewal_needs_key [OF lib resp rest] resp(1) lib by (auto split: option.splits) metis
qed


section \<open>Both ends\<close>

text \<open>
  What \<^verbatim>\<open>crypto/x509\<close> promises on top of \<open>x509_law\<close>: a certificate that was created under a CA verifies
  against it while it is valid, and the CA's certificate is read back from its own encoding.
\<close>

definition issuing_law :: "x509_lib \<Rightarrow> CA \<Rightarrow> bool" where
  "issuing_law X ca \<longleftrightarrow>
     (\<forall>t der c now. x_create X t ca = Some der \<longrightarrow> x_parse_cert X der = Some c \<longrightarrow> c_NotBefore t \<le> now \<longrightarrow> now \<le> c_NotAfter c \<longrightarrow>
        x_verify X now c (ca_Cert ca)) \<and>
     x_parse_cert X (c_Raw (ca_Cert ca)) = Some (ca_Cert ca)"

lemma signed_is_verified:
  assumes "x509_law X" and "issuing_law X ca" and "SignClientCertificate X now rnd (Some ca) csrPEM days = Inr out" and "ParseCertificate X out = Inr c"
    and "now \<le> later" and "later \<le> c_NotAfter c"
  shows "VerifyChain X later c (ca_Cert ca) = None"
proof -
  obtain req n where req: "ParseCSR X csrPEM = Inr req" and n: "randomSerial rnd = Some n"
    using assms(3) by (auto simp: SignClientCertificate_def split: sum.splits if_splits option.splits)
  obtain der where der: "x_create X (client_template now n ca req days) ca = Some der" "out = x_pem_encode X ''CERTIFICATE'' der"
    using assms(3) req n by (auto simp: SignClientCertificate_def split: if_splits option.splits)
  have "x_parse_cert X der = Some c"
    using assms(1,4) der(2) by (auto simp: ParseCertificate_def x509_law_def split: option.splits)
  moreover have "c_NotBefore (client_template now n ca req days) \<le> later" using assms(5) by (simp add: client_template_def Let_def)
  ultimately show ?thesis using assms(2,6) der(1) unfolding issuing_law_def VerifyChain_def by auto
qed

lemma granted_signed:
  assumes "x509_law (el_x509 E)" and "recs_wf (tok_byID (es_Tokens s))" and "enr_handleConn E v host raw stream s = (Some resp, s')" and "rs_OK resp"
    and "enr_readFrame (el_request E) stream = Some (req, rest)"
  shows "\<exists>expiresAt cn. signFromCSR E v (rq_CSR req) s = Inr (rs_ClientCert resp, expiresAt, cn) \<and> rs_CACert resp = pkiCertPEM E s"
proof -
  obtain lm a where al: "lim_Allow (el_rate E) (en_now v) host (es_Limiter s) = (lm, a)" by fastforce
  let ?s0 = "s\<lparr>es_Limiter := lm\<rparr>"
  have same: "signFromCSR E v (rq_CSR req) ?s0 = signFromCSR E v (rq_CSR req) s" by (simp add: signFromCSR_def)
  have pem: "handleEnroll E v req t = (resp, s1) \<Longrightarrow> rs_CACert resp = pkiCertPEM E t"
      "handleRenew E v peers req t = (resp, s1) \<Longrightarrow> rs_CACert resp = pkiCertPEM E t" for t s1 peers
    using assms(4) by (auto simp: handleEnroll_def handleRenew_def okResponse_def pkiCertPEM_def Let_def
        split: sum.splits prod.splits if_splits option.splits list.splits)
  have pem0: "pkiCertPEM E ?s0 = pkiCertPEM E s" by (simp add: pkiCertPEM_def)
  consider s1 where "handleEnroll E v req ?s0 = (resp, s1)" | peers s1 where "handleRenew E v peers req ?s0 = (resp, s1)"
    using assms(3-5) al by (auto simp: enr_handleConn_def Let_def split: if_splits prod.splits)
  then show ?thesis
  proof cases
    case 1
    then show ?thesis using handleEnroll_ok [OF assms(1) _ 1 assms(4)] assms(2) pem(1) [OF 1] same pem0 by auto
  next
    case 2
    then show ?thesis using handleRenew_ok [OF 2 assms(4)] pem(2) [OF 2] same pem0 by auto
  qed
qed


text \<open>\<^verbatim>\<open>encoding/json\<close> for the two messages: what one side writes the other reads back.\<close>

record enroll_codec =
  ec_request :: "Request \<Rightarrow> bytes option"
  ec_response :: "Response \<Rightarrow> bytes option"
  ec_read_response :: "bytes \<Rightarrow> Response option"

definition codec_law :: "'l enroll_lib \<Rightarrow> enroll_codec \<Rightarrow> bool" where
  "codec_law E C \<longleftrightarrow>
     (\<forall>req bs. ec_request C req = Some bs \<longrightarrow> bs \<noteq> [] \<and> el_request E bs = Some req) \<and>
     (\<forall>resp bs. ec_response C resp = Some bs \<longrightarrow> bs \<noteq> [] \<and> ec_read_response C bs = Some resp)"

definition wire :: "bytes option \<Rightarrow> bytes" where
  "wire data = (case enr_writeFrame data of None \<Rightarrow> [] | Some bs \<Rightarrow> bs)"

text \<open>
  An exchange between the two programs: \<open>peers\<close> is the chain the endpoint presents and \<open>cnow\<close> the client's
  clock. A client that refuses the endpoint's certificate breaks off the handshake.
\<close>

definition enr_exchange ::
  "tls_lib \<Rightarrow> 'l enroll_lib \<Rightarrow> enroll_codec \<Rightarrow> (string \<Rightarrow> instant option) \<Rightarrow> (string \<Rightarrow> nat \<Rightarrow> bytes list option) \<Rightarrow> bool \<Rightarrow> enroll_env \<Rightarrow> instant
   \<Rightarrow> certificate list \<Rightarrow> string \<Rightarrow> string \<Rightarrow> enroll_options \<Rightarrow> 'l EnrollServer
   \<Rightarrow> (enroll_client_error + EnrollResult) \<times> 'l EnrollServer" where
  "enr_exchange T E C parse_time keypair asked v cnow peers addr host opts s =
     (let data = ec_request C (enroll_request opts);
          accepted = snd (VerifyConnection (el_sha256 E) (eo_CAFingerprint opts) peers);
          p = (if accepted then enr_presents keypair asked opts else NotTLS);
          (ans, s1) = enr_connection T E v host p (wire data) s;
          shaken = (case server_handshake T (en_now v) (enr_tls E s) p of Completes _ \<Rightarrow> True | _ \<Rightarrow> False);
          reply = (case ans of None \<Rightarrow> [] | Some resp \<Rightarrow> wire (ec_response C resp))
      in (Enroll (el_x509 E) (el_sha256 E) (ec_read_response C) parse_time cnow addr opts
            (case enr_tlsConfig keypair opts of Inl _ \<Rightarrow> False | Inr _ \<Rightarrow> True) True shaken peers data reply, s1))"

lemma wire_read:
  assumes "data = Some bs" and "bs \<noteq> []" and "length bs \<le> maxFrameSize" and "dec bs = Some x"
  shows "enr_readFrame dec (wire data) = Some (x, []) \<and> enr_writeFrame data \<noteq> None"
proof -
  have "enr_frame bs = Some (wire data)" using assms(1-3) by (simp add: enr_frame_def enr_writeFrame_def wire_def)
  then have "enr_readFrame Some (wire data) = Some (bs, [])" using enf.dec_enc [of bs "wire data" "[]"] by simp
  then show ?thesis using assms by (auto simp: enr_readFrame_def enr_writeFrame_def Let_def split: sum.splits option.splits if_splits)
qed

text \<open>
  C15: The two ends agree on the outcome: when the exchange of messages takes place, the client takes on
  whatever the endpoint grants, with the certificate, the id of its own request, the endpoint's CA and the
  fingerprint it saw; and it reports a refusal with the endpoint's reason. It needs the clocks not to be
  apart by more than the certificate's validity, and the key of the request.
\<close>

theorem exchange_agrees:
  assumes law: "x509_law (el_x509 E)" "issuing_law (el_x509 E) (es_CA s)" "codec_law E C" and wf: "recs_wf (tok_byID (es_Tokens s))"
    and client: "SplitHostPort addr \<noteq> None" "enr_tlsConfig keypair opts = Inr raw"
      "VerifyConnection (el_sha256 E) (eo_CAFingerprint opts) peers = (Some fp, True)"
    and tls: "server_handshake T (en_now v) (enr_tls E s) (Presents (if asked then raw else []) True) = Completes certs"
    and sent: "ec_request C (enroll_request opts) = Some q" "length q \<le> maxFrameSize"
    and run: "enr_connection T E v host (Presents (if asked then raw else []) True) (wire (Some q)) s = (Some resp, s')"
    and answered: "ec_response C resp = Some a" "length a \<le> maxFrameSize"
    and key: "\<And>k csr. eo_ClientKey opts = Some k \<Longrightarrow> ParseCSR (el_x509 E) (eo_CSR opts) = Inr csr \<Longrightarrow> csr_key csr = k"
    and clock: "en_now v \<le> cnow" "\<And>c. ParseCertificate (el_x509 E) (rs_ClientCert resp) = Inr c \<Longrightarrow> cnow \<le> c_NotAfter c"
  shows "snd (enr_exchange T E C parse_time keypair asked v cnow peers addr host opts s) = s' \<and>
     (if rs_OK resp
      then \<exists>res csr. fst (enr_exchange T E C parse_time keypair asked v cnow peers addr host opts s) = Inr res \<and>
        ParseCSR (el_x509 E) (eo_CSR opts) = Inr csr \<and> er_ClientID res = csr_CN csr \<and>
        er_ClientCertPEM res = rs_ClientCert resp \<and> er_CACertPEM res = pkiCertPEM E s \<and> er_CAFingerprint res = fp
      else fst (enr_exchange T E C parse_time keypair asked v cnow peers addr host opts s) = Inl (ServerRefused (rs_Error resp)))"
proof -
  let ?X = "el_x509 E"
  have q: "enr_readFrame (el_request E) (wire (Some q)) = Some (enroll_request opts, [])" "enr_writeFrame (Some q) \<noteq> None"
    using wire_read [of "Some q" q "el_request E" "enroll_request opts"] law(3) sent by (auto simp: codec_law_def)
  have a: "enr_readFrame (ec_read_response C) (wire (Some a)) = Some (resp, [])"
    using wire_read [of "Some a" a "ec_read_response C" resp] law(3) answered by (auto simp: codec_law_def)
  have ex: "enr_exchange T E C parse_time keypair asked v cnow peers addr host opts s = (checkResponse ?X cnow parse_time opts fp resp, s')"
    using client tls sent run answered a q(2) by (auto simp: enr_exchange_def enr_presents_def Enroll_def Let_def)
  have conn: "enr_handleConn E v host (if asked then raw else []) (wire (Some q)) s = (Some resp, s')"
    using run tls by (simp add: enr_connection_def)
  have "\<exists>res csr. checkResponse ?X cnow parse_time opts fp resp = Inr res \<and> ParseCSR ?X (eo_CSR opts) = Inr csr \<and> er_ClientID res = csr_CN csr \<and>
      er_ClientCertPEM res = rs_ClientCert resp \<and> er_CACertPEM res = pkiCertPEM E s \<and> er_CAFingerprint res = fp" if ok: "rs_OK resp"
  proof -
    obtain expiresAt cn where sg: "signFromCSR E v (eo_CSR opts) s = Inr (rs_ClientCert resp, expiresAt, cn)" "rs_CACert resp = pkiCertPEM E s"
      using granted_signed [OF law(1) wf conn ok q(1)] by (auto simp: enroll_request_def)
    then have sign: "SignClientCertificate ?X (en_now v) (en_rnd v) (Some (es_CA s)) (eo_CSR opts) (es_ValidityDays s) = Inr (rs_ClientCert resp)"
      by (auto simp: signFromCSR_def split: sum.splits)
    obtain c csr where c: "ParseCertificate ?X (rs_ClientCert resp) = Inr c" "ParseCSR ?X (eo_CSR opts) = Inr csr" "c_CN c = csr_CN csr"
        "ValidateClientID (c_CN c)" "c_key c = csr_key csr"
      using SignClientCertificate_parsed [OF law(1) sign] by blast
    have "VerifyChain ?X cnow c (ca_Cert (es_CA s)) = None"
      using signed_is_verified [OF law(1,2) sign c(1) clock(1)] clock(2) [OF c(1)] by simp
    moreover have "ParseCertificate ?X (rs_CACert resp) = Inr (ca_Cert (es_CA s))"
      using law(1,2) sg(2) by (simp add: ParseCertificate_def pkiCertPEM_def x509_law_def issuing_law_def)
    moreover have "c_CN c \<noteq> ''''" using c(4) by (auto simp: ValidateClientID_def)
    moreover have "eo_ClientKey opts = None \<or> eo_ClientKey opts = Some (c_key c)"
      using key [OF _ c(2)] c(5) by (cases "eo_ClientKey opts") auto
    ultimately show ?thesis using ok c sg(2) by (auto simp: checkResponse_def)
  qed
  then show ?thesis using ex by (auto simp: checkResponse_def)
qed


definition pair_x509 :: x509_lib where
  "pair_x509 = sample_x509\<lparr>x_parse_cert := (\<lambda>der. if der = [9] then Some sample_cert else if der = [8] then Some (ca_Cert sample_ca) else None)\<rparr>"

definition pair_lib :: "unit enroll_lib" where
  "pair_lib = sample_lib\<lparr>el_x509 := pair_x509\<rparr>"

definition granted_response :: Response where
  "granted_response = okResponse pair_lib (plain_pem ''CERTIFICATE'' [9]) '''' sample_server"

definition pair_codec :: enroll_codec where
  "pair_codec = \<lparr>ec_request = (\<lambda>req. if req = sample_req then Some [5] else None),
     ec_response = (\<lambda>resp. if resp = granted_response then Some [6] else None), ec_read_response = (\<lambda>_. Some granted_response)\<rparr>"

definition new_client :: enroll_options where
  "new_client = \<lparr>eo_Token = ''t'', eo_CSR = plain_pem ''CERTIFICATE REQUEST'' [], eo_Meta = rq_Meta sample_req, eo_CAFingerprint = '''',
     eo_ClientCert = '''', eo_ClientKey = Some 5\<rparr>"

lemma pair_laws: "x509_law (el_x509 pair_lib)" "issuing_law (el_x509 pair_lib) (es_CA sample_server)" "codec_law pair_lib pair_codec"
  by (auto simp: x509_law_def issuing_law_def codec_law_def pair_lib_def pair_x509_def sample_x509_def sample_server_def sample_ca_def
      pair_codec_def sample_lib_def read_plain_pem split: if_splits)

theorem exchange_agrees_witness:
  "\<exists>res. fst (enr_exchange open_tls pair_lib pair_codec (\<lambda>_. None) (\<lambda>_ _. None) False enroll_answers 0 [ca_Cert sample_ca] ''h:1'' ''1.2.3.4'' new_client sample_server)
     = Inr res \<and> er_ClientID res = ''cl_77777777777777777777777774''"
proof -
  let ?run = "enr_connection open_tls pair_lib enroll_answers ''1.2.3.4'' (Presents (if False then [] else []) True) (wire (Some [5])) sample_server"
  have ans: "fst ?run = Some granted_response" by code_simp
  then have run: "?run = (Some granted_response, snd ?run)" by (metis prod.collapse)
  have wf: "recs_wf (tok_byID (es_Tokens sample_server))" by (simp add: recs_wf_def mwf_def sample_server_def sample_record_def)
  have addr: "SplitHostPort ''h:1'' \<noteq> None" by code_simp
  have cfg: "enr_tlsConfig (\<lambda>_ _. None) new_client = Inr []" by (simp add: enr_tlsConfig_def new_client_def)
  obtain fp where fp: "VerifyConnection (el_sha256 pair_lib) (eo_CAFingerprint new_client) [ca_Cert sample_ca] = (Some fp, True)"
    by (simp add: VerifyConnection_def new_client_def Let_def)
  have tls: "server_handshake open_tls (en_now enroll_answers) (enr_tls pair_lib sample_server) (Presents (if False then [] else []) True) = Completes []"
    by (simp add: server_handshake_def enr_tls_def verifyPeerCertificate_def)
  have req: "enroll_request new_client = sample_req" by (simp add: enroll_request_def new_client_def sample_req_def)
  have sent: "ec_request pair_codec (enroll_request new_client) = Some [5]" "ec_response pair_codec granted_response = Some [6]"
    by (simp_all add: pair_codec_def req)
  have short: "length ([5] :: bytes) \<le> maxFrameSize" "length ([6] :: bytes) \<le> maxFrameSize" by simp_all
  have csr: "ParseCSR (el_x509 pair_lib) (eo_CSR new_client) = Inr sample_csr" by code_simp
  have key: "csr_key csr = k" if "eo_ClientKey new_client = Some k" "ParseCSR (el_x509 pair_lib) (eo_CSR new_client) = Inr csr" for k csr
    using that csr by (simp add: new_client_def sample_csr_def)
  have "0 \<le> c_NotAfter (ca_Cert sample_ca) \<and> 0 \<le> c_NotAfter sample_cert" by code_simp
  then have clock: "0 \<le> c_NotAfter c" if "ParseCertificate (el_x509 pair_lib) (rs_ClientCert granted_response) = Inr c" for c
    using that by (auto simp: ParseCertificate_def pair_lib_def pair_x509_def split: option.splits if_splits)
  have now: "en_now enroll_answers \<le> 0" by (simp add: enroll_answers_def)
  have "rs_OK granted_response" by code_simp
  with exchange_agrees [OF pair_laws wf addr cfg fp tls sent(1) short(1) run sent(2) short(2) key now clock, of "\<lambda>_. None"] csr
  show ?thesis by (auto simp: sample_csr_def)
qed

end
