(* ===== verification/Resolve.thy ===== *)
theory Resolve
  imports Config Snapshot
begin

text \<open>
  \<^verbatim>\<open>internal/config/resolve.go\<close> and \<^verbatim>\<open>check.go\<close>: how a configuration is put together from the defaults, a
  file, the environment and the command line. The code walks its structs by reflection; a struct value
  is therefore a tree \<open>rv\<close> of tagged fields, and \<open>server_value\<close> and \<open>client_value\<close> write the two
  configurations as such trees. The TOML library is an argument: it answers whether a file decodes
  strictly into the typed struct, and gives its untyped table. The lemmas show that overlays keep every
  field of its kind, so that the tree is a configuration again, and that the precedence is command line,
  environment, file, default, field by field.
\<close>

section \<open>Values\<close>

text \<open>The values of a decoded TOML document or of an overlay.\<close>

datatype tv =
    TString string
  | TBool bool
  | TInt int
  | TFloat rat
  | TStrings "string list"
  | TArray "tv list"
  | TTable "(string \<times> tv) list"
  | TDatetime

text \<open>A reflected value; a slice of structs carries the zero value of its elements.\<close>

datatype rv =
    RString string
  | RBool bool
  | RInt int
  | RFloat rat
  | RStrings "string list"
  | RTables "(string \<times> rv) list" "(string \<times> rv) list list"
  | RStruct "(string \<times> rv) list"

datatype ov_error =
    ExpectedString
  | InvalidBool
  | InvalidInt
  | InvalidFloat
  | UnsupportedElem
  | NotASliceValue
  | NotATable
  | InElement ov_error
  | UnsupportedKind
  | UnknownField string
  | NotAStruct
  | ReflectPanic

record overlay =
  Path :: string
  Value :: tv

text \<open>The formatting and parsing of \<^verbatim>\<open>float64\<close> are arguments.\<close>

record float_lib =
  fl_format :: "rat \<Rightarrow> string"
  fl_parse :: "string \<Rightarrow> rat option"

text \<open>
  \<^verbatim>\<open>fmt.Sprint\<close>; what it prints for a slice, a table or a date is neither a number nor a truth value, and
  stands here as an opening bracket.
\<close>

fun Sprint :: "float_lib \<Rightarrow> tv \<Rightarrow> string" where
  "Sprint F (TString s) = s"
| "Sprint F (TBool b) = (if b then ''true'' else ''false'')"
| "Sprint F (TInt n) = Itoa n"
| "Sprint F (TFloat r) = fl_format F r"
| "Sprint F _ = ''[''"

definition ParseBool :: "string \<Rightarrow> bool option" where
  "ParseBool s =
     (if s \<in> {''1'', ''t'', ''T'', ''TRUE'', ''true'', ''True''} then Some True
      else if s \<in> {''0'', ''f'', ''F'', ''FALSE'', ''false'', ''False''} then Some False
      else None)"

section \<open>Setting a field\<close>

text \<open>
  \<^verbatim>\<open>setField\<close> and \<^verbatim>\<open>buildFromMap\<close>, which call each other for a slice of tables. Tables are taken in the order
  of their keys; \<open>tv_sorted\<close> puts them into it at every depth.
\<close>

primrec tv_sorted :: "tv \<Rightarrow> tv" where
  "tv_sorted (TString s) = TString s"
| "tv_sorted (TBool b) = TBool b"
| "tv_sorted (TInt n) = TInt n"
| "tv_sorted (TFloat r) = TFloat r"
| "tv_sorted (TStrings ss) = TStrings ss"
| "tv_sorted (TArray vs) = TArray (map tv_sorted vs)"
| "tv_sorted (TTable m) = TTable (sort_by fst (map (map_prod id tv_sorted) m))"
| "tv_sorted TDatetime = TDatetime"

fun set_rv :: "float_lib \<Rightarrow> rv \<Rightarrow> tv \<Rightarrow> ov_error + rv"
  and elems :: "float_lib \<Rightarrow> (string \<times> rv) list \<Rightarrow> tv list \<Rightarrow> ov_error + (string \<times> rv) list list"
  and buildFromMap :: "float_lib \<Rightarrow> (string \<times> rv) list \<Rightarrow> (string \<times> tv) list \<Rightarrow> ov_error + (string \<times> rv) list" where
  "set_rv F (RString _) v = (case v of TString s \<Rightarrow> Inr (RString s) | _ \<Rightarrow> Inl ExpectedString)"
| "set_rv F (RBool _) v = (case ParseBool (Sprint F v) of Some b \<Rightarrow> Inr (RBool b) | None \<Rightarrow> Inl InvalidBool)"
| "set_rv F (RInt _) v = (case Atoi (Sprint F v) of Some n \<Rightarrow> Inr (RInt n) | None \<Rightarrow> Inl InvalidInt)"
| "set_rv F (RFloat _) v = (case fl_parse F (Sprint F v) of Some r \<Rightarrow> Inr (RFloat r) | None \<Rightarrow> Inl InvalidFloat)"
| "set_rv F (RStrings _) v =
     (case v of TStrings ss \<Rightarrow> Inr (RStrings ss) | TArray _ \<Rightarrow> Inl UnsupportedElem | _ \<Rightarrow> Inl NotASliceValue)"
| "set_rv F (RTables p _) v =
     (case v of TStrings ss \<Rightarrow> Inl UnsupportedElem | TArray vs \<Rightarrow> map_sum id (RTables p) (elems F p vs) | _ \<Rightarrow> Inl NotASliceValue)"
| "set_rv F (RStruct _) v = Inl UnsupportedKind"
| "elems F p [] = Inr []"
| "elems F p (v # vs) =
     (case v of
        TTable m \<Rightarrow>
          (case buildFromMap F p m of Inl e \<Rightarrow> Inl (InElement e)
           | Inr x \<Rightarrow> (case elems F p vs of Inl e \<Rightarrow> Inl e | Inr xs \<Rightarrow> Inr (x # xs)))
      | _ \<Rightarrow> Inl NotATable)"
| "buildFromMap F fs [] = Inr fs"
| "buildFromMap F fs ((k, v) # m) =
     (case mget fs k of None \<Rightarrow> Inl (UnknownField k)
      | Some fv \<Rightarrow>
          (case (case v of
                   TTable sub \<Rightarrow> (case fv of RStruct gs \<Rightarrow> map_sum id RStruct (buildFromMap F gs sub) | _ \<Rightarrow> Inl ReflectPanic)
                 | _ \<Rightarrow> set_rv F fv v) of
             Inl e \<Rightarrow> Inl e
           | Inr fv' \<Rightarrow> buildFromMap F (mput k fv' fs) m))"

definition setField :: "float_lib \<Rightarrow> rv \<Rightarrow> tv \<Rightarrow> ov_error + rv" where
  "setField F fv v = set_rv F fv (tv_sorted v)"

section \<open>Applying overlays\<close>

fun applyOne :: "float_lib \<Rightarrow> rv \<Rightarrow> string list \<Rightarrow> tv \<Rightarrow> ov_error + rv" where
  "applyOne F (RStruct fs) (tag # rest) v =
     (case mget fs tag of None \<Rightarrow> Inl (UnknownField tag)
      | Some fv \<Rightarrow>
          (case (if rest = [] then setField F fv v else applyOne F fv rest v) of
             Inl e \<Rightarrow> Inl e | Inr fv' \<Rightarrow> Inr (RStruct (mput tag fv' fs))))"
| "applyOne F _ _ v = Inl NotAStruct"

fun ApplyOverlays :: "float_lib \<Rightarrow> rv \<Rightarrow> overlay list \<Rightarrow> ov_error + rv" where
  "ApplyOverlays F cfg [] = Inr cfg"
| "ApplyOverlays F cfg (ov # ovs) =
     (case applyOne F cfg (split_on (CHR ''.'') (Path ov)) (Value ov) of
        Inl e \<Rightarrow> Inl e | Inr cfg' \<Rightarrow> ApplyOverlays F cfg' ovs)"

text \<open>
  The leaf paths of a struct, in field order; slices have no environment variable. The path is dotted
  from the outermost field.
\<close>

definition join_path :: "string \<Rightarrow> string \<Rightarrow> string" where
  "join_path prefix tag = (if prefix \<noteq> '''' then prefix @ ''.'' @ tag else tag)"

fun walkLeaves :: "(string \<times> rv) list \<Rightarrow> string \<Rightarrow> string list" where
  "walkLeaves [] prefix = []"
| "walkLeaves ((tag, RStruct gs) # fs) prefix = walkLeaves gs (join_path prefix tag) @ walkLeaves fs prefix"
| "walkLeaves ((tag, RStrings _) # fs) prefix = walkLeaves fs prefix"
| "walkLeaves ((tag, RTables _ _) # fs) prefix = walkLeaves fs prefix"
| "walkLeaves ((tag, fv) # fs) prefix = join_path prefix tag # walkLeaves fs prefix"

text \<open>The tags are ASCII, so that the upper case is the ASCII one.\<close>

definition env_key :: "string \<Rightarrow> string" where
  "env_key path = ''QOQTUN_'' @ map (\<lambda>c. if c = CHR ''.'' then CHR ''_'' else if is_lower c then char_of (code c - 32) else c) path"

definition envOverlaysFor :: "rv \<Rightarrow> (string \<Rightarrow> string) \<Rightarrow> overlay list" where
  "envOverlaysFor cfg getenv =
     (case cfg of RStruct fs \<Rightarrow>
        map (\<lambda>path. \<lparr>Path = path, Value = TString (getenv (env_key path))\<rparr>)
          (filter (\<lambda>path. getenv (env_key path) \<noteq> '''') (walkLeaves fs ''''))
      | _ \<Rightarrow> [])"

text \<open>The fields a file sets. An array all of whose elements are strings becomes a slice of strings.\<close>

fun all_strings :: "tv list \<Rightarrow> string list option" where
  "all_strings [] = Some []"
| "all_strings (TString s # vs) = map_option ((#) s) (all_strings vs)"
| "all_strings (v # vs) = None"

fun walk :: "string \<Rightarrow> (string \<times> tv) list \<Rightarrow> overlay list" where
  "walk prefix [] = []"
| "walk prefix ((k, TTable sub) # m) = walk (join_path prefix k) sub @ walk prefix m"
| "walk prefix ((k, TArray vs) # m) =
     \<lparr>Path = join_path prefix k, Value = (case all_strings vs of Some ss \<Rightarrow> TStrings ss | None \<Rightarrow> TArray vs)\<rparr> # walk prefix m"
| "walk prefix ((k, v) # m) = \<lparr>Path = join_path prefix k, Value = v\<rparr> # walk prefix m"

definition fileOverlays :: "(string \<times> tv) list \<Rightarrow> overlay list" where
  "fileOverlays m = (case tv_sorted (TTable m) of TTable m' \<Rightarrow> walk '''' m' | _ \<Rightarrow> [])"

section \<open>Loading and resolving\<close>

text \<open>
  The TOML library: whether the text decodes into the server or the client struct without an unknown
  field, and its table. A file that cannot be read is \<open>None\<close>.
\<close>

record toml_lib =
  to_server :: "bytes \<Rightarrow> ServerConfig option"
  to_client :: "bytes \<Rightarrow> ClientConfig option"
  to_table :: "bytes \<Rightarrow> (string \<times> tv) list option"

datatype resolve_error = ReadError | ParseError | OverlayError ov_error | ConfigError string

definition LoadServer :: "toml_lib \<Rightarrow> bytes option \<Rightarrow> resolve_error + ServerConfig" where
  "LoadServer T rd =
     (case rd of None \<Rightarrow> Inl ReadError
      | Some data \<Rightarrow> (case to_server T data of None \<Rightarrow> Inl ParseError | Some c \<Rightarrow> Inr c))"

definition LoadClient :: "toml_lib \<Rightarrow> bytes option \<Rightarrow> resolve_error + ClientConfig" where
  "LoadClient T rd =
     (case rd of None \<Rightarrow> Inl ReadError
      | Some data \<Rightarrow> (case to_client T data of None \<Rightarrow> Inl ParseError | Some c \<Rightarrow> Inr c))"

definition file_table :: "toml_lib \<Rightarrow> bytes \<Rightarrow> resolve_error + overlay list" where
  "file_table T data = (case to_table T data of None \<Rightarrow> Inl ParseError | Some m \<Rightarrow> Inr (fileOverlays m))"

definition LoadServerOverlays :: "toml_lib \<Rightarrow> bytes option \<Rightarrow> resolve_error + overlay list" where
  "LoadServerOverlays T rd =
     (case rd of None \<Rightarrow> Inl ReadError
      | Some data \<Rightarrow> (case to_server T data of None \<Rightarrow> Inl ParseError | Some _ \<Rightarrow> file_table T data))"

definition LoadClientOverlays :: "toml_lib \<Rightarrow> bytes option \<Rightarrow> resolve_error + overlay list" where
  "LoadClientOverlays T rd =
     (case rd of None \<Rightarrow> Inl ReadError
      | Some data \<Rightarrow> (case to_client T data of None \<Rightarrow> Inl ParseError | Some _ \<Rightarrow> file_table T data))"

text \<open>The two configurations as reflected structs, with their tags.\<close>

definition server_value :: "ServerConfig \<Rightarrow> rv" where
  "server_value c = RStruct
     [(''state_dir'', RString (StateDir c)),
      (''listen'', RStruct [(''control_addr'', RString (ControlAddr c)), (''enroll_addr'', RString (EnrollAddr c)),
         (''enroll_enabled'', RBool (EnrollEnabled c)), (''http_vhost_port'', RInt (HTTPVhostPort c))]),
      (''policy'', RStruct [(''allowed_ports'', RStrings (cp_AllowedPorts c)), (''max_tunnels_per_client'', RInt (MaxTunnelsPerClient c)),
         (''max_conns_per_client'', RInt (MaxConnsPerClient c)), (''max_conns_per_tunnel'', RInt (MaxConnsPerTunnel c)),
         (''bandwidth_bps_per_client'', RInt (BandwidthBpsPerClient c)), (''bandwidth_bps_per_tunnel'', RInt (BandwidthBpsPerTunnel c)),
         (''allowed_targets'', RStrings (cp_AllowedTargets c)), (''udp_max_sessions_per_tunnel'', RInt (UDPMaxSessionsPerTunnel c)),
         (''udp_max_packet'', RInt (cp_UDPMaxPacket c)), (''udp_session_idle_timeout'', RString (UDPSessionIdleTimeout c))]),
      (''heartbeat'', RStruct [(''interval_s'', RInt (hb_IntervalS c)), (''timeout_s'', RInt (hb_TimeoutS c)), (''miss_threshold'', RInt (hb_MissThreshold c))]),
      (''pki'', RStruct [(''ca_validity_years'', RInt (CAValidityYears c)), (''client_cert_validity_days'', RInt (ClientCertValidityDays c)),
         (''token_ttl'', RString (TokenTTL c))]),
      (''logging'', RStruct [(''level'', RString (log_Level c)), (''format'', RString (log_Format c)), (''file'', RString (log_File c))])]"

definition tunnel_value :: "TunnelConfig \<Rightarrow> (string \<times> rv) list" where
  "tunnel_value t =
     [(''name'', RString (tc_Name t)), (''type'', RString (tc_Type t)), (''remote_port'', RInt (tc_RemotePort t)), (''local_ip'', RString (tc_LocalIP t)),
      (''local_port'', RInt (tc_LocalPort t)), (''http_host'', RString (tc_HTTPHost t)), (''enabled'', RBool (tc_Enabled t)),
      (''idle_timeout'', RString (tc_IdleTimeout t))]"

definition zero_tunnel :: TunnelConfig where
  "zero_tunnel = \<lparr>tc_Name = '''', tc_Type = '''', tc_RemotePort = 0, tc_LocalIP = '''', tc_LocalPort = 0, tc_HTTPHost = '''',
     tc_Enabled = False, tc_IdleTimeout = ''''\<rparr>"

definition client_value :: "ClientConfig \<Rightarrow> rv" where
  "client_value c = RStruct
     [(''server_addr'', RString (ServerAddr c)), (''ca_fingerprint'', RString (CAFingerprint c)),
      (''reconnect'', RStruct [(''initial_backoff'', RString (InitialBackoff c)), (''max_backoff'', RString (MaxBackoff c)), (''jitter'', RFloat (Jitter c))]),
      (''heartbeat'', RStruct [(''enabled'', RBool (HeartbeatEnabled c))]),
      (''logging'', RStruct [(''level'', RString (cl_Level c)), (''format'', RString (cl_Format c)), (''file'', RString (cl_File c))]),
      (''tunnels'', RTables (tunnel_value zero_tunnel) (map tunnel_value (cc_Tunnels c)))]"

text \<open>Reading a struct back.\<close>

fun get_at :: "string list \<Rightarrow> rv \<Rightarrow> rv option" where
  "get_at [] v = Some v"
| "get_at (tag # rest) (RStruct fs) = (case mget fs tag of None \<Rightarrow> None | Some fv \<Rightarrow> get_at rest fv)"
| "get_at (tag # rest) _ = None"

fun the_string :: "rv option \<Rightarrow> string" where
  "the_string (Some (RString s)) = s"
| "the_string _ = ''''"

fun the_int :: "rv option \<Rightarrow> int" where
  "the_int (Some (RInt n)) = n"
| "the_int _ = 0"

fun the_bool :: "rv option \<Rightarrow> bool" where
  "the_bool (Some (RBool b)) = b"
| "the_bool _ = False"

fun the_float :: "rv option \<Rightarrow> rat" where
  "the_float (Some (RFloat r)) = r"
| "the_float _ = 0"

fun the_strings :: "rv option \<Rightarrow> string list" where
  "the_strings (Some (RStrings ss)) = ss"
| "the_strings _ = []"

fun the_tables :: "rv option \<Rightarrow> (string \<times> rv) list list" where
  "the_tables (Some (RTables p es)) = es"
| "the_tables _ = []"

definition server_of :: "rv \<Rightarrow> ServerConfig" where
  "server_of v =
     \<lparr>StateDir = the_string (get_at [''state_dir''] v), ControlAddr = the_string (get_at [''listen'', ''control_addr''] v),
      EnrollAddr = the_string (get_at [''listen'', ''enroll_addr''] v), EnrollEnabled = the_bool (get_at [''listen'', ''enroll_enabled''] v),
      HTTPVhostPort = the_int (get_at [''listen'', ''http_vhost_port''] v), cp_AllowedPorts = the_strings (get_at [''policy'', ''allowed_ports''] v),
      MaxTunnelsPerClient = the_int (get_at [''policy'', ''max_tunnels_per_client''] v),
      MaxConnsPerClient = the_int (get_at [''policy'', ''max_conns_per_client''] v), MaxConnsPerTunnel = the_int (get_at [''policy'', ''max_conns_per_tunnel''] v),
      BandwidthBpsPerClient = the_int (get_at [''policy'', ''bandwidth_bps_per_client''] v),
      BandwidthBpsPerTunnel = the_int (get_at [''policy'', ''bandwidth_bps_per_tunnel''] v),
      cp_AllowedTargets = the_strings (get_at [''policy'', ''allowed_targets''] v),
      UDPMaxSessionsPerTunnel = the_int (get_at [''policy'', ''udp_max_sessions_per_tunnel''] v),
      cp_UDPMaxPacket = the_int (get_at [''policy'', ''udp_max_packet''] v), UDPSessionIdleTimeout = the_string (get_at [''policy'', ''udp_session_idle_timeout''] v),
      hb_IntervalS = the_int (get_at [''heartbeat'', ''interval_s''] v), hb_TimeoutS = the_int (get_at [''heartbeat'', ''timeout_s''] v),
      hb_MissThreshold = the_int (get_at [''heartbeat'', ''miss_threshold''] v), CAValidityYears = the_int (get_at [''pki'', ''ca_validity_years''] v),
      ClientCertValidityDays = the_int (get_at [''pki'', ''client_cert_validity_days''] v), TokenTTL = the_string (get_at [''pki'', ''token_ttl''] v),
      log_Level = the_string (get_at [''logging'', ''level''] v), log_Format = the_string (get_at [''logging'', ''format''] v),
      log_File = the_string (get_at [''logging'', ''file''] v)\<rparr>"

definition tunnel_of :: "(string \<times> rv) list \<Rightarrow> TunnelConfig" where
  "tunnel_of fs =
     \<lparr>tc_Name = the_string (mget fs ''name''), tc_Type = the_string (mget fs ''type''), tc_RemotePort = the_int (mget fs ''remote_port''),
      tc_LocalIP = the_string (mget fs ''local_ip''), tc_LocalPort = the_int (mget fs ''local_port''), tc_HTTPHost = the_string (mget fs ''http_host''),
      tc_Enabled = the_bool (mget fs ''enabled''), tc_IdleTimeout = the_string (mget fs ''idle_timeout'')\<rparr>"

definition client_of :: "rv \<Rightarrow> ClientConfig" where
  "client_of v =
     \<lparr>ServerAddr = the_string (get_at [''server_addr''] v), CAFingerprint = the_string (get_at [''ca_fingerprint''] v),
      InitialBackoff = the_string (get_at [''reconnect'', ''initial_backoff''] v), MaxBackoff = the_string (get_at [''reconnect'', ''max_backoff''] v),
      Jitter = the_float (get_at [''reconnect'', ''jitter''] v), HeartbeatEnabled = the_bool (get_at [''heartbeat'', ''enabled''] v),
      cl_Level = the_string (get_at [''logging'', ''level''] v), cl_Format = the_string (get_at [''logging'', ''format''] v),
      cl_File = the_string (get_at [''logging'', ''file''] v), cc_Tunnels = map tunnel_of (the_tables (get_at [''tunnels''] v))\<rparr>"

definition all_overlays :: "rv \<Rightarrow> overlay list \<Rightarrow> (string \<Rightarrow> string) \<Rightarrow> overlay list \<Rightarrow> overlay list" where
  "all_overlays defaults fileOvs env cliOvs = fileOvs @ envOverlaysFor defaults env @ cliOvs"

definition ResolveServer ::
  "(string \<Rightarrow> string) \<Rightarrow> float_lib \<Rightarrow> ServerConfig \<Rightarrow> overlay list \<Rightarrow> overlay list \<Rightarrow> (string \<Rightarrow> string) \<Rightarrow> resolve_error + ServerConfig" where
  "ResolveServer ucase F defaults fileOvs cliOvs env =
     (case ApplyOverlays F (server_value defaults) (all_overlays (server_value defaults) fileOvs env cliOvs) of
        Inl e \<Rightarrow> Inl (OverlayError e)
      | Inr v \<Rightarrow> (case ValidateServer ucase (server_of v) of Inl e \<Rightarrow> Inl (ConfigError e) | Inr c \<Rightarrow> Inr c))"

definition ResolveClient ::
  "(string \<Rightarrow> string) \<Rightarrow> float_lib \<Rightarrow> ClientConfig \<Rightarrow> overlay list \<Rightarrow> overlay list \<Rightarrow> (string \<Rightarrow> string) \<Rightarrow> resolve_error + ClientConfig" where
  "ResolveClient ucase F defaults fileOvs cliOvs env =
     (case ApplyOverlays F (client_value defaults) (all_overlays (client_value defaults) fileOvs env cliOvs) of
        Inl e \<Rightarrow> Inl (OverlayError e)
      | Inr v \<Rightarrow> (case ValidateClient ucase (client_of v) of Inl e \<Rightarrow> Inl (ConfigError e) | Inr c \<Rightarrow> Inr c))"

text \<open>The check commands (check.go): the configuration that is printed; no path means no file.\<close>

definition CheckServer ::
  "(string \<Rightarrow> string) \<Rightarrow> float_lib \<Rightarrow> toml_lib \<Rightarrow> bytes option option \<Rightarrow> overlay list \<Rightarrow> (string \<Rightarrow> string) \<Rightarrow> resolve_error + ServerConfig" where
  "CheckServer ucase F T file overlays env =
     (case (case file of None \<Rightarrow> Inr [] | Some rd \<Rightarrow> LoadServerOverlays T rd) of Inl e \<Rightarrow> Inl e
      | Inr fileOvs \<Rightarrow> ResolveServer ucase F DefaultServerConfig fileOvs overlays env)"

definition CheckClient ::
  "(string \<Rightarrow> string) \<Rightarrow> float_lib \<Rightarrow> toml_lib \<Rightarrow> bytes option option \<Rightarrow> overlay list \<Rightarrow> (string \<Rightarrow> string) \<Rightarrow> resolve_error + ClientConfig" where
  "CheckClient ucase F T file overlays env =
     (case (case file of None \<Rightarrow> Inr [] | Some rd \<Rightarrow> LoadClientOverlays T rd) of Inl e \<Rightarrow> Inl e
      | Inr fileOvs \<Rightarrow>
          map_sum id (\<lambda>c. if CAFingerprint c \<noteq> '''' then c\<lparr>CAFingerprint := ''***''\<rparr> else c)
            (ResolveClient ucase F DefaultClientConfig fileOvs overlays env))"

section \<open>Lemmas: overlays keep the kinds of the fields\<close>

text \<open>The kind of a value: what is left when its contents are forgotten.\<close>

primrec shape :: "rv \<Rightarrow> rv" where
  "shape (RString _) = RString ''''"
| "shape (RBool _) = RBool False"
| "shape (RInt _) = RInt 0"
| "shape (RFloat _) = RFloat 0"
| "shape (RStrings _) = RStrings []"
| "shape (RTables p _) = RTables p []"
| "shape (RStruct fs) = RStruct (map (map_prod id shape) fs)"

text \<open>The elements of a slice of structs are of the kind of its zero element.\<close>

primrec wt :: "rv \<Rightarrow> bool" where
  "wt (RString _) = True"
| "wt (RBool _) = True"
| "wt (RInt _) = True"
| "wt (RFloat _) = True"
| "wt (RStrings _) = True"
| "wt (RTables p es) = list_all (\<lambda>e. shape (RStruct e) = shape (RStruct p)) es"
| "wt (RStruct fs) = list_all snd (map (map_prod id wt) fs)"

lemma shape_put:
  "mget fs k = Some x \<Longrightarrow> shape y = shape x \<Longrightarrow> shape (RStruct (mput k y fs)) = shape (RStruct fs)"
  by (induction fs) (auto split: if_splits)

lemma wt_get: "wt (RStruct fs) \<Longrightarrow> mget fs k = Some x \<Longrightarrow> wt x"
  by (induction fs) (auto split: if_splits)

lemma wt_put: "wt (RStruct fs) \<Longrightarrow> wt y \<Longrightarrow> wt (RStruct (mput k y fs))"
  by (induction fs) auto

lemma set_shape:
  "set_rv F fv v = Inr fv' \<Longrightarrow> shape fv' = shape fv \<and> wt fv'"
  "elems F p vs = Inr xs \<Longrightarrow> list_all (\<lambda>e. shape (RStruct e) = shape (RStruct p)) xs"
  "buildFromMap F fs m = Inr fs' \<Longrightarrow> shape (RStruct fs') = shape (RStruct fs)"
proof (induction F fv v and F p vs and F fs m arbitrary: fv' and xs and fs' rule: set_rv_elems_buildFromMap.induct)
  case (6 F p es v)
  then show ?case by (cases v; cases "elems F p (case v of TArray vs \<Rightarrow> vs | _ \<Rightarrow> [])") auto
next
  case (9 F p v vs)
  show ?case
  proof (cases v)
    case (TTable m)
    then obtain x ys where x: "buildFromMap F p m = Inr x" "elems F p vs = Inr ys" "xs = x # ys"
      using "9.prems" by (cases "buildFromMap F p m"; cases "elems F p vs") auto
    then show ?thesis using "9.IH"(1) [OF TTable x(1)] "9.IH"(2) [OF TTable x(1) x(2)] by (simp del: shape.simps)
  qed (use "9.prems" in auto)
next
  case (11 F fs k v m)
  obtain fv where fv: "mget fs k = Some fv" using "11.prems" by (cases "mget fs k") auto
  obtain fv' where fv': "(case v of TTable sub \<Rightarrow> (case fv of RStruct gs \<Rightarrow> map_sum id RStruct (buildFromMap F gs sub) | _ \<Rightarrow> Inl ReflectPanic)
       | _ \<Rightarrow> set_rv F fv v) = Inr fv'" and rest: "buildFromMap F (mput k fv' fs) m = Inr fs'"
    using "11.prems" fv by (auto split: sum.splits)
  have "shape fv' = shape fv"
  proof (cases v)
    case (TTable sub)
    then obtain gs where gs: "fv = RStruct gs" using fv' by (cases fv) auto
    then obtain gs' where g: "buildFromMap F gs sub = Inr gs'" "fv' = RStruct gs'"
      using fv' TTable by (cases "buildFromMap F gs sub") auto
    then show ?thesis using "11.IH"(7) [OF fv TTable gs g(1)] gs by simp
  qed (use fv' "11.IH"(1-6,8) [OF fv] in auto)
  then show ?case using "11.IH"(9) [OF fv fv' rest] shape_put [OF fv] by simp
qed (auto split: option.splits tv.splits)

lemma applyOne_shape: "applyOne F v parts x = Inr v' \<Longrightarrow> shape v' = shape v \<and> (wt v \<longrightarrow> wt v')"
proof (induction F v parts x arbitrary: v' rule: applyOne.induct)
  case (1 F fs tag rest x)
  obtain fv where fv: "mget fs tag = Some fv" using "1.prems" by (cases "mget fs tag") auto
  obtain y where y: "(if rest = [] then setField F fv x else applyOne F fv rest x) = Inr y" and v': "v' = RStruct (mput tag y fs)"
    using "1.prems" fv by (cases "if rest = [] then setField F fv x else applyOne F fv rest x") auto
  have "shape y = shape fv \<and> (wt fv \<longrightarrow> wt y)"
    using y "1.IH" [OF fv] set_shape(1) [of F fv "tv_sorted x" y] by (auto simp: setField_def split: if_splits)
  then show ?case using shape_put [OF fv] wt_put wt_get fv v' by (metis wt.simps(7))
qed simp_all

lemma ApplyOverlays_shape: "ApplyOverlays F v ovs = Inr v' \<Longrightarrow> shape v' = shape v \<and> (wt v \<longrightarrow> wt v')"
  by (induction F v ovs rule: ApplyOverlays.induct) (auto split: sum.splits dest: applyOne_shape)

lemma shape_inv [simp]:
  "shape v = RString s \<longleftrightarrow> s = '''' \<and> (\<exists>x. v = RString x)" "shape v = RBool b \<longleftrightarrow> b = False \<and> (\<exists>x. v = RBool x)"
  "shape v = RInt n \<longleftrightarrow> n = 0 \<and> (\<exists>x. v = RInt x)" "shape v = RFloat r \<longleftrightarrow> r = 0 \<and> (\<exists>x. v = RFloat x)"
  "shape v = RStrings ss \<longleftrightarrow> ss = [] \<and> (\<exists>x. v = RStrings x)" "shape v = RTables p es \<longleftrightarrow> es = [] \<and> (\<exists>x. v = RTables p x)"
  "shape v = RStruct fs \<longleftrightarrow> (\<exists>x. v = RStruct x \<and> map (map_prod id shape) x = fs)"
  by (cases v; auto)+

lemma fields_inv [simp]:
  "map (map_prod id shape) x = (k, s) # fs \<longleftrightarrow> (\<exists>v ys. x = (k, v) # ys \<and> shape v = s \<and> map (map_prod id shape) ys = fs)"
  by (auto simp: map_eq_Cons_conv)

lemma server_of_value: "server_of (server_value c) = c"
  by (simp add: server_of_def server_value_def)

lemma tunnel_of_value: "tunnel_of (tunnel_value t) = t"
  by (simp add: tunnel_of_def tunnel_value_def)

lemma client_of_value: "client_of (client_value c) = c"
  by (simp add: client_of_def client_value_def tunnel_of_value comp_def)

lemma server_shape: "shape v = shape (server_value d) \<Longrightarrow> \<exists>c. v = server_value c"
proof -
  assume "shape v = shape (server_value d)"
  then have "v = server_value (server_of v)"
    by (auto simp: server_value_def server_of_def)
  then show ?thesis ..
qed


lemma tunnel_shape: "shape (RStruct e) = shape (RStruct (tunnel_value t)) \<Longrightarrow> e = tunnel_value (tunnel_of e)"
  by (auto simp: tunnel_value_def tunnel_of_def)

lemma client_shape: "shape v = shape (client_value d) \<Longrightarrow> wt v \<Longrightarrow> \<exists>c. v = client_value c"
proof -
  assume v: "shape v = shape (client_value d)" "wt v"
  obtain s f i m j h l g fi es where e: "v = RStruct
     [(''server_addr'', RString s), (''ca_fingerprint'', RString f),
      (''reconnect'', RStruct [(''initial_backoff'', RString i), (''max_backoff'', RString m), (''jitter'', RFloat j)]),
      (''heartbeat'', RStruct [(''enabled'', RBool h)]),
      (''logging'', RStruct [(''level'', RString l), (''format'', RString g), (''file'', RString fi)]),
      (''tunnels'', RTables (tunnel_value zero_tunnel) es)]"
    using v(1) by (auto simp: client_value_def)
  have "list_all (\<lambda>e. shape (RStruct e) = shape (RStruct (tunnel_value zero_tunnel))) es" using v(2) e by simp
  then have "map tunnel_value (map tunnel_of es) = es"
    using tunnel_shape by (induction es) (auto simp del: shape.simps)
  then have "v = client_value (client_of v)" by (simp add: e client_value_def client_of_def comp_def)
  then show ?thesis ..
qed

lemma wt_client: "wt (client_value c)"
proof -
  have "shape (RStruct (tunnel_value t)) = shape (RStruct (tunnel_value zero_tunnel))" for t by (simp add: tunnel_value_def)
  then show ?thesis by (simp add: client_value_def list_all_iff del: shape.simps)
qed

section \<open>Lemmas: what an overlay changes\<close>

text \<open>A leaf: a field of its own kind, not a struct.\<close>

definition leaf_at :: "string list \<Rightarrow> rv \<Rightarrow> bool" where
  "leaf_at p v \<longleftrightarrow> (case get_at p v of None \<Rightarrow> False | Some (RStruct _) \<Rightarrow> False | Some _ \<Rightarrow> True)"

lemma applyOne_sets:
  "applyOne F v parts x = Inr v' \<Longrightarrow> \<exists>old y. get_at parts v = Some old \<and> setField F old x = Inr y \<and> get_at parts v' = Some y"
proof (induction F v parts x arbitrary: v' rule: applyOne.induct)
  case (1 F fs tag rest x)
  obtain fv where fv: "mget fs tag = Some fv" using "1.prems" by (cases "mget fs tag") auto
  obtain y where y: "(if rest = [] then setField F fv x else applyOne F fv rest x) = Inr y" and v': "v' = RStruct (mput tag y fs)"
    using "1.prems" fv by (cases "if rest = [] then setField F fv x else applyOne F fv rest x") auto
  then show ?case using fv "1.IH" [OF fv] by (auto split: if_splits)
qed simp_all

lemma applyOne_frame:
  "applyOne F v parts x = Inr v' \<Longrightarrow> leaf_at q v \<Longrightarrow> q \<noteq> parts \<Longrightarrow> get_at q v' = get_at q v"
proof (induction F v parts x arbitrary: v' q rule: applyOne.induct)
  case (1 F fs tag rest x)
  obtain fv where fv: "mget fs tag = Some fv" using "1.prems" by (cases "mget fs tag") auto
  obtain y where y: "(if rest = [] then setField F fv x else applyOne F fv rest x) = Inr y" and v': "v' = RStruct (mput tag y fs)"
    using "1.prems" fv by (cases "if rest = [] then setField F fv x else applyOne F fv rest x") auto
  obtain t q' where q: "q = t # q'" using "1.prems"(2) by (cases q) (auto simp: leaf_at_def)
  show ?case
  proof (cases "t = tag")
    case False
    then show ?thesis by (simp add: q v')
  next
    case True
    then have leaf: "leaf_at q' fv" using "1.prems"(2) fv by (simp add: q leaf_at_def)
    show ?thesis
    proof (cases "rest = []")
      case True
      then have "q' \<noteq> []" using "1.prems"(3) \<open>t = tag\<close> q by simp
      then obtain gs where "fv = RStruct gs" using leaf by (cases fv; cases q') (auto simp: leaf_at_def)
      then have False using y True by (simp add: setField_def)
      then show ?thesis ..
    next
      case False
      then have "get_at q' y = get_at q' fv" using "1.IH" [OF fv] y leaf "1.prems"(3) \<open>t = tag\<close> q by simp
      then show ?thesis using \<open>t = tag\<close> fv by (simp add: q v')
    qed
  qed
qed simp_all

lemma set_rv_kind: "shape b = shape a \<Longrightarrow> set_rv F b x = set_rv F a x"
  by (cases a) auto

lemma setField_kind: "shape b = shape a \<Longrightarrow> setField F b x = setField F a x"
  unfolding setField_def by (rule set_rv_kind)

lemma mget_shape: "map (map_prod id shape) fs = map (map_prod id shape) gs \<Longrightarrow> map_option shape (mget fs k) = map_option shape (mget gs k)"
proof (induction fs arbitrary: gs)
  case (Cons a fs)
  obtain k' v where "a = (k', v)" by fastforce
  then show ?case using Cons by (cases gs) (auto simp del: fields_inv)
qed simp

lemma leaf_shape: "shape a = shape b \<Longrightarrow> get_at p a = Some x \<Longrightarrow> \<exists>y. get_at p b = Some y \<and> shape x = shape y"
proof (induction p a arbitrary: b rule: get_at.induct)
  case (2 tag rest fs)
  then obtain gs where b: "b = RStruct gs" "map (map_prod id shape) fs = map (map_prod id shape) gs" by (cases b) auto
  obtain fv where fv: "mget fs tag = Some fv" "get_at rest fv = Some x" using 2 by (auto split: option.splits)
  have "map_option shape (mget fs tag) = map_option shape (mget gs tag)"
    by (rule mget_shape [OF b(2)])
  then obtain gv where "mget gs tag = Some gv" "shape fv = shape gv" using fv by (cases "mget gs tag") auto
  then show ?case using "2.IH" [OF fv(1) _ fv(2)] b by simp
qed simp_all


text \<open>The overlay of a path that counts: the last one.\<close>

definition last_for :: "string list \<Rightarrow> overlay list \<Rightarrow> tv option" where
  "last_for p ovs = map_option Value (find (\<lambda>ov. split_on (CHR ''.'') (Path ov) = p) (rev ovs))"

lemma last_for_Nil [simp]: "last_for p [] = None"
  by (simp add: last_for_def)

lemma find_append: "find P (xs @ ys) = (case find P xs of None \<Rightarrow> find P ys | r \<Rightarrow> r)"
  by (induction xs) auto

lemma last_for_append: "last_for p (xs @ ys) = (case last_for p ys of None \<Rightarrow> last_for p xs | Some x \<Rightarrow> Some x)"
  by (simp add: last_for_def find_append split: option.split)

lemma last_for_Cons:
  "last_for p (ov # ovs) =
     (case last_for p ovs of Some x \<Rightarrow> Some x | None \<Rightarrow> if split_on (CHR ''.'') (Path ov) = p then Some (Value ov) else None)"
  using last_for_append [of p "[ov]" ovs] by (simp add: last_for_def split: option.splits)

lemma leaf_at_shape: "shape a = shape b \<Longrightarrow> leaf_at p a \<Longrightarrow> leaf_at p b"
proof -
  assume ab: "shape a = shape b" and leaf: "leaf_at p a"
  then obtain x where x: "get_at p a = Some x" by (auto simp: leaf_at_def split: option.splits)
  then obtain y where "get_at p b = Some y" "shape x = shape y" using leaf_shape [OF ab] by blast
  then show "leaf_at p b" using leaf x by (cases x) (auto simp: leaf_at_def split: rv.splits)
qed

lemma applyOne_leaf: "applyOne F v parts x = Inr v' \<Longrightarrow> leaf_at p v \<Longrightarrow> leaf_at p v'"
  using leaf_at_shape [of v v' p] applyOne_shape [of F v parts x v'] by simp

lemma overlays_last:
  assumes "ApplyOverlays F v ovs = Inr v'" and "leaf_at p v" and "get_at p v = Some old"
  shows "\<exists>y. get_at p v' = Some y \<and> (case last_for p ovs of None \<Rightarrow> y = old | Some x \<Rightarrow> setField F old x = Inr y)"
  using assms
proof (induction F v ovs arbitrary: old rule: ApplyOverlays.induct)
  case (2 F v ov ovs)
  let ?q = "split_on (CHR ''.'') (Path ov)"
  obtain v1 where v1: "applyOne F v ?q (Value ov) = Inr v1" and rest: "ApplyOverlays F v1 ovs = Inr v'"
    using "2.prems"(1) by (cases "applyOne F v ?q (Value ov)") auto
  have leaf: "leaf_at p v1" by (rule applyOne_leaf [OF v1 "2.prems"(2)])
  obtain old1 where old1: "get_at p v1 = Some old1" "shape old1 = shape old"
    using leaf_shape [of v v1 p old] applyOne_shape [OF v1] "2.prems"(3) by metis
  have first: "if ?q = p then setField F old (Value ov) = Inr old1 else old1 = old"
    using applyOne_sets [OF v1] applyOne_frame [OF v1 "2.prems"(2)] "2.prems"(3) old1(1) by auto
  obtain y where y: "get_at p v' = Some y" "case last_for p ovs of None \<Rightarrow> y = old1 | Some x \<Rightarrow> setField F old1 x = Inr y"
    using "2.IH" [OF v1 rest leaf old1(1)] by blast
  then show ?case using first setField_kind [OF old1(2)] by (auto simp: last_for_Cons split: option.splits if_splits)
qed simp


section \<open>Properties\<close>


definition plain_floats :: float_lib where
  "plain_floats = \<lparr>fl_format = (\<lambda>_. ''0''), fl_parse = (\<lambda>s. if s = ''0.5'' then Some (1 / 2) else None)\<rparr>"


text \<open>The scalar fields of the server configuration, in the order of the struct.\<close>

definition server_paths :: "string list" where
  "server_paths = [''state_dir'', ''listen.control_addr'', ''listen.enroll_addr'', ''listen.enroll_enabled'', ''listen.http_vhost_port'',
     ''policy.max_tunnels_per_client'', ''policy.max_conns_per_client'', ''policy.max_conns_per_tunnel'', ''policy.bandwidth_bps_per_client'',
     ''policy.bandwidth_bps_per_tunnel'', ''policy.udp_max_sessions_per_tunnel'', ''policy.udp_max_packet'', ''policy.udp_session_idle_timeout'',
     ''heartbeat.interval_s'', ''heartbeat.timeout_s'', ''heartbeat.miss_threshold'', ''pki.ca_validity_years'', ''pki.client_cert_validity_days'',
     ''pki.token_ttl'', ''logging.level'', ''logging.format'', ''logging.file'']"

lemma server_env:
  "envOverlaysFor (server_value d) env =
     map (\<lambda>path. \<lparr>Path = path, Value = TString (env (env_key path))\<rparr>) (filter (\<lambda>path. env (env_key path) \<noteq> '''') server_paths)"
  by (simp add: envOverlaysFor_def server_value_def server_paths_def join_path_def del: filter.simps list.map)

lemma server_paths_inj: "inj_on (split_on (CHR ''.'')) (set server_paths)"
proof -
  have "distinct (map (split_on (CHR ''.'')) server_paths)" by code_simp
  then show ?thesis by (simp add: distinct_map)
qed

lemma last_for_env:
  assumes "inj_on (split_on (CHR ''.'')) (set ps)" and "path \<in> set ps"
  shows "last_for (split_on (CHR ''.'') path) (map (\<lambda>path. \<lparr>Path = path, Value = TString (f path)\<rparr>) (filter P ps)) =
     (if P path then Some (TString (f path)) else None)"
  using assms
proof (induction ps)
  case (Cons q ps)
  show ?case
  proof (cases "path \<in> set ps")
    case True
    then show ?thesis using Cons by (auto simp: last_for_Cons inj_on_def split: if_splits)
  next
    case False
    then have "last_for (split_on (CHR ''.'') path) (map (\<lambda>path. \<lparr>Path = path, Value = TString (f path)\<rparr>) (filter P ps)) = None"
      using Cons.prems by (auto simp: last_for_def find_None_iff inj_on_def)
    then show ?thesis using False Cons.prems by (auto simp: last_for_Cons)
  qed
qed simp

lemma server_leaves: "path \<in> set server_paths \<Longrightarrow> leaf_at (split_on (CHR ''.'') path) (server_value d)"
proof -
  have "list_all (\<lambda>path. leaf_at (split_on (CHR ''.'') path) (server_value DefaultServerConfig)) server_paths" by code_simp
  moreover have "shape (server_value DefaultServerConfig) = shape (server_value d)" by (simp add: server_value_def)
  ultimately show "path \<in> set server_paths \<Longrightarrow> ?thesis"
    using leaf_at_shape unfolding list_all_iff by blast
qed

text \<open>
  C17: The precedence is command line over environment over file over default, for every scalar field on
  its own: the value of a resolved field, before validation fills in what is still empty, is the one its
  last command-line override converts to, else its non-empty environment variable, else the last setting
  of the file, else the default.
\<close>
theorem config_precedence:
  assumes "ResolveServer ucase F d fileOvs cliOvs env = Inr c" and "path \<in> set server_paths"
    and p: "p = split_on (CHR ''.'') path"
  shows "\<exists>v old y. ValidateServer ucase (server_of v) = Inr c \<and> v = server_value (server_of v) \<and>
     get_at p (server_value d) = Some old \<and> get_at p v = Some y \<and>
     (case last_for p cliOvs of Some x \<Rightarrow> setField F old x = Inr y
      | None \<Rightarrow> if env (env_key path) \<noteq> '''' then setField F old (TString (env (env_key path))) = Inr y
                else case last_for p fileOvs of Some x \<Rightarrow> setField F old x = Inr y | None \<Rightarrow> y = old)"
proof -
  obtain v where v: "ApplyOverlays F (server_value d) (all_overlays (server_value d) fileOvs env cliOvs) = Inr v"
      "ValidateServer ucase (server_of v) = Inr c"
    using assms(1) by (auto simp: ResolveServer_def split: sum.splits)
  have leaf: "leaf_at p (server_value d)" unfolding p by (rule server_leaves [OF assms(2)])
  then obtain old where old: "get_at p (server_value d) = Some old" by (auto simp: leaf_at_def split: option.splits)
  have "last_for p (envOverlaysFor (server_value d) env) = (if env (env_key path) \<noteq> '''' then Some (TString (env (env_key path))) else None)"
    unfolding p server_env by (rule last_for_env [OF server_paths_inj assms(2)])
  moreover obtain s' where "v = server_value s'" using server_shape ApplyOverlays_shape [OF v(1)] by blast
  moreover obtain y where "get_at p v = Some y" "case last_for p (all_overlays (server_value d) fileOvs env cliOvs) of
      None \<Rightarrow> y = old | Some x \<Rightarrow> setField F old x = Inr y"
    using overlays_last [OF v(1) leaf old] by blast
  ultimately show ?thesis
    using v(2) old
    by (intro exI [of _ v] exI [of _ old] exI [of _ y]) (auto simp: all_overlays_def last_for_append server_of_value split: option.splits if_splits)
qed

text \<open>An explicitly empty list of tunnels is read as a list of strings and refused.\<close>

lemma empty_tunnels_refused:
  "ResolveClient ucase F d (fileOverlays [(''tunnels'', TArray [])]) cliOvs env = Inl (OverlayError UnsupportedElem)"
proof -
  have "fileOverlays [(''tunnels'', TArray [])] = [\<lparr>Path = ''tunnels'', Value = TStrings []\<rparr>]"
    by (simp add: fileOverlays_def sort_by_def join_path_def)
  then show ?thesis by (simp add: ResolveClient_def all_overlays_def client_value_def setField_def)
qed


theorem config_precedence_witness:
  "\<exists>c v y. ResolveServer id plain_floats DefaultServerConfig [\<lparr>Path = ''logging.level'', Value = TString ''warn''\<rparr>]
       [\<lparr>Path = ''state_dir'', Value = TString ''/var/lib/qoqtun''\<rparr>]
       (\<lambda>k. if k = ''QOQTUN_LOGGING_LEVEL'' then ''debug'' else '''') = Inr c \<and>
     ValidateServer id (server_of v) = Inr c \<and> get_at [''logging'', ''level''] v = Some (RString ''debug'')"
proof -
  let ?file = "[\<lparr>Path = ''logging.level'', Value = TString ''warn''\<rparr>]" and ?cli = "[\<lparr>Path = ''state_dir'', Value = TString ''/var/lib/qoqtun''\<rparr>]"
  let ?env = "\<lambda>k. if k = ''QOQTUN_LOGGING_LEVEL'' then ''debug'' else ''''"
  let ?r = "ResolveServer id plain_floats DefaultServerConfig ?file ?cli ?env"
  have "case ?r of Inr _ \<Rightarrow> True | Inl _ \<Rightarrow> False" by code_simp
  then obtain c where c: "?r = Inr c" by (cases ?r) auto
  have path: "''logging.level'' \<in> set server_paths" and p: "[''logging'', ''level''] = split_on (CHR ''.'') ''logging.level''"
    and k: "env_key ''logging.level'' = ''QOQTUN_LOGGING_LEVEL''" and l: "last_for [''logging'', ''level''] ?cli = None"
    and d: "get_at [''logging'', ''level''] (server_value DefaultServerConfig) = Some (RString ''info'')" by code_simp+
  from config_precedence [OF c path p] obtain v y where "ValidateServer id (server_of v) = Inr c" "get_at [''logging'', ''level''] v = Some y"
      "setField plain_floats (RString ''info'') (TString ''debug'') = Inr y"
    using k l d by auto
  then show ?thesis using c by (auto simp: setField_def)
qed


end
