(* ===== verification/Commands.thy ===== *)
theory Commands
  imports Transport Enroll Resolve
begin

text \<open>
  The commands of the server program (\<^verbatim>\<open>cmd/server/main.go\<close>, \<^verbatim>\<open>cmd/server/enroll.go\<close>): creating
  the certificate authority, managing tokens and revocations, the guards of a start, and what \<^verbatim>\<open>run\<close>
  and \<^verbatim>\<open>enroll serve\<close> load from the state directory. Flag parsing and output are left out; each command
  is the function behind its flags. The file system is the content of the state directory.
\<close>

section \<open>The state directory\<close>

record state_dir =
  sd_caKey :: "string option"
  sd_caCert :: "string option"
  sd_serverKey :: "string option"
  sd_serverCert :: "string option"
  sd_revoked :: "bytes option"
  sd_clients :: "bytes option"
  sd_tokens :: "disk_file option"

record cmd_lib =
  cl_x509 :: x509_lib
  cl_sha256 :: "bytes \<Rightarrow> bytes"
  cl_marshal_key :: "nat \<Rightarrow> string option"
  cl_parse_key :: "string \<Rightarrow> nat option"
  cl_revoked_json :: "RevokedEntry list_json"
  cl_clients_json :: "ClientRecord list_json"
  cl_tokens_json :: token_json

datatype server_error =
    AlreadyInitialized
  | StatFailed
  | CreateDirFailed
  | Pki pki_error
  | MarshalKeyFailed
  | WriteStateFailed string
  | BadControlAddr
  | NoSAN
  | NoCACert
  | NoCAKey
  | BadCAKey
  | NoServerCert
  | NoServerKey
  | RevokedStore store_error
  | ClientStore store_error
  | TokenStoreError token_error
  | BadTTLFlag string
  | TokenGeneration
  | ListenFailed
  | TransportFailed transport_error
  | PprofNotLoopback string
  | EnrollDisabled
  | RootDenied
  | InsufficientFD

text \<open>\<open>rd\<close> is the outcome of reading the file of the flag, \<^const>\<open>None\<close> without one; there are no flag overlays.\<close>

definition loadServerConfig ::
  "(string \<Rightarrow> string) \<Rightarrow> float_lib \<Rightarrow> toml_lib \<Rightarrow> bytes option option \<Rightarrow> (string \<Rightarrow> string) \<Rightarrow> resolve_error + ServerConfig" where
  "loadServerConfig ucase F T rd env =
     (case (case rd of None \<Rightarrow> Inr [] | Some content \<Rightarrow> LoadServerOverlays T content) of Inl e \<Rightarrow> Inl e
      | Inr fileOvs \<Rightarrow> ResolveServer ucase F DefaultServerConfig fileOvs [] env)"

section \<open>Creating the certificate authority (ca init)\<close>

text \<open>
  The subject alternative names of the server certificate: the host of the control address, unless it is
  a wildcard, and the given ones, in this order, IP addresses and names apart.
\<close>

definition add_san :: "string \<Rightarrow> string list \<times> string list \<Rightarrow> string list \<times> string list" where
  "add_san san acc = (case acc of (ips, dns) \<Rightarrow> if ParseIP san \<noteq> None then (ips @ [san], dns) else (ips, dns @ [san]))"

definition host_san :: "string \<Rightarrow> string list \<times> string list" where
  "host_san host =
     (case ParseIP host of
        Some ip \<Rightarrow> if IsUnspecified ip then ([], []) else ([host], [])
      | None \<Rightarrow> if host \<noteq> '''' then ([], [host]) else ([], []))"

definition sans_for :: "string \<Rightarrow> string list \<Rightarrow> string list \<times> string list" where
  "sans_for host sans = fold add_san sans (host_san host)"

text \<open>
  \<open>stat\<close> is an error of the existence check other than absence; \<open>broken\<close> names the step of the file
  system that fails, if one does. \<open>kps\<close> and \<open>rnds\<close> are the two generated keys and serial numbers.
\<close>

definition runCAInit ::
  "cmd_lib \<Rightarrow> instant \<Rightarrow> nat option \<times> nat option \<Rightarrow> bytes option \<times> bytes option \<Rightarrow> bool \<Rightarrow> string option \<Rightarrow> ServerConfig \<Rightarrow> bool \<Rightarrow> string list
   \<Rightarrow> state_dir \<Rightarrow> (server_error + string) \<times> state_dir" where
  "runCAInit L now kps rnds stat broken cfg force sans sd =
     (if sd_caKey sd \<noteq> None \<and> \<not> force then (Inl AlreadyInitialized, sd)
      else if sd_caKey sd = None \<and> stat then (Inl StatFailed, sd)
      else if broken = Some ''mkdir'' then (Inl CreateDirFailed, sd)
      else let caValidity = wrap64 (CAValidityYears cfg * 365 * 24 * hour)
      in case GenerateCA (cl_x509 L) now (fst kps) (fst rnds) caValidity of Inl e \<Rightarrow> (Inl (Pki e), sd)
      | Inr ca \<Rightarrow>
     (case cl_marshal_key L (ca_Key ca) of None \<Rightarrow> (Inl MarshalKeyFailed, sd)
      | Some caKeyPEM \<Rightarrow>
          (let caCertPEM = x_pem_encode (cl_x509 L) ''CERTIFICATE'' (c_Raw (ca_Cert ca))
           in if broken = Some ''ca.key'' then (Inl (WriteStateFailed ''ca.key''), sd)
              else let sd1 = sd\<lparr>sd_caKey := Some caKeyPEM\<rparr>
              in if broken = Some ''ca.crt'' then (Inl (WriteStateFailed ''ca.crt''), sd1)
              else let sd2 = sd1\<lparr>sd_caCert := Some caCertPEM\<rparr>
              in case SplitHostPort (ControlAddr cfg) of None \<Rightarrow> (Inl BadControlAddr, sd2)
                 | Some (host, _) \<Rightarrow>
                     (let (ips, dns) = sans_for host sans
                      in if ips = [] \<and> dns = [] then (Inl NoSAN, sd2)
                         else case SignServerCertificate (cl_x509 L) now (snd kps) (snd rnds) (cl_marshal_key L) (Some ca)
                                     (caValidity div (24 * hour)) ips dns of
                                Inl e \<Rightarrow> (Inl (Pki e), sd2)
                              | Inr (certPEM, keyPEM) \<Rightarrow>
                                  (if broken = Some ''server.key'' then (Inl (WriteStateFailed ''server.key''), sd2)
                                   else let sd3 = sd2\<lparr>sd_serverKey := Some keyPEM\<rparr>
                                   in if broken = Some ''server.crt'' then (Inl (WriteStateFailed ''server.crt''), sd3)
                                      else (Inr (Fingerprint (cl_sha256 L) (ca_Cert ca)), sd3\<lparr>sd_serverCert := Some certPEM\<rparr>))))))"

section \<open>Starting the server (run)\<close>

definition applyStartupGuards :: "bool \<Rightarrow> 64 word option \<Rightarrow> ServerConfig \<Rightarrow> bool \<Rightarrow> bool \<Rightarrow> server_error option" where
  "applyStartupGuards isRoot rlimit cfg allowRoot allowLowFD =
     (if isRoot \<and> \<not> allowRoot then Some RootDenied
      else let est = EstimatedFDLimit (MaxConnsPerClient cfg) (MaxConnsPerTunnel cfg) 64;
               chk = platformCheckFDLimit rlimit est
           in if BelowLimit chk \<and> \<not> allowLowFD then Some InsufficientFD else None)"

definition pprof_ok :: "string \<Rightarrow> bool" where
  "pprof_ok addr \<longleftrightarrow> addr = '''' \<or> (case SplitHostPort addr of None \<Rightarrow> False | Some (host, _) \<Rightarrow> host = ''127.0.0.1'')"

text \<open>What the accept loop is started with: the TLS configuration, the revocation hook, the vhost port.\<close>

record server_setup =
  ss_options :: Options
  ss_tls :: tls_config
  ss_IsRevoked :: "(string \<Rightarrow> bool) option"
  ss_vhostPort :: int

definition runServer ::
  "cmd_lib \<Rightarrow> tls_lib \<Rightarrow> bool \<Rightarrow> bool \<Rightarrow> ServerConfig \<Rightarrow> string \<Rightarrow> state_dir \<Rightarrow> server_error + server_setup" where
  "runServer L T rd listen_ok cfg pprofAddr sd =
     (if \<not> pprof_ok pprofAddr then Inl (PprofNotLoopback pprofAddr)
      else case sd_caCert sd of None \<Rightarrow> Inl NoCACert
      | Some caCertPEM \<Rightarrow>
     (case sd_caKey sd of None \<Rightarrow> Inl NoCAKey
      | Some caKeyPEM \<Rightarrow>
     (case ParseCertificate (cl_x509 L) caCertPEM of Inl e \<Rightarrow> Inl (Pki e)
      | Inr caCert \<Rightarrow>
     (case cl_parse_key L caKeyPEM of None \<Rightarrow> Inl BadCAKey
      | Some _ \<Rightarrow>
     (case sd_serverCert sd of None \<Rightarrow> Inl NoServerCert
      | Some certPEM \<Rightarrow>
     (case sd_serverKey sd of None \<Rightarrow> Inl NoServerKey
      | Some keyPEM \<Rightarrow>
     (case LoadRevocationList (cl_revoked_json L) rd (sd_revoked sd) of Inl e \<Rightarrow> Inl (RevokedStore e)
      | Inr revoked \<Rightarrow>
          (if \<not> listen_ok then Inl ListenFailed
           else let opts = \<lparr>to_CAs = [Some caCert], to_Cert = certPEM, to_Key = keyPEM, to_IsRevoked = Some (IsRevoked revoked),
                            to_ServerName = '''', to_HandshakeTimeout = 10 * second\<rparr>
                in case tr_Config T opts of Inl e \<Rightarrow> Inl (TransportFailed e)
                   | Inr tls \<Rightarrow> Inr \<lparr>ss_options = opts, ss_tls = tls, ss_IsRevoked = Some (IsRevoked revoked),
                                    ss_vhostPort = HTTPVhostPort cfg\<rparr>))))))))"

definition serve :: "tls_lib \<Rightarrow> server_setup \<Rightarrow> ServerConfig \<Rightarrow> arrival list \<Rightarrow> served \<times> 'l Server" where
  "serve T ss cfg as = Serve_loop T (ss_tls ss) (ss_IsRevoked ss) as (Serve_init (Some cfg) (ss_vhostPort ss))"

section \<open>Tokens and certificates (client, cert)\<close>

text \<open>\<open>ttlStr\<close> is the flag, whose default is one hour; the result is the plaintext that is printed.\<close>

definition create_token ::
  "cmd_lib \<Rightarrow> file_io \<Rightarrow> instant \<Rightarrow> bytes option \<Rightarrow> bytes option \<Rightarrow> string \<Rightarrow> string \<Rightarrow> state_dir \<Rightarrow> (server_error + (duration \<times> string)) \<times> state_dir" where
  "create_token L io now r1 r2 ttlStr createdBy sd =
     (case (if ttlStr = '''' then Some hour else ParseDuration ttlStr) of None \<Rightarrow> (Inl (BadTTLFlag ttlStr), sd)
      | Some ttl \<Rightarrow>
     (case LoadTokenStore (cl_tokens_json L) io (sd_tokens sd) of Inl e \<Rightarrow> (Inl (TokenStoreError e), sd)
      | Inr toks \<Rightarrow>
     (case CreateToken (cl_sha256 L) r1 r2 of None \<Rightarrow> (Inl TokenGeneration, sd)
      | Some (plain, tid, _) \<Rightarrow>
     (case Create (cl_sha256 L) (cl_tokens_json L) io now now plain tid createdBy ttl (toks, sd_tokens sd) of
        ((_, disk), Inl e) \<Rightarrow> (Inl (TokenStoreError e), sd\<lparr>sd_tokens := disk\<rparr>)
      | ((_, disk), Inr _) \<Rightarrow> (Inr (ttl, plain), sd\<lparr>sd_tokens := disk\<rparr>)))))"

definition revoke_token :: "cmd_lib \<Rightarrow> file_io \<Rightarrow> string \<Rightarrow> state_dir \<Rightarrow> server_error option \<times> state_dir" where
  "revoke_token L io tid sd =
     (case LoadTokenStore (cl_tokens_json L) io (sd_tokens sd) of Inl e \<Rightarrow> (Some (TokenStoreError e), sd)
      | Inr toks \<Rightarrow>
          (case tok_Revoke (cl_tokens_json L) io tid (toks, sd_tokens sd) of
             ((_, disk), Some e) \<Rightarrow> (Some (TokenStoreError e), sd\<lparr>sd_tokens := disk\<rparr>)
           | ((_, disk), None) \<Rightarrow> (None, sd\<lparr>sd_tokens := disk\<rparr>)))"

definition client_list :: "cmd_lib \<Rightarrow> bool \<Rightarrow> state_dir \<Rightarrow> server_error + ClientRecord list" where
  "client_list L rd sd =
     (case LoadClientRegistry (cl_clients_json L) rd (sd_clients sd) of Inl e \<Rightarrow> Inl (ClientStore e) | Inr reg \<Rightarrow> Inr (cr_All reg))"

definition cert_list :: "cmd_lib \<Rightarrow> bool \<Rightarrow> state_dir \<Rightarrow> server_error + (ClientRecord \<times> bool) list" where
  "cert_list L rd sd =
     (case LoadClientRegistry (cl_clients_json L) rd (sd_clients sd) of Inl e \<Rightarrow> Inl (ClientStore e)
      | Inr reg \<Rightarrow>
          (case LoadRevocationList (cl_revoked_json L) rd (sd_revoked sd) of Inl e \<Rightarrow> Inl (RevokedStore e)
           | Inr rl \<Rightarrow> Inr (map (\<lambda>rec. (rec, IsRevoked rl (cr_CertSerial rec))) (cr_All reg))))"

definition cert_revoke :: "cmd_lib \<Rightarrow> bool \<Rightarrow> bool \<Rightarrow> instant \<Rightarrow> string \<Rightarrow> string \<Rightarrow> state_dir \<Rightarrow> server_error option \<times> state_dir" where
  "cert_revoke L rd wr now serial reason sd =
     (case LoadRevocationList (cl_revoked_json L) rd (sd_revoked sd) of Inl e \<Rightarrow> (Some (RevokedStore e), sd)
      | Inr rl \<Rightarrow>
          (case rl_Revoke (cl_revoked_json L) wr now serial reason rl of
             (rl', Some e) \<Rightarrow> (Some (RevokedStore e), sd\<lparr>sd_revoked := rl_file rl'\<rparr>)
           | (rl', None) \<Rightarrow> (None, sd\<lparr>sd_revoked := rl_file rl'\<rparr>)))"

section \<open>The enrolment endpoint (enroll serve)\<close>

definition loadEnrollServer :: "cmd_lib \<Rightarrow> file_io \<Rightarrow> bool \<Rightarrow> ServerConfig \<Rightarrow> state_dir \<Rightarrow> server_error + 'l EnrollServer" where
  "loadEnrollServer L io rd cfg sd =
     (if \<not> EnrollEnabled cfg \<or> EnrollAddr cfg = '''' then Inl EnrollDisabled
      else case sd_caCert sd of None \<Rightarrow> Inl NoCACert
      | Some caCertPEM \<Rightarrow>
     (case sd_caKey sd of None \<Rightarrow> Inl NoCAKey
      | Some caKeyPEM \<Rightarrow>
     (case ParseCertificate (cl_x509 L) caCertPEM of Inl e \<Rightarrow> Inl (Pki e)
      | Inr caCert \<Rightarrow>
     (case cl_parse_key L caKeyPEM of None \<Rightarrow> Inl BadCAKey
      | Some caKey \<Rightarrow>
     (if sd_serverCert sd = None then Inl NoServerCert else if sd_serverKey sd = None then Inl NoServerKey
      else case LoadTokenStore (cl_tokens_json L) io (sd_tokens sd) of Inl e \<Rightarrow> Inl (TokenStoreError e)
      | Inr toks \<Rightarrow>
     (case LoadClientRegistry (cl_clients_json L) rd (sd_clients sd) of Inl e \<Rightarrow> Inl (ClientStore e)
      | Inr reg \<Rightarrow>
     (case LoadRevocationList (cl_revoked_json L) rd (sd_revoked sd) of Inl e \<Rightarrow> Inl (RevokedStore e)
      | Inr rl \<Rightarrow>
          Inr \<lparr>es_CA = \<lparr>ca_Cert = caCert, ca_Key = caKey\<rparr>, es_Tokens = toks, es_TokenFile = sd_tokens sd, es_Registry = reg,
               es_Revoked = rl, es_ValidityDays = ClientCertValidityDays cfg, es_Limiter = NewIPLimiter\<rparr>)))))))"

section \<open>A certificate authority that is half created\<close>

text \<open>
  The authority's key and certificate are written before the names of the server certificate are
  settled. With the wildcard address of the default configuration and no explicit name the command
  therefore fails after it has replaced the authority, with \<^verbatim>\<open>--force\<close> an existing one, and left the
  server certificate as it was; and the obvious second attempt, with a name, is refused because the
  authority exists.
\<close>

theorem ca_init_half_done:
  assumes ca: "GenerateCA (cl_x509 L) now (fst kps) (fst rnds) (wrap64 (CAValidityYears cfg * 365 * 24 * hour)) = Inr ca"
    and key: "cl_marshal_key L (ca_Key ca) = Some caKeyPEM" and allowed: "force \<or> sd_caKey sd = None" "\<not> stat"
    and addr: "SplitHostPort (ControlAddr cfg) = Some (host, port)" "ParseIP host = Some ip" "IsUnspecified ip"
  shows "\<exists>sd'. runCAInit L now kps rnds stat None cfg force [] sd = (Inl NoSAN, sd') \<and>
     sd_caKey sd' = Some caKeyPEM \<and> sd_caCert sd' = Some (x_pem_encode (cl_x509 L) ''CERTIFICATE'' (c_Raw (ca_Cert ca))) \<and>
     sd_serverKey sd' = sd_serverKey sd \<and> sd_serverCert sd' = sd_serverCert sd \<and>
     (\<forall>L2 now2 kps2 rnds2 stat2 broken cfg2 sans. runCAInit L2 now2 kps2 rnds2 stat2 broken cfg2 False sans sd' = (Inl AlreadyInitialized, sd'))"
  using assms by (auto simp: runCAInit_def sans_for_def host_san_def Let_def)

section \<open>One authority for both endpoints\<close>

lemma runCAInit_ok:
  assumes "runCAInit L now kps rnds stat broken cfg force sans sd = (Inr fp, sd1)"
  shows "\<exists>ca ips dns certPEM keyPEM. GenerateCA (cl_x509 L) now (fst kps) (fst rnds) (wrap64 (CAValidityYears cfg * 365 * 24 * hour)) = Inr ca \<and> fp = Fingerprint (cl_sha256 L) (ca_Cert ca) \<and>
     sd_caCert sd1 = Some (x_pem_encode (cl_x509 L) ''CERTIFICATE'' (c_Raw (ca_Cert ca))) \<and> sd_caKey sd1 = cl_marshal_key L (ca_Key ca) \<and> sd_caKey sd1 \<noteq> None \<and>
     SignServerCertificate (cl_x509 L) now (snd kps) (snd rnds) (cl_marshal_key L) (Some ca)
       (wrap64 (CAValidityYears cfg * 365 * 24 * hour) div (24 * hour)) ips dns = Inr (certPEM, keyPEM) \<and>
     sd_serverCert sd1 = Some certPEM \<and> sd_serverKey sd1 = Some keyPEM \<and> ips @ dns \<noteq> []"
  using assms
  by (simp add: runCAInit_def Let_def split: if_splits sum.splits option.splits prod.splits) fastforce

lemma GenerateCA_cert:
  assumes "x509_law X" and "\<forall>der c. x_parse_cert X der = Some c \<longrightarrow> c_Raw c = der" and "GenerateCA X now kp rnd validity = Inr ca"
  shows "ParseCertificate X (x_pem_encode X ''CERTIFICATE'' (c_Raw (ca_Cert ca))) = Inr (ca_Cert ca) \<and> c_IsCA (ca_Cert ca)"
  using assms
  by (auto simp: GenerateCA_def x509_law_def ParseCertificate_def Let_def split: if_splits option.splits) fastforce+

lemma SignServerCertificate_cert:
  assumes "x509_law X" and "SignServerCertificate X now kp rnd marshal_key (Some ca) days ips dns = Inr (certPEM, keyPEM)"
  shows "\<exists>c. ParseCertificate X certPEM = Inr c \<and> c_EKU c = [ServerAuth] \<and> \<not> c_IsCA c \<and> c_NotAfter c \<le> c_NotAfter (ca_Cert ca)"
proof -
  obtain t der where t: "x_create X t ca = Some der" "certPEM = x_pem_encode X ''CERTIFICATE'' der" "c_EKU t = [ServerAuth]" "\<not> c_IsCA t"
      "c_NotAfter t \<le> c_NotAfter (ca_Cert ca)"
    using assms(2) by (auto simp: SignServerCertificate_def Let_def split: option.splits if_splits)
  moreover obtain c where "x_parse_cert X der = Some c" "c_EKU c = c_EKU t" "c_IsCA c = c_IsCA t" "c_NotAfter c \<le> c_NotAfter t"
    using assms(1) t(1) unfolding x509_law_def by blast
  moreover have "x_pem_decode X (x_pem_encode X ''CERTIFICATE'' der) = Some (''CERTIFICATE'', der)" using assms(1) by (simp add: x509_law_def)
  ultimately show ?thesis by (simp add: ParseCertificate_def)
qed


text \<open>
  C28: After a successful initialisation the control server and the enrolment endpoint, each started from
  the same state directory, work with one authority: the root the control server trusts is the
  certificate the endpoint signs with, it is the one whose fingerprint was printed, and the server's own
  certificate is for server authentication, names at least one address and does not outlive the root.
\<close>

theorem endpoints_share_ca:
  assumes x509: "x509_law (cl_x509 L)" "\<forall>der c. x_parse_cert (cl_x509 L) der = Some c \<longrightarrow> c_Raw c = der"
    and keys: "\<forall>k pem. cl_marshal_key L k = Some pem \<longrightarrow> cl_parse_key L pem = Some k"
    and init: "runCAInit L now kps rnds stat broken cfg force sans sd = (Inr fp, sd1)"
    and run: "runServer L T rd listen_ok cfg pprof sd1 = Inr ss" and enroll: "loadEnrollServer L io rd2 cfg sd1 = Inr es"
  shows "\<exists>ca cert. to_CAs (ss_options ss) = [Some (ca_Cert ca)] \<and> es_CA es = ca \<and> Fingerprint (cl_sha256 L) (ca_Cert ca) = fp \<and> c_IsCA (ca_Cert ca) \<and>
     ParseCertificate (cl_x509 L) (to_Cert (ss_options ss)) = Inr cert \<and> c_EKU cert = [ServerAuth] \<and> \<not> c_IsCA cert \<and> c_NotAfter cert \<le> c_NotAfter (ca_Cert ca)"
proof -
  from runCAInit_ok [OF init] obtain ca ips dns certPEM keyPEM where
      ca: "GenerateCA (cl_x509 L) now (fst kps) (fst rnds) (wrap64 (CAValidityYears cfg * 365 * 24 * hour)) = Inr ca" and fp: "fp = Fingerprint (cl_sha256 L) (ca_Cert ca)"
      and files: "sd_caCert sd1 = Some (x_pem_encode (cl_x509 L) ''CERTIFICATE'' (c_Raw (ca_Cert ca)))" "sd_caKey sd1 = cl_marshal_key L (ca_Key ca)" "sd_caKey sd1 \<noteq> None"
        "sd_serverCert sd1 = Some certPEM"
      and sign: "SignServerCertificate (cl_x509 L) now (snd kps) (snd rnds) (cl_marshal_key L) (Some ca)
         (wrap64 (CAValidityYears cfg * 365 * 24 * hour) div (24 * hour)) ips dns = Inr (certPEM, keyPEM)" by blast
  note root = GenerateCA_cert [OF x509 ca]
  have key: "\<exists>pem. sd_caKey sd1 = Some pem \<and> cl_parse_key L pem = Some (ca_Key ca)" using files(2,3) keys by auto
  have "\<exists>c. ParseCertificate (cl_x509 L) certPEM = Inr c \<and> c_EKU c = [ServerAuth] \<and> \<not> c_IsCA c \<and> c_NotAfter c \<le> c_NotAfter (ca_Cert ca)"
    using SignServerCertificate_cert [OF x509(1) sign] .
  moreover have "to_Cert (ss_options ss) = certPEM" "to_CAs (ss_options ss) = [Some (ca_Cert ca)]"
    using run files root by (auto simp: runServer_def Let_def split: if_splits option.splits sum.splits)
  moreover have "es_CA es = ca" using enroll files(1,4) root key by (auto simp: loadEnrollServer_def split: if_splits option.splits sum.splits)
  ultimately show ?thesis using fp root by blast
qed


section \<open>Revoking a certificate\<close>

lemma runServer_revoked:
  assumes "runServer L T rd listen_ok cfg pprof sd = Inr ss"
  shows "\<exists>rl. LoadRevocationList (cl_revoked_json L) rd (sd_revoked sd) = Inr rl \<and> to_IsRevoked (ss_options ss) = Some (IsRevoked rl) \<and>
     tr_Config T (ss_options ss) = Inr (ss_tls ss)"
  using assms by (auto simp: runServer_def Let_def split: if_splits option.splits sum.splits)

lemma revoked_refused:
  assumes "tr_Config T opts = Inr tls" and "to_IsRevoked opts = Some f" and "tl_parse T raw = Some cert" and "f (nat_string (c_serial cert))"
  shows "tr_Accept T now tls (RawConn (Presents (raw # rest) holds)) = AcceptErr Wrapped"
proof -
  have "\<not> tc_VerifyPeerCertificate tls now (raw # rest)"
    using assms by (auto simp: tr_Config_def verifyPeer_def Let_def split: if_splits)
  moreover have "tc_ClientAuth tls = RequireAndVerifyClientCert" using assms(1) by (auto simp: tr_Config_def Let_def split: if_splits)
  ultimately show ?thesis by (auto simp: tr_Accept_def server_handshake_def split: option.splits list.splits)
qed

text \<open>
  Revoking a certificate takes effect with the next start of the server, not with the next handshake: the
  running process keeps the list it loaded and goes on accepting the client. After a restart the client
  is refused, but its refused handshake also ends the accept loop: a revoked client that merely tries to
  reconnect keeps the restarted server down for everyone.
\<close>

theorem revoked_client_stops_server:
  assumes json: "list_law (cl_revoked_json L)" and revoke: "cert_revoke L rd wr t serial reason sd = (None, sd')" "serial \<noteq> ''''"
    and running: "runServer L T rd0 True cfg pprof sd = Inr ss" and restarted: "runServer L T True True cfg pprof sd' = Inr ss'"
    and peer: "ar_raw a = RawConn (Presents (raw # rest) True)" "tl_parse T raw = Some cert" "nat_string (c_serial cert) = serial"
    and known: "tr_Accept T (ar_now a) (ss_tls ss) (ar_raw a) = Accepted cn" and live: "\<not> ar_cancelled a"
  shows "fst (serve T ss cfg [a] :: served \<times> 'l Server) = Waiting \<and>
     (serve T ss' cfg (a # as) :: served \<times> 'l Server) = (ReturnedError Wrapped, Serve_init (Some cfg) (ss_vhostPort ss'))"
proof -
  obtain rl rl' where rl: "LoadRevocationList (cl_revoked_json L) rd (sd_revoked sd) = Inr rl"
      "rl_Revoke (cl_revoked_json L) wr t serial reason rl = (rl', None)" "sd_revoked sd' = rl_file rl'"
    using revoke(1) by (auto simp: cert_revoke_def split: sum.splits prod.splits option.splits)
  obtain rl2 where rl2: "LoadRevocationList (cl_revoked_json L) True (sd_revoked sd') = Inr rl2" "to_IsRevoked (ss_options ss') = Some (IsRevoked rl2)"
      "tr_Config T (ss_options ss') = Inr (ss_tls ss')" using runServer_revoked [OF restarted] by blast
  have "IsRevoked rl2 serial"
    using revocation_persists [OF json rl(1,2) revoke(2)] rl2(1) rl(3) by auto
  then have "tr_Accept T (ar_now a) (ss_tls ss') (ar_raw a) = AcceptErr Wrapped"
    using revoked_refused [OF rl2(3,2) peer(2)] peer(1,3) by simp
  then show ?thesis using known live by (simp add: serve_def)
qed


section \<open>Sample runs\<close>

definition root_tmpl :: certificate where
  "root_tmpl = \<lparr>c_serial = 1, c_CN = ''qoqtun Root CA'', c_O = [], c_OU = [], c_NotBefore = - 5 * minute, c_NotAfter = 3650 * 24 * hour,
     c_KeyUsage = [CertSign, CRLSign], c_EKU = [], c_IsCA = True, c_MaxPathLenZero = True, c_IPs = [], c_DNS = [], c_key = 1, c_Raw = []\<rparr>"

definition srv_tmpl :: certificate where
  "srv_tmpl = \<lparr>c_serial = 2, c_CN = ''qoqtun server'', c_O = [], c_OU = [], c_NotBefore = - 5 * minute, c_NotAfter = 3650 * 24 * hour,
     c_KeyUsage = [DigitalSignature], c_EKU = [ServerAuth], c_IsCA = False, c_MaxPathLenZero = False, c_IPs = [''203.0.113.5''], c_DNS = [], c_key = 2, c_Raw = []\<rparr>"

definition plain_x509 :: x509_lib where
  "plain_x509 = \<lparr>x_pem_decode = read_pem, x_pem_encode = plain_pem, x_parse_csr = (\<lambda>_. None), x_create_csr = (\<lambda>_. None),
     x_parse_cert = (\<lambda>der. if der = [8] then Some (root_tmpl\<lparr>c_Raw := [8]\<rparr>) else if der = [9] then Some (srv_tmpl\<lparr>c_Raw := [9]\<rparr>)
                        else if der = [1] then Some root_cert else None),
     x_create = (\<lambda>t ca. if t = root_tmpl then Some [8] else if t = srv_tmpl then Some [9] else None), x_verify = (\<lambda>_ _ _. True)\<rparr>"

definition plain_cmds :: cmd_lib where
  "plain_cmds = \<lparr>cl_x509 = plain_x509, cl_sha256 = (\<lambda>_. []), cl_marshal_key = (\<lambda>k. if k = 1 then Some ''1'' else if k = 2 then Some ''2'' else None),
     cl_parse_key = (\<lambda>s. if s = ''1'' then Some 1 else if s = ''2'' then Some 2 else None),
     cl_revoked_json = lost_json, cl_clients_json = \<lparr>marshal_list = (\<lambda>_. None), unmarshal_list = (\<lambda>_. None)\<rparr>, cl_tokens_json = sample_json\<rparr>"

definition empty_dir :: state_dir where
  "empty_dir = \<lparr>sd_caKey = None, sd_caCert = None, sd_serverKey = None, sd_serverCert = None, sd_revoked = None, sd_clients = None, sd_tokens = None\<rparr>"

lemma plain_x509_law: "x509_law plain_x509" "\<forall>der c. x_parse_cert plain_x509 der = Some c \<longrightarrow> c_Raw c = der"
  by (auto simp: x509_law_def plain_x509_def read_plain_pem root_cert_def)

abbreviation two_keys :: "nat option \<times> nat option" where
  "two_keys \<equiv> (Some 1, Some 2)"

abbreviation two_serials :: "bytes option \<times> bytes option" where
  "two_serials \<equiv> (Some [1], Some [2])"

theorem ca_init_half_done_witness:
  "fst (runCAInit plain_cmds 0 two_keys two_serials False None DefaultServerConfig False [] empty_dir) = Inl NoSAN"
proof -
  let ?ca = "GenerateCA (cl_x509 plain_cmds) 0 (fst two_keys) (fst two_serials) (wrap64 (CAValidityYears DefaultServerConfig * 365 * 24 * hour))"
  have "case ?ca of Inr ca \<Rightarrow> cl_marshal_key plain_cmds (ca_Key ca) = Some ''1'' | Inl _ \<Rightarrow> False"
    and addr: "SplitHostPort (ControlAddr DefaultServerConfig) = Some (''0.0.0.0'', ''7000'')"
    and "case ParseIP ''0.0.0.0'' of None \<Rightarrow> False | Some ip \<Rightarrow> IsUnspecified ip" by code_simp+
  then obtain ca ip where ca: "?ca = Inr ca" "cl_marshal_key plain_cmds (ca_Key ca) = Some ''1''"
      and ip: "ParseIP ''0.0.0.0'' = Some ip" "IsUnspecified ip" by (auto split: sum.splits option.splits)
  have "False \<or> sd_caKey empty_dir = None" by (simp add: empty_dir_def)
  from ca_init_half_done [OF ca this _ addr ip, of False] show ?thesis by force
qed

theorem endpoints_share_ca_witness:
  "\<exists>fp sd1 ss (ca :: CA). runCAInit plain_cmds 0 two_keys two_serials False None DefaultServerConfig False [''203.0.113.5''] empty_dir = (Inr fp, sd1) \<and>
     runServer plain_cmds plain_tls True True DefaultServerConfig '''' sd1 = Inr ss \<and> to_CAs (ss_options ss) = [Some (ca_Cert ca)] \<and>
     Fingerprint (\<lambda>_. []) (ca_Cert ca) = fp"
proof -
  let ?r = "runCAInit plain_cmds 0 two_keys two_serials False None DefaultServerConfig False [''203.0.113.5''] empty_dir"
  let ?run = "runServer plain_cmds plain_tls True True DefaultServerConfig '''' (snd ?r)"
  let ?enroll = "loadEnrollServer plain_cmds (sample_io 6) True DefaultServerConfig (snd ?r) :: server_error + unit EnrollServer"
  have "case fst ?r of Inr _ \<Rightarrow> True | Inl _ \<Rightarrow> False" "case ?run of Inr _ \<Rightarrow> True | Inl _ \<Rightarrow> False" "case ?enroll of Inr _ \<Rightarrow> True | Inl _ \<Rightarrow> False" by code_simp+
  then obtain fp ss es where r: "?r = (Inr fp, snd ?r)" and run: "?run = Inr ss" and enroll: "?enroll = Inr es"
    by (cases ?r; cases "fst ?r"; cases ?run; cases ?enroll) auto
  have keys: "\<forall>k pem. cl_marshal_key plain_cmds k = Some pem \<longrightarrow> cl_parse_key plain_cmds pem = Some k"
    by (auto simp: plain_cmds_def split: if_splits)
  have lib: "cl_x509 plain_cmds = plain_x509" "cl_sha256 plain_cmds = (\<lambda>_. [])" by (simp_all add: plain_cmds_def)
  have laws: "x509_law (cl_x509 plain_cmds)" "\<forall>der c. x_parse_cert (cl_x509 plain_cmds) der = Some c \<longrightarrow> c_Raw c = der"
    unfolding lib by (rule plain_x509_law)+
  from endpoints_share_ca [OF laws keys r run enroll] have
    "to_CAs (ss_options ss) = [Some (ca_Cert (es_CA es))]" "Fingerprint (\<lambda>_. []) (ca_Cert (es_CA es)) = fp" by (auto simp: lib)
  with r run show ?thesis by (intro exI conjI)
qed


definition served_dir :: state_dir where
  "served_dir = empty_dir\<lparr>sd_caKey := Some ''1'', sd_caCert := Some (plain_pem ''CERTIFICATE'' [1]), sd_serverKey := Some ''2'', sd_serverCert := Some ''cert''\<rparr>"

theorem revoked_client_stops_server_witness:
  "\<exists>sd' ss ss'. cert_revoke plain_cmds True True 3 ''7'' ''lost'' served_dir = (None, sd') \<and>
     runServer plain_cmds plain_tls True True DefaultServerConfig '''' served_dir = Inr ss \<and> runServer plain_cmds plain_tls True True DefaultServerConfig '''' sd' = Inr ss' \<and>
     fst (serve plain_tls ss DefaultServerConfig [hello_from (Presents [[7]] True)] :: served \<times> unit Server) = Waiting \<and>
     fst (serve plain_tls ss' DefaultServerConfig [hello_from (Presents [[7]] True)] :: served \<times> unit Server) = ReturnedError Wrapped"
proof -
  let ?rev = "cert_revoke plain_cmds True True 3 ''7'' ''lost'' served_dir"
  let ?ss = "runServer plain_cmds plain_tls True True DefaultServerConfig '''' served_dir"
  let ?ss' = "runServer plain_cmds plain_tls True True DefaultServerConfig '''' (snd ?rev)"
  let ?a = "hello_from (Presents [[7]] True)"
  have law: "list_law (cl_revoked_json plain_cmds)" by (simp add: plain_cmds_def list_law_def lost_json_def)
  have "fst ?rev = None" "case ?ss of Inr ss \<Rightarrow> tr_Accept plain_tls 1 (ss_tls ss) (RawConn (Presents [[7]] True)) = Accepted ''alice'' | Inl _ \<Rightarrow> False"
    "case ?ss' of Inr _ \<Rightarrow> True | Inl _ \<Rightarrow> False" and serial: "nat_string (c_serial alice_cert) = ''7''" by code_simp+
  then obtain ss ss' where rev: "?rev = (None, snd ?rev)" and ss: "?ss = Inr ss" "tr_Accept plain_tls 1 (ss_tls ss) (RawConn (Presents [[7]] True)) = Accepted ''alice''"
      and ss': "?ss' = Inr ss'" by (cases ?rev; cases ?ss; cases ?ss') auto
  have "ar_raw ?a = RawConn (Presents ([7] # []) True)" "tl_parse plain_tls [7] = Some alice_cert" "\<not> ar_cancelled ?a" "ar_now ?a = 1"
    by (simp_all add: hello_from_def plain_tls_def)
  then show ?thesis
    using revoked_client_stops_server [OF law rev _ ss(1) ss', of ?a "[7]" "[]" alice_cert "''alice''" "[]", where ?'l = unit] rev ss ss' serial by force
qed

end
