(* ===== verification/Logging.thy ===== *)
theory Logging
  imports Tokens
begin

text \<open>
  \<^verbatim>\<open>internal/logging\<close>: the choice of a logger, the redaction of attributes and the sampling of repeated
  messages. The handlers of \<^verbatim>\<open>log/slog\<close> are modelled as far as the package relies on them: they call
  \<open>RedactAttr\<close> on every attribute that is not a group, at every depth. The lemmas show that no enrolment
  token and no other value that looks like a secret is printed, and how many copies of one message get
  through the sampler.
\<close>

section \<open>Loggers (logging.go)\<close>

datatype log_level = LevelDebug | LevelInfo | LevelWarn | LevelError
datatype log_format = JSONHandler | TextHandler
datatype log_error = InvalidLevel string | InvalidFormat string | InvalidLogPath string | NoLogDirectory | OpenLogFailed

definition parseLevel :: "(string \<Rightarrow> string) \<Rightarrow> string \<Rightarrow> log_error + log_level" where
  "parseLevel ucase level =
     (let l = to_lower ucase level
      in if l = ''debug'' then Inr LevelDebug
         else if l = ''info'' \<or> l = '''' then Inr LevelInfo
         else if l = ''warn'' \<or> l = ''warning'' then Inr LevelWarn
         else if l = ''error'' then Inr LevelError
         else Inl (InvalidLevel level))"

text \<open>
  \<open>dir_ok\<close> says that the directory of the file exists, \<open>open_ok\<close> that the file can be opened;
  the only clean path that is refused is the root.
\<close>

definition openLogFile :: "bool \<Rightarrow> bool \<Rightarrow> string \<Rightarrow> log_error option" where
  "openLogFile dir_ok open_ok path =
     (if has_prefix path ''/'' \<and> list_all (\<lambda>g. g = '''' \<or> g = ''.'' \<or> g = ''..'') (split_on (CHR ''/'') path) then Some (InvalidLogPath path)
      else if \<not> dir_ok then Some NoLogDirectory
      else if \<not> open_ok then Some OpenLogFailed
      else None)"

text \<open>The handler is built with \<open>RedactAttr\<close>; an empty \<open>file\<close> means standard error.\<close>

record logger =
  lg_level :: log_level
  lg_format :: log_format
  lg_file :: string
  lg_guarded :: bool

definition new_logger ::
  "bool \<Rightarrow> (string \<Rightarrow> string) \<Rightarrow> bool \<Rightarrow> bool \<Rightarrow> string \<Rightarrow> string \<Rightarrow> string \<Rightarrow> log_error + logger" where
  "new_logger guarded ucase dir_ok open_ok level format file =
     (case parseLevel ucase level of Inl e \<Rightarrow> Inl e
      | Inr lvl \<Rightarrow>
          (case (if file \<noteq> '''' then openLogFile dir_ok open_ok file else None) of Some e \<Rightarrow> Inl e
           | None \<Rightarrow>
               (let f = to_lower ucase format
                in if f = ''json'' then Inr \<lparr>lg_level = lvl, lg_format = JSONHandler, lg_file = file, lg_guarded = guarded\<rparr>
                   else if f = ''text'' \<or> f = '''' then Inr \<lparr>lg_level = lvl, lg_format = TextHandler, lg_file = file, lg_guarded = guarded\<rparr>
                   else Inl (InvalidFormat format))))"

definition log_New :: "(string \<Rightarrow> string) \<Rightarrow> bool \<Rightarrow> bool \<Rightarrow> string \<Rightarrow> string \<Rightarrow> string \<Rightarrow> log_error + logger" where
  "log_New = new_logger False"

definition NewFloodGuarded :: "(string \<Rightarrow> string) \<Rightarrow> bool \<Rightarrow> bool \<Rightarrow> string \<Rightarrow> string \<Rightarrow> string \<Rightarrow> log_error + logger" where
  "NewFloodGuarded = new_logger True"

section \<open>Redaction (redact.go)\<close>

definition redacted :: string where
  "redacted = ''***''"

definition sensitiveKeys :: "string list" where
  "sensitiveKeys = [''key'', ''token'', ''secret'', ''password'', ''passwd'', ''pwd'',
     ''cert'', ''private'', ''privkey'', ''api_key'', ''apikey'', ''credential'',
     ''authorization'', ''cookie'', ''signature'', ''fingerprint'']"

definition longHex :: "string \<Rightarrow> bool" where
  "longHex v \<longleftrightarrow> 32 \<le> length v \<and> list_all (\<lambda>c. hex_value c \<noteq> None) v"

definition url_char :: "char \<Rightarrow> bool" where
  "url_char c \<longleftrightarrow> is_lower c \<or> is_upper c \<or> is_digit c \<or> c \<in> {CHR ''_'', CHR ''-''}"

definition b64_char :: "char \<Rightarrow> bool" where
  "b64_char c \<longleftrightarrow> url_char c \<or> c \<in> {CHR ''+'', CHR ''/''}"

definition longB64 :: "string \<Rightarrow> bool" where
  "longB64 v \<longleftrightarrow> 44 \<le> length (takeWhile b64_char v) \<and> dropWhile b64_char v \<in> {'''', ''='', ''==''}"

definition jwtLike :: "string \<Rightarrow> bool" where
  "jwtLike v \<longleftrightarrow> length (split_on (CHR ''.'') v) = 3 \<and> list_all (\<lambda>p. p \<noteq> [] \<and> list_all url_char p) (split_on (CHR ''.'') v)"

definition isSensitiveValue :: "string \<Rightarrow> bool" where
  "isSensitiveValue v \<longleftrightarrow>
     (if length v < 16 then False else if longHex v \<or> longB64 v then True else 40 \<le> length v \<and> jwtLike v)"

text \<open>An attribute value: a string, a group, or a value of another kind by its printed text.\<close>

datatype attr_value = VString string | VOther string | VGroup "(string \<times> attr_value) list"

type_synonym attr = "string \<times> attr_value"

definition sensitiveKey :: "(string \<Rightarrow> string) \<Rightarrow> string \<Rightarrow> bool" where
  "sensitiveKey ucase k \<longleftrightarrow> list_ex (\<lambda>frag. contains (to_lower ucase k) frag) sensitiveKeys"

definition RedactAttr :: "(string \<Rightarrow> string) \<Rightarrow> attr \<Rightarrow> attr" where
  "RedactAttr ucase a =
     (case snd a of
        VString v \<Rightarrow>
          (if sensitiveKey ucase (fst a) then (fst a, VString redacted)
           else if isSensitiveValue v then (fst a, VString redacted)
           else a)
      | _ \<Rightarrow> a)"

text \<open>What a handler with \<open>RedactAttr\<close> installed prints of an attribute.\<close>

fun print_attr :: "(string \<Rightarrow> string) \<Rightarrow> attr \<Rightarrow> attr" where
  "print_attr ucase (k, VGroup as) = (k, VGroup (map (print_attr ucase) as))"
| "print_attr ucase (k, VString v) = RedactAttr ucase (k, VString v)"
| "print_attr ucase (k, VOther t) = RedactAttr ucase (k, VOther t)"

text \<open>
  The wrapper for other handlers: \<open>rh_attrs\<close> are the attributes the wrapped handler carries. Attributes
  that are attached beforehand go to it as they are.
\<close>

record redactHandler =
  rh_attrs :: "attr list"

definition RedactWrap :: "attr list \<Rightarrow> redactHandler" where
  "RedactWrap as = \<lparr>rh_attrs = as\<rparr>"

definition rh_Handle :: "(string \<Rightarrow> string) \<Rightarrow> redactHandler \<Rightarrow> attr list \<Rightarrow> attr list" where
  "rh_Handle ucase h as = rh_attrs h @ map (RedactAttr ucase) as"

definition rh_WithAttrs :: "attr list \<Rightarrow> redactHandler \<Rightarrow> redactHandler" where
  "rh_WithAttrs as h = h\<lparr>rh_attrs := rh_attrs h @ as\<rparr>"

text \<open>A wrapped secret (secret.go) prints as the mask.\<close>

datatype Secret = NewSecret (secret_Value: string)

definition secret_String :: "Secret \<Rightarrow> string" where
  "secret_String s = redacted"

section \<open>Sampling (sample.go)\<close>

record sampleState =
  ss_first :: instant
  ss_count :: int

record sampler =
  sm_window :: duration
  sm_max :: int
  sm_seen :: "(string, sampleState) gomap"
  sm_lastPrune :: instant
  sm_dropEvery :: int

text \<open>With a limit of zero or less the handler is not wrapped.\<close>

definition SamplingHandler :: "duration \<Rightarrow> int \<Rightarrow> int \<Rightarrow> sampler option" where
  "SamplingHandler window maxPerWindow dropEvery =
     (if maxPerWindow \<le> 0 then None
      else Some \<lparr>sm_window = window, sm_max = maxPerWindow, sm_seen = [], sm_lastPrune = zero_time, sm_dropEvery = dropEvery\<rparr>)"

definition DefaultFloodGuard :: "sampler option" where
  "DefaultFloodGuard = SamplingHandler minute 5 200"

definition prune :: "instant \<Rightarrow> sampler \<Rightarrow> sampler" where
  "prune now s =
     (if now - sm_lastPrune s < sm_window s then s
      else s\<lparr>sm_seen := mdel_where (\<lambda>_ st. sm_window s < now - ss_first st) (sm_seen s), sm_lastPrune := now\<rparr>)"

datatype sampled = Passed | Suppressed | Summary int

definition sm_Handle :: "instant \<Rightarrow> string \<Rightarrow> sampler \<Rightarrow> sampled \<times> sampler" where
  "sm_Handle now key s =
     (let s1 = prune now s;
          st = (case mget (sm_seen s1) key of Some st \<Rightarrow> st | None \<Rightarrow> \<lparr>ss_first = now, ss_count = 0\<rparr>);
          st1 = st\<lparr>ss_count := ss_count st + 1\<rparr>;
          s2 = s1\<lparr>sm_seen := mput key st1 (sm_seen s1)\<rparr>;
          dropped = ss_count st1 - sm_max s
      in (if ss_count st1 \<le> sm_max s then Passed
          else if 0 < sm_dropEvery s \<and> 0 < dropped \<and> dropped mod sm_dropEvery s = 0 then Summary dropped
          else Suppressed, s2))"

section \<open>Nothing that looks like a secret is printed\<close>

text \<open>The string attributes of a printed record, with their keys.\<close>

fun strings_of :: "attr \<Rightarrow> (string \<times> string) list" where
  "strings_of (k, VGroup as) = concat (map strings_of as)"
| "strings_of (k, VString v) = [(k, v)]"
| "strings_of (k, VOther t) = []"

lemma print_attr_clean:
  "(k, v) \<in> set (strings_of (print_attr ucase a)) \<Longrightarrow> v = redacted \<or> \<not> sensitiveKey ucase k \<and> \<not> isSensitiveValue v"
proof (induction ucase a rule: print_attr.induct)
  case (1 ucase k' as)
  then show ?case by auto
qed (auto simp: RedactAttr_def split: if_splits)

lemma alphabet_b64: "c \<in> set alphabet \<Longrightarrow> b64_char c"
proof -
  have "list_all b64_char alphabet" by code_simp
  then show "c \<in> set alphabet \<Longrightarrow> ?thesis" by (simp add: list_all_iff)
qed

lemma base62_digits_alphabet: "set (base62_digits n) \<subseteq> set alphabet"
proof (induction n rule: base62_digits.induct)
  case (1 n)
  have "length alphabet = 62" by code_simp
  then have "alphabet ! (n mod 62) \<in> set alphabet" by (intro nth_mem) simp
  then show ?case using 1 by (subst base62_digits.simps) simp
qed

lemma base62Encode_chars: "list_all b64_char (base62Encode raw)"
proof -
  have "CHR ''0'' \<in> set alphabet" by code_simp
  then have "set (base62Encode raw) \<subseteq> set alphabet"
    using base62_digits_alphabet [of "be_value raw"] by (auto simp: base62Encode_def Let_def split: if_splits)
  then show ?thesis using alphabet_b64 by (auto simp: list_all_iff)
qed

lemma longB64_plain: "list_all b64_char v \<Longrightarrow> 44 \<le> length v \<Longrightarrow> longB64 v"
  by (simp add: longB64_def list_all_iff takeWhile_eq_all_conv [THEN iffD2] dropWhile_eq_Nil_conv)

lemma token_sensitive:
  assumes "length raw = 32"
  shows "isSensitiveValue (''qen_'' @ base62Encode raw)"
proof -
  have "list_all b64_char ''qen_''" by code_simp
  then have "longB64 (''qen_'' @ base62Encode raw)"
    using base62Encode_chars [of raw] base62Encode_width [OF assms] by (intro longB64_plain) simp_all
  then show ?thesis using base62Encode_width [OF assms] by (simp add: isSensitiveValue_def)
qed



section \<open>How many copies of a message get through\<close>

fun passed :: "string \<Rightarrow> (instant \<times> string) list \<Rightarrow> sampler \<Rightarrow> int" where
  "passed k [] s = 0"
| "passed k ((t, x) # evs) s =
     (let (r, s1) = sm_Handle t x s in (if x = k \<and> r = Passed then 1 else 0) + passed k evs s1)"

text \<open>
  \<open>p\<close> copies of \<open>k\<close> got through from \<open>t0\<close> to \<open>now\<close>: every entry but the current one was the first copy of a
  window of its own.
\<close>

definition sampled_inv :: "string \<Rightarrow> duration \<Rightarrow> int \<Rightarrow> instant \<Rightarrow> instant \<Rightarrow> int \<Rightarrow> sampler \<Rightarrow> bool" where
  "sampled_inv k w m t0 now p s \<longleftrightarrow> sm_window s = w \<and> sm_max s = m \<and> mwf (sm_seen s) \<and>
     (case mget (sm_seen s) k of
        None \<Rightarrow> p \<le> m * ((now - t0) div w)
      | Some st \<Rightarrow> t0 \<le> ss_first st \<and> ss_first st \<le> now \<and> 1 \<le> ss_count st \<and> p \<le> m * ((ss_first st - t0) div w) + min (ss_count st) m)"

lemma windows_mono: "0 < m \<Longrightarrow> 0 < w \<Longrightarrow> a \<le> b \<Longrightarrow> m * (a div w) \<le> m * (b div w)" for a b m w :: int
  by (simp add: zdiv_mono1)

lemma windows_next:
  fixes a b m w :: int
  assumes "0 < m" and "0 < w" and "a + w \<le> b"
  shows "m * (a div w) + m \<le> m * (b div w)"
proof -
  have "(a + w) div w \<le> b div w" using assms by (simp add: zdiv_mono1)
  moreover have "(a + w) div w = a div w + 1" using assms(2) by (simp add: div_add_self2)
  ultimately have "a div w + 1 \<le> b div w" by simp
  then have "m * (a div w + 1) \<le> m * (b div w)" using assms by simp
  then show ?thesis by (simp add: algebra_simps)
qed

lemma sampled_prune:
  assumes inv: "sampled_inv k w m t0 now p s" and "0 < m" and "0 < w" and "now \<le> t"
  shows "sampled_inv k w m t0 t p (prune t s)"
proof (cases "mget (sm_seen s) k")
  case None
  then have "p \<le> m * ((now - t0) div w)" using inv by (simp add: sampled_inv_def)
  then have "p \<le> m * ((t - t0) div w)" using windows_mono [OF assms(2,3), of "now - t0" "t - t0"] assms(4) by linarith
  then show ?thesis using None inv by (auto simp: sampled_inv_def prune_def mget_mdel_where)
next
  case (Some st)
  then have st: "p \<le> m * ((ss_first st - t0) div w) + min (ss_count st) m" using inv by (simp add: sampled_inv_def)
  have "p \<le> m * ((t - t0) div w)" if "w < t - ss_first st"
    using windows_next [of m w "ss_first st - t0" "t - t0"] that assms(2,3) st by auto
  then show ?thesis using Some assms by (auto simp: sampled_inv_def prune_def mget_mdel_where)
qed

lemma sampled_step:
  assumes inv: "sampled_inv k w m t0 now p s" and pos: "0 < m" "0 < w" and t: "now \<le> t" "t0 \<le> now"
    and run: "sm_Handle t x s = (r, s1)"
  shows "sampled_inv k w m t0 t (p + (if x = k \<and> r = Passed then 1 else 0)) s1"
proof -
  have p: "sampled_inv k w m t0 t p (prune t s)" by (rule sampled_prune [OF inv pos t(1)])
  have mx: "sm_max s = m" using inv by (simp add: sampled_inv_def)
  define st where "st = (case mget (sm_seen (prune t s)) x of Some st \<Rightarrow> st | None \<Rightarrow> \<lparr>ss_first = t, ss_count = 0\<rparr>)"
  have s1: "s1 = (prune t s)\<lparr>sm_seen := mput x (st\<lparr>ss_count := ss_count st + 1\<rparr>) (sm_seen (prune t s))\<rparr>"
    and r: "r = Passed \<longleftrightarrow> ss_count st + 1 \<le> m"
    using run mx by (auto simp: sm_Handle_def Let_def st_def split: if_splits)
  show ?thesis
  proof (cases "x = k")
    case False
    then show ?thesis using p by (simp add: s1 sampled_inv_def)
  next
    case True
    have "t0 \<le> ss_first st \<and> ss_first st \<le> t \<and> 0 \<le> ss_count st \<and> p \<le> m * ((ss_first st - t0) div w) + min (ss_count st) m"
      using p True t pos by (auto simp: st_def sampled_inv_def split: option.splits)
    then show ?thesis using p True r by (auto simp: s1 sampled_inv_def)
  qed
qed

lemma sampled_run:
  assumes "sampled_inv k w m t0 now p s" and "0 < m" and "0 < w" and "t0 \<le> now"
    and "sorted (map fst evs)" and "\<forall>e\<in>set evs. now \<le> fst e \<and> fst e \<le> t1" and "now \<le> t1"
  shows "p + passed k evs s \<le> m * (1 + (t1 - t0) div w)"
  using assms
proof (induction evs arbitrary: now p s)
  case Nil
  have "p \<le> m * ((now - t0) div w) + m"
  proof (cases "mget (sm_seen s) k")
    case (Some st)
    then have "p \<le> m * ((ss_first st - t0) div w) + min (ss_count st) m" "ss_first st \<le> now" using Nil.prems(1) by (auto simp: sampled_inv_def)
    then show ?thesis using windows_mono [OF Nil.prems(2,3), of "ss_first st - t0" "now - t0"] by linarith
  next
    case None
    then have "p \<le> m * ((now - t0) div w)" using Nil.prems(1) by (simp add: sampled_inv_def)
    then show ?thesis using Nil.prems(2) by linarith
  qed
  also have "m * ((now - t0) div w) + m \<le> m * ((t1 - t0) div w) + m" using windows_mono Nil by simp
  finally show ?case by (simp add: algebra_simps)
next
  case (Cons e evs)
  obtain t x where e: "e = (t, x)" by fastforce
  obtain r s1 where h: "sm_Handle t x s = (r, s1)" by fastforce
  have "sampled_inv k w m t0 t (p + (if x = k \<and> r = Passed then 1 else 0)) s1"
    using sampled_step [OF Cons.prems(1,2,3) _ Cons.prems(4) h] Cons.prems(6) by (simp add: e)
  then have "p + (if x = k \<and> r = Passed then 1 else 0) + passed k evs s1 \<le> m * (1 + (t1 - t0) div w)"
    using Cons.IH [of t] Cons.prems by (fastforce simp: e)
  then show ?case by (simp add: e h)
qed

text \<open>
  The flood guard bounds repetition: from the first record on, at most the configured number of copies
  of one message gets through for each window begun, whatever else is logged.
\<close>
theorem flood_bounded:
  assumes "SamplingHandler w m d = Some s" and "0 < w" and "sorted (map fst evs)" and "\<forall>e\<in>set evs. t0 \<le> fst e \<and> fst e \<le> t1" and "t0 \<le> t1"
  shows "passed k evs s \<le> m * (1 + (t1 - t0) div w)"
proof -
  have s: "s = \<lparr>sm_window = w, sm_max = m, sm_seen = [], sm_lastPrune = zero_time, sm_dropEvery = d\<rparr>" "0 < m"
    using assms(1) by (auto simp: SamplingHandler_def split: if_splits)
  have "sampled_inv k w m t0 t0 0 s" by (simp add: s sampled_inv_def)
  from sampled_run [OF this s(2) assms(2) _ assms(3,4,5)] show ?thesis by simp
qed

theorem flood_bounded_witness:
  "\<exists>s. DefaultFloodGuard = Some s \<and> passed ''x'' [(0, ''x''), (1, ''y''), (2, ''x''), (3, ''x'')] s \<le> 5"
proof -
  obtain s where s: "SamplingHandler minute 5 200 = Some s" by (simp add: SamplingHandler_def)
  from flood_bounded [OF s, of "[(0, ''x''), (1, ''y''), (2, ''x''), (3, ''x'')]" 0 3 "''x''"] s
  show ?thesis by (simp add: DefaultFloodGuard_def)
qed

text \<open>
  Two windows meet: the last copies of one and the first of the next can fall into the same instant, so
  that nearly twice the documented five per minute get through.
\<close>

lemma flood_guard_nine:
  "passed ''x'' [(0, ''x''), (minute - 1, ''x''), (minute - 1, ''x''), (minute - 1, ''x''), (minute - 1, ''x''),
     (minute + 1, ''x''), (minute + 1, ''x''), (minute + 1, ''x''), (minute + 1, ''x''), (minute + 1, ''x'')] (the DefaultFloodGuard) = 10"
  by (simp add: DefaultFloodGuard_def SamplingHandler_def sm_Handle_def prune_def mdel_where_def zero_time_def)


end
