(* ===== verification/ServerProgram.thy ===== *)
theory ServerProgram
  imports Lifecycle EnrollServe Commands Logging
begin

text \<open>
  The server program as a whole (\<^verbatim>\<open>main\<close>, \<^verbatim>\<open>newRootCmd\<close> and the commands it is made of, in
  \<^verbatim>\<open>cmd/server/main.go\<close> and \<^verbatim>\<open>cmd/server/enroll.go\<close>): an invocation, as it is after the flags have been
  parsed, is run against a machine with its configuration files, environment and state directories. Every
  command first resolves its configuration, which names the state directory it works on; the operations
  behind the commands are those of \<^verbatim>\<open>Commands\<close>, \<^verbatim>\<open>Transport\<close>, \<^verbatim>\<open>EnrollServe\<close> and \<^verbatim>\<open>Lifecycle\<close>.

  The lemmas show which files a command can change, and that a token made by one command is accepted once
  by the endpoint another command starts.
\<close>

section \<open>The machine and the invocation\<close>

record host =
  h_files :: "(string, bytes) gomap"
  h_env :: "string \<Rightarrow> string"
  h_dirs :: "string \<Rightarrow> state_dir"
  h_status :: "(string, string) gomap"

record 'l server_lib =
  sl_cmd :: cmd_lib
  sl_tls :: tls_lib
  sl_enroll :: "'l enroll_lib"
  sl_ucase :: "string \<Rightarrow> string"
  sl_float :: float_lib
  sl_toml :: toml_lib
  sl_status :: "StatusSnapshot \<Rightarrow> string option"

text \<open>What the system answers while the command runs: clock, random bytes, file accesses, connections.\<close>

record server_io =
  si_now :: instant
  si_keys :: "nat option \<times> nat option"
  si_serials :: "bytes option \<times> bytes option"
  si_stat :: bool
  si_broken :: "string option"
  si_rnd1 :: "bytes option"
  si_rnd2 :: "bytes option"
  si_tokens :: file_io
  si_read :: bool
  si_write :: bool
  si_listen :: bool
  si_root :: bool
  si_rlimit :: "64 word option"
  si_logdir :: bool
  si_logopen :: bool
  si_arrivals :: "arrival list"
  si_ticks :: "(instant \<times> bool) list"
  si_enrolments :: "enr_arrival list"

text \<open>The commands with the values of their flags and arguments, the path of the configuration first.\<close>

datatype server_cmd =
    SVersion
  | SRun string bool bool string
  | SCheckConfig string
  | SCaInit string bool "string list"
  | SStatus string
  | SCreateToken string string string
  | SClientList string
  | SRevokeToken string string
  | SCertList string
  | SCertRevoke string string string
  | SEnrollServe string

datatype server_failure =
    ConfigFailed resolve_error
  | LogFailed log_error
  | CommandFailed server_error
  | NoStatusFile
  | ServeFailed

datatype server_output =
    PrintedVersion string
  | PrintedConfig ServerConfig
  | PrintedFingerprint string
  | PrintedStatus string
  | PrintedToken duration string
  | PrintedClients "ClientRecord list"
  | PrintedCerts "(ClientRecord \<times> bool) list"
  | PrintedRevoked string
  | PrintedNothing

datatype server_result = Fails server_failure | Prints server_output | Runs

section \<open>The commands\<close>

definition config_of :: "'l server_lib \<Rightarrow> string \<Rightarrow> host \<Rightarrow> resolve_error + ServerConfig" where
  "config_of L path h =
     loadServerConfig (sl_ucase L) (sl_float L) (sl_toml L) (if path = '''' then None else Some (mget (h_files h) path)) (h_env h)"

definition log_of :: "'l server_lib \<Rightarrow> server_io \<Rightarrow> ServerConfig \<Rightarrow> log_error + logger" where
  "log_of L v cfg = log_New (sl_ucase L) (si_logdir v) (si_logopen v) (log_Level cfg) (log_Format cfg) (log_File cfg)"

definition put_dir :: "string \<Rightarrow> state_dir \<Rightarrow> host \<Rightarrow> host" where
  "put_dir dir sd h = h\<lparr>h_dirs := (h_dirs h)(dir := sd)\<rparr>"

text \<open>The ticks of the status loop, each after the connections that came before it.\<close>

definition run_status :: "'l server_lib \<Rightarrow> server_io \<Rightarrow> string \<Rightarrow> 'l Server \<Rightarrow> host \<Rightarrow> host" where
  "run_status L v dir s h =
     (case snd (fold (\<lambda>(t, ok). status_tick (sl_status L) ok t) (si_ticks v) (s, mget (h_status h) dir)) of
        None \<Rightarrow> h | Some content \<Rightarrow> h\<lparr>h_status := mput dir content (h_status h)\<rparr>)"

definition run_action :: "'l server_lib \<Rightarrow> server_io \<Rightarrow> bool \<Rightarrow> bool \<Rightarrow> string \<Rightarrow> ServerConfig \<Rightarrow> host \<Rightarrow> server_result \<times> host" where
  "run_action L v allowRoot allowLowFD pprofAddr cfg h =
     (case log_of L v cfg of Inl e \<Rightarrow> (Fails (LogFailed e), h)
      | Inr _ \<Rightarrow>
     (case applyStartupGuards (si_root v) (si_rlimit v) cfg allowRoot allowLowFD of Some e \<Rightarrow> (Fails (CommandFailed e), h)
      | None \<Rightarrow>
     (case runServer (sl_cmd L) (sl_tls L) (si_read v) (si_listen v) cfg pprofAddr (h_dirs h (StateDir cfg)) of
        Inl e \<Rightarrow> (Fails (CommandFailed e), h)
      | Inr ss \<Rightarrow>
          (let (served, s :: 'l Server) = serve (sl_tls L) ss cfg (si_arrivals v)
           in (case served of ReturnedNil \<Rightarrow> Prints PrintedNothing | ReturnedError _ \<Rightarrow> Fails ServeFailed | _ \<Rightarrow> Runs,
               run_status L v (StateDir cfg) s h)))))"

definition enroll_action :: "'l server_lib \<Rightarrow> server_io \<Rightarrow> ServerConfig \<Rightarrow> host \<Rightarrow> server_result \<times> host" where
  "enroll_action L v cfg h =
     (let sd = h_dirs h (StateDir cfg)
      in case log_of L v cfg of Inl e \<Rightarrow> (Fails (LogFailed e), h)
      | Inr _ \<Rightarrow>
     (case loadEnrollServer (sl_cmd L) (si_tokens v) (si_read v) cfg sd of Inl e \<Rightarrow> (Fails (CommandFailed e), h)
      | Inr (es :: 'l EnrollServer) \<Rightarrow>
     (case (sd_serverCert sd, sd_serverKey sd) of
        (Some certPEM, Some keyPEM) \<Rightarrow>
          (let (served, es') = enr_ListenAndServe (sl_tls L) (sl_enroll L) certPEM keyPEM (si_listen v) (si_enrolments v) es
           in (case served of EnrWaiting \<Rightarrow> Runs | EnrStopped \<Rightarrow> Prints PrintedNothing | EnrFailed \<Rightarrow> Fails ServeFailed,
               put_dir (StateDir cfg) (sd\<lparr>sd_tokens := es_TokenFile es', sd_clients := cr_file (es_Registry es')\<rparr>) h))
      | _ \<Rightarrow> (Fails ServeFailed, h))))"

definition changed_dir ::
  "string \<Rightarrow> ('e + 'a) \<times> state_dir \<Rightarrow> ('e \<Rightarrow> server_error) \<Rightarrow> ('a \<Rightarrow> server_output) \<Rightarrow> host \<Rightarrow> server_result \<times> host" where
  "changed_dir dir res err out h =
     (case fst res of Inl e \<Rightarrow> Fails (CommandFailed (err e)) | Inr x \<Rightarrow> Prints (out x), put_dir dir (snd res) h)"

definition opt_result :: "'e option \<times> 'b \<Rightarrow> ('e + unit) \<times> 'b" where
  "opt_result r = (case fst r of Some e \<Rightarrow> Inl e | None \<Rightarrow> Inr (), snd r)"

text \<open>The commands once their configuration is resolved, one definition for each.\<close>

definition ca_init_action :: "'l server_lib \<Rightarrow> server_io \<Rightarrow> bool \<Rightarrow> string list \<Rightarrow> ServerConfig \<Rightarrow> host \<Rightarrow> server_result \<times> host" where
  "ca_init_action L v force sans cfg h =
     changed_dir (StateDir cfg) (runCAInit (sl_cmd L) (si_now v) (si_keys v) (si_serials v) (si_stat v) (si_broken v) cfg force sans (h_dirs h (StateDir cfg)))
       id PrintedFingerprint h"

definition status_action :: "ServerConfig \<Rightarrow> host \<Rightarrow> server_result \<times> host" where
  "status_action cfg h =
     (case mget (h_status h) (StateDir cfg) of None \<Rightarrow> Fails NoStatusFile | Some content \<Rightarrow> Prints (PrintedStatus content), h)"

definition create_token_action :: "'l server_lib \<Rightarrow> server_io \<Rightarrow> string \<Rightarrow> string \<Rightarrow> ServerConfig \<Rightarrow> host \<Rightarrow> server_result \<times> host" where
  "create_token_action L v ttlStr createdBy cfg h =
     changed_dir (StateDir cfg) (create_token (sl_cmd L) (si_tokens v) (si_now v) (si_rnd1 v) (si_rnd2 v) ttlStr createdBy (h_dirs h (StateDir cfg)))
       id (\<lambda>(ttl, plain). PrintedToken ttl plain) h"

definition client_list_action :: "'l server_lib \<Rightarrow> server_io \<Rightarrow> ServerConfig \<Rightarrow> host \<Rightarrow> server_result \<times> host" where
  "client_list_action L v cfg h =
     (case client_list (sl_cmd L) (si_read v) (h_dirs h (StateDir cfg)) of Inl e \<Rightarrow> Fails (CommandFailed e) | Inr rs \<Rightarrow> Prints (PrintedClients rs), h)"

definition revoke_token_action :: "'l server_lib \<Rightarrow> server_io \<Rightarrow> string \<Rightarrow> ServerConfig \<Rightarrow> host \<Rightarrow> server_result \<times> host" where
  "revoke_token_action L v tid cfg h =
     changed_dir (StateDir cfg) (opt_result (revoke_token (sl_cmd L) (si_tokens v) tid (h_dirs h (StateDir cfg)))) id (\<lambda>_. PrintedRevoked tid) h"

definition cert_list_action :: "'l server_lib \<Rightarrow> server_io \<Rightarrow> ServerConfig \<Rightarrow> host \<Rightarrow> server_result \<times> host" where
  "cert_list_action L v cfg h =
     (case cert_list (sl_cmd L) (si_read v) (h_dirs h (StateDir cfg)) of Inl e \<Rightarrow> Fails (CommandFailed e) | Inr rs \<Rightarrow> Prints (PrintedCerts rs), h)"

definition cert_revoke_action :: "'l server_lib \<Rightarrow> server_io \<Rightarrow> string \<Rightarrow> string \<Rightarrow> ServerConfig \<Rightarrow> host \<Rightarrow> server_result \<times> host" where
  "cert_revoke_action L v reason serial cfg h =
     changed_dir (StateDir cfg) (opt_result (cert_revoke (sl_cmd L) (si_read v) (si_write v) (si_now v) serial reason (h_dirs h (StateDir cfg))))
       id (\<lambda>_. PrintedRevoked serial) h"

lemmas action_defs = ca_init_action_def status_action_def create_token_action_def client_list_action_def revoke_token_action_def
  cert_list_action_def cert_revoke_action_def

fun server_action :: "'l server_lib \<Rightarrow> server_io \<Rightarrow> server_cmd \<Rightarrow> ServerConfig \<Rightarrow> host \<Rightarrow> server_result \<times> host" where
  "server_action L v (SRun _ allowRoot allowLowFD pprofAddr) cfg h = run_action L v allowRoot allowLowFD pprofAddr cfg h"
| "server_action L v (SCaInit _ force sans) cfg h = ca_init_action L v force sans cfg h"
| "server_action L v (SStatus _) cfg h = status_action cfg h"
| "server_action L v (SCreateToken _ ttlStr createdBy) cfg h = create_token_action L v ttlStr createdBy cfg h"
| "server_action L v (SClientList _) cfg h = client_list_action L v cfg h"
| "server_action L v (SRevokeToken _ tid) cfg h = revoke_token_action L v tid cfg h"
| "server_action L v (SCertList _) cfg h = cert_list_action L v cfg h"
| "server_action L v (SCertRevoke _ reason serial) cfg h = cert_revoke_action L v reason serial cfg h"
| "server_action L v (SEnrollServe _) cfg h = enroll_action L v cfg h"
| "server_action L v _ cfg h = (Prints (PrintedConfig cfg), h)"

fun config_path :: "server_cmd \<Rightarrow> string option" where
  "config_path SVersion = None"
| "config_path (SRun p _ _ _) = Some p"
| "config_path (SCheckConfig p) = Some p"
| "config_path (SCaInit p _ _) = Some p"
| "config_path (SStatus p) = Some p"
| "config_path (SCreateToken p _ _) = Some p"
| "config_path (SClientList p) = Some p"
| "config_path (SRevokeToken p _) = Some p"
| "config_path (SCertList p) = Some p"
| "config_path (SCertRevoke p _ _) = Some p"
| "config_path (SEnrollServe p) = Some p"

definition server_main :: "'l server_lib \<Rightarrow> string \<Rightarrow> server_io \<Rightarrow> server_cmd \<Rightarrow> host \<Rightarrow> server_result \<times> host" where
  "server_main L version v cmd h =
     (case config_path cmd of None \<Rightarrow> (Prints (PrintedVersion (''qoqtun-server '' @ version)), h)
      | Some path \<Rightarrow>
          (case config_of L path h of Inl e \<Rightarrow> (Fails (ConfigFailed e), h) | Inr cfg \<Rightarrow> server_action L v cmd cfg h))"

text \<open>The status of the process, while it has not ended \<^const>\<open>None\<close>.\<close>

fun exit_code :: "server_result \<Rightarrow> nat option" where
  "exit_code (Fails _) = Some 1"
| "exit_code (Prints _) = Some 0"
| "exit_code Runs = None"


section \<open>Which files a command changes\<close>

fun may_write :: "server_cmd \<Rightarrow> state_dir \<Rightarrow> state_dir \<Rightarrow> bool" where
  "may_write (SCaInit _ _ _) sd sd' \<longleftrightarrow>
     sd' = sd\<lparr>sd_caKey := sd_caKey sd', sd_caCert := sd_caCert sd', sd_serverKey := sd_serverKey sd', sd_serverCert := sd_serverCert sd'\<rparr>"
| "may_write (SCreateToken _ _ _) sd sd' \<longleftrightarrow> sd' = sd\<lparr>sd_tokens := sd_tokens sd'\<rparr>"
| "may_write (SRevokeToken _ _) sd sd' \<longleftrightarrow> sd' = sd\<lparr>sd_tokens := sd_tokens sd'\<rparr>"
| "may_write (SCertRevoke _ _ _) sd sd' \<longleftrightarrow> sd' = sd\<lparr>sd_revoked := sd_revoked sd'\<rparr>"
| "may_write (SEnrollServe _) sd sd' \<longleftrightarrow> sd' = sd\<lparr>sd_tokens := sd_tokens sd', sd_clients := sd_clients sd'\<rparr>"
| "may_write _ sd sd' \<longleftrightarrow> sd' = sd"

lemma may_write_same: "may_write cmd sd sd"
  by (cases cmd) simp_all

lemma runCAInit_writes: "may_write (SCaInit path force sans) sd (snd (runCAInit L now kps rnds stat broken cfg force sans sd))"
  by (simp add: runCAInit_def Let_def split: sum.split option.split prod.split)

lemma create_token_writes: "may_write (SCreateToken path ttlStr who) sd (snd (create_token L io now r1 r2 ttlStr who sd))"
  by (simp add: create_token_def split: sum.split option.split prod.split)

lemma revoke_token_writes: "may_write (SRevokeToken path tid) sd (snd (revoke_token L io tid sd))"
  by (simp add: revoke_token_def split: sum.split option.split prod.split)

lemma cert_revoke_writes: "may_write (SCertRevoke path reason serial) sd (snd (cert_revoke L rd wr now serial reason sd))"
  by (simp add: cert_revoke_def split: sum.split option.split prod.split)

lemmas action_writes = runCAInit_writes create_token_writes revoke_token_writes cert_revoke_writes

text \<open>What a command leaves of the machine, the directory it works on apart.\<close>

definition stays_in :: "server_cmd \<Rightarrow> string \<Rightarrow> host \<Rightarrow> host \<Rightarrow> bool" where
  "stays_in cmd dir h h' \<longleftrightarrow>
     h_files h' = h_files h \<and> h_env h' = h_env h \<and> (\<forall>other. other \<noteq> dir \<longrightarrow> h_dirs h' other = h_dirs h other \<and> mget (h_status h') other = mget (h_status h) other) \<and>
     may_write cmd (h_dirs h dir) (h_dirs h' dir) \<and> (h_status h' = h_status h \<or> (\<exists>p a b c. cmd = SRun p a b c))"

lemma stays_same: "stays_in cmd dir h h"
  by (simp add: stays_in_def may_write_same)

lemma stays_put_dir: "may_write cmd (h_dirs h dir) sd \<Longrightarrow> stays_in cmd dir h (put_dir dir sd h)"
  by (simp add: stays_in_def put_dir_def)

lemma stays_changed_dir: "may_write cmd (h_dirs h dir) (snd res) \<Longrightarrow> stays_in cmd dir h (snd (changed_dir dir res err out h))"
  by (simp add: changed_dir_def stays_put_dir)

lemma stays_run_status: "stays_in (SRun p a b c) dir h (run_status L v dir s h)"
  by (simp add: run_status_def stays_in_def split: option.split)

lemma stays_run_action: "stays_in (SRun p a b c) (StateDir cfg) h (snd (run_action L v a b c cfg h))"
  by (simp add: run_action_def stays_same stays_run_status split: sum.split option.split prod.split)

lemma stays_enroll_action: "stays_in (SEnrollServe p) (StateDir cfg) h (snd (enroll_action L v cfg h))"
  by (simp add: enroll_action_def Let_def stays_same stays_put_dir split: sum.split option.split prod.split)

lemma server_action_stays: "stays_in cmd (StateDir cfg) h (snd (server_action L v cmd cfg h))"
proof (cases cmd)
  case (SRevokeToken p tid)
  then show ?thesis using revoke_token_writes by (auto simp: opt_result_def action_defs intro!: stays_changed_dir)
next
  case (SCertRevoke p reason serial)
  then show ?thesis using cert_revoke_writes by (auto simp: opt_result_def action_defs intro!: stays_changed_dir)
qed (auto intro!: stays_changed_dir action_writes stays_same stays_run_action stays_enroll_action simp: action_defs simp del: may_write.simps)



section \<open>A token from the command line to the endpoint\<close>

lemma create_token_saves:
  assumes "create_token L io now r1 r2 ttlStr who sd = (Inr (ttl, plain), sd1)"
  shows "\<exists>toks tid rec data t. LoadTokenStore (cl_tokens_json L) io (sd_tokens sd) = Inr toks \<and> tid \<noteq> '''' \<and> 0 < ttl \<and>
     rec = \<lparr>tr_TokenID = tid, tr_Hash = HashToken (cl_sha256 L) plain, tr_ExpiresAt = now + ttl, tr_Used = False, tr_Revoked = False,
            tr_CreatedBy = who, tr_CreatedAt = now\<rparr> \<and>
     marshal_tokens (cl_tokens_json L) (map snd (mput tid rec (tok_byID toks))) = Some data \<and>
     sd_tokens sd1 = Some \<lparr>f_data = data @ [10], f_mod = t\<rparr>"
  using assms
  by (auto simp: create_token_def Create_def saveLocked_def Let_def split: option.splits sum.splits prod.splits if_splits)

lemma loaded_tokens:
  assumes "loadEnrollServer L io rd cfg sd = Inr es"
  shows "LoadTokenStore (cl_tokens_json L) io (sd_tokens sd) = Inr (es_Tokens es)" "es_TokenFile es = sd_tokens sd"
  using assms by (auto simp: loadEnrollServer_def split: if_splits option.splits sum.splits)


text \<open>The store the endpoint starts with knows the new token, and no other with its hash.\<close>

lemma token_loaded:
  assumes json: "json_law (cl_tokens_json L)" and make: "create_token L io now r1 r2 ttlStr who sd = (Inr (ttl, plain), sd1)"
    and fresh: "\<forall>r\<in>set (disk_records (cl_tokens_json L) (sd_tokens sd)). tr_Hash r \<noteq> HashToken (cl_sha256 L) plain"
    and start: "loadEnrollServer L io2 rd cfg sd1 = Inr es"
  shows "\<exists>tid rec. mget (tok_byID (es_Tokens es)) tid = Some rec \<and> tr_ExpiresAt rec = now + ttl \<and> \<not> tr_Used rec \<and> \<not> tr_Revoked rec \<and>
     tid \<noteq> '''' \<and> find_hash (HashToken (cl_sha256 L) plain) (tok_byID (es_Tokens es)) = tid \<and>
     tok_byID (reloadIfChanged (cl_tokens_json L) io3 (es_TokenFile es) (es_Tokens es)) = tok_byID (es_Tokens es)"
proof -
  let ?J = "cl_tokens_json L" and ?h = "HashToken (cl_sha256 L) plain"
  obtain toks tid rec data t where made: "LoadTokenStore ?J io (sd_tokens sd) = Inr toks" "tid \<noteq> ''''"
      and r: "rec = \<lparr>tr_TokenID = tid, tr_Hash = ?h, tr_ExpiresAt = now + ttl, tr_Used = False, tr_Revoked = False, tr_CreatedBy = who, tr_CreatedAt = now\<rparr>"
      and saved: "marshal_tokens ?J (map snd (mput tid rec (tok_byID toks))) = Some data" "sd_tokens sd1 = Some \<lparr>f_data = data @ [10], f_mod = t\<rparr>"
    using create_token_saves [OF make] by blast
  let ?m = "mput tid rec (tok_byID toks)"
  have old: "tok_byID toks = fold load_record (disk_records ?J (sd_tokens sd)) []" using made(1) by (rule Load_records)
  have "recs_wf (tok_byID toks)" unfolding old by (rule rebuild_wf) (simp add: recs_wf_def)
  then have wf: "recs_wf ?m" by (rule put_wf) (simp_all add: r made(2))
  have "unmarshal_tokens ?J (data @ [10]) = Some (map snd ?m)" using json saved(1) by (simp add: json_law_def)
  then have disk: "fold load_record (disk_records ?J (sd_tokens sd1)) [] = ?m" by (simp add: disk_records_def saved(2) rebuild_same [OF wf])
  have load: "tok_byID (es_Tokens es) = ?m" "tok_byID (reloadIfChanged ?J io3 (es_TokenFile es) (es_Tokens es)) = ?m"
    using Load_records [OF loaded_tokens(1) [OF start]] reload_records [of "es_Tokens es" ?J "sd_tokens sd1" io3] disk loaded_tokens(2) [OF start]
    by simp_all
  have others: "tr_Hash x \<noteq> ?h" if "(k, x) \<in> set (tok_byID toks)" for k x
    using recs_rebuild [of "disk_records ?J (sd_tokens sd)" "[]"] that fresh unfolding old [symmetric] by force
  have "find_hash (tr_Hash rec) ?m = tid"
  proof (rule find_hash_unique)
    show "k = tid" if "mget ?m k = Some x" "tr_Hash x = tr_Hash rec" for k x
      using others [OF mget_in_set, of k x] that by (auto simp: r split: if_splits)
  qed (use wf in \<open>simp_all add: recs_wf_def\<close>)
  then show ?thesis
    using load made(2) by (intro exI [of _ tid] exI [of _ rec]) (simp add: r)
qed

text \<open>
  C14: A token made on the command line enrols a client: when the create-token command has printed a token,
  an endpoint started afterwards on the same state directory answers a request with that token, made before it
  expires and carrying a signing request it can certify for a new client, with a certificate; it needs that no
  older token has the same hash and that its own files can be written.
\<close>

theorem token_enrols:
  assumes json: "json_law (cl_tokens_json L)" and make: "create_token L io now r1 r2 ttlStr who sd = (Inr (ttl, plain), sd1)"
    and fresh: "\<forall>r\<in>set (disk_records (cl_tokens_json L) (sd_tokens sd)). tr_Hash r \<noteq> HashToken (cl_sha256 L) plain"
    and start: "loadEnrollServer L io2 rd cfg sd1 = Inr es"
    and same: "el_sha256 E = cl_sha256 L" "el_tokens E = cl_tokens_json L" and req: "rq_Token req = plain" "en_now v \<le> now + ttl"
    and csr: "signFromCSR E v (rq_CSR req) es = Inr (certPEM, expiresAt, cid)" "\<not> Exists (es_Registry es) cid"
    and disk: "snd (Consume (el_sha256 E) (el_tokens E) (en_io v) (en_now v) plain (es_Tokens es, es_TokenFile es)) \<noteq> Inl PersistConsumption"
      "\<forall>rec. cr_ClientID rec = cid \<longrightarrow> snd (cr_Add (el_registry E) (en_wr v) rec (es_Registry es)) = None"
  shows "rs_OK (fst (handleEnroll E v req es)) \<and> rs_ClientCert (fst (handleEnroll E v req es)) = certPEM"
proof -
  obtain tid rec where rec: "mget (tok_byID (es_Tokens es)) tid = Some rec" "tr_ExpiresAt rec = now + ttl" "\<not> tr_Used rec" "\<not> tr_Revoked rec" "tid \<noteq> ''''"
      and found: "find_hash (HashToken (cl_sha256 L) plain) (tok_byID (es_Tokens es)) = tid"
      and same_file: "tok_byID (reloadIfChanged (cl_tokens_json L) (en_io v) (es_TokenFile es) (es_Tokens es)) = tok_byID (es_Tokens es)"
    using token_loaded [OF json make fresh start] by blast
  obtain tok fl res where con: "Consume (el_sha256 E) (el_tokens E) (en_io v) (en_now v) plain (es_Tokens es, es_TokenFile es) = ((tok, fl), res)"
    by (metis prod.collapse)
  have "res = Inr tid"
    using con disk(1) rec req(2) found same_file by (auto simp: Consume_def same Let_def split: prod.splits option.splits)
  moreover have "signFromCSR E v (rq_CSR req) (es\<lparr>es_Tokens := tok, es_TokenFile := fl\<rparr>) = Inr (certPEM, expiresAt, cid)"
    using csr(1) by (simp add: signFromCSR_def)
  moreover obtain reg err where "cr_Add (el_registry E) (en_wr v) \<lparr>cr_ClientID = cid, cr_Name = me_Name (rq_Meta req), cr_Note = me_Note (rq_Meta req),
      cr_CertSerial = certSerial E certPEM, cr_CreatedAt = en_now v\<rparr> (es_Registry es) = (reg, err)" "err = None"
    using disk(2) by (metis ClientRecord.select_convs(1) prod.collapse)
  ultimately show ?thesis using csr(2) con req(1) by (simp add: handleEnroll_def okResponse_def Let_def)
qed


section \<open>Sample runs of the program\<close>

definition cli_record :: TokenRecord where
  "cli_record = \<lparr>tr_TokenID = ''05'', tr_Hash = '''', tr_ExpiresAt = hour, tr_Used = False, tr_Revoked = False, tr_CreatedBy = ''ops'', tr_CreatedAt = 0\<rparr>"

definition cli_files :: "(bytes \<times> TokenRecord list) list" where
  "cli_files = [([1], [cli_record]), ([2], [cli_record\<lparr>tr_Used := True\<rparr>])]"

definition cli_json :: token_json where
  "cli_json = \<lparr>marshal_tokens = (\<lambda>rs. map_option fst (find (\<lambda>f. snd f = rs) cli_files)),
     unmarshal_tokens = (\<lambda>bs. map_of (map (\<lambda>f. (fst f @ [10], snd f)) cli_files) bs)\<rparr>"

lemma cli_json_law: "json_law cli_json"
  by (auto simp: json_law_def cli_json_def cli_files_def split: if_splits)

definition cli_cmds :: cmd_lib where
  "cli_cmds = plain_cmds\<lparr>cl_tokens_json := cli_json, cl_x509 := pair_x509\<rparr>"

definition cli_dir :: state_dir where
  "cli_dir = \<lparr>sd_caKey = Some ''1'', sd_caCert = Some (plain_pem ''CERTIFICATE'' [8]), sd_serverKey = Some ''2'', sd_serverCert = Some ''cert'',
     sd_revoked = None, sd_clients = None, sd_tokens = None\<rparr>"

definition cli_lib :: "unit enroll_lib" where
  "cli_lib = pair_lib\<lparr>el_tokens := cli_json\<rparr>"

abbreviation cli_plain :: string where
  "cli_plain \<equiv> ''qen_0000000000000000000000000000000000000000007''"

abbreviation cli_made :: "(server_error + (duration \<times> string)) \<times> state_dir" where
  "cli_made \<equiv> create_token cli_cmds (sample_io 5) 0 (Some [7]) (Some [5]) '''' ''ops'' cli_dir"

abbreviation cli_endpoint :: "server_error + unit EnrollServer" where
  "cli_endpoint \<equiv> loadEnrollServer cli_cmds (sample_io 6) True DefaultServerConfig (snd cli_made)"

abbreviation cli_consumed :: "unit EnrollServer \<Rightarrow> token_error + string" where
  "cli_consumed es \<equiv> snd (Consume (el_sha256 cli_lib) (el_tokens cli_lib) (en_io enroll_answers) (en_now enroll_answers) cli_plain (es_Tokens es, es_TokenFile es))"

theorem token_enrols_witness:
  "case cli_endpoint of Inr es \<Rightarrow> rs_OK (fst (handleEnroll cli_lib enroll_answers (sample_req\<lparr>rq_Token := cli_plain\<rparr>) es)) | Inl _ \<Rightarrow> False"
proof -
  have "fst cli_made = Inr (hour, cli_plain)" by code_simp
  then have make: "cli_made = (Inr (hour, cli_plain), snd cli_made)" by (metis prod.collapse)
  have "case cli_endpoint of Inr es \<Rightarrow> cli_consumed es = Inr ''05'' \<and> es_Registry es = \<lparr>cr_byID = [], cr_file = None\<rparr> | Inl _ \<Rightarrow> False"
    "case cli_endpoint of Inr es \<Rightarrow> signFromCSR cli_lib enroll_answers (rq_CSR sample_req) es = Inr (plain_pem ''CERTIFICATE'' [9], '''', c_CN sample_cert) | Inl _ \<Rightarrow> False"
    by code_simp+
  then obtain es where start: "cli_endpoint = Inr es" and used: "cli_consumed es = Inr ''05''" and reg: "es_Registry es = \<lparr>cr_byID = [], cr_file = None\<rparr>"
      and "signFromCSR cli_lib enroll_answers (rq_CSR sample_req) es = Inr (plain_pem ''CERTIFICATE'' [9], '''', c_CN sample_cert)"
    by (cases cli_endpoint) simp_all
  then have csr: "signFromCSR cli_lib enroll_answers (rq_CSR (sample_req\<lparr>rq_Token := cli_plain\<rparr>)) es = Inr (plain_pem ''CERTIFICATE'' [9], '''', c_CN sample_cert)"
    and new: "\<not> Exists (es_Registry es) (c_CN sample_cert)" by (simp_all add: Exists_def)
  have "ValidateClientID (c_CN sample_cert)" by code_simp
  then have disk: "cli_consumed es \<noteq> Inl PersistConsumption"
    "\<forall>rec. cr_ClientID rec = c_CN sample_cert \<longrightarrow> snd (cr_Add (el_registry cli_lib) (en_wr enroll_answers) rec (es_Registry es)) = None"
    using used by (simp_all add: reg cli_lib_def pair_lib_def sample_lib_def enroll_answers_def cr_Add_def cr_save_def save_map_def)
  have env: "json_law (cl_tokens_json cli_cmds)"
    "\<forall>r\<in>set (disk_records (cl_tokens_json cli_cmds) (sd_tokens cli_dir)). tr_Hash r \<noteq> HashToken (cl_sha256 cli_cmds) cli_plain"
    "el_sha256 cli_lib = cl_sha256 cli_cmds" "el_tokens cli_lib = cl_tokens_json cli_cmds" "rq_Token (sample_req\<lparr>rq_Token := cli_plain\<rparr>) = cli_plain"
    "en_now enroll_answers \<le> 0 + hour"
    by (simp_all add: cli_cmds_def plain_cmds_def cli_json_law cli_dir_def disk_records_def cli_lib_def pair_lib_def sample_lib_def enroll_answers_def)
  from token_enrols [OF env(1) make env(2) start env(3-6) csr new disk] show ?thesis by (simp only: start sum.case)
qed


definition sample_host :: host where
  "sample_host = \<lparr>h_files = [], h_env = (\<lambda>k. if k = ''QOQTUN_STATE_DIR'' then ''/var/lib/qoqtun'' else ''''), h_dirs = (\<lambda>_. cli_dir), h_status = []\<rparr>"

definition sample_server_lib :: "unit server_lib" where
  "sample_server_lib = \<lparr>sl_cmd = cli_cmds, sl_tls = open_tls, sl_enroll = cli_lib, sl_ucase = id, sl_float = plain_floats,
     sl_toml = \<lparr>to_server = (\<lambda>_. None), to_client = (\<lambda>_. None), to_table = (\<lambda>_. None)\<rparr>, sl_status = (\<lambda>_. None)\<rparr>"

definition quiet_io :: server_io where
  "quiet_io = \<lparr>si_now = 0, si_keys = (None, None), si_serials = (None, None), si_stat = False, si_broken = None, si_rnd1 = Some [7], si_rnd2 = Some [5],
     si_tokens = sample_io 5, si_read = True, si_write = True, si_listen = True, si_root = False, si_rlimit = None, si_logdir = True, si_logopen = True,
     si_arrivals = [], si_ticks = [], si_enrolments = []\<rparr>"


end
