(* ===== verification/Keystore.thy ===== *)
theory Keystore
  imports Config
begin

text \<open>
  \<^verbatim>\<open>internal/platform/keystore\<close> and \<^verbatim>\<open>internal/platform/atomicfile\<close>: where private keys are kept. The file
  backend is modelled on the contents of its directory, a map from file names to nodes; what the operating
  system answers (a failing call, the owner of the directory) is an argument of each operation. The
  interface \<^verbatim>\<open>Store\<close> is a locale with the laws its documentation promises; the memory backend and the file
  backend on a working system are interpretations of it, and give the same answers to every sequence of
  calls. An atomic write is a sequence of directory states, so that a crash between any two of them can be
  considered.
\<close>

section \<open>Atomic file replacement (atomicfile.go)\<close>

datatype content = Regular bytes | Symlink | Folder

record inode =
  in_node :: content
  in_mine :: bool
  in_mode :: nat

type_synonym folder = "(string, inode) gomap"

text \<open>
  The calls of \<^verbatim>\<open>Write\<close>, one of which may fail; a failed write may have written a part of the data.
\<close>

datatype aw_step = CreateTemp | Chmod | WriteData nat | Sync | CloseTemp | Rename

definition temp_file :: "string \<Rightarrow> bytes \<Rightarrow> nat \<Rightarrow> folder \<Rightarrow> folder" where
  "temp_file tmp data mode d = mput tmp \<lparr>in_node = Regular data, in_mine = True, in_mode = mode\<rparr> d"

definition renamed :: "string \<Rightarrow> string \<Rightarrow> folder \<Rightarrow> folder" where
  "renamed tmp path d = (case mget d tmp of None \<Rightarrow> d | Some n \<Rightarrow> mput path n (mdel tmp d))"

text \<open>The directory when the call \<open>st\<close> fails, before the deferred removal.\<close>

fun aw_dirty :: "aw_step \<Rightarrow> string \<Rightarrow> bytes \<Rightarrow> nat \<Rightarrow> folder \<Rightarrow> folder" where
  "aw_dirty CreateTemp tmp data mode d = d"
| "aw_dirty Chmod tmp data mode d = temp_file tmp [] 384 d"
| "aw_dirty (WriteData n) tmp data mode d = temp_file tmp (take n data) mode d"
| "aw_dirty Sync tmp data mode d = temp_file tmp data mode d"
| "aw_dirty CloseTemp tmp data mode d = temp_file tmp data mode d"
| "aw_dirty Rename tmp data mode d = temp_file tmp data mode d"

text \<open>A rename onto a directory is refused by the system.\<close>

definition is_folder :: "string \<Rightarrow> folder \<Rightarrow> bool" where
  "is_folder path d = (case mget d path of None \<Rightarrow> False | Some n \<Rightarrow> in_node n = Folder)"

definition aw_Write ::
  "string \<Rightarrow> aw_step option \<Rightarrow> bool \<Rightarrow> string \<Rightarrow> bytes \<Rightarrow> nat \<Rightarrow> folder \<Rightarrow> folder \<times> aw_step option" where
  "aw_Write tmp fail rm path data mode d =
     (case (if fail = None \<and> is_folder path d then Some Rename else fail) of
        None \<Rightarrow> (renamed tmp path (temp_file tmp data mode d), None)
      | Some CreateTemp \<Rightarrow> (d, Some CreateTemp)
      | Some st \<Rightarrow> (let d1 = aw_dirty st tmp data mode d in (if rm then mdel tmp d1 else d1, Some st)))"

text \<open>Every directory a reader, or the machine after a crash, can find while the write is going on.\<close>

definition aw_states :: "string \<Rightarrow> string \<Rightarrow> bytes \<Rightarrow> nat \<Rightarrow> folder \<Rightarrow> folder list" where
  "aw_states tmp path data mode d =
     d # temp_file tmp [] 384 d # map (\<lambda>n. temp_file tmp (take n data) mode d) [0..<Suc (length data)] @
     [renamed tmp path (temp_file tmp data mode d)]"

section \<open>The file backend (file.go, unix.go)\<close>

text \<open>The last two are errors of the keyring backend, which passes on those of its library.\<close>

datatype kr_error = ErrKeyNotFound | KeyringFailure

datatype ks_error =
    InvalidStoreID
  | NotFound
  | NotOwned
  | StatFailed
  | NotRegular
  | OpenFailed
  | ReadFailed
  | IsSymlink
  | SetFailed aw_step
  | ACLFailed
  | DeleteFailed
  | ListFailed
  | KeyringFailed kr_error
  | ListUnsupported

definition id_char :: "char \<Rightarrow> bool" where
  "id_char c \<longleftrightarrow> is_lower c \<or> is_upper c \<or> is_digit c \<or> c \<in> {CHR ''.'', CHR ''_'', CHR ''-''}"

definition validID :: "string \<Rightarrow> bool" where
  "validID i \<longleftrightarrow> 1 \<le> length i \<and> length i \<le> 128 \<and> list_all id_char i \<and> \<not> contains i ''..''"

definition key_name :: "string \<Rightarrow> string" where
  "key_name i = i @ ''.key''"

record ks_os =
  os_dirMine :: bool
  os_lstat :: bool
  os_open :: bool
  os_read :: bool
  os_write :: "aw_step option"
  os_remove :: bool
  os_acl :: bool
  os_readdir :: bool

definition ownerCheck :: "inode \<Rightarrow> bool" where
  "ownerCheck n = in_mine n"

definition fs_Get :: "ks_os \<Rightarrow> string \<Rightarrow> folder \<Rightarrow> ks_error + bytes" where
  "fs_Get os i d =
     (if \<not> validID i then Inl InvalidStoreID
      else if \<not> os_dirMine os then Inl NotOwned
      else if \<not> os_lstat os then Inl StatFailed
      else case mget d (key_name i) of None \<Rightarrow> Inl NotFound
      | Some n \<Rightarrow>
          (case in_node n of
             Regular data \<Rightarrow>
               (if \<not> ownerCheck n then Inl NotOwned
                else if \<not> os_open os then Inl OpenFailed
                else if \<not> os_read os then Inl ReadFailed
                else Inr data)
           | _ \<Rightarrow> Inl NotRegular))"

definition is_symlink :: "ks_os \<Rightarrow> string \<Rightarrow> folder \<Rightarrow> bool" where
  "is_symlink os name d = (case mget d name of None \<Rightarrow> False | Some n \<Rightarrow> os_lstat os \<and> in_node n = Symlink)"

definition fs_Set :: "ks_os \<Rightarrow> string \<Rightarrow> string \<Rightarrow> bytes \<Rightarrow> folder \<Rightarrow> folder \<times> ks_error option" where
  "fs_Set os tmp i data d =
     (if \<not> validID i then (d, Some InvalidStoreID)
      else if \<not> os_dirMine os then (d, Some NotOwned)
      else if is_symlink os (key_name i) d then (d, Some IsSymlink)
      else case aw_Write tmp (os_write os) (os_remove os) (key_name i) data 384 d of
             (d1, Some st) \<Rightarrow> (d1, Some (SetFailed st))
           | (d1, None) \<Rightarrow> (d1, if os_acl os then None else Some ACLFailed))"

definition fs_Delete :: "ks_os \<Rightarrow> string \<Rightarrow> folder \<Rightarrow> folder \<times> ks_error option" where
  "fs_Delete os i d =
     (if \<not> validID i then (d, Some InvalidStoreID)
      else if is_symlink os (key_name i) d then (d, Some IsSymlink)
      else case mget d (key_name i) of None \<Rightarrow> (d, None)
           | Some _ \<Rightarrow> if os_remove os then (mdel (key_name i) d, None) else (d, Some DeleteFailed))"

definition fs_List :: "ks_os \<Rightarrow> folder \<Rightarrow> ks_error + string list" where
  "fs_List os d =
     (if \<not> os_readdir os then Inl ListFailed
      else Inr (map (\<lambda>e. trim_suffix (fst e) ''.key'')
                 (filter (\<lambda>e. in_node (snd e) \<noteq> Folder \<and> has_suffix (fst e) ''.key'') d)))"

text \<open>
  Opening the directory: \<^verbatim>\<open>filepath.Clean\<close> drops the parent steps of an absolute path, but a backslash does
  not separate segments for it, while the check that follows treats it as one.
\<close>

fun clean_abs :: "string list \<Rightarrow> string list \<Rightarrow> string list" where
  "clean_abs [] st = rev st"
| "clean_abs (g # gs) st =
     (if g = '''' \<or> g = ''.'' then clean_abs gs st else if g = ''..'' then clean_abs gs (tl st) else clean_abs gs (g # st))"

datatype dir_error = EmptyDir | NotAbsolute | HasParent | MkdirFailed | DirNotOwned | DirIsSymlink

definition NewFileStore :: "bool \<Rightarrow> bool \<Rightarrow> bool \<Rightarrow> string \<Rightarrow> dir_error + string list" where
  "NewFileStore mkdir mine symlink dir =
     (if dir = ''''  then Inl EmptyDir
      else if \<not> has_prefix dir ''/'' then Inl NotAbsolute
      else let segs = clean_abs (split_on (CHR ''/'') dir) []
           in if list_ex (\<lambda>g. ''..'' \<in> set (split_on (CHR 92) g)) segs then Inl HasParent
              else if \<not> mkdir then Inl MkdirFailed
              else if \<not> mine then Inl DirNotOwned
              else if symlink then Inl DirIsSymlink
              else Inr segs)"

section \<open>The memory backend (mem.go)\<close>

type_synonym MemStore = "(string, bytes) gomap"

definition NewMemStore :: MemStore where
  "NewMemStore = []"

definition ms_Get :: "string \<Rightarrow> MemStore \<Rightarrow> ks_error + bytes" where
  "ms_Get i m = (if \<not> validID i then Inl InvalidStoreID else case mget m i of None \<Rightarrow> Inl NotFound | Some data \<Rightarrow> Inr data)"

definition ms_Set :: "string \<Rightarrow> bytes \<Rightarrow> MemStore \<Rightarrow> MemStore \<times> ks_error option" where
  "ms_Set i data m = (if \<not> validID i then (m, Some InvalidStoreID) else (mput i data m, None))"

definition ms_Delete :: "string \<Rightarrow> MemStore \<Rightarrow> MemStore \<times> ks_error option" where
  "ms_Delete i m = (if \<not> validID i then (m, Some InvalidStoreID) else (mdel i m, None))"

definition ms_List :: "MemStore \<Rightarrow> ks_error + string list" where
  "ms_List m = Inr (map fst m)"

section \<open>Choosing a backend (store.go)\<close>

datatype BackendPref = BackendAuto | BackendKeyring | BackendFile

definition ParseBackendPref :: "string \<Rightarrow> BackendPref option" where
  "ParseBackendPref s =
     (if s = '''' \<or> s = ''auto'' then Some BackendAuto
      else if s = ''keyring'' then Some BackendKeyring
      else if s = ''file'' then Some BackendFile
      else None)"

fun pref_String :: "BackendPref \<Rightarrow> string" where
  "pref_String BackendKeyring = ''keyring''"
| "pref_String BackendFile = ''file''"
| "pref_String BackendAuto = ''auto''"

datatype opened_store = KeyringStore | HardenedFile | OpenError

text \<open>The result, with the name of the backend and whether the caller is warned of the fallback.\<close>

definition OpenWithPref :: "bool \<Rightarrow> bool \<Rightarrow> BackendPref \<Rightarrow> opened_store \<times> string \<times> bool" where
  "OpenWithPref keyring_ok file_ok pref =
     (case pref of
        BackendFile \<Rightarrow> if file_ok then (HardenedFile, ''file'', False) else (OpenError, '''', False)
      | BackendKeyring \<Rightarrow> if keyring_ok then (KeyringStore, ''keyring'', False) else (OpenError, '''', False)
      | BackendAuto \<Rightarrow>
          if keyring_ok then (KeyringStore, ''keyring'', False)
          else if file_ok then (HardenedFile, ''file'', True)
          else (OpenError, '''', False))"

section \<open>The interface\<close>

text \<open>
  What \<^verbatim>\<open>Store\<close> promises, over a view of the store as a partial map. Ids that are not valid are refused
  without an effect.
\<close>

datatype ks_op = OpGet string | OpSet string bytes | OpDelete string | OpList

datatype ks_answer = Data "ks_error + bytes" | Done "ks_error option" | Ids "ks_error + string set"

fun ks_exec ::
  "(string \<Rightarrow> 's \<Rightarrow> ks_error + bytes) \<Rightarrow> (string \<Rightarrow> bytes \<Rightarrow> 's \<Rightarrow> 's \<times> ks_error option) \<Rightarrow>
   (string \<Rightarrow> 's \<Rightarrow> 's \<times> ks_error option) \<Rightarrow> ('s \<Rightarrow> ks_error + string list) \<Rightarrow> ks_op list \<Rightarrow> 's \<Rightarrow> 's \<times> ks_answer list" where
  "ks_exec get put del lst [] s = (s, [])"
| "ks_exec get put del lst (op # ops) s =
     (let (s1, a) = (case op of
          OpGet i \<Rightarrow> (s, Data (get i s))
        | OpSet i data \<Rightarrow> (let (s1, e) = put i data s in (s1, Done e))
        | OpDelete i \<Rightarrow> (let (s1, e) = del i s in (s1, Done e))
        | OpList \<Rightarrow> (s, Ids (map_sum id set (lst s))));
          (s2, as) = ks_exec get put del lst ops s1
      in (s2, a # as))"

text \<open>
  The part that programs which only store and read back a key depend on, and the whole contract, with
  deletion and listing, as its extension.
\<close>

locale key_slots =
  fixes get :: "string \<Rightarrow> 's \<Rightarrow> ks_error + bytes"
    and put :: "string \<Rightarrow> bytes \<Rightarrow> 's \<Rightarrow> 's \<times> ks_error option"
    and invar :: "'s \<Rightarrow> bool"
    and view :: "'s \<Rightarrow> string \<Rightarrow> bytes option"
  assumes get_view: "invar s \<Longrightarrow> get i s =
       (if \<not> validID i then Inl InvalidStoreID else case view s i of None \<Rightarrow> Inl NotFound | Some data \<Rightarrow> Inr data)"
    and put_invalid: "\<not> validID i \<Longrightarrow> put i data s = (s, Some InvalidStoreID)"
    and put_view: "invar s \<Longrightarrow> validID i \<Longrightarrow> \<exists>s'. put i data s = (s', None) \<and> invar s' \<and> view s' = (view s)(i \<mapsto> data)"
begin

lemma get_put: "invar s \<Longrightarrow> validID i \<Longrightarrow> get j (fst (put i data s)) = (if j = i then Inr data else get j s)"
  using put_view [of s i data] by (auto simp: get_view)

lemma put_stored: "invar s \<Longrightarrow> put i data s = (s', None) \<Longrightarrow> invar s' \<and> get i s' = Inr data"
  using put_view [of s i data] put_invalid [of i data s] by (cases "validID i") (auto simp: get_view)

end

locale key_store = key_slots get put invar view
  for get :: "string \<Rightarrow> 's \<Rightarrow> ks_error + bytes"
    and put :: "string \<Rightarrow> bytes \<Rightarrow> 's \<Rightarrow> 's \<times> ks_error option"
    and del :: "string \<Rightarrow> 's \<Rightarrow> 's \<times> ks_error option"
    and lst :: "'s \<Rightarrow> ks_error + string list"
    and invar :: "'s \<Rightarrow> bool"
    and view :: "'s \<Rightarrow> string \<Rightarrow> bytes option" +
  assumes del_invalid: "\<not> validID i \<Longrightarrow> del i s = (s, Some InvalidStoreID)"
    and del_view: "invar s \<Longrightarrow> validID i \<Longrightarrow> \<exists>s'. del i s = (s', None) \<and> invar s' \<and> view s' = (view s)(i := None)"
    and list_view: "invar s \<Longrightarrow> \<exists>ids. lst s = Inr ids \<and> set ids = dom (view s)"
begin

lemma get_del: "invar s \<Longrightarrow> validID i \<Longrightarrow> get j (fst (del i s)) = (if j = i then Inl NotFound else get j s)"
  using del_view [of s i] by (auto simp: get_view)

end

locale two_stores =
  a: key_store get put del lst invar view + b: key_store get' put' del' lst' invar' view'
  for get put del lst invar and view :: "'s \<Rightarrow> string \<Rightarrow> bytes option"
    and get' put' del' lst' invar' and view' :: "'t \<Rightarrow> string \<Rightarrow> bytes option"
begin

lemma same_answers:
  "invar s \<Longrightarrow> invar' t \<Longrightarrow> view s = view' t \<Longrightarrow> snd (ks_exec get put del lst ops s) = snd (ks_exec get' put' del' lst' ops t)"
proof (induction ops arbitrary: s t)
  case (Cons op ops)
  show ?case
  proof (cases op)
    case (OpGet i)
    have "get i s = get' i t" using Cons.prems by (simp add: a.get_view b.get_view)
    then show ?thesis using Cons.IH [OF Cons.prems] OpGet by (auto split: prod.split)
  next
    case (OpSet i data)
    show ?thesis
    proof (cases "validID i")
      case True
      obtain s' t' where "put i data s = (s', None)" "invar s'" "view s' = (view s)(i \<mapsto> data)"
          "put' i data t = (t', None)" "invar' t'" "view' t' = (view' t)(i \<mapsto> data)"
        using a.put_view [OF Cons.prems(1) True] b.put_view [OF Cons.prems(2) True] by blast
      then show ?thesis using Cons.IH [of s' t'] Cons.prems OpSet by (auto split: prod.split)
    next
      case False
      then show ?thesis using Cons.IH [OF Cons.prems] OpSet a.put_invalid b.put_invalid by (auto split: prod.split)
    qed
  next
    case (OpDelete i)
    show ?thesis
    proof (cases "validID i")
      case True
      obtain s' t' where "del i s = (s', None)" "invar s'" "view s' = (view s)(i := None)"
          "del' i t = (t', None)" "invar' t'" "view' t' = (view' t)(i := None)"
        using a.del_view [OF Cons.prems(1) True] b.del_view [OF Cons.prems(2) True] by blast
      then show ?thesis using Cons.IH [of s' t'] Cons.prems OpDelete by (auto split: prod.split)
    next
      case False
      then show ?thesis using Cons.IH [OF Cons.prems] OpDelete a.del_invalid b.del_invalid by (auto split: prod.split)
    qed
  next
    case OpList
    have "map_sum id set (lst s) = map_sum id set (lst' t)"
      using a.list_view [OF Cons.prems(1)] b.list_view [OF Cons.prems(2)] Cons.prems(3) by auto
    then show ?thesis using Cons.IH [OF Cons.prems] OpList by (auto split: prod.split)
  qed
qed simp

end

section \<open>Both backends implement it\<close>

lemma mdel_mput_fresh: "mget m k = None \<Longrightarrow> mdel k (mput k v m) = m"
  by (induction m) (auto split: if_splits)

interpretation mem: key_store ms_Get ms_Set ms_Delete ms_List "\<lambda>m. mwf m \<and> list_all (\<lambda>e. validID (fst e)) m" mget
proof unfold_locales
  fix m :: MemStore and i data
  assume m: "mwf m \<and> list_all (\<lambda>e. validID (fst e)) m" and i: "validID i"
  have "list_all (\<lambda>e. validID (fst e)) (mput i data m)"
    using m i by (auto simp: list_all_iff dest: set_mput_subset)
  then show "\<exists>m'. ms_Set i data m = (m', None) \<and> (mwf m' \<and> list_all (\<lambda>e. validID (fst e)) m') \<and> mget m' = (mget m)(i \<mapsto> data)"
    using m i by (simp add: ms_Set_def update_conv')
  show "\<exists>m'. ms_Delete i m = (m', None) \<and> (mwf m' \<and> list_all (\<lambda>e. validID (fst e)) m') \<and> mget m' = (mget m)(i := None)"
    using m i by (auto simp: ms_Delete_def delete_conv' list_all_iff set_mdel)
next
  fix m :: MemStore
  show "\<exists>ids. ms_List m = Inr ids \<and> set ids = dom (mget m)"
    by (simp add: ms_List_def dom_map_of_conv_image_fst)
qed (simp_all add: ms_Get_def ms_Set_def ms_Delete_def split: option.split)

text \<open>The keys of a directory, and the state in which the file backend leaves it.\<close>

definition fs_view :: "folder \<Rightarrow> string \<Rightarrow> bytes option" where
  "fs_view d i = (if validID i then case mget d (key_name i) of None \<Rightarrow> None
     | Some n \<Rightarrow> (case in_node n of Regular data \<Rightarrow> Some data | _ \<Rightarrow> None) else None)"

definition key_file :: "string \<Rightarrow> inode \<Rightarrow> bool" where
  "key_file name n \<longleftrightarrow> (\<exists>i data. name = key_name i \<and> validID i \<and> in_node n = Regular data \<and> in_mine n)"

definition fs_ok :: "folder \<Rightarrow> bool" where
  "fs_ok d \<longleftrightarrow> mwf d \<and> (\<forall>(name, n)\<in>set d. has_suffix name ''.key'' \<longrightarrow> key_file name n)"

definition all_well :: ks_os where
  "all_well = \<lparr>os_dirMine = True, os_lstat = True, os_open = True, os_read = True, os_write = None, os_remove = True, os_acl = True, os_readdir = True\<rparr>"

lemma key_name_inject [simp]: "key_name i = key_name j \<longleftrightarrow> i = j"
  by (simp add: key_name_def)

lemma key_name_suffix [simp]: "has_suffix (key_name i) ''.key''"
  by (simp add: key_name_def has_suffix_append)

lemma fs_ok_get: "fs_ok d \<Longrightarrow> mget d (key_name i) = Some n \<Longrightarrow> validID i \<and> in_mine n \<and> (\<exists>data. in_node n = Regular data)"
  using mget_in_set [of d "key_name i" n] by (force simp: fs_ok_def key_file_def)

lemma fs_ok_put: "fs_ok d \<Longrightarrow> validID i \<Longrightarrow> fs_ok (mput (key_name i) \<lparr>in_node = Regular data, in_mine = True, in_mode = m\<rparr> d)"
  by (auto simp: fs_ok_def key_file_def dest!: set_mput_subset)

lemma fs_ok_del: "fs_ok d \<Longrightarrow> fs_ok (mdel k d)"
  by (auto simp: fs_ok_def set_mdel)

lemma fs_ok_links [simp]: "fs_ok d \<Longrightarrow> \<not> is_symlink os (key_name i) d \<and> \<not> is_folder (key_name i) d"
  using fs_ok_get [of d i] by (auto simp: is_symlink_def is_folder_def split: option.split)

lemma aw_Write_fresh:
  assumes "mget d tmp = None" and "tmp \<noteq> path" and "\<not> is_folder path d"
  shows "aw_Write tmp None rm path data mode d = (mput path \<lparr>in_node = Regular data, in_mine = True, in_mode = mode\<rparr> d, None)"
  using assms by (simp add: aw_Write_def renamed_def temp_file_def mdel_mput_fresh)

lemma fs_view_put: "validID i \<Longrightarrow> fs_view (mput (key_name i) \<lparr>in_node = Regular data, in_mine = True, in_mode = m\<rparr> d) = (fs_view d)(i \<mapsto> data)"
  by (auto simp: fs_view_def fun_eq_iff)

lemma fs_view_del: "fs_view (mdel (key_name i) d) = (fs_view d)(i := None)"
  by (auto simp: fs_view_def fun_eq_iff)

lemma fs_List_view: "fs_ok d \<Longrightarrow> \<exists>ids. fs_List all_well d = Inr ids \<and> set ids = dom (fs_view d)"
proof -
  assume ok: "fs_ok d"
  let ?ids = "map (\<lambda>e. trim_suffix (fst e) ''.key'') (filter (\<lambda>e. in_node (snd e) \<noteq> Folder \<and> has_suffix (fst e) ''.key'') d)"
  have trim: "trim_suffix (key_name i) ''.key'' = i" for i
    by (simp add: trim_suffix_def) (simp add: key_name_def)
  have wf: "mwf d" and keys: "\<And>name n. (name, n) \<in> set d \<Longrightarrow> has_suffix name ''.key'' \<Longrightarrow> key_file name n"
    using ok by (auto simp: fs_ok_def)
  have "set ?ids = dom (fs_view d)"
  proof (intro set_eqI iffI)
    fix i
    assume "i \<in> set ?ids"
    then obtain name n where e: "(name, n) \<in> set d" "has_suffix name ''.key''" "i = trim_suffix name ''.key''" by auto
    then obtain j data where j: "name = key_name j" "validID j" "in_node n = Regular data" using keys [OF e(1,2)] by (auto simp: key_file_def)
    then have "mget d (key_name j) = Some n" using e(1) wf by (simp add: mwf_mget)
    then have "fs_view d j = Some data" using j by (simp add: fs_view_def)
    then show "i \<in> dom (fs_view d)" using e(3) j(1) trim by auto
  next
    fix i
    assume "i \<in> dom (fs_view d)"
    then obtain n where n: "mget d (key_name i) = Some n" by (auto simp: fs_view_def split: if_splits option.splits)
    then have "in_node n \<noteq> Folder" using fs_ok_get [OF ok] by fastforce
    then show "i \<in> set ?ids" using mget_in_set [OF n] trim [of i] by (auto intro!: rev_image_eqI)
  qed
  then show ?thesis by (simp add: fs_List_def all_well_def)
qed

text \<open>A system that works: the temporary file has a new name that is not the name of a key.\<close>

locale working_system =
  fixes tmp_of :: "folder \<Rightarrow> string"
  assumes tmp_fresh: "mget d (tmp_of d) = None" and tmp_name: "\<not> has_suffix (tmp_of d) ''.key''"
begin

lemma set_ok:
  assumes "fs_ok d" and "validID i"
  shows "fs_Set all_well (tmp_of d) i data d = (mput (key_name i) \<lparr>in_node = Regular data, in_mine = True, in_mode = 384\<rparr> d, None)"
proof -
  have "tmp_of d \<noteq> key_name i" using tmp_name [of d] key_name_suffix by metis
  then show ?thesis using assms tmp_fresh by (simp add: fs_Set_def all_well_def aw_Write_fresh)
qed

end

sublocale working_system \<subseteq> key_store "fs_Get all_well" "\<lambda>i data d. fs_Set all_well (tmp_of d) i data d" "fs_Delete all_well"
  "fs_List all_well" fs_ok fs_view
proof unfold_locales
  fix d i data
  assume d: "fs_ok d"
  show "fs_Get all_well i d = (if \<not> validID i then Inl InvalidStoreID else case fs_view d i of None \<Rightarrow> Inl NotFound | Some data \<Rightarrow> Inr data)"
    using fs_ok_get [OF d, of i] by (auto simp: fs_Get_def fs_view_def all_well_def ownerCheck_def split: option.split)
  assume i: "validID i"
  show "\<exists>d'. fs_Set all_well (tmp_of d) i data d = (d', None) \<and> fs_ok d' \<and> fs_view d' = (fs_view d)(i \<mapsto> data)"
    using set_ok [OF d i] fs_ok_put [OF d i] fs_view_put [OF i] by simp
  show "\<exists>d'. fs_Delete all_well i d = (d', None) \<and> fs_ok d' \<and> fs_view d' = (fs_view d)(i := None)"
    using i d by (auto simp: fs_Delete_def all_well_def fs_ok_del fs_view_del fs_view_def fun_eq_iff split: option.split)
next
  fix d
  assume "fs_ok d"
  then show "\<exists>ids. fs_List all_well d = Inr ids \<and> set ids = dom (fs_view d)" by (rule fs_List_view)
qed (simp_all add: fs_Set_def fs_Delete_def)


context working_system
begin

lemma is_store:
  "key_store (fs_Get all_well) (\<lambda>i data d. fs_Set all_well (tmp_of d) i data d) (fs_Delete all_well) (fs_List all_well) fs_ok fs_view"
  by (rule key_store_axioms)

end

text \<open>For instance a name longer than every name in the directory.\<close>

definition long_tmp :: "folder \<Rightarrow> string" where
  "long_tmp d = ''.tmp-'' @ replicate (sum_list (map (length \<circ> fst) d)) (CHR ''0'')"

lemma length_key: "(k, v) \<in> set d \<Longrightarrow> length k \<le> sum_list (map (length \<circ> fst) d)"
  by (induction d) auto

lemma long_tmp_fresh: "mget d (long_tmp d) = None"
proof (rule ccontr)
  assume "mget d (long_tmp d) \<noteq> None"
  then obtain v where "(long_tmp d, v) \<in> set d" using mget_in_set by fastforce
  from length_key [OF this] show False by (simp add: long_tmp_def)
qed

interpretation well: working_system long_tmp
proof unfold_locales
  fix d
  show "mget d (long_tmp d) = None" by (rule long_tmp_fresh)
  have "last (long_tmp d) \<noteq> CHR ''y''" by (simp add: long_tmp_def last_append)
  then show "\<not> has_suffix (long_tmp d) ''.key''" by (auto simp: has_suffix_append)
qed

interpretation both: two_stores "fs_Get all_well" "\<lambda>i data d. fs_Set all_well (long_tmp d) i data d" "fs_Delete all_well"
  "fs_List all_well" fs_ok fs_view ms_Get ms_Set ms_Delete ms_List "\<lambda>m. mwf m \<and> list_all (\<lambda>e. validID (fst e)) m" mget
  by unfold_locales

section \<open>Properties\<close>

lemma aw_states_cases:
  assumes "x \<in> set (aw_states tmp path data mode d)"
  shows "x = d \<or> (\<exists>c m. x = temp_file tmp c m d) \<or> x = renamed tmp path (temp_file tmp data mode d)"
  using assms by (auto simp: aw_states_def)

text \<open>
  C23: A key is never lost half way: at every moment of an atomic write, and so after a crash at any moment,
  the file holds its complete old or its complete new contents and no other file has changed; when the
  write reports an error the old contents are still there, and the temporary file is gone unless its
  removal failed too.
\<close>
theorem key_file_atomic:
  assumes fresh: "mget d tmp = None" and names: "tmp \<noteq> path"
    and x: "x \<in> set (aw_states tmp path data mode d)"
    and run: "aw_Write tmp fail rm path data mode d = (d', err)"
  shows "(mget x path = mget d path \<or> mget x path = Some \<lparr>in_node = Regular data, in_mine = True, in_mode = mode\<rparr>) \<and>
     (\<forall>name. name \<notin> {path, tmp} \<longrightarrow> mget x name = mget d name \<and> mget d' name = mget d name) \<and>
     (err = None \<longrightarrow> mget d' path = Some \<lparr>in_node = Regular data, in_mine = True, in_mode = mode\<rparr> \<and> mget d' tmp = None) \<and>
     (err \<noteq> None \<longrightarrow> mget d' path = mget d path \<and> (rm \<longrightarrow> mget d' tmp = None))"
proof -
  have dirty: "mget (aw_dirty st tmp data mode d) name = mget d name" if "name \<noteq> tmp" for st name
    using that by (cases st) (auto simp: temp_file_def)
  have final: "mget (renamed tmp path (temp_file tmp data mode d)) name =
      (if name = path then Some \<lparr>in_node = Regular data, in_mine = True, in_mode = mode\<rparr> else mget d name)" for name
    using fresh by (auto simp: renamed_def temp_file_def)
  have during: "(mget x path = mget d path \<or> mget x path = Some \<lparr>in_node = Regular data, in_mine = True, in_mode = mode\<rparr>) \<and>
      (name \<notin> {path, tmp} \<longrightarrow> mget x name = mget d name)" for name
    using aw_states_cases [OF x] names final by (auto simp: temp_file_def)
  have out: "err = None \<and> d' = renamed tmp path (temp_file tmp data mode d) \<or> err = Some CreateTemp \<and> d' = d \<or>
      err \<noteq> None \<and> (\<exists>st. d' = (if rm then mdel tmp (aw_dirty st tmp data mode d) else aw_dirty st tmp data mode d))"
  proof (cases "if fail = None \<and> is_folder path d then Some Rename else fail")
    case None
    then show ?thesis using run unfolding aw_Write_def by simp
  next
    case (Some st)
    then have "err = Some CreateTemp \<and> d' = d \<or>
        err = Some st \<and> d' = (if rm then mdel tmp (aw_dirty st tmp data mode d) else aw_dirty st tmp data mode d)"
      using run unfolding aw_Write_def Let_def by (cases st) (simp_all del: aw_dirty.simps split: if_splits)
    then show ?thesis by blast
  qed
  have after: "(name \<notin> {path, tmp} \<longrightarrow> mget d' name = mget d name) \<and>
     (err = None \<longrightarrow> mget d' path = Some \<lparr>in_node = Regular data, in_mine = True, in_mode = mode\<rparr> \<and> mget d' tmp = None) \<and>
     (err \<noteq> None \<longrightarrow> mget d' path = mget d path \<and> (rm \<longrightarrow> mget d' tmp = None))" for name
    using out
  proof (elim disjE conjE exE)
    fix st
    assume "d' = (if rm then mdel tmp (aw_dirty st tmp data mode d) else aw_dirty st tmp data mode d)" "err \<noteq> None"
    then show ?thesis using dirty [of name st] dirty [of path st] names by (cases rm) auto
  qed (use final fresh names in simp_all)
  from during after show ?thesis by blast
qed

theorem key_file_atomic_witness:
  "mget (fst (aw_Write ''.tmp-1'' (Some (WriteData 1)) True ''a.key'' [7, 8] 384 [(''a.key'', \<lparr>in_node = Regular [1], in_mine = True, in_mode = 384\<rparr>)])) ''a.key''
   = Some \<lparr>in_node = Regular [1], in_mine = True, in_mode = 384\<rparr>"
proof -
  let ?d = "[(''a.key'', \<lparr>in_node = Regular [1], in_mine = True, in_mode = 384\<rparr>)]"
  have "?d \<in> set (aw_states ''.tmp-1'' ''a.key'' [7, 8] 384 ?d)" by (simp add: aw_states_def)
  from key_file_atomic [OF _ _ this, of "Some (WriteData 1)" True] show ?thesis
    by (simp add: aw_Write_def Let_def)
qed

text \<open>
  The backends are interchangeable: on a system whose calls succeed, the hardened file store and the
  store in memory give the same answers to every sequence of reads, writes, deletions and listings,
  invalid ids included, whatever names the temporary files get.
\<close>
theorem file_store_agrees_with_memory:
  assumes "\<And>d. mget d (tmp_of d) = None" and "\<And>d. \<not> has_suffix (tmp_of d) ''.key''"
    and "fs_ok d" and "mwf m" and "list_all (\<lambda>e. validID (fst e)) m" and "fs_view d = mget m"
  shows "snd (ks_exec (fs_Get all_well) (\<lambda>i data d. fs_Set all_well (tmp_of d) i data d) (fs_Delete all_well) (fs_List all_well) ops d) =
     snd (ks_exec ms_Get ms_Set ms_Delete ms_List ops m)"
proof -
  have "working_system tmp_of" using assms(1,2) by unfold_locales
  then have "key_store (fs_Get all_well) (\<lambda>i data d. fs_Set all_well (tmp_of d) i data d) (fs_Delete all_well) (fs_List all_well) fs_ok fs_view"
    by (rule working_system.is_store)
  from two_stores.same_answers [OF two_stores.intro [OF this mem.key_store_axioms] assms(3) _ assms(6)] show ?thesis
    using assms(4,5) by simp
qed

theorem file_store_agrees_with_memory_witness:
  "snd (ks_exec (fs_Get all_well) (\<lambda>i data d. fs_Set all_well (long_tmp d) i data d) (fs_Delete all_well) (fs_List all_well)
     [OpSet ''client'' [1, 2], OpGet ''client'', OpGet ''../x'', OpDelete ''client'', OpGet ''client'', OpList] []) =
   [Done None, Data (Inr [1, 2]), Data (Inl InvalidStoreID), Done None, Data (Inl NotFound), Ids (Inr {})]"
proof -
  have "fs_view [] = mget []" by (simp add: fs_view_def fun_eq_iff)
  moreover have "validID ''client''" "\<not> validID ''../x''" by code_simp+
  moreover have "fs_ok []" by (simp add: fs_ok_def)
  ultimately show ?thesis
    by (subst file_store_agrees_with_memory [OF well.tmp_fresh well.tmp_name, of "[]" "[]"])
      (simp_all add: ms_Get_def ms_Set_def ms_Delete_def ms_List_def)
qed


end
