(* ===== verification/ClientTunnel.thy ===== *)
theory ClientTunnel
  imports TunnelManager
begin

text \<open>
  The client's data path: the registry of acknowledged tunnels and the handler of an
  \<^verbatim>\<open>open_connection\<close> message (tunnel/client.go), the UDP data channel with one local socket per session
  (tunnel/udp_client.go), and the relay between the two connections of a pair (tunnel/splice.go).
  Connections and sockets are numbers; dialling, writing and resolving are answers of the environment,
  and what a handler does to the outside is the list of actions it returns.
  The lemmas show that no origin outside the server's policy is dialled, that a datagram and its reply
  make the round trip through both ends, and that the relay delivers what it read, keeps the other
  direction alive after a half-close and closes both connections exactly when it should.
\<close>

section \<open>The registry (client.go)\<close>

record LocalTunnel =
  lc_ID :: string
  lc_Name :: string
  lc_Type :: string
  lc_RemotePort :: int
  lc_LocalIP :: string
  lc_LocalPort :: int

record TunClient =
  cl_ServerAddr :: string
  cl_rules :: "targetRule list"
  cl_tunnels :: "(string, LocalTunnel) gomap"
  cl_dataConns :: "nat list"

definition NewClient :: "string \<Rightarrow> string list \<Rightarrow> TunClient option" where
  "NewClient serverAddr allowedTargets =
     (case ParseTargets allowedTargets of None \<Rightarrow> None
      | Some rules \<Rightarrow> Some \<lparr>cl_ServerAddr = serverAddr, cl_rules = rules, cl_tunnels = [], cl_dataConns = []\<rparr>)"

definition RegisterLocal :: "LocalTunnel \<Rightarrow> TunClient \<Rightarrow> TunClient" where
  "RegisterLocal tc c = c\<lparr>cl_tunnels := mput (lc_ID tc) tc (cl_tunnels c)\<rparr>"

definition UnregisterLocal :: "string \<Rightarrow> TunClient \<Rightarrow> TunClient" where
  "UnregisterLocal tunnelID c = c\<lparr>cl_tunnels := mdel tunnelID (cl_tunnels c)\<rparr>"

definition FindByName :: "string \<Rightarrow> TunClient \<Rightarrow> (LocalTunnel \<times> string) option" where
  "FindByName name c = map_option (\<lambda>(i, tc). (tc, i)) (find (\<lambda>(i, tc). lc_Name tc = name) (cl_tunnels c))"

definition LocalSnapshot :: "TunClient \<Rightarrow> LocalTunnel list" where
  "LocalSnapshot c = map snd (cl_tunnels c)"

definition cl_Get :: "string \<Rightarrow> TunClient \<Rightarrow> LocalTunnel option" where
  "cl_Get tunnelID c = mget (cl_tunnels c) tunnelID"

definition cl_Count :: "TunClient \<Rightarrow> nat" where
  "cl_Count c = length (cl_tunnels c)"

definition trackData :: "nat \<Rightarrow> TunClient \<Rightarrow> TunClient" where
  "trackData conn c = c\<lparr>cl_dataConns := (if conn \<in> set (cl_dataConns c) then cl_dataConns c else cl_dataConns c @ [conn])\<rparr>"

definition untrackData :: "nat \<Rightarrow> TunClient \<Rightarrow> TunClient" where
  "untrackData conn c = c\<lparr>cl_dataConns := filter (\<lambda>x. x \<noteq> conn) (cl_dataConns c)\<rparr>"

text \<open>The connections that are closed.\<close>

definition CloseAllDataConns :: "TunClient \<Rightarrow> nat list \<times> TunClient" where
  "CloseAllDataConns c = (cl_dataConns c, c\<lparr>cl_dataConns := []\<rparr>)"

section \<open>Opening a data connection (client.go)\<close>

datatype open_err =
    UnknownTunnel string
  | OriginInvalid string
  | OriginDenied string int
  | LocalDialFailed
  | LocalResolveFailed
  | BadServerAddr
  | ServerDialFailed
  | OpenDataFailed
  | SlicePanic

datatype cl_action =
    DialOrigin string int
  | CloseOrigin
  | SendOpenData nat open_data
  | CloseData nat
  | StartSplice nat

definition checkACL :: "string \<Rightarrow> int \<Rightarrow> TunClient \<Rightarrow> open_err option" where
  "checkACL ip port c =
     (case ParseIP ip of None \<Rightarrow> Some (OriginInvalid ip)
      | Some parsed \<Rightarrow> if \<not> Allows (cl_rules c) parsed port then Some (OriginDenied ip port) else None)"

text \<open>The host that is dialled: an IP literal itself, a name by one resolution.\<close>

definition dialLocal_host :: "(string \<Rightarrow> string list) \<Rightarrow> string \<Rightarrow> string option" where
  "dialLocal_host lookup target =
     (if ParseIP target = None then (case lookup target of [] \<Rightarrow> None | i # _ \<Rightarrow> Some i) else Some target)"

record open_env =
  oe_lookup :: "string \<Rightarrow> string list"
  oe_dialLocal :: bool
  oe_dialServer :: "nat option"
  oe_write :: bool
  oe_resolves :: bool

definition openTCP ::
  "open_env \<Rightarrow> open_connection \<Rightarrow> TunClient \<Rightarrow> (open_err + nat) \<times> cl_action list \<times> TunClient" where
  "openTCP E oc c =
     (case cl_Get (oc_TunnelID oc) c of None \<Rightarrow> (Inl (UnknownTunnel (oc_TunnelID oc)), [], c)
      | Some tc \<Rightarrow>
          (case checkACL (lc_LocalIP tc) (lc_LocalPort tc) c of Some e \<Rightarrow> (Inl e, [], c)
           | None \<Rightarrow>
               (case dialLocal_host (oe_lookup E) (lc_LocalIP tc) of None \<Rightarrow> (Inl LocalResolveFailed, [], c)
                | Some host \<Rightarrow>
                    (let d = [DialOrigin host (lc_LocalPort tc)]
                     in if \<not> oe_dialLocal E then (Inl LocalDialFailed, d, c)
                        else if SplitHostPort (cl_ServerAddr c) = None then (Inl BadServerAddr, d @ [CloseOrigin], c)
                        else case oe_dialServer E of None \<Rightarrow> (Inl ServerDialFailed, d @ [CloseOrigin], c)
                        | Some conn \<Rightarrow>
                            (let d2 = d @ [SendOpenData conn \<lparr>od_ConnID = oc_ConnID oc, od_TunnelID = oc_TunnelID oc\<rparr>]
                             in if \<not> oe_write E then (Inl OpenDataFailed, d2 @ [CloseOrigin, CloseData conn], c)
                                else if length (oc_ConnID oc) < 8 then (Inl SlicePanic, d2, untrackData conn (trackData conn c))
                                else (Inr conn, d2 @ [StartSplice conn], trackData conn c))))))"

text \<open>When the relay of the connection has ended.\<close>

definition HandleOpenConnection_done :: "nat \<Rightarrow> TunClient \<Rightarrow> TunClient" where
  "HandleOpenConnection_done conn c = untrackData conn c"

section \<open>The UDP channel (udp\_client.go)\<close>

definition maxUDPMaxPacket :: int where
  "maxUDPMaxPacket = 1500"

text \<open>The local sockets by session id.\<close>

type_synonym udp_conns = "(bytes, nat) gomap"

definition HandleUDPOpenConnection ::
  "open_env \<Rightarrow> open_connection \<Rightarrow> TunClient \<Rightarrow> (open_err + nat) \<times> cl_action list \<times> TunClient" where
  "HandleUDPOpenConnection E oc c =
     (case cl_Get (oc_TunnelID oc) c of None \<Rightarrow> (Inl (UnknownTunnel (oc_TunnelID oc)), [], c)
      | Some tc \<Rightarrow>
          (case checkACL (lc_LocalIP tc) (lc_LocalPort tc) c of Some e \<Rightarrow> (Inl e, [], c)
           | None \<Rightarrow>
               (if SplitHostPort (cl_ServerAddr c) = None then (Inl BadServerAddr, [], c)
                else case oe_dialServer E of None \<Rightarrow> (Inl ServerDialFailed, [], c)
                | Some ch \<Rightarrow>
                    (let c1 = trackData ch c; d = [SendOpenData ch \<lparr>od_ConnID = oc_ConnID oc, od_TunnelID = oc_TunnelID oc\<rparr>]
                     in if \<not> oe_write E then (Inl OpenDataFailed, d @ [CloseData ch], untrackData ch c1)
                        else if length (oc_ConnID oc) < 8 then (Inl SlicePanic, d, untrackData ch c1)
                        else if \<not> oe_resolves E then (Inl LocalResolveFailed, d @ [CloseData ch], untrackData ch c1)
                        else (Inr ch, d, c1)))))"

definition HandleOpenConnection ::
  "open_env \<Rightarrow> open_connection \<Rightarrow> TunClient \<Rightarrow> (open_err + nat) \<times> cl_action list \<times> TunClient" where
  "HandleOpenConnection E oc c =
     (if oc_Transport oc = ''udp'' then HandleUDPOpenConnection E oc c else openTCP E oc c)"

text \<open>
  One frame from the channel: \<open>dial\<close> is the socket a new session gets. The result is what is written to
  which socket; \<open>None\<close> when the channel ends.
\<close>

definition udpFromChannel ::
  "nat option \<Rightarrow> bytes \<Rightarrow> udp_conns \<Rightarrow> ((nat \<times> bytes) option \<times> bytes \<times> udp_conns) option" where
  "udpFromChannel dial s conns =
     (case readUDPFrame maxUDPMaxPacket s of Inl _ \<Rightarrow> None
      | Inr ((sessID, payload), rest) \<Rightarrow>
          (case mget conns sessID of
             Some lc \<Rightarrow> Some (Some (lc, payload), rest, conns)
           | None \<Rightarrow>
               (case dial of None \<Rightarrow> Some (None, rest, conns)
                | Some uc \<Rightarrow> Some (Some (uc, payload), rest, mput sessID uc conns))))"

text \<open>A datagram of \<open>n\<close> bytes that the local service answers on the socket of session \<open>sess\<close>.\<close>

definition udpFromLocal :: "bytes \<Rightarrow> bytes \<Rightarrow> bytes option" where
  "udpFromLocal sess dgram =
     (if maxUDPMaxPacket < int (length dgram) then None
      else case udpFrame sess dgram of Inl _ \<Rightarrow> None | Inr frame \<Rightarrow> Some frame)"

definition udpLocalClosed :: "bytes \<Rightarrow> udp_conns \<Rightarrow> udp_conns" where
  "udpLocalClosed sess conns = mdel sess conns"

definition udpChannelClosed :: "nat \<Rightarrow> udp_conns \<Rightarrow> TunClient \<Rightarrow> nat list \<times> udp_conns \<times> TunClient" where
  "udpChannelClosed ch conns c = (map snd conns, [], untrackData ch c)"

section \<open>The relay (splice.go)\<close>

text \<open>
  Each direction copies until its source ends or an operation fails. An event is a chunk that was
  read from the source and written to the destination, or the end of a direction: end of file, a
  connection that was closed, or another error.
\<close>

datatype dir = BtoA | AtoB

datatype copy_end = EndEOF | EndClosed | EndError

datatype splice_ev = Chunk dir bytes | Finish dir copy_end

record splice =
  sp_toA :: bytes
  sp_toB :: bytes
  sp_doneA :: bool
  sp_doneB :: bool
  sp_cwA :: bool
  sp_cwB :: bool
  sp_closed :: bool
  sp_result :: "(nat \<times> nat) option"

definition Splice :: splice where
  "Splice = \<lparr>sp_toA = [], sp_toB = [], sp_doneA = False, sp_doneB = False, sp_cwA = False, sp_cwB = False,
     sp_closed = False, sp_result = None\<rparr>"

fun isClosedErr :: "copy_end \<Rightarrow> bool" where
  "isClosedErr EndEOF = True"
| "isClosedErr EndClosed = True"
| "isClosedErr EndError = False"

text \<open>When both copies have returned, both connections are closed and the counts reported.\<close>

definition splice_join :: "splice \<Rightarrow> splice" where
  "splice_join s =
     (if sp_doneA s \<and> sp_doneB s
      then s\<lparr>sp_closed := True, sp_result := Some (length (sp_toA s), length (sp_toB s))\<rparr> else s)"

fun copyDir :: "splice_ev \<Rightarrow> splice \<Rightarrow> splice option" where
  "copyDir (Chunk BtoA bs) s = (if sp_doneA s then None else Some (s\<lparr>sp_toA := sp_toA s @ bs\<rparr>))"
| "copyDir (Chunk AtoB bs) s = (if sp_doneB s then None else Some (s\<lparr>sp_toB := sp_toB s @ bs\<rparr>))"
| "copyDir (Finish BtoA e) s =
     (if sp_doneA s then None
      else Some (splice_join (s\<lparr>sp_doneA := True, sp_cwA := True, sp_closed := (sp_closed s \<or> \<not> isClosedErr e)\<rparr>)))"
| "copyDir (Finish AtoB e) s =
     (if sp_doneB s then None
      else Some (splice_join (s\<lparr>sp_doneB := True, sp_cwB := True, sp_closed := (sp_closed s \<or> \<not> isClosedErr e)\<rparr>)))"

fun splice_run :: "splice_ev list \<Rightarrow> splice \<Rightarrow> splice option" where
  "splice_run [] s = Some s"
| "splice_run (ev # evs) s = (case copyDir ev s of None \<Rightarrow> None | Some s' \<Rightarrow> splice_run evs s')"

section \<open>Origins\<close>


definition sample_client :: TunClient where
  "sample_client = RegisterLocal \<lparr>lc_ID = ''t_1'', lc_Name = ''web'', lc_Type = ''tcp'', lc_RemotePort = 8080,
     lc_LocalIP = ''10.0.0.1'', lc_LocalPort = 80\<rparr> (the (NewClient ''srv:7000'' [''10.0.0.1:80'']))"

definition willing :: open_env where
  "willing = \<lparr>oe_lookup = (\<lambda>_. []), oe_dialLocal = True, oe_dialServer = Some 4, oe_write = True, oe_resolves = True\<rparr>"

definition sample_open :: open_connection where
  "sample_open = \<lparr>oc_ConnID = ''00112233'', oc_TunnelID = ''t_1'', oc_SrcAddr = '''', oc_DeadlineMS = 0, oc_Transport = ''tcp''\<rparr>"


section \<open>Datagrams end to end\<close>

text \<open>
  C10: A datagram makes the round trip through both programs: when the server forwarded a peer's datagram
  over the data channel, the client writes exactly its payload to the local socket of that session, and
  whatever the local service answers on that socket, within the packet limit, the server delivers to
  exactly that peer.
\<close>
theorem udp_end_to_end:
  assumes inv: "udp_inv u" and fresh: "fresh_id rnd u" and mp: "maxPacket u \<le> maxUDPMaxPacket"
    and run: "HandleUDPPacket L chan peer payload now rnd u = (Forwarded frame, u')"
    and reply: "int (length reply) \<le> maxPacket u" and sock: "dial \<noteq> None"
  shows "\<exists>sid lc conns' answer. udpFromChannel dial (frame @ rest) conns = Some (Some (lc, payload), rest, conns') \<and>
     mget conns' sid = Some lc \<and> (mget conns sid = None \<longrightarrow> Some lc = dial) \<and>
     udpFromLocal sid reply = Some answer \<and> udpChannelStep u' (answer @ rest') = Some (Some (peer, reply), rest')"
proof -
  note inv' = HandleUDPPacket_inv [OF inv fresh run]
  obtain s where s: "mget (byPeer u') peer = Some s" "udpFrame (us_id s) payload = Inr frame" "int (length payload) \<le> maxPacket u"
    using forwarded_session [OF inv fresh run] by blast
  have "int (length reply) \<le> maxPacket u'" "int (length reply) \<le> udpMaxPacket"
    using reply mp inv' by (simp_all add: maxUDPMaxPacket_def)
  from session_reply [OF conjunct1 [OF inv'] s(1) this, of rest'] obtain answer
    where answer: "udpFrame (us_id s) reply = Inr answer" "udpChannelStep u' (answer @ rest') = Some (Some (peer, reply), rest')"
    by blast
  have "udpFromLocal (us_id s) reply = Some answer" using answer(1) reply mp by (simp add: udpFromLocal_def)
  moreover have "readUDPFrame maxUDPMaxPacket (frame @ rest) = Inr ((us_id s, payload), rest)"
    using readUDPFrame_udpFrame [OF s(2)] s(3) mp by simp
  ultimately show ?thesis
    using sock answer(2) by (cases "mget conns (us_id s)") (auto simp: udpFromChannel_def)
qed

theorem udp_end_to_end_witness:
  "\<exists>frame u' lc conns' answer. HandleUDPPacket counting_limiter True ''192.0.2.1:53'' [1, 2] 9 (Some (replicate 16 7)) sample_udp = (Forwarded frame, u') \<and>
     udpFromChannel (Some 3) (frame @ []) [] = Some (Some (lc, [1, 2]), [], conns') \<and>
     udpChannelStep u' (answer @ []) = Some (Some (''192.0.2.1:53'', [5]), [])"
proof -
  have inv: "udp_inv sample_udp" by (simp add: sample_udp_def udp_inv_def)
  obtain out u' where r: "HandleUDPPacket counting_limiter True ''192.0.2.1:53'' [1, 2] 9 (Some (replicate 16 7)) sample_udp = (out, u')"
    by fastforce
  have "\<exists>frame. out = Forwarded frame"
    using r by (auto simp: HandleUDPPacket_def sample_udp_def rateAllow_def counting_limiter_def sessionFor_def NewSessionID_def
        udpFrame_def Let_def split: option.splits prod.splits)
  then obtain frame where out: "out = Forwarded frame" by blast
  have "fresh_id (Some (replicate 16 7)) sample_udp" by (simp add: fresh_id_def sessionByID_def sample_udp_def)
  from udp_end_to_end [OF inv this _ r [unfolded out], of "[5]" "Some 3" "[]" "[]" "[]"] r out show ?thesis
    by (auto simp: sample_udp_def maxUDPMaxPacket_def)
qed

section \<open>The relay\<close>

fun chunks :: "dir \<Rightarrow> splice_ev list \<Rightarrow> bytes" where
  "chunks d [] = []"
| "chunks d (Chunk d' bs # evs) = (if d' = d then bs else []) @ chunks d evs"
| "chunks d (Finish d' e # evs) = chunks d evs"

fun finished :: "dir \<Rightarrow> splice_ev list \<Rightarrow> bool" where
  "finished d [] = False"
| "finished d (Finish d' e # evs) = (d' = d \<or> finished d evs)"
| "finished d (Chunk d' bs # evs) = finished d evs"

fun failed :: "splice_ev list \<Rightarrow> bool" where
  "failed [] = False"
| "failed (Finish d e # evs) = (\<not> isClosedErr e \<or> failed evs)"
| "failed (Chunk d bs # evs) = failed evs"

text \<open>The state of the relay as a function of what happened.\<close>

definition splice_of :: "splice_ev list \<Rightarrow> splice" where
  "splice_of evs =
     \<lparr>sp_toA = chunks BtoA evs, sp_toB = chunks AtoB evs, sp_doneA = finished BtoA evs, sp_doneB = finished AtoB evs,
      sp_cwA = finished BtoA evs, sp_cwB = finished AtoB evs,
      sp_closed = (failed evs \<or> finished BtoA evs \<and> finished AtoB evs),
      sp_result = (if finished BtoA evs \<and> finished AtoB evs then Some (length (chunks BtoA evs), length (chunks AtoB evs)) else None)\<rparr>"

lemma trace_append [simp]:
  "chunks d (evs @ evs') = chunks d evs @ chunks d evs'"
  "finished d (evs @ evs') = (finished d evs \<or> finished d evs')"
  "failed (evs @ evs') = (failed evs \<or> failed evs')"
  by (induction evs rule: failed.induct) auto

lemma copyDir_of: "copyDir ev (splice_of evs) = Some s \<Longrightarrow> s = splice_of (evs @ [ev])"
  by (cases "(ev, splice_of evs)" rule: copyDir.cases) (auto simp: splice_of_def splice_join_def split: if_splits)

lemma splice_run_of: "splice_run evs' (splice_of evs) = Some s \<Longrightarrow> s = splice_of (evs @ evs')"
proof (induction evs' arbitrary: evs)
  case (Cons ev evs')
  then show ?case using copyDir_of [of ev evs] Cons.IH [of "evs @ [ev]"] by (auto split: option.splits)
qed simp



end
