(* ===== verification/ClientCore.thy ===== *)
theory ClientCore
  imports Complex_Main ClientTunnel
begin

text \<open>
  \<^verbatim>\<open>internal/clientcore\<close>: the classification of errors (errors.go), the connection manager with its
  reconnect schedule (manager.go), and the control session of a client (client.go): handshake, frames
  from the server in the order they arrive, requests that wait for a reply, and heartbeats.
  An error is a value of \<open>cl_error\<close> that keeps the chain \<^verbatim>\<open>errors.Is\<close> and \<^verbatim>\<open>errors.As\<close> walk. A session
  consumes a list of events: a frame, the loss of the connection, a tick of the heartbeat timer, the
  cancellation of its context.
  The lemmas show the bounds of the backoff, which errors end the reconnecting, that a tunnel is known
  before the first connection for it is opened, and that the heartbeat counter outlives its session.
\<close>

section \<open>Errors (errors.go)\<close>

datatype cl_error =
    ErrGracefulShutdown
  | Leaf string
  | Wrap string cl_error
  | ErrPermanent cl_error
  | ErrTemporary cl_error

fun err_string :: "cl_error \<Rightarrow> string" where
  "err_string ErrGracefulShutdown = ''graceful shutdown''"
| "err_string (Leaf m) = m"
| "err_string (Wrap p e) = p @ '': '' @ err_string e"
| "err_string (ErrPermanent e) = ''permanent error: '' @ err_string e"
| "err_string (ErrTemporary e) = ''temporary error: '' @ err_string e"

fun IsPermanent :: "cl_error \<Rightarrow> bool" where
  "IsPermanent (ErrPermanent e) = True"
| "IsPermanent (ErrTemporary e) = IsPermanent e"
| "IsPermanent (Wrap p e) = IsPermanent e"
| "IsPermanent _ = False"

fun IsTemporary :: "cl_error \<Rightarrow> bool" where
  "IsTemporary (ErrTemporary e) = True"
| "IsTemporary (ErrPermanent e) = IsTemporary e"
| "IsTemporary (Wrap p e) = IsTemporary e"
| "IsTemporary _ = False"

fun is_graceful :: "cl_error \<Rightarrow> bool" where
  "is_graceful ErrGracefulShutdown = True"
| "is_graceful (Wrap p e) = is_graceful e"
| "is_graceful (ErrPermanent e) = is_graceful e"
| "is_graceful (ErrTemporary e) = is_graceful e"
| "is_graceful (Leaf m) = False"

definition permanentMarkers :: "string list" where
  "permanentMarkers = [''certificate'', ''x509'', ''unknown authority'', ''bad certificate'', ''permanent'', ''server rejected'',
     ''server fatal error'', ''not allowed'', ''revoked'', ''expired'', ''unsupported protocol version'']"

definition Classify :: "(string \<Rightarrow> string) \<Rightarrow> cl_error option \<Rightarrow> cl_error option" where
  "Classify ucase arg =
     (case arg of None \<Rightarrow> None
      | Some err \<Rightarrow>
          (if IsPermanent err \<or> IsTemporary err then Some err
           else let msg = err_string err; lower = to_lower ucase msg
           in if list_ex (contains lower) permanentMarkers then Some (ErrPermanent err)
              else if contains msg ErrCodeAuthFailed \<or> contains msg ErrCodeCertRevoked \<or> contains msg ErrCodeCertExpired \<or>
                contains msg ErrCodeVersionUnsupported then Some (ErrPermanent err)
              else Some (ErrTemporary err)))"

section \<open>The connection manager (manager.go)\<close>

datatype conn_state = StateDisconnected | StateConnecting | StateOnline | StateDraining | StateStopped

record BackoffConfig =
  Initial :: duration
  Max :: duration
  Jitter :: rat

definition DefaultBackoff :: BackoffConfig where
  "DefaultBackoff = \<lparr>Initial = second, Max = 60 * second, Jitter = 1 / 5\<rparr>"

text \<open>The doubling loop, run at most \<open>n\<close> times.\<close>

fun backoff_base :: "nat \<Rightarrow> duration \<Rightarrow> duration \<Rightarrow> duration" where
  "backoff_base 0 mx base = base"
| "backoff_base (Suc n) mx base =
     (if base < mx then (let b = wrap64 (base * 2) in backoff_base n mx (if mx < b then mx else b)) else base)"

text \<open>
  \<open>f\<close> is what \<^verbatim>\<open>rand.Float64\<close> gives, a number from 0 up to and excluding 1, and \<open>down\<close> whether
  \<^verbatim>\<open>rand.Intn(2)\<close> was zero. The product of floats is taken exactly.
\<close>

definition backoffFor :: "BackoffConfig \<Rightarrow> rat \<Rightarrow> bool \<Rightarrow> nat \<Rightarrow> duration" where
  "backoffFor B f down attempt =
     (let base = backoff_base (attempt - 1) (Max B) (Initial B);
          base = (if Max B < base then Max B else base);
          jitter = (if Jitter B \<le> 0 then 1 / 5 else Jitter B);
          delta = \<lfloor>rat_of_int base * jitter * f\<rfloor>;
          base = (if down then base - delta else base + delta);
          base = (if base < millisecond then millisecond else base)
      in if Max B < base then Max B else base)"

text \<open>
  One round of the loop: whether the stop was requested before it, what the session returned, the random
  numbers of the backoff, and whether the stop was requested during the wait.
\<close>

record round =
  ro_stop :: bool
  ro_session :: "cl_error option"
  ro_rand :: "rat \<times> bool"
  ro_stopWait :: bool

record run_trace =
  tr_states :: "conn_state list"
  tr_delays :: "duration list"
  tr_result :: "cl_error option option"

text \<open>\<open>tr_result = None\<close>: the loop is still running when the rounds are used up.\<close>

fun mgr_loop :: "(string \<Rightarrow> string) \<Rightarrow> BackoffConfig \<Rightarrow> nat \<Rightarrow> round list \<Rightarrow> run_trace" where
  "mgr_loop ucase B attempt [] = \<lparr>tr_states = [], tr_delays = [], tr_result = None\<rparr>"
| "mgr_loop ucase B attempt (r # rs) =
     (if ro_stop r then \<lparr>tr_states = [StateStopped], tr_delays = [], tr_result = Some None\<rparr>
      else let attempt = attempt + 1
      in case Classify ucase (ro_session r) of
           None \<Rightarrow> \<lparr>tr_states = [StateConnecting, StateStopped], tr_delays = [], tr_result = Some None\<rparr>
         | Some err \<Rightarrow>
             (if is_graceful err then \<lparr>tr_states = [StateConnecting, StateStopped], tr_delays = [], tr_result = Some None\<rparr>
              else if IsPermanent err
                then \<lparr>tr_states = [StateConnecting, StateStopped], tr_delays = [], tr_result = Some (Some err)\<rparr>
              else let d = backoffFor B (fst (ro_rand r)) (snd (ro_rand r)) attempt
                   in if ro_stopWait r
                      then \<lparr>tr_states = [StateConnecting, StateDisconnected, StateStopped], tr_delays = [d], tr_result = Some None\<rparr>
                      else let t = mgr_loop ucase B attempt rs
                           in t\<lparr>tr_states := StateConnecting # StateDisconnected # tr_states t, tr_delays := d # tr_delays t\<rparr>))"

definition mgr_Run :: "(string \<Rightarrow> string) \<Rightarrow> BackoffConfig \<Rightarrow> round list \<Rightarrow> run_trace" where
  "mgr_Run ucase B rs = mgr_loop ucase (if Initial B \<le> 0 then DefaultBackoff else B) 0 rs"

section \<open>The control session (client.go)\<close>

record TunnelSpec =
  sp_Name :: string
  sp_Type :: string
  sp_RemotePort :: int
  sp_LocalIP :: string
  sp_LocalPort :: int
  sp_HTTPHost :: string
  sp_Enabled :: bool

record CoreClient =
  cc_ServerAddr :: string
  cc_ClientID :: string
  cc_Name :: string
  cc_Note :: string
  cc_Tunnels :: "TunnelSpec list"
  cc_Heartbeat :: heartbeat
  cc_Policy :: policy
  cc_tun :: "TunClient option"
  cc_seq :: "64 word"
  cc_missed :: int
  cc_pending :: "(64 word, TunnelSpec) gomap"
  cc_conn :: bool
  cc_closedOnce :: bool

definition cc_nextSeq :: "CoreClient \<Rightarrow> 64 word \<times> CoreClient" where
  "cc_nextSeq c = (cc_seq c + 1, c\<lparr>cc_seq := cc_seq c + 1\<rparr>)"

definition takePending :: "64 word \<Rightarrow> CoreClient \<Rightarrow> TunnelSpec option \<times> CoreClient" where
  "takePending sq c = (mget (cc_pending c) sq, c\<lparr>cc_pending := mdel sq (cc_pending c)\<rparr>)"

definition setupTunnels :: "CoreClient \<Rightarrow> bool \<times> CoreClient" where
  "setupTunnels c =
     (case NewClient (cc_ServerAddr c) (AllowedTargets (cc_Policy c)) of
        None \<Rightarrow> (False, c)
      | Some tc \<Rightarrow> (True, c\<lparr>cc_tun := Some tc\<rparr>))"

text \<open>
  The answer to the hello: a frame that could not be read, an error frame (with its message if it
  decodes), a frame of another type, a hello that does not decode, or a hello.
\<close>

datatype hello_reply =
    HrReadError string
  | HrError "string option"
  | HrOther string
  | HrBad string
  | HrHello server_hello

text \<open>Everything of a session up to its loop; \<open>dial\<close> and \<open>send\<close> are the errors of those calls.\<close>

definition runSession_start ::
  "(string \<Rightarrow> string) \<Rightarrow> string option \<Rightarrow> string option \<Rightarrow> hello_reply \<Rightarrow> CoreClient \<Rightarrow> cl_error option \<times> CoreClient" where
  "runSession_start ucase dial send reply c =
     (case SplitHostPort (cc_ServerAddr c) of
        None \<Rightarrow> (Some (Wrap ''clientcore: invalid server addr'' (Leaf ''address error'')), c)
      | Some _ \<Rightarrow>
          (case dial of Some e \<Rightarrow> (Classify ucase (Some (Wrap ''clientcore: dial'' (Leaf e))), c)
           | None \<Rightarrow>
               (let c1 = snd (cc_nextSeq (c\<lparr>cc_conn := True, cc_pending := []\<rparr>))
                in case send of Some e \<Rightarrow> (Some (Wrap ''clientcore: send hello'' (Leaf e)), c1)
                   | None \<Rightarrow>
                       (case reply of
                          HrReadError e \<Rightarrow> (Some (Wrap ''clientcore: read hello response'' (Leaf e)), c1)
                        | HrError (Some m) \<Rightarrow> (Some (Leaf (''clientcore: server rejected: '' @ m)), c1)
                        | HrError None \<Rightarrow> (Some (Leaf ''clientcore: server rejected''), c1)
                        | HrOther ty \<Rightarrow> (Some (Leaf (''clientcore: unexpected '' @ ty @ '' during handshake'')), c1)
                        | HrBad e \<Rightarrow> (Some (Wrap ''clientcore: parse server_hello'' (Leaf e)), c1)
                        | HrHello sh \<Rightarrow>
                            (case ValidateServerHello (Some sh) of
                               Some e \<Rightarrow> (Some (Wrap ''clientcore: invalid server_hello'' (Leaf (Error_string e))), c1)
                             | None \<Rightarrow>
                                 (let hb = sh_Heartbeat sh;
                                      hb = (if IntervalS hb \<le> 0 then hb\<lparr>IntervalS := 15\<rparr> else hb);
                                      hb = (if TimeoutS hb \<le> 0 then hb\<lparr>TimeoutS := 10\<rparr> else hb);
                                      (ok, c2) = setupTunnels (c1\<lparr>cc_Policy := sh_Policy sh, cc_Heartbeat := hb\<rparr>)
                                  in if ok then (None, c2)
                                     else (Some (Wrap ''clientcore: tunnel setup'' (Leaf ''invalid target'')), c2)))))))"

definition spec_request :: "TunnelSpec \<Rightarrow> register_tunnel" where
  "spec_request t =
     \<lparr>rt_Name = sp_Name t, rt_Type = sp_Type t, rt_RemotePort = sp_RemotePort t,
      rt_Local = \<lparr>lt_IP = sp_LocalIP t, lt_Port = sp_LocalPort t\<rparr>,
      rt_HTTP = (if sp_Type t = ''http'' \<and> sp_HTTPHost t \<noteq> '''' then Some (sp_HTTPHost t) else None)\<rparr>"

text \<open>
  A request that waits for its reply: the sequence number it was sent with, and the client with the
  entry in its pending table.
\<close>

definition rpcSpec :: "bool \<Rightarrow> TunnelSpec \<Rightarrow> CoreClient \<Rightarrow> (string + 64 word) \<times> CoreClient" where
  "rpcSpec wr spec c =
     (let (sq, c1) = cc_nextSeq c;
          c2 = c1\<lparr>cc_pending := mput sq spec (cc_pending c1)\<rparr>
      in if \<not> cc_conn c2 then (Inl ''clientcore: not connected'', snd (takePending sq c2))
         else if \<not> wr then (Inl ''write failed'', snd (takePending sq c2))
         else (Inr sq, c2))"

definition rpc_cancel :: "64 word \<Rightarrow> CoreClient \<Rightarrow> CoreClient" where
  "rpc_cancel sq c = snd (takePending sq c)"

definition RegisterTunnel :: "bool \<Rightarrow> TunnelSpec \<Rightarrow> CoreClient \<Rightarrow> (string + (64 word \<times> register_tunnel)) \<times> CoreClient" where
  "RegisterTunnel wr t c =
     (if \<not> cc_conn c then (Inl ''clientcore: not connected'', c)
      else case cc_tun c of None \<Rightarrow> (Inl ''clientcore: tunnel client not initialized'', c)
      | Some tc \<Rightarrow>
          (if FindByName (sp_Name t) tc \<noteq> None then (Inl (''tunnel '' @ sp_Name t @ '' already running''), c)
           else case rpcSpec wr t c of (Inl e, c1) \<Rightarrow> (Inl e, c1) | (Inr sq, c1) \<Rightarrow> (Inr (sq, spec_request t), c1)))"

definition empty_spec :: TunnelSpec where
  "empty_spec = \<lparr>sp_Name = '''', sp_Type = '''', sp_RemotePort = 0, sp_LocalIP = '''', sp_LocalPort = 0, sp_HTTPHost = '''', sp_Enabled = False\<rparr>"

text \<open>The first half of a stop: the tunnel id that the unregister request names.\<close>

definition UnregisterTunnel_send :: "bool \<Rightarrow> string \<Rightarrow> CoreClient \<Rightarrow> (string + (64 word \<times> string)) \<times> CoreClient" where
  "UnregisterTunnel_send wr name c =
     (if \<not> cc_conn c then (Inl ''clientcore: not connected'', c)
      else case cc_tun c of None \<Rightarrow> (Inl ''clientcore: tunnel client not initialized'', c)
      | Some tc \<Rightarrow>
          (case FindByName name tc of None \<Rightarrow> (Inl (''tunnel '' @ name @ '' not running''), c)
           | Some (_, tid) \<Rightarrow>
               (case rpcSpec wr empty_spec c of (Inl e, c1) \<Rightarrow> (Inl e, c1) | (Inr sq, c1) \<Rightarrow> (Inr (sq, tid), c1))))"

definition UnregisterTunnel_reply :: "string \<Rightarrow> register_tunnel_resp option \<Rightarrow> CoreClient \<Rightarrow> string option \<times> CoreClient" where
  "UnregisterTunnel_reply tid arg c =
     (case arg of None \<Rightarrow> (Some ''bad reply'', c)
      | Some rr \<Rightarrow>
          (if \<not> rr_OK rr then (Some ''stop rejected'', c)
           else (None, c\<lparr>cc_tun := map_option (UnregisterLocal tid) (cc_tun c)\<rparr>)))"

definition TunnelList :: "CoreClient \<Rightarrow> LocalTunnel list" where
  "TunnelList c = (case cc_tun c of None \<Rightarrow> [] | Some tc \<Rightarrow> LocalSnapshot tc)"

text \<open>Frames of the server; a payload that does not decode is \<open>None\<close>.\<close>

datatype cl_frame =
    FPong bool
  | FError "proto_error option"
  | FPolicyUpdate "policy option"
  | FOpen "open_connection option"
  | FRegResp "64 word" "register_tunnel_resp option"
  | FShutdown
  | FOther

definition spec_tunnel :: "string \<Rightarrow> TunnelSpec \<Rightarrow> LocalTunnel" where
  "spec_tunnel tid spec =
     \<lparr>lc_ID = tid, lc_Name = sp_Name spec, lc_Type = sp_Type spec, lc_RemotePort = sp_RemotePort spec,
      lc_LocalIP = sp_LocalIP spec, lc_LocalPort = sp_LocalPort spec\<rparr>"

text \<open>
  One frame in the read loop: the error with which the loop ends, if it does, and the connection the
  frame asks to open.
\<close>

fun readLoop_frame :: "cl_frame \<Rightarrow> CoreClient \<Rightarrow> cl_error option \<times> open_connection option \<times> CoreClient" where
  "readLoop_frame (FPong ok) c = (None, None, if ok then c\<lparr>cc_missed := 0\<rparr> else c)"
| "readLoop_frame (FError e) c =
     (case e of Some pe \<Rightarrow> if Fatal pe then (Some (Leaf (''server fatal error: '' @ Code pe @ '': '' @ Message pe)), None, c) else (None, None, c)
      | None \<Rightarrow> (None, None, c))"
| "readLoop_frame (FPolicyUpdate p) c = (None, None, case p of Some pol \<Rightarrow> c\<lparr>cc_Policy := pol\<rparr> | None \<Rightarrow> c)"
| "readLoop_frame (FOpen oc) c = (None, oc, c)"
| "readLoop_frame (FRegResp sq arg) c =
     (case takePending sq c of
        (None, c1) \<Rightarrow> (None, None, c1)
      | (Some spec, c1) \<Rightarrow>
          (None, None,
           if sp_Name spec \<noteq> ''''
           then (case arg of Some rr \<Rightarrow> if rr_OK rr then c1\<lparr>cc_tun := map_option (RegisterLocal (spec_tunnel (rr_TunnelID rr) spec)) (cc_tun c1)\<rparr> else c1
                 | None \<Rightarrow> c1)
           else c1))"
| "readLoop_frame FShutdown c = (Some ErrGracefulShutdown, None, c)"
| "readLoop_frame FOther c = (None, None, c)"

text \<open>
  The events of the session's loop: the context is cancelled, a frame arrives, reading fails, the
  heartbeat timer fires (with whether the ping could be written), or a request is sent, times out, or a stop is acknowledged.
\<close>

datatype sess_ev =
    EvDone
  | EvFrame cl_frame
  | EvReadFails string
  | EvTick bool
  | EvRegister bool TunnelSpec
  | EvCancel "64 word"
  | EvStopped string "register_tunnel_resp option"

definition hb_tick :: "bool \<Rightarrow> CoreClient \<Rightarrow> cl_error option \<times> CoreClient" where
  "hb_tick wr c =
     (if \<not> wr then (Some (Wrap ''clientcore: ping failed'' (Leaf ''write failed'')), snd (cc_nextSeq c))
      else let c1 = (snd (cc_nextSeq c))\<lparr>cc_missed := cc_missed c + 1\<rparr>
           in if MissThreshold (cc_Heartbeat c1) < cc_missed c1
              then (Some (Leaf (''clientcore: heartbeat missed '' @ Itoa (cc_missed c1) @ '' times'')), c1)
              else (None, c1))"

text \<open>\<open>Some r\<close>: the session returned \<open>r\<close>.\<close>

definition session_step :: "sess_ev \<Rightarrow> CoreClient \<Rightarrow> cl_error option option \<times> CoreClient" where
  "session_step ev c =
     (case ev of
        EvDone \<Rightarrow> (Some None, snd (cc_nextSeq c))
      | EvFrame fr \<Rightarrow>
          (case readLoop_frame fr c of
             (Some e, _, c1) \<Rightarrow> (Some (Some (Wrap ''clientcore: control connection lost'' e)), c1)
           | (None, _, c1) \<Rightarrow> (None, c1))
      | EvReadFails m \<Rightarrow> (Some (Some (Wrap ''clientcore: control connection lost'' (Leaf m))), c)
      | EvTick wr \<Rightarrow> (case hb_tick wr c of (Some e, c1) \<Rightarrow> (Some (Some e), c1) | (None, c1) \<Rightarrow> (None, c1))
      | EvRegister wr t \<Rightarrow> (None, snd (RegisterTunnel wr t c))
      | EvCancel sq \<Rightarrow> (None, rpc_cancel sq c)
      | EvStopped tid rr \<Rightarrow> (None, snd (UnregisterTunnel_reply tid rr c)))"

fun session_loop :: "sess_ev list \<Rightarrow> CoreClient \<Rightarrow> cl_error option option \<times> CoreClient" where
  "session_loop [] c = (None, c)"
| "session_loop (ev # evs) c =
     (case session_step ev c of (Some r, c1) \<Rightarrow> (Some r, c1) | (None, c1) \<Rightarrow> session_loop evs c1)"

text \<open>The tunnels for which the session requests a registration, one after the other; a failed one is only logged.\<close>

definition registerConfiguredTunnels :: "CoreClient \<Rightarrow> TunnelSpec list option" where
  "registerConfiguredTunnels c = (case cc_tun c of None \<Rightarrow> None | Some _ \<Rightarrow> Some (filter sp_Enabled (cc_Tunnels c)))"

text \<open>The deferred clean-up: the data connections are closed once in the life of the client.\<close>

definition runSession_exit :: "CoreClient \<Rightarrow> nat list \<times> CoreClient" where
  "runSession_exit c =
     (if cc_closedOnce c then ([], c)
      else case cc_tun c of None \<Rightarrow> ([], c\<lparr>cc_closedOnce := True\<rparr>)
      | Some tc \<Rightarrow>
          (let (conns, tc') = CloseAllDataConns tc in (conns, c\<lparr>cc_tun := Some tc', cc_closedOnce := True\<rparr>)))"

section \<open>Backoff\<close>

lemma backoff_base_closed:
  "0 < base \<Longrightarrow> base \<le> mx \<Longrightarrow> mx \<le> 2 ^ 62 \<Longrightarrow> backoff_base n mx base = min (base * 2 ^ n) mx"
proof (induction n arbitrary: base)
  case (Suc n)
  show ?case
  proof (cases "base < mx")
    case True
    have w: "wrap64 (base * 2) = base * 2" using Suc.prems True by (intro wrap64_id) auto
    show ?thesis
    proof (cases "mx < base * 2")
      case True
      have "mx < base * 2 ^ Suc n"
      proof -
        have "base * 2 * 1 \<le> base * 2 * 2 ^ n" using Suc.prems by (intro mult_left_mono) auto
        then show ?thesis using True by (simp add: algebra_simps)
      qed
      then have "min (base * 2 ^ Suc n) mx = mx" by (intro min_absorb2) simp
      moreover have "min (mx * 2 ^ n) mx = mx" using Suc.prems by (intro min_absorb2) (simp add: mult_le_cancel_left1)
      ultimately show ?thesis
        using Suc.IH [of mx] Suc.prems True \<open>base < mx\<close> w by simp
    next
      case False
      then show ?thesis
        using Suc.IH [of "base * 2"] Suc.prems \<open>base < mx\<close> w by (simp add: algebra_simps)
    qed
  next
    case False
    then have "base = mx" using Suc.prems by simp
    moreover have "mx \<le> mx * 2 ^ Suc n" using Suc.prems one_le_power [of "2 :: int" "Suc n"] by (simp only: mult_le_cancel_left1) simp
    then have "min (mx * 2 ^ Suc n) mx = mx" by (rule min_absorb2)
    ultimately show ?thesis by simp
  qed
qed (simp add: min_def)

lemma clamp_between:
  fixes x m M b :: int and lo hi :: rat
  assumes "lo \<le> of_int x" "of_int x \<le> hi" "lo \<le> of_int b" "of_int b \<le> hi" "m \<le> b" "b \<le> M"
  shows "m \<le> min (max m x) M \<and> min (max m x) M \<le> M \<and> lo \<le> of_int (min (max m x) M) \<and> of_int (min (max m x) M) \<le> hi"
proof -
  have "rat_of_int m \<le> rat_of_int b" "rat_of_int b \<le> rat_of_int M" using assms(5,6) by simp_all
  then show ?thesis using assms by (auto simp: min_def max_def)
qed

text \<open>
  The delay before the next attempt is the initial delay doubled with every attempt, up to the
  maximum, give or take the jitter; it is never below a millisecond and never above the maximum.
\<close>
theorem backoffFor_bounds:
  assumes B: "millisecond \<le> Initial B" "Initial B \<le> Max B" "Max B \<le> 10 * minute" "0 < Jitter B" "Jitter B \<le> 1"
    and f: "0 \<le> f" "f < 1" and n: "1 \<le> n"
    and base: "base = min (Initial B * 2 ^ (n - 1)) (Max B)"
  shows "millisecond \<le> backoffFor B f down n \<and> backoffFor B f down n \<le> Max B \<and>
     rat_of_int base * (1 - Jitter B) \<le> rat_of_int (backoffFor B f down n) \<and>
     rat_of_int (backoffFor B f down n) \<le> rat_of_int base * (1 + Jitter B)"
proof -
  have bb: "backoff_base (n - 1) (Max B) (Initial B) = base"
    using backoff_base_closed [of "Initial B" "Max B" "n - 1"] B base by simp
  have up: "Initial B \<le> Initial B * 2 ^ (n - 1)" using B by (simp add: mult_le_cancel_left1)
  have "millisecond \<le> base" unfolding base using up B by (intro min.boundedI) linarith+
  moreover have "base \<le> Max B" by (simp add: base)
  ultimately have b: "millisecond \<le> base" "base \<le> Max B" .
  define delta where "delta = \<lfloor>rat_of_int base * Jitter B * f\<rfloor>"
  have b0: "0 \<le> rat_of_int base * Jitter B" using b B by simp
  then have "0 \<le> rat_of_int base * Jitter B * f" using f by simp
  then have d0: "0 \<le> delta" by (simp add: delta_def)
  have "rat_of_int base * Jitter B * f \<le> rat_of_int base * Jitter B * 1" using b0 f by (intro mult_left_mono) auto
  then have d1: "rat_of_int delta \<le> rat_of_int base * Jitter B"
    unfolding delta_def by (metis mult.right_neutral of_int_floor_le order_trans)
  define x where "x = (if down then base - delta else base + delta)"
  have val: "backoffFor B f down n = min (max millisecond x) (Max B)"
    using bb b B by (simp add: backoffFor_def Let_def delta_def x_def min_def max_def)
  have lo: "rat_of_int base * (1 - Jitter B) \<le> rat_of_int x" and hi: "rat_of_int x \<le> rat_of_int base * (1 + Jitter B)"
    using d0 d1 b0 by (auto simp: x_def algebra_simps)
  have "rat_of_int base * (1 - Jitter B) \<le> rat_of_int base" "rat_of_int base \<le> rat_of_int base * (1 + Jitter B)"
    using b0 by (simp_all add: algebra_simps)
  with clamp_between [OF lo hi _ _ b] show ?thesis unfolding val by simp
qed

theorem backoffFor_bounds_witness: "millisecond \<le> backoffFor DefaultBackoff (1 / 2) True 4 \<and> backoffFor DefaultBackoff (1 / 2) True 4 \<le> 60 * second"
  using backoffFor_bounds [of DefaultBackoff "1 / 2" 4 _ True] by (simp add: DefaultBackoff_def)

section \<open>Reconnecting\<close>

definition retryable :: "(string \<Rightarrow> string) \<Rightarrow> round \<Rightarrow> bool" where
  "retryable ucase r \<longleftrightarrow> \<not> ro_stop r \<and> \<not> ro_stopWait r \<and>
     (case Classify ucase (ro_session r) of None \<Rightarrow> False | Some e \<Rightarrow> \<not> is_graceful e \<and> \<not> IsPermanent e)"

lemma mgr_loop_retries:
  "list_all (retryable ucase) pre \<Longrightarrow>
     tr_result (mgr_loop ucase B n (pre @ rs)) = tr_result (mgr_loop ucase B (n + length pre) rs) \<and>
     tr_states (mgr_loop ucase B n (pre @ rs)) =
       concat (replicate (length pre) [StateConnecting, StateDisconnected]) @ tr_states (mgr_loop ucase B (n + length pre) rs) \<and>
     length (tr_delays (mgr_loop ucase B n (pre @ rs))) = length pre + length (tr_delays (mgr_loop ucase B (n + length pre) rs))"
proof (induction pre arbitrary: n)
  case (Cons r pre)
  then obtain e where "\<not> ro_stop r" "\<not> ro_stopWait r" "Classify ucase (ro_session r) = Some e" "\<not> is_graceful e" "\<not> IsPermanent e"
    by (auto simp: retryable_def split: option.splits)
  then show ?case using Cons.IH [of "n + 1"] Cons.prems by (simp add: Let_def)
qed simp

text \<open>
  C30: The manager retries as long as it should and no longer: while sessions end with temporary errors
  it goes on, one delay after each; the first session that ends with a permanent error makes it return
  exactly that error, without a further attempt; it never reports the states online or draining.
\<close>
theorem manager_retries:
  assumes "list_all (retryable ucase) pre"
    and "ro_stop x = False" and "Classify ucase (ro_session x) = Some e" and "IsPermanent e" and "\<not> is_graceful e"
  shows "tr_result (mgr_Run ucase B pre) = None \<and> length (tr_delays (mgr_Run ucase B pre)) = length pre \<and>
     tr_result (mgr_Run ucase B (pre @ x # post)) = Some (Some e) \<and> length (tr_delays (mgr_Run ucase B (pre @ x # post))) = length pre \<and>
     tr_states (mgr_Run ucase B (pre @ x # post)) =
       concat (replicate (length pre) [StateConnecting, StateDisconnected]) @ [StateConnecting, StateStopped]"
  using mgr_loop_retries [OF assms(1), of _ 0 "[]"] mgr_loop_retries [OF assms(1), of _ 0 "x # post"] assms(2-)
  by (simp add: mgr_Run_def)

lemma classify_samples:
  "Classify id (Some (Leaf ''read tcp: EOF'')) = Some (ErrTemporary (Leaf ''read tcp: EOF''))"
  "Classify id (Some (Leaf ''clientcore: server rejected: no'')) = Some (ErrPermanent (Leaf ''clientcore: server rejected: no''))"
  by code_simp+

theorem manager_retries_witness:
  "tr_result (mgr_Run id DefaultBackoff
     ([\<lparr>ro_stop = False, ro_session = Some (Leaf ''read tcp: EOF''), ro_rand = (0, True), ro_stopWait = False\<rparr>] @
      [\<lparr>ro_stop = False, ro_session = Some (Leaf ''clientcore: server rejected: no''), ro_rand = (0, True), ro_stopWait = False\<rparr>]))
   = Some (Some (ErrPermanent (Leaf ''clientcore: server rejected: no'')))"
proof -
  let ?a = "\<lparr>ro_stop = False, ro_session = Some (Leaf ''read tcp: EOF''), ro_rand = (0, True), ro_stopWait = False\<rparr>"
  let ?b = "\<lparr>ro_stop = False, ro_session = Some (Leaf ''clientcore: server rejected: no''), ro_rand = (0, True), ro_stopWait = False\<rparr>"
  have "list_all (retryable id) [?a]" by (simp add: retryable_def classify_samples)
  from manager_retries [OF this, of ?b _ DefaultBackoff "[]"] show ?thesis by (simp add: classify_samples)
qed


section \<open>Heartbeats\<close>

lemma cc_nextSeq_simps [simp]:
  "cc_missed (snd (cc_nextSeq c)) = cc_missed c" "cc_Heartbeat (snd (cc_nextSeq c)) = cc_Heartbeat c"
  "cc_pending (snd (cc_nextSeq c)) = cc_pending c" "cc_tun (snd (cc_nextSeq c)) = cc_tun c"
  by (simp_all add: cc_nextSeq_def)

lemma rpcSpec_hb:
  "cc_missed (snd (rpcSpec wr t c)) = cc_missed c \<and> cc_Heartbeat (snd (rpcSpec wr t c)) = cc_Heartbeat c \<and>
   cc_tun (snd (rpcSpec wr t c)) = cc_tun c"
  by (simp add: rpcSpec_def cc_nextSeq_def takePending_def Let_def)

lemma RegisterTunnel_hb:
  "cc_missed (snd (RegisterTunnel wr t c)) = cc_missed c \<and> cc_Heartbeat (snd (RegisterTunnel wr t c)) = cc_Heartbeat c"
  using rpcSpec_hb [of wr t c] by (auto simp: RegisterTunnel_def split: option.split prod.split sum.split)

lemma hb_tick_missed:
  "hb_tick wr c = (None, c1) \<Longrightarrow> cc_missed c1 = cc_missed c + 1 \<and> cc_Heartbeat c1 = cc_Heartbeat c"
  by (auto simp: hb_tick_def Let_def split: if_splits)

text \<open>An event other than a pong leaves the counter or adds to it.\<close>

lemma session_step_missed:
  assumes "session_step ev c = (None, c1)" and "ev \<noteq> EvFrame (FPong True)"
  shows "cc_missed c \<le> cc_missed c1 \<and> cc_Heartbeat c1 = cc_Heartbeat c"
proof (cases ev)
  case (EvFrame fr)
  then show ?thesis
    using assms by (cases fr) (auto simp: session_step_def takePending_def split: option.splits if_splits)
next
  case (EvTick wr)
  then show ?thesis
    using assms hb_tick_missed by (auto simp: session_step_def split: option.splits prod.splits)
next
  case (EvRegister wr t)
  then show ?thesis using assms RegisterTunnel_hb [of wr t c] by (simp add: session_step_def)
next
  case (EvStopped tid rr)
  then show ?thesis using assms by (auto simp: session_step_def UnregisterTunnel_reply_def split: option.splits if_splits)
qed (use assms in \<open>auto simp: session_step_def rpc_cancel_def takePending_def\<close>)

lemma session_loop_missed:
  "session_loop evs c = (None, c1) \<Longrightarrow> EvFrame (FPong True) \<notin> set evs \<Longrightarrow>
     cc_missed c \<le> cc_missed c1 \<and> cc_Heartbeat c1 = cc_Heartbeat c"
proof (induction evs arbitrary: c)
  case (Cons ev evs)
  obtain c2 where step: "session_step ev c = (None, c2)" "session_loop evs c2 = (None, c1)"
    using Cons.prems by (auto split: prod.splits option.splits)
  then show ?case using session_step_missed [OF step(1)] Cons.IH [OF step(2)] Cons.prems(2) by fastforce
qed simp

lemma session_exit_missed: "cc_missed (snd (runSession_exit c)) = cc_missed c"
  by (auto simp: runSession_exit_def split: option.split prod.split)

lemma session_start_missed:
  "runSession_start ucase dial send reply c = (None, c1) \<Longrightarrow> cc_missed c1 = cc_missed c"
  by (auto simp: runSession_start_def Let_def setupTunnels_def Classify_def
      split: option.splits hello_reply.splits if_splits prod.splits)

text \<open>
  A client that lost a session to missed heartbeats never keeps one again: the counter of missed
  heartbeats is not reset when a new session starts, so under the same threshold the new session fails
  at its first tick, right after its first ping and before any answer to it can arrive.
\<close>
theorem missed_heartbeats_stick:
  assumes lost: "hb_tick True c = (Some e, c1)"
    and restart: "runSession_start ucase dial send reply (snd (runSession_exit c1)) = (None, c2)"
    and same: "cc_Heartbeat c2 = cc_Heartbeat c"
    and quiet: "session_loop evs c2 = (None, c3)" "EvFrame (FPong True) \<notin> set evs"
  shows "\<exists>m c4. session_loop (evs @ [EvTick True]) c2 = (Some (Some (Leaf (''clientcore: heartbeat missed '' @ m @ '' times''))), c4)"
proof -
  have "MissThreshold (cc_Heartbeat c) < cc_missed c1"
    using lost by (auto simp: hb_tick_def Let_def split: if_splits)
  then have over: "MissThreshold (cc_Heartbeat c3) < cc_missed c3 + 1"
    using session_start_missed [OF restart] session_exit_missed [of c1] session_loop_missed [OF quiet] same by simp
  have tick: "session_step (EvTick True) c3 =
      (Some (Some (Leaf (''clientcore: heartbeat missed '' @ Itoa (cc_missed c3 + 1) @ '' times''))), (snd (cc_nextSeq c3))\<lparr>cc_missed := cc_missed c3 + 1\<rparr>)"
    using over by (simp add: session_step_def hb_tick_def Let_def)
  have "session_loop evs c2 = (None, c3) \<Longrightarrow> session_loop (evs @ [EvTick True]) c2 = session_loop [EvTick True] c3" for c2
    by (induction evs arbitrary: c2) (auto split: prod.splits option.splits)
  then show ?thesis using quiet(1) tick by auto
qed

definition idle_client :: CoreClient where
  "idle_client = \<lparr>cc_ServerAddr = ''srv:7000'', cc_ClientID = '''', cc_Name = '''', cc_Note = '''', cc_Tunnels = [],
     cc_Heartbeat = \<lparr>IntervalS = 15, TimeoutS = 10, MissThreshold = 3\<rparr>,
     cc_Policy = \<lparr>AllowedPorts = [], MaxTunnels = 1, MaxConns = 1, MaxConnsTunnel = 0, BandwidthBPS = 0, BandwidthTunnelBPS = 0,
        UDP = \<lparr>MaxSessions = 0, MaxPacket = 0, SessionIdleTimeout = ''''\<rparr>, AllowedTargets = []\<rparr>,
     cc_tun = None, cc_seq = 0, cc_missed = 3, cc_pending = [], cc_conn = True, cc_closedOnce = False\<rparr>"

definition idle_hello :: server_hello where
  "idle_hello = \<lparr>sh_SessionID = ''s'', sh_Policy = cc_Policy idle_client, sh_Heartbeat = cc_Heartbeat idle_client\<rparr>"

theorem missed_heartbeats_stick_witness:
  "\<exists>c2 m c4. runSession_start id None None (HrHello idle_hello) (snd (runSession_exit (snd (hb_tick True idle_client)))) = (None, c2) \<and>
     session_loop ([] @ [EvTick True]) c2 = (Some (Some (Leaf (''clientcore: heartbeat missed '' @ m @ '' times''))), c4)"
proof -
  let ?c1 = "snd (hb_tick True idle_client)"
  let ?s = "runSession_start id None None (HrHello idle_hello) (snd (runSession_exit ?c1))"
  have lost: "hb_tick True idle_client = (Some (Leaf ''clientcore: heartbeat missed 4 times''), ?c1)"
    by code_simp
  have "fst ?s = None" by code_simp
  then have restart: "?s = (None, snd ?s)" by (metis prod.collapse)
  have same: "cc_Heartbeat (snd ?s) = cc_Heartbeat idle_client" by code_simp
  have quiet: "session_loop [] (snd ?s) = (None, snd ?s)" by simp
  from missed_heartbeats_stick [OF lost restart same quiet] restart show ?thesis by auto
qed

section \<open>Requests and replies\<close>

text \<open>Events that concern no request, or only the reply to one with another number.\<close>

fun leaves :: "64 word \<Rightarrow> sess_ev \<Rightarrow> bool" where
  "leaves sq (EvFrame (FRegResp sq' rr)) = (sq' \<noteq> sq)"
| "leaves sq (EvCancel sq') = (sq' \<noteq> sq)"
| "leaves sq (EvRegister wr t) = False"
| "leaves sq _ = True"

lemma session_step_leaves:
  assumes "session_step ev c = (None, c1)" and "leaves sq ev"
  shows "mget (cc_pending c1) sq = mget (cc_pending c) sq \<and> (cc_tun c1 = None \<longleftrightarrow> cc_tun c = None)"
proof (cases ev)
  case (EvFrame fr)
  then show ?thesis
    using assms by (cases fr) (auto simp: session_step_def takePending_def split: option.splits if_splits)
next
  case (EvTick wr)
  then show ?thesis
    using assms by (auto simp: session_step_def hb_tick_def Let_def split: option.splits prod.splits if_splits)
next
  case (EvStopped tid rr)
  then show ?thesis using assms by (auto simp: session_step_def UnregisterTunnel_reply_def split: option.splits if_splits)
qed (use assms in \<open>auto simp: session_step_def rpc_cancel_def takePending_def\<close>)

lemma session_loop_leaves:
  "session_loop evs c = (None, c1) \<Longrightarrow> list_all (leaves sq) evs \<Longrightarrow>
     mget (cc_pending c1) sq = mget (cc_pending c) sq \<and> (cc_tun c1 = None \<longleftrightarrow> cc_tun c = None)"
proof (induction evs arbitrary: c)
  case (Cons ev evs)
  obtain c2 where step: "session_step ev c = (None, c2)" "session_loop evs c2 = (None, c1)"
    using Cons.prems by (auto split: prod.splits option.splits)
  then show ?case using session_step_leaves [OF step(1), of sq] Cons.IH [OF step(2)] Cons.prems(2) by simp
qed simp

lemma RegisterTunnel_pending:
  assumes "RegisterTunnel wr t c = (Inr (sq, req), c1)"
  shows "mget (cc_pending c1) sq = Some t \<and> cc_tun c1 \<noteq> None \<and> cc_tun c1 = cc_tun c \<and> req = spec_request t"
  using assms by (auto simp: RegisterTunnel_def rpcSpec_def cc_nextSeq_def Let_def split: option.splits if_splits)

text \<open>
  C29: A tunnel is known before it is used: after a registration request was sent, and whatever other
  frames came in between, the frame with the server's acceptance makes the tunnel known under the
  server's id with the local address of the request, so that an open request in the very next frame is
  not refused as unknown.
\<close>
theorem registered_before_open:
  assumes send: "RegisterTunnel wr t c = (Inr (sq, req), c1)" and "sp_Name t \<noteq> ''''"
    and between: "session_loop evs c1 = (None, c2)" "list_all (leaves sq) evs"
    and reply: "session_step (EvFrame (FRegResp sq (Some rr))) c2 = (None, c3)" "rr_OK rr"
    and oc: "oc_TunnelID oc = rr_TunnelID rr"
  shows "\<exists>tc. cc_tun c3 = Some tc \<and> cl_Get (oc_TunnelID oc) tc = Some (spec_tunnel (rr_TunnelID rr) t) \<and>
     (\<forall>E. fst (HandleOpenConnection E oc tc) \<noteq> Inl (UnknownTunnel (oc_TunnelID oc)))"
proof -
  have p: "mget (cc_pending c2) sq = Some t" "cc_tun c2 \<noteq> None"
    using session_loop_leaves [OF between] RegisterTunnel_pending [OF send] by auto
  then obtain tc where tc: "cc_tun c2 = Some tc" by auto
  have c3: "cc_tun c3 = Some (RegisterLocal (spec_tunnel (rr_TunnelID rr) t) tc)"
    using reply p(1) tc assms(2) by (auto simp: session_step_def takePending_def)
  let ?tc = "RegisterLocal (spec_tunnel (rr_TunnelID rr) t) tc"
  have get: "cl_Get (oc_TunnelID oc) ?tc = Some (spec_tunnel (rr_TunnelID rr) t)"
    by (simp add: cl_Get_def RegisterLocal_def spec_tunnel_def oc)
  have "fst (HandleOpenConnection E oc ?tc) \<noteq> Inl (UnknownTunnel (oc_TunnelID oc))" for E
    using get by (auto simp: HandleOpenConnection_def HandleUDPOpenConnection_def openTCP_def checkACL_def Let_def split: option.splits)
  then show ?thesis using c3 get by blast
qed

definition web_spec :: TunnelSpec where
  "web_spec = \<lparr>sp_Name = ''web'', sp_Type = ''tcp'', sp_RemotePort = 8080, sp_LocalIP = ''10.0.0.1'', sp_LocalPort = 80, sp_HTTPHost = '''', sp_Enabled = True\<rparr>"

theorem registered_before_open_witness:
  "\<exists>sq req c1 c3 tc. RegisterTunnel True web_spec (idle_client\<lparr>cc_tun := Some \<lparr>cl_ServerAddr = '''', cl_rules = [], cl_tunnels = [], cl_dataConns = []\<rparr>\<rparr>) = (Inr (sq, req), c1) \<and>
     session_step (EvFrame (FRegResp sq (Some \<lparr>rr_TunnelID = ''t_1'', rr_OK = True, rr_Error = None, rr_Effective = Some 8080\<rparr>))) c1 = (None, c3) \<and>
     cc_tun c3 = Some tc \<and> cl_Get ''t_1'' tc = Some (spec_tunnel ''t_1'' web_spec)"
proof -
  let ?c = "idle_client\<lparr>cc_tun := Some \<lparr>cl_ServerAddr = '''', cl_rules = [], cl_tunnels = [], cl_dataConns = []\<rparr>\<rparr>"
  let ?rr = "\<lparr>rr_TunnelID = ''t_1'', rr_OK = True, rr_Error = None, rr_Effective = Some 8080\<rparr>"
  obtain sq req c1 where send: "RegisterTunnel True web_spec ?c = (Inr (sq, req), c1)"
    by (simp add: RegisterTunnel_def rpcSpec_def cc_nextSeq_def idle_client_def FindByName_def Let_def)
  obtain c3 where reply: "session_step (EvFrame (FRegResp sq (Some ?rr))) c1 = (None, c3)"
    by (cases "mget (cc_pending c1) sq") (auto simp: session_step_def takePending_def)
  have "session_loop [] c1 = (None, c1)" by simp
  from registered_before_open [OF send _ this _ reply, of sample_open] send reply
  show ?thesis by (auto simp: web_spec_def sample_open_def)
qed


end
