(* ===== verification/ClientCommands.thy ===== *)
theory ClientCommands
  imports Enroll Keystore Resolve ClientCore
begin

text \<open>
  The commands of the client program (\<^verbatim>\<open>cmd/client/main.go\<close>, \<^verbatim>\<open>cmd/client/enroll.go\<close>) and the
  file writing of \<^verbatim>\<open>internal/enroll/client.go\<close>: creating a key and a signing request, enrolment,
  renewal, and what \<^verbatim>\<open>run\<close> loads before it starts the client core. The state is the device: its files
  and its key stores. Encoders, the key stores behind \<^verbatim>\<open>keystore.Store\<close> and the exchange with the
  server are arguments.
\<close>

section \<open>The device\<close>

text \<open>
  \<open>dv_writable\<close> tells where files can be created, the directories included; \<open>dv_home\<close> is the user's
  configuration directory and \<open>dv_host\<close> the host name, absent when the system does not know them.
\<close>

record 'k device =
  dv_files :: "(string, string) gomap"
  dv_keys :: 'k
  dv_home :: "string option"
  dv_host :: "string option"
  dv_writable :: "string \<Rightarrow> bool"

text \<open>Keys are handled as PEM text; a private key is identified by a number.\<close>

record 'k key_lib =
  kl_keyring :: bool
  kl_dir_ok :: "string \<Rightarrow> bool"
  kl_get :: "opened_store \<Rightarrow> string \<Rightarrow> string \<Rightarrow> 'k \<Rightarrow> ks_error + string"
  kl_set :: "opened_store \<Rightarrow> string \<Rightarrow> string \<Rightarrow> string \<Rightarrow> 'k \<Rightarrow> 'k \<times> ks_error option"
  kl_marshal :: "nat \<Rightarrow> string option"
  kl_parse :: "string \<Rightarrow> nat option"

record clientState =
  st_ClientID :: string
  st_ServerAddr :: string
  st_CAFingerprint :: string
  st_CertPath :: string
  st_ExpiresAt :: string

record state_json =
  sj_encode :: "clientState \<Rightarrow> string option"
  sj_decode :: "string \<Rightarrow> clientState option"

datatype cmd_error =
    NoToken
  | ReadCSR string
  | BadBackend
  | OpenStore
  | ReadKey ks_error
  | StoreKey ks_error
  | ParseKey
  | MarshalKey
  | KeyGeneration
  | CSRFailed pki_error
  | InvalidServer string
  | ExchangeFailed enroll_client_error
  | MarshalState
  | WriteFile string
  | ReadState string
  | ParseState
  | ReadCA string
  | ReadCert string
  | BadCert pki_error
  | CertExpired

definition os_WriteFile :: "string \<Rightarrow> string \<Rightarrow> 'k device \<Rightarrow> cmd_error option \<times> 'k device" where
  "os_WriteFile path content d =
     (if path = '''' \<or> \<not> dv_writable d path then (Some (WriteFile path), d)
      else (None, d\<lparr>dv_files := mput path content (dv_files d)\<rparr>))"

definition user_dir :: "'k device \<Rightarrow> string" where
  "user_dir d = (case dv_home d of None \<Rightarrow> '''' | Some base \<Rightarrow> if base = '''' then '''' else base @ ''/'')"

definition defaultStatePath :: "'k device \<Rightarrow> string" where
  "defaultStatePath d = user_dir d @ ''qoqtun/state.json''"

definition defaultSecretsDir :: "'k device \<Rightarrow> string" where
  "defaultSecretsDir d = user_dir d @ ''qoqtun/secrets''"

definition hostname :: "'k device \<Rightarrow> string" where
  "hostname d = (case dv_host d of None \<Rightarrow> ''unnamed-device'' | Some h \<Rightarrow> if h = '''' then ''unnamed-device'' else h)"

text \<open>The text before and after the last colon.\<close>

definition splitServerAddr :: "string \<Rightarrow> (string \<times> string) option" where
  "splitServerAddr addr =
     (if CHR '':'' \<notin> set addr then None
      else Some (rev (tl (dropWhile (\<lambda>c. c \<noteq> CHR '':'') (rev addr))), rev (takeWhile (\<lambda>c. c \<noteq> CHR '':'') (rev addr))))"

definition loadClientState :: "state_json \<Rightarrow> string \<Rightarrow> 'k device \<Rightarrow> cmd_error + clientState" where
  "loadClientState J path d =
     (case mget (dv_files d) path of None \<Rightarrow> Inl (ReadState path)
      | Some content \<Rightarrow> (case sj_decode J content of None \<Rightarrow> Inl ParseState | Some st \<Rightarrow> Inr st))"

definition open_store :: "'k key_lib \<Rightarrow> string \<Rightarrow> BackendPref \<Rightarrow> opened_store" where
  "open_store K dir pref = fst (OpenWithPref (kl_keyring K) (kl_dir_ok K dir) pref)"

definition loadClientKey :: "'k key_lib \<Rightarrow> string \<Rightarrow> BackendPref \<Rightarrow> 'k device \<Rightarrow> cmd_error + string" where
  "loadClientKey K secretsDir pref d =
     (let dir = (if secretsDir = '''' then defaultSecretsDir d else secretsDir);
          store = open_store K dir pref
      in if store = OpenError then Inl OpenStore
         else case kl_get K store dir ''client-key'' (dv_keys d) of Inl e \<Rightarrow> Inl (ReadKey e) | Inr pem \<Rightarrow> Inr pem)"

text \<open>\<open>rd\<close> is the outcome of reading the file of the flag, \<^const>\<open>None\<close> without one.\<close>

definition loadClientConfig ::
  "(string \<Rightarrow> string) \<Rightarrow> float_lib \<Rightarrow> toml_lib \<Rightarrow> bytes option option \<Rightarrow> (string \<Rightarrow> string) \<Rightarrow> resolve_error + ClientConfig" where
  "loadClientConfig ucase F T rd env =
     (case (case rd of None \<Rightarrow> Inr [] | Some content \<Rightarrow> LoadClientOverlays T content) of Inl e \<Rightarrow> Inl e
      | Inr fileOvs \<Rightarrow> ResolveClient ucase F DefaultClientConfig fileOvs [] env)"

section \<open>A key and a signing request (cert init)\<close>

text \<open>\<open>kp\<close> and \<open>rnd\<close> are the outcomes of key generation and of the random bytes of the id.\<close>

definition runCertInit ::
  "'k key_lib \<Rightarrow> x509_lib \<Rightarrow> nat option \<Rightarrow> bytes option \<Rightarrow> string \<Rightarrow> string \<Rightarrow> string \<Rightarrow> BackendPref \<Rightarrow> 'k device
   \<Rightarrow> (cmd_error + string) \<times> 'k device" where
  "runCertInit K X kp rnd name csrOut secretsDir pref d =
     (case kp of None \<Rightarrow> (Inl KeyGeneration, d)
      | Some key \<Rightarrow>
     (case Pki.ClientID rnd of None \<Rightarrow> (Inl KeyGeneration, d)
      | Some cid \<Rightarrow>
     (case kl_marshal K key of None \<Rightarrow> (Inl MarshalKey, d)
      | Some keyPEM \<Rightarrow>
          (let nm = (if name = '''' then hostname d else name);
               dir = (if secretsDir = '''' then defaultSecretsDir d else secretsDir);
               store = open_store K dir pref
           in if store = OpenError then (Inl OpenStore, d)
              else case kl_set K store dir ''client-key'' keyPEM (dv_keys d) of
                     (ks, Some e) \<Rightarrow> (Inl (StoreKey e), d\<lparr>dv_keys := ks\<rparr>)
                   | (ks, None) \<Rightarrow>
                       (let d1 = d\<lparr>dv_keys := ks\<rparr>
                        in case CreateCSR X key cid nm of Inl e \<Rightarrow> (Inl (CSRFailed e), d1)
                           | Inr csr \<Rightarrow>
                               (case os_WriteFile csrOut csr d1 of (Some e, d2) \<Rightarrow> (Inl e, d2) | (None, d2) \<Rightarrow> (Inr cid, d2)))))))"

section \<open>Enrolment and renewal\<close>

text \<open>\<^verbatim>\<open>Result.Save\<close>: the certificate, the CA's certificate and the state, in this order.\<close>

definition res_Save :: "state_json \<Rightarrow> EnrollResult \<Rightarrow> string \<Rightarrow> string \<Rightarrow> string \<Rightarrow> clientState \<Rightarrow> 'k device \<Rightarrow> cmd_error option \<times> 'k device" where
  "res_Save J res certPath caPath statePath st d =
     (case os_WriteFile certPath (er_ClientCertPEM res) d of (Some e, d1) \<Rightarrow> (Some e, d1)
      | (None, d1) \<Rightarrow>
          (case os_WriteFile caPath (er_CACertPEM res) d1 of (Some e, d2) \<Rightarrow> (Some e, d2)
           | (None, d2) \<Rightarrow>
               (case sj_encode J st of None \<Rightarrow> (Some MarshalState, d2)
                | Some content \<Rightarrow> os_WriteFile statePath (content @ [CHR 0x0A]) d2)))"

record enroll_flags =
  ef_token :: string
  ef_server :: string
  ef_csr :: string
  ef_caFingerprint :: string
  ef_certOut :: string
  ef_caOut :: string
  ef_stateOut :: string
  ef_secretsDir :: string
  ef_backend :: string

definition default_flags :: enroll_flags where
  "default_flags = \<lparr>ef_token = '''', ef_server = '''', ef_csr = ''client.csr'', ef_caFingerprint = '''', ef_certOut = ''client.crt'',
     ef_caOut = ''ca.crt'', ef_stateOut = '''', ef_secretsDir = '''', ef_backend = ''auto''\<rparr>"

text \<open>
  \<open>stdin\<close> is the token read from the terminal when the flag is empty, \<open>exchange\<close> the call of
  \<^verbatim>\<open>enroll.Client.Enroll\<close> with these options at this address, \<open>meta\<close> describes the platform.
\<close>

definition enroll_cmd ::
  "'k key_lib \<Rightarrow> state_json \<Rightarrow> (instant \<Rightarrow> string) \<Rightarrow> Meta \<Rightarrow> string option \<Rightarrow>
   (string \<Rightarrow> enroll_options \<Rightarrow> enroll_client_error + EnrollResult) \<Rightarrow> enroll_flags \<Rightarrow> 'k device \<Rightarrow> (cmd_error + clientState) \<times> 'k device" where
  "enroll_cmd K J rfc3339 meta stdin exchange fl d =
     (case (if ef_token fl = '''' then stdin else Some (ef_token fl)) of None \<Rightarrow> (Inl NoToken, d)
      | Some token \<Rightarrow>
     (case mget (dv_files d) (ef_csr fl) of None \<Rightarrow> (Inl (ReadCSR (ef_csr fl)), d)
      | Some csr \<Rightarrow>
     (case ParseBackendPref (ef_backend fl) of None \<Rightarrow> (Inl BadBackend, d)
      | Some pref \<Rightarrow>
     (case loadClientKey K (ef_secretsDir fl) pref d of Inl e \<Rightarrow> (Inl e, d)
      | Inr keyPEM \<Rightarrow>
     (case kl_parse K keyPEM of None \<Rightarrow> (Inl ParseKey, d)
      | Some key \<Rightarrow>
     (case splitServerAddr (ef_server fl) of None \<Rightarrow> (Inl (InvalidServer (ef_server fl)), d)
      | Some _ \<Rightarrow>
     (case exchange (ef_server fl) \<lparr>eo_Token = token, eo_CSR = csr, eo_Meta = meta\<lparr>me_Name := hostname d\<rparr>,
               eo_CAFingerprint = ef_caFingerprint fl, eo_ClientCert = '''', eo_ClientKey = Some key\<rparr> of
        Inl e \<Rightarrow> (Inl (ExchangeFailed e), d)
      | Inr res \<Rightarrow>
          (let st = \<lparr>st_ClientID = er_ClientID res, st_ServerAddr = ef_server fl, st_CAFingerprint = er_CAFingerprint res,
                     st_CertPath = ef_certOut fl, st_ExpiresAt = rfc3339 (er_ExpiresAt res)\<rparr>
           in case res_Save J res (ef_certOut fl) (ef_caOut fl) (ef_stateOut fl) st d of
                (Some e, d1) \<Rightarrow> (Inl e, d1) | (None, d1) \<Rightarrow> (Inr st, d1)))))))))"

definition renew_cmd ::
  "'k key_lib \<Rightarrow> state_json \<Rightarrow> (instant \<Rightarrow> string) \<Rightarrow> (string \<Rightarrow> enroll_options \<Rightarrow> enroll_client_error + EnrollResult) \<Rightarrow>
   enroll_flags \<Rightarrow> string \<Rightarrow> 'k device \<Rightarrow> (cmd_error + clientState) \<times> 'k device" where
  "renew_cmd K J rfc3339 exchange fl state d =
     (let statePath = (if state = '''' then defaultStatePath d else state)
      in case loadClientState J statePath d of Inl e \<Rightarrow> (Inl e, d)
      | Inr st \<Rightarrow>
     (case mget (dv_files d) (ef_csr fl) of None \<Rightarrow> (Inl (ReadCSR (ef_csr fl)), d)
      | Some csr \<Rightarrow>
     (case ParseBackendPref (ef_backend fl) of None \<Rightarrow> (Inl BadBackend, d)
      | Some pref \<Rightarrow>
     (case loadClientKey K (ef_secretsDir fl) pref d of Inl e \<Rightarrow> (Inl e, d)
      | Inr keyPEM \<Rightarrow>
     (case kl_parse K keyPEM of None \<Rightarrow> (Inl ParseKey, d)
      | Some key \<Rightarrow>
     (case mget (dv_files d) (st_CertPath st) of None \<Rightarrow> (Inl (ReadCert (st_CertPath st)), d)
      | Some oldCert \<Rightarrow>
     (case exchange (if ef_server fl = '''' then st_ServerAddr st else ef_server fl)
             \<lparr>eo_Token = '''', eo_CSR = csr, eo_Meta = \<lparr>me_Name = '''', me_Note = '''', me_OS = '''', me_Arch = ''''\<rparr>,
              eo_CAFingerprint = st_CAFingerprint st, eo_ClientCert = oldCert, eo_ClientKey = Some key\<rparr> of
        Inl e \<Rightarrow> (Inl (ExchangeFailed e), d)
      | Inr res \<Rightarrow>
          (let st1 = st\<lparr>st_ExpiresAt := rfc3339 (er_ExpiresAt res)\<rparr>;
               certOut = (if ef_certOut fl = '''' then st_CertPath st else ef_certOut fl)
           in case res_Save J res certOut (ef_caOut fl) statePath st1 d of
                (Some e, d1) \<Rightarrow> (Inl e, d1) | (None, d1) \<Rightarrow> (Inr st1, d1)))))))))"

section \<open>Status and run\<close>

text \<open>\<open>cert status\<close>: the state, the remaining validity and whether a warning is printed.\<close>

definition cert_status :: "x509_lib \<Rightarrow> state_json \<Rightarrow> instant \<Rightarrow> string \<Rightarrow> 'k device \<Rightarrow> cmd_error + (clientState \<times> duration \<times> bool)" where
  "cert_status X J now state d =
     (case loadClientState J (if state = '''' then defaultStatePath d else state) d of Inl e \<Rightarrow> Inl e
      | Inr st \<Rightarrow>
     (case mget (dv_files d) (st_CertPath st) of None \<Rightarrow> Inl (ReadCert (st_CertPath st))
      | Some pem \<Rightarrow>
     (case ParseCertificate X pem of Inl e \<Rightarrow> Inl (BadCert e)
      | Inr cert \<Rightarrow> Inr (st, ExpiresIn now cert, IsExpired now cert))))"

definition tunnelsToSpecs :: "TunnelConfig list \<Rightarrow> TunnelSpec list" where
  "tunnelsToSpecs ts = map (\<lambda>t. \<lparr>sp_Name = tc_Name t, sp_Type = tc_Type t, sp_RemotePort = tc_RemotePort t, sp_LocalIP = tc_LocalIP t,
     sp_LocalPort = tc_LocalPort t, sp_HTTPHost = tc_HTTPHost t, sp_Enabled = tc_Enabled t\<rparr>) ts"

text \<open>What the client core is started with.\<close>

record client_setup =
  cs_ServerAddr :: string
  cs_CA :: certificate
  cs_Cert :: string
  cs_Key :: string
  cs_ClientID :: string
  cs_Name :: string
  cs_Tunnels :: "TunnelSpec list"

definition runClient ::
  "'k key_lib \<Rightarrow> x509_lib \<Rightarrow> state_json \<Rightarrow> instant \<Rightarrow> ClientConfig \<Rightarrow> string \<Rightarrow> string \<Rightarrow> string \<Rightarrow> BackendPref \<Rightarrow> string \<Rightarrow> 'k device
   \<Rightarrow> cmd_error + client_setup" where
  "runClient K X J now cfg statePath caPath secretsDir pref serverAddrFlag d =
     (case loadClientState J statePath d of Inl e \<Rightarrow> Inl e
      | Inr st \<Rightarrow>
     (case mget (dv_files d) caPath of None \<Rightarrow> Inl (ReadCA caPath)
      | Some caPEM \<Rightarrow>
     (case ParseCertificate X caPEM of Inl e \<Rightarrow> Inl (BadCert e)
      | Inr caCert \<Rightarrow>
     (case mget (dv_files d) (st_CertPath st) of None \<Rightarrow> Inl (ReadCert (st_CertPath st))
      | Some certPEM \<Rightarrow>
     (case loadClientKey K secretsDir pref d of Inl e \<Rightarrow> Inl e
      | Inr keyPEM \<Rightarrow>
     (case kl_parse K keyPEM of None \<Rightarrow> Inl ParseKey
      | Some _ \<Rightarrow>
     (case ParseCertificate X certPEM of Inl e \<Rightarrow> Inl (BadCert e)
      | Inr cert \<Rightarrow>
          (if IsExpired now cert then Inl CertExpired
           else Inr \<lparr>cs_ServerAddr = (if serverAddrFlag \<noteq> '''' then serverAddrFlag
                                      else if ServerAddr cfg \<noteq> '''' then ServerAddr cfg else st_ServerAddr st),
                     cs_CA = caCert, cs_Cert = certPEM, cs_Key = keyPEM, cs_ClientID = st_ClientID st, cs_Name = hostname d,
                     cs_Tunnels = tunnelsToSpecs (ClientConfig.cc_Tunnels cfg)\<rparr>))))))))"

text \<open>The flags of \<open>run\<close>: an empty state or CA path and an unknown backend are settled before.\<close>

definition run_cmd ::
  "'k key_lib \<Rightarrow> x509_lib \<Rightarrow> state_json \<Rightarrow> instant \<Rightarrow> ClientConfig \<Rightarrow> string \<Rightarrow> string \<Rightarrow> string \<Rightarrow> string \<Rightarrow> string \<Rightarrow> 'k device
   \<Rightarrow> cmd_error + client_setup" where
  "run_cmd K X J now cfg state ca secretsDir backend serverAddrFlag d =
     (case ParseBackendPref backend of None \<Rightarrow> Inl BadBackend
      | Some pref \<Rightarrow>
          runClient K X J now cfg (if state = '''' then defaultStatePath d else state) (if ca = '''' then ''ca.crt'' else ca)
            secretsDir pref serverAddrFlag d)"


section \<open>An enrolled device can run\<close>

lemma os_WriteFile_ok:
  assumes "os_WriteFile path content d = (None, d1)"
  shows "path \<noteq> '''' \<and> d1 = d\<lparr>dv_files := mput path content (dv_files d)\<rparr>"
  using assms by (auto simp: os_WriteFile_def split: if_splits)

lemma res_Save_ok:
  assumes "res_Save J res certPath caPath statePath st d = (None, d1)"
  shows "\<exists>content. sj_encode J st = Some content \<and> certPath \<noteq> '''' \<and> caPath \<noteq> '''' \<and> statePath \<noteq> '''' \<and>
     d1 = d\<lparr>dv_files := mput statePath (content @ [CHR 0x0A]) (mput caPath (er_CACertPEM res) (mput certPath (er_ClientCertPEM res) (dv_files d)))\<rparr>"
  using assms by (auto simp: res_Save_def split: prod.splits option.splits dest!: os_WriteFile_ok)

lemma enroll_cmd_ok:
  assumes "enroll_cmd K J rfc3339 meta stdin exchange fl d = (Inr st, d1)"
  shows "\<exists>pref keyPEM key opts res. ParseBackendPref (ef_backend fl) = Some pref \<and> loadClientKey K (ef_secretsDir fl) pref d = Inr keyPEM \<and>
    kl_parse K keyPEM = Some key \<and> eo_ClientKey opts = Some key \<and> exchange (ef_server fl) opts = Inr res \<and>
    res_Save J res (ef_certOut fl) (ef_caOut fl) (ef_stateOut fl) st d = (None, d1) \<and>
    st = \<lparr>st_ClientID = er_ClientID res, st_ServerAddr = ef_server fl, st_CAFingerprint = er_CAFingerprint res,
       st_CertPath = ef_certOut fl, st_ExpiresAt = rfc3339 (er_ExpiresAt res)\<rparr>"
  using assms
  by (simp add: enroll_cmd_def Let_def split: option.splits sum.splits prod.splits) (metis enroll_options.select_convs(6))

lemma Enroll_ok:
  assumes "Enroll X sha256 dec parse_time now addr opts tls_ok dial_ok wire_ok peers sent reply = Inr res" and "eo_ClientKey opts = Some key"
  shows "\<exists>cert ca. ParseCertificate X (er_ClientCertPEM res) = Inr cert \<and> ParseCertificate X (er_CACertPEM res) = Inr ca \<and>
     VerifyChain X now cert ca = None \<and> c_CN cert = er_ClientID res \<and> c_key cert = key"
  using assms
  by (auto simp: Enroll_def checkResponse_def split: if_splits prod.splits option.splits sum.splits)

lemma loadClientKey_frame:
  "loadClientKey K dir pref (d\<lparr>dv_files := fs\<rparr>) = loadClientKey K dir pref d"
  by (simp add: loadClientKey_def defaultSecretsDir_def user_dir_def Let_def)

text \<open>
  C26: Whatever the server answers, an enrolment that reports success leaves a device that the run command, given the
  same paths, can start from, as long as the certificate has not expired: the client id is the common name of
  the saved certificate, the stored private key is that certificate's, the certificate was verified
  against the saved CA certificate, and without another address the one of the enrolment is used.
\<close>

theorem enroll_then_run:
  assumes json: "\<forall>s content. sj_encode J s = Some content \<longrightarrow> sj_decode J (content @ [CHR 0x0A]) = Some s"
    and run: "enroll_cmd K J rfc3339 meta stdin
       (\<lambda>addr opts. Enroll X sha256 dec parse_time now addr opts (tls_ok opts) dial_ok wire_ok peers (sent opts) reply) fl d = (Inr st, d1)"
    and paths: "distinct [ef_certOut fl, ef_caOut fl, ef_stateOut fl]"
    and live: "\<forall>cert. ParseCertificate X (the (mget (dv_files d1) (ef_certOut fl))) = Inr cert \<longrightarrow> \<not> IsExpired later cert"
  shows "\<exists>setup cert. run_cmd K X J later cfg (ef_stateOut fl) (ef_caOut fl) (ef_secretsDir fl) (ef_backend fl) '''' d1 = Inr setup \<and>
     ParseCertificate X (cs_Cert setup) = Inr cert \<and> c_CN cert = cs_ClientID setup \<and> kl_parse K (cs_Key setup) = Some (c_key cert) \<and>
     VerifyChain X now cert (cs_CA setup) = None \<and> cs_ServerAddr setup = (if ServerAddr cfg = '''' then ef_server fl else ServerAddr cfg)"
proof -
  from enroll_cmd_ok [OF run] obtain pref keyPEM key opts res where
      pref: "ParseBackendPref (ef_backend fl) = Some pref" and key: "loadClientKey K (ef_secretsDir fl) pref d = Inr keyPEM" "kl_parse K keyPEM = Some key"
      and ex: "eo_ClientKey opts = Some key"
        "Enroll X sha256 dec parse_time now (ef_server fl) opts (tls_ok opts) dial_ok wire_ok peers (sent opts) reply = Inr res"
      and save: "res_Save J res (ef_certOut fl) (ef_caOut fl) (ef_stateOut fl) st d = (None, d1)"
      and st: "st = \<lparr>st_ClientID = er_ClientID res, st_ServerAddr = ef_server fl, st_CAFingerprint = er_CAFingerprint res,
         st_CertPath = ef_certOut fl, st_ExpiresAt = rfc3339 (er_ExpiresAt res)\<rparr>" by blast
  from res_Save_ok [OF save] obtain content where content: "sj_encode J st = Some content" and
      d1: "d1 = d\<lparr>dv_files := mput (ef_stateOut fl) (content @ [CHR 0x0A])
         (mput (ef_caOut fl) (er_CACertPEM res) (mput (ef_certOut fl) (er_ClientCertPEM res) (dv_files d)))\<rparr>"
      and ne: "ef_caOut fl \<noteq> ''''" "ef_stateOut fl \<noteq> ''''" by blast
  from Enroll_ok [OF ex(2,1)] obtain cert ca where
      cert: "ParseCertificate X (er_ClientCertPEM res) = Inr cert" "ParseCertificate X (er_CACertPEM res) = Inr ca"
      "VerifyChain X now cert ca = None" "c_CN cert = er_ClientID res" "c_key cert = key" by blast
  have files: "mget (dv_files d1) (ef_stateOut fl) = Some (content @ [CHR 0x0A])" "mget (dv_files d1) (ef_caOut fl) = Some (er_CACertPEM res)"
      "mget (dv_files d1) (ef_certOut fl) = Some (er_ClientCertPEM res)" using paths by (auto simp: d1)
  have "loadClientState J (ef_stateOut fl) d1 = Inr st" using files(1) content json by (simp add: loadClientState_def)
  moreover have "loadClientKey K (ef_secretsDir fl) pref d1 = Inr keyPEM" using key(1) by (simp add: d1 loadClientKey_frame)
  moreover have "\<not> IsExpired later cert" using live cert(1) files(3) by simp
  ultimately show ?thesis
    using pref ne files(2,3) cert key(2) by (simp add: run_cmd_def runClient_def st)
qed


lemma res_Save_no_state:
  assumes "res_Save J res certPath caPath '''' st d = (r, d1)"
  shows "r \<noteq> None \<and> dv_home d1 = dv_home d \<and> (\<forall>p. p \<notin> {certPath, caPath} \<longrightarrow> mget (dv_files d1) p = mget (dv_files d) p) \<and>
     (r = Some (WriteFile '''') \<longrightarrow> certPath \<noteq> '''' \<longrightarrow> certPath \<noteq> caPath \<longrightarrow> mget (dv_files d1) certPath = Some (er_ClientCertPEM res))"
  using assms by (auto simp: res_Save_def os_WriteFile_def split: if_splits option.splits)

text \<open>
  The default of the state-out flag is documented as the state file in the user's configuration directory, but
  the empty flag is passed on as it is: an enrolment with the default flags never succeeds. When the
  server has granted it, the token is spent and the certificate is on disk, yet the command fails writing
  the state, and the run command finds no identity.
\<close>

theorem enroll_needs_state_out:
  assumes run: "enroll_cmd K J rfc3339 meta stdin exchange fl d = (r, d1)" and flag: "ef_stateOut fl = ''''"
    and outs: "ef_certOut fl \<noteq> ''''" "ef_certOut fl \<noteq> ef_caOut fl" "defaultStatePath d \<notin> {ef_certOut fl, ef_caOut fl}"
    and fresh: "mget (dv_files d) (defaultStatePath d) = None"
  shows "(\<exists>e. r = Inl e) \<and>
     (r = Inl (WriteFile '''') \<longrightarrow> (\<exists>opts res. exchange (ef_server fl) opts = Inr res \<and> mget (dv_files d1) (ef_certOut fl) = Some (er_ClientCertPEM res))) \<and>
     (\<forall>X now cfg ca dir addr. run_cmd K X J now cfg '''' ca dir ''auto'' addr d1 = Inl (ReadState (defaultStatePath d)))"
proof -
  have cases: "(\<exists>e. r = Inl e \<and> d1 = d \<and> e \<noteq> WriteFile '''') \<or>
      (\<exists>opts res st e. exchange (ef_server fl) opts = Inr res \<and> r = Inl e \<and> res_Save J res (ef_certOut fl) (ef_caOut fl) '''' st d = (Some e, d1))"
    using run flag res_Save_no_state
    by (simp add: enroll_cmd_def Let_def split: option.splits sum.splits prod.splits) (auto simp: loadClientKey_def Let_def split: if_splits sum.splits, blast+)
  then have "defaultStatePath d1 = defaultStatePath d \<and> mget (dv_files d1) (defaultStatePath d) = None"
    using fresh outs(3) res_Save_no_state by (fastforce simp: defaultStatePath_def user_dir_def)
  then have "run_cmd K X J now cfg '''' ca dir ''auto'' addr d1 = Inl (ReadState (defaultStatePath d))" for X now cfg ca dir addr
    by (simp add: run_cmd_def runClient_def loadClientState_def ParseBackendPref_def)
  then show ?thesis using cases res_Save_no_state outs(1,2) by blast
qed


section \<open>A sample device\<close>

definition granted :: Response where
  "granted = \<lparr>rs_OK = True, rs_ClientCert = plain_pem ''CERTIFICATE'' [9], rs_CACert = plain_pem ''CERTIFICATE'' [9], rs_ExpiresAt = '''', rs_Error = None\<rparr>"

definition one_key :: "unit key_lib" where
  "one_key = \<lparr>kl_keyring = True, kl_dir_ok = (\<lambda>_. False), kl_get = (\<lambda>_ _ _ _. Inr ''k''), kl_set = (\<lambda>_ _ _ _ ks. (ks, None)),
     kl_marshal = (\<lambda>_. Some ''k''), kl_parse = (\<lambda>_. Some 5)\<rparr>"

definition fresh_device :: "unit device" where
  "fresh_device = \<lparr>dv_files = [(''client.csr'', ''csr'')], dv_keys = (), dv_home = Some ''/home/a/.config'', dv_host = Some ''laptop'', dv_writable = (\<lambda>_. True)\<rparr>"

definition sample_state :: clientState where
  "sample_state = \<lparr>st_ClientID = c_CN sample_cert, st_ServerAddr = ''srv:7001'', st_CAFingerprint = Fingerprint (\<lambda>_. []) sample_cert,
     st_CertPath = ''client.crt'', st_ExpiresAt = ''''\<rparr>"

definition one_state :: state_json where
  "one_state = \<lparr>sj_encode = (\<lambda>s. if s = sample_state then Some ''s'' else None), sj_decode = (\<lambda>c. if c = [CHR ''s'', CHR 0x0A] then Some sample_state else None)\<rparr>"

abbreviation sample_exchange :: "string \<Rightarrow> enroll_options \<Rightarrow> enroll_client_error + EnrollResult" where
  "sample_exchange \<equiv> (\<lambda>addr opts. Enroll sample_x509 (\<lambda>_. []) (\<lambda>_. Some granted) (\<lambda>_. None) 0 addr opts True True True [sample_cert] (Some [1]) [0, 0, 0, 1, 5])"

abbreviation no_meta :: Meta where
  "no_meta \<equiv> \<lparr>me_Name = '''', me_Note = '''', me_OS = '''', me_Arch = ''''\<rparr>"

abbreviation sample_flags :: enroll_flags where
  "sample_flags \<equiv> default_flags\<lparr>ef_token := ''t'', ef_server := ''srv:7001''\<rparr>"

lemma granted_parsed:
  "ParseCertificate sample_x509 (plain_pem ''CERTIFICATE'' [9]) = Inr sample_cert"
  by (simp add: ParseCertificate_def sample_x509_def read_plain_pem)

lemma exchange_granted:
  assumes "eo_ClientKey opts = Some 5" and "eo_CAFingerprint opts = ''''"
  shows "sample_exchange ''srv:7001'' opts = Inr \<lparr>er_ClientID = c_CN sample_cert, er_ExpiresAt = c_NotAfter sample_cert,
     er_ClientCertPEM = plain_pem ''CERTIFICATE'' [9], er_CACertPEM = plain_pem ''CERTIFICATE'' [9], er_CAFingerprint = Fingerprint (\<lambda>_. []) sample_cert\<rparr>"
proof -
  have "SplitHostPort ''srv:7001'' \<noteq> None" "enr_readFrame (\<lambda>_. Some ()) [0, 0, 0, 1, 5] = Some ((), [])" "enr_writeFrame (Some [1]) \<noteq> None" by code_simp+
  moreover have "enr_readFrame (\<lambda>_. Some granted) [0, 0, 0, 1, 5] = Some (granted, [])" by code_simp
  moreover have "VerifyChain sample_x509 0 sample_cert sample_cert = None" by (simp add: VerifyChain_def sample_x509_def)
  moreover have "c_CN sample_cert \<noteq> ''''" "c_key sample_cert = 5" by (simp_all add: sample_cert_def client_template_def sample_csr_def Let_def)
  ultimately show ?thesis
    using assms by (auto simp: Enroll_def VerifyConnection_def checkResponse_def granted_def granted_parsed Let_def)
qed

lemma sample_enrolled:
  "fst (enroll_cmd one_key one_state (\<lambda>_. '''') no_meta None sample_exchange (sample_flags\<lparr>ef_stateOut := ''state.json''\<rparr>) fresh_device) = Inr sample_state"
proof -
  have "splitServerAddr ''srv:7001'' = Some (''srv'', ''7001'')" by code_simp
  then show ?thesis
    by (simp add: enroll_cmd_def exchange_granted default_flags_def fresh_device_def one_key_def one_state_def sample_state_def ParseBackendPref_def
        loadClientKey_def open_store_def OpenWithPref_def res_Save_def os_WriteFile_def Let_def)
qed


theorem enroll_then_run_witness:
  "\<exists>setup. run_cmd one_key sample_x509 one_state 1 DefaultClientConfig ''state.json'' ''ca.crt'' '''' ''auto'' ''''
      (snd (enroll_cmd one_key one_state (\<lambda>_. '''') no_meta None sample_exchange (sample_flags\<lparr>ef_stateOut := ''state.json''\<rparr>) fresh_device)) = Inr setup \<and>
     cs_ServerAddr setup = ''srv:7001''"
proof -
  let ?fl = "sample_flags\<lparr>ef_stateOut := ''state.json''\<rparr>"
  let ?r = "enroll_cmd one_key one_state (\<lambda>_. '''') no_meta None sample_exchange ?fl fresh_device"
  have run: "?r = (Inr sample_state, snd ?r)" using sample_enrolled by (metis prod.collapse)
  have paths: "distinct [ef_certOut ?fl, ef_caOut ?fl, ef_stateOut ?fl]" by (simp add: default_flags_def)
  have json: "\<forall>s content. sj_encode one_state s = Some content \<longrightarrow> sj_decode one_state (content @ [CHR 0x0A]) = Some s"
    by (simp add: one_state_def)
  have "\<not> IsExpired 1 sample_cert" by code_simp
  moreover have "cert = sample_cert" if "ParseCertificate sample_x509 pem = Inr cert" for pem cert
    using that by (auto simp: ParseCertificate_def sample_x509_def split: option.splits prod.splits if_splits)
  ultimately have live: "\<forall>cert. ParseCertificate sample_x509 (the (mget (dv_files (snd ?r)) (ef_certOut ?fl))) = Inr cert \<longrightarrow> \<not> IsExpired 1 cert" by blast
  from enroll_then_run [OF json run paths live, of DefaultClientConfig] show ?thesis
    by (auto simp: default_flags_def DefaultClientConfig_def)
qed

theorem enroll_needs_state_out_witness:
  "run_cmd one_key sample_x509 one_state 1 DefaultClientConfig '''' ''ca.crt'' '''' ''auto'' ''''
     (snd (enroll_cmd one_key one_state (\<lambda>_. '''') no_meta None sample_exchange sample_flags fresh_device)) = Inl (ReadState ''/home/a/.config/qoqtun/state.json'')"
proof -
  have "defaultStatePath fresh_device = ''/home/a/.config/qoqtun/state.json''" by (simp add: defaultStatePath_def user_dir_def fresh_device_def)
  then show ?thesis
    using enroll_needs_state_out [OF prod.collapse [symmetric], of sample_flags fresh_device one_key one_state "\<lambda>_. ''''" no_meta None sample_exchange]
    by (simp add: default_flags_def fresh_device_def)
qed

end
