(* ===== verification/Ipc.thy ===== *)
theory Ipc
  imports ClientCore Metrics
begin

text \<open>
  The local control endpoint of a running client (\<^verbatim>\<open>internal/clientcore/ipc.go\<close>) and the commands
  that talk to it (\<^verbatim>\<open>cmd/client/tunnels.go\<close>). A request names a token that only the owner of the
  status file can read. A start or stop is a request to the server, so the handler waits between
  sending it and the frame with the answer; the two halves are separate definitions. The encoding of
  requests by \<^verbatim>\<open>encoding/json\<close> is an argument.
\<close>

section \<open>The endpoint (ipc.go)\<close>

record ipcReq =
  iq_Token :: string
  iq_Cmd :: string
  iq_Name :: string
  iq_Type :: string
  iq_Args :: bytes

record ipc_args =
  ia_RemotePort :: int
  ia_LocalIP :: string
  ia_LocalPort :: int
  ia_HTTPHost :: string

datatype ipc_data = NoData | TunnelsData "LocalTunnel list" | StatsData MetSnapshot

record ipcResp =
  ip_OK :: bool
  ip_Err :: string
  ip_Data :: ipc_data

record ipc_json =
  ij_encode :: "ipcReq \<Rightarrow> bytes option"
  ij_decode :: "bytes \<Rightarrow> ipcReq option"
  ij_args :: "ipc_args \<Rightarrow> bytes option"
  ij_decode_args :: "bytes \<Rightarrow> ipc_args option"

definition NewIPC :: "bytes option \<Rightarrow> int option \<Rightarrow> string + (int \<times> string)" where
  "NewIPC rnd listen =
     (case rnd of None \<Rightarrow> Inl ''ipc: generate token''
      | Some tokBytes \<Rightarrow>
          (case listen of None \<Rightarrow> Inl ''ipc: listen'' | Some port \<Rightarrow> Inr (port, hex_encode tokBytes)))"

definition ipc_fail :: "string \<Rightarrow> ipcResp" where
  "ipc_fail msg = \<lparr>ip_OK = False, ip_Err = msg, ip_Data = NoData\<rparr>"

definition ipc_ok :: "ipc_data \<Rightarrow> ipcResp" where
  "ipc_ok d = \<lparr>ip_OK = True, ip_Err = '''', ip_Data = d\<rparr>"

text \<open>What the handler does with a request: it answers, or it has sent a request to the server and waits for the reply.\<close>

datatype ipc_action = Respond ipcResp | AwaitStart "64 word" register_tunnel | AwaitStop "64 word" string

definition start_spec :: "ipc_json \<Rightarrow> ipcReq \<Rightarrow> TunnelSpec option" where
  "start_spec J req =
     (let spec = empty_spec\<lparr>sp_Name := iq_Name req, sp_Type := (if iq_Type req = '''' then ''tcp'' else iq_Type req), sp_Enabled := True\<rparr>
      in if iq_Args req = [] then Some spec
         else map_option (\<lambda>a. spec\<lparr>sp_RemotePort := ia_RemotePort a, sp_LocalIP := ia_LocalIP a,
                                   sp_LocalPort := ia_LocalPort a, sp_HTTPHost := ia_HTTPHost a\<rparr>)
                (ij_decode_args J (iq_Args req)))"

text \<open>\<open>tok\<close> is the endpoint's token, \<open>stats\<close> the client's statistics and \<open>wr\<close> that a frame can be written.\<close>

definition ipc_handle ::
  "ipc_json \<Rightarrow> bool \<Rightarrow> string \<Rightarrow> MetSnapshot \<Rightarrow> bytes \<Rightarrow> CoreClient \<Rightarrow> ipc_action \<times> CoreClient" where
  "ipc_handle J wr tok stats input c =
     (case ij_decode J input of None \<Rightarrow> (Respond (ipc_fail ''bad request''), c)
      | Some req \<Rightarrow>
          (if iq_Token req \<noteq> tok then (Respond (ipc_fail ''forbidden''), c)
           else if iq_Cmd req = ''list'' then (Respond (ipc_ok (TunnelsData (TunnelList c))), c)
           else if iq_Cmd req = ''status'' then (Respond (ipc_ok (StatsData stats)), c)
           else if iq_Cmd req = ''start''
           then (case start_spec J req of None \<Rightarrow> (Respond (ipc_fail ''bad args''), c)
                 | Some spec \<Rightarrow>
                     (case RegisterTunnel wr spec c of
                        (Inl e, c1) \<Rightarrow> (Respond (ipc_fail e), c1)
                      | (Inr (sq, rq), c1) \<Rightarrow> (AwaitStart sq rq, c1)))
           else if iq_Cmd req = ''stop''
           then (case UnregisterTunnel_send wr (iq_Name req) c of
                   (Inl e, c1) \<Rightarrow> (Respond (ipc_fail e), c1)
                 | (Inr (sq, tid), c1) \<Rightarrow> (AwaitStop sq tid, c1))
           else (Respond (ipc_fail ''unknown cmd''), c)))"

text \<open>
  The other half: the reply that the read loop hands over (\<^const>\<open>None\<close> when its payload does not decode),
  or the deadline of eight seconds. Error texts are abbreviated.
\<close>

datatype rpc_reply = Answered "register_tunnel_resp option" | TimedOut

definition ipc_started :: "64 word \<Rightarrow> rpc_reply \<Rightarrow> CoreClient \<Rightarrow> ipcResp \<times> CoreClient" where
  "ipc_started sq reply c =
     (case reply of TimedOut \<Rightarrow> (ipc_fail ''context deadline exceeded'', rpc_cancel sq c)
      | Answered None \<Rightarrow> (ipc_fail ''bad reply'', c)
      | Answered (Some rr) \<Rightarrow> (if rr_OK rr then ipc_ok NoData else ipc_fail ''rejected'', c))"

definition ipc_stopped :: "64 word \<Rightarrow> string \<Rightarrow> rpc_reply \<Rightarrow> CoreClient \<Rightarrow> ipcResp \<times> CoreClient" where
  "ipc_stopped sq tid reply c =
     (case reply of TimedOut \<Rightarrow> (ipc_fail ''context deadline exceeded'', rpc_cancel sq c)
      | Answered arg \<Rightarrow>
          (case UnregisterTunnel_reply tid arg c of (Some e, c1) \<Rightarrow> (ipc_fail e, c1) | (None, c1) \<Rightarrow> (ipc_ok NoData, c1)))"

section \<open>The commands (tunnels.go)\<close>

datatype ipc_cmd_error =
    NotRunning
  | StatusCorrupt
  | NoEndpoint
  | BadLocalTarget
  | BadLocalPort string
  | MarshalRequest
  | ConnectFailed
  | Reported string

text \<open>The part of the status file that names the endpoint; \<^const>\<open>None\<close> when the file does not parse.\<close>

definition loadIPCInfo :: "(bytes \<Rightarrow> (int \<times> string) option) \<Rightarrow> bytes option \<Rightarrow> ipc_cmd_error + (int \<times> string)" where
  "loadIPCInfo dec status =
     (case status of None \<Rightarrow> Inl NotRunning
      | Some content \<Rightarrow>
          (case dec content of None \<Rightarrow> Inl StatusCorrupt
           | Some (port, token) \<Rightarrow> if port = 0 then Inl NoEndpoint else Inr (port, token)))"

definition cmd_splitHostPort :: "string \<Rightarrow> ipc_cmd_error + (string \<times> int)" where
  "cmd_splitHostPort s =
     (case SplitHostPort s of None \<Rightarrow> Inl BadLocalTarget
      | Some (host, portStr) \<Rightarrow>
          (case sscanf_d portStr of None \<Rightarrow> Inl (BadLocalPort portStr)
           | Some port \<Rightarrow> if port < 1 \<or> 65535 < port then Inl (BadLocalPort portStr) else Inr (host, port)))"

text \<open>The bytes \<open>ipcCall\<close> sends to the port of the status file, and what it makes of the answer.\<close>

definition ipcCall_request ::
  "ipc_json \<Rightarrow> (bytes \<Rightarrow> (int \<times> string) option) \<Rightarrow> bytes option \<Rightarrow> string \<Rightarrow> string \<Rightarrow> bytes option \<Rightarrow> ipc_cmd_error + (int \<times> bytes)" where
  "ipcCall_request J dec status cmd name args =
     (case loadIPCInfo dec status of Inl e \<Rightarrow> Inl e
      | Inr (port, token) \<Rightarrow>
          (case Option.bind args (\<lambda>a. ij_encode J \<lparr>iq_Token = token, iq_Cmd = cmd, iq_Name = name, iq_Type = '''', iq_Args = a\<rparr>) of
             None \<Rightarrow> Inl MarshalRequest | Some body \<Rightarrow> Inr (port, body)))"

definition ipcCall_result :: "ipcResp \<Rightarrow> ipc_cmd_error + ipc_data" where
  "ipcCall_result resp = (if ip_OK resp then Inr (ip_Data resp) else Inl (Reported (ip_Err resp)))"

record start_flags =
  sf_local :: string
  sf_remotePort :: int
  sf_httpHost :: string

definition tunnel_start ::
  "ipc_json \<Rightarrow> (bytes \<Rightarrow> (int \<times> string) option) \<Rightarrow> bytes option \<Rightarrow> start_flags \<Rightarrow> string \<Rightarrow> ipc_cmd_error + (int \<times> bytes)" where
  "tunnel_start J dec status flags name =
     (case cmd_splitHostPort (sf_local flags) of Inl e \<Rightarrow> Inl e
      | Inr (host, port) \<Rightarrow>
          ipcCall_request J dec status ''start'' name
            (ij_args J \<lparr>ia_RemotePort = sf_remotePort flags, ia_LocalIP = host, ia_LocalPort = port, ia_HTTPHost = sf_httpHost flags\<rparr>))"

definition tunnel_stop ::
  "ipc_json \<Rightarrow> (bytes \<Rightarrow> (int \<times> string) option) \<Rightarrow> bytes option \<Rightarrow> string \<Rightarrow> ipc_cmd_error + (int \<times> bytes)" where
  "tunnel_stop J dec status name = ipcCall_request J dec status ''stop'' name (Some [])"

definition tunnel_list ::
  "ipc_json \<Rightarrow> (bytes \<Rightarrow> (int \<times> string) option) \<Rightarrow> bytes option \<Rightarrow> ipc_cmd_error + (int \<times> bytes)" where
  "tunnel_list J dec status = ipcCall_request J dec status ''list'' '''' (Some [])"

text \<open>One line of the table that \<open>list\<close> prints: name, type, local address, public port and id.\<close>

definition list_row :: "LocalTunnel \<Rightarrow> string list" where
  "list_row t =
     [lc_Name t, lc_Type t, lc_LocalIP t @ '':'' @ Itoa (lc_LocalPort t),
      if lc_RemotePort t = 0 then ''vhost'' else Itoa (lc_RemotePort t), lc_ID t]"

section \<open>Who may ask, and what a start does\<close>

lemma ipc_needs_token:
  assumes "ipc_handle J wr tok stats input c = (act, c1)" and "\<nexists>req. ij_decode J input = Some req \<and> iq_Token req = tok"
  shows "c1 = c \<and> (\<exists>msg. act = Respond (ipc_fail msg))"
  using assms by (auto simp: ipc_handle_def split: option.splits if_splits)

lemma ipcCall_decoded:
  assumes "\<forall>r body. ij_encode J r = Some body \<longrightarrow> ij_decode J body = Some r" and "dec content = Some (port, tok)"
    and "ipcCall_request J dec (Some content) cmd name args = Inr (port', body)"
  shows "\<exists>a. args = Some a \<and> ij_decode J body = Some \<lparr>iq_Token = tok, iq_Cmd = cmd, iq_Name = name, iq_Type = '''', iq_Args = a\<rparr>"
  using assms by (auto simp: ipcCall_request_def loadIPCInfo_def bind_eq_Some_conv split: option.splits if_splits)

lemma LocalSnapshot_RegisterLocal: "tc \<in> set (LocalSnapshot (RegisterLocal tc c))"
proof -
  have "mget (mput (lc_ID tc) tc (cl_tunnels c)) (lc_ID tc) = Some tc" by simp
  then have "(lc_ID tc, tc) \<in> set (mput (lc_ID tc) tc (cl_tunnels c))" by (rule map_of_SomeD)
  then show ?thesis by (force simp: LocalSnapshot_def RegisterLocal_def)
qed

text \<open>
  A tunnel started from the command line of a connected client, once the server has accepted it, shows
  up in the list with the server's id, the public port of the flag and the local address. The request to
  the server is always one for a TCP tunnel: the command has no way to pass a type, and the endpoint's
  default then drops the host of the http-host flag.
\<close>

theorem tunnel_start_listed:
  assumes req_json: "\<forall>r body. ij_encode J r = Some body \<longrightarrow> ij_decode J body = Some r"
    and args_json: "\<forall>a body. ij_args J a = Some body \<longrightarrow> body \<noteq> [] \<and> ij_decode_args J body = Some a"
    and status: "dec content = Some (port, tok)" and target: "cmd_splitHostPort (sf_local flags) = Inr (host, lport)"
    and start: "tunnel_start J dec (Some content) flags name = Inr (port, body)" and listing: "tunnel_list J dec (Some content) = Inr (port, lbody)"
    and client: "cc_conn c" "cc_tun c = Some tc" "FindByName name tc = None" and name: "name \<noteq> ''''" and ok: "rr_OK rr"
  shows "\<exists>sq c1 c2 ts. ipc_handle J True tok stats body c =
       (AwaitStart sq \<lparr>rt_Name = name, rt_Type = ''tcp'', rt_RemotePort = sf_remotePort flags, rt_Local = \<lparr>lt_IP = host, lt_Port = lport\<rparr>, rt_HTTP = None\<rparr>, c1) \<and>
     session_step (EvFrame (FRegResp sq (Some rr))) c1 = (None, c2) \<and> fst (ipc_started sq (Answered (Some rr)) c2) = ipc_ok NoData \<and>
     ipc_handle J True tok stats lbody c2 = (Respond (ipc_ok (TunnelsData ts)), c2) \<and>
     \<lparr>lc_ID = rr_TunnelID rr, lc_Name = name, lc_Type = ''tcp'', lc_RemotePort = sf_remotePort flags, lc_LocalIP = host, lc_LocalPort = lport\<rparr> \<in> set ts"
proof -
  let ?args = "\<lparr>ia_RemotePort = sf_remotePort flags, ia_LocalIP = host, ia_LocalPort = lport, ia_HTTPHost = sf_httpHost flags\<rparr>"
  let ?spec = "\<lparr>sp_Name = name, sp_Type = ''tcp'', sp_RemotePort = sf_remotePort flags, sp_LocalIP = host, sp_LocalPort = lport,
      sp_HTTPHost = sf_httpHost flags, sp_Enabled = True\<rparr>"
  obtain a where a: "ij_args J ?args = Some a"
      and body: "ij_decode J body = Some \<lparr>iq_Token = tok, iq_Cmd = ''start'', iq_Name = name, iq_Type = '''', iq_Args = a\<rparr>"
    using ipcCall_decoded [of J dec content port tok "''start''" name "ij_args J ?args" port body] req_json status target start
    by (auto simp: tunnel_start_def)
  have lbody: "ij_decode J lbody = Some \<lparr>iq_Token = tok, iq_Cmd = ''list'', iq_Name = '''', iq_Type = '''', iq_Args = []\<rparr>"
    using ipcCall_decoded [of J dec content port tok "''list''" "''''" "Some []" port lbody] req_json status listing
    by (simp add: tunnel_list_def)
  obtain sq c1 where reg: "RegisterTunnel True ?spec c = (Inr (sq, spec_request ?spec), c1)"
    using client by (simp add: RegisterTunnel_def rpcSpec_def cc_nextSeq_def Let_def)
  have pend: "mget (cc_pending c1) sq = Some ?spec" "cc_tun c1 = Some tc" using RegisterTunnel_pending [OF reg] client(2) by auto
  let ?lt = "spec_tunnel (rr_TunnelID rr) ?spec"
  let ?c2 = "c1\<lparr>cc_pending := mdel sq (cc_pending c1), cc_tun := Some (RegisterLocal ?lt tc)\<rparr>"
  have "ipc_handle J True tok stats body c = (AwaitStart sq (spec_request ?spec), c1)"
    using reg args_json a by (simp add: ipc_handle_def body start_spec_def empty_spec_def)
  moreover have "session_step (EvFrame (FRegResp sq (Some rr))) c1 = (None, ?c2)"
    using pend ok name by (simp add: session_step_def takePending_def)
  moreover have "ipc_handle J True tok stats lbody ?c2 = (Respond (ipc_ok (TunnelsData (LocalSnapshot (RegisterLocal ?lt tc)))), ?c2)"
    by (simp add: ipc_handle_def lbody TunnelList_def)
  moreover have "?lt \<in> set (LocalSnapshot (RegisterLocal ?lt tc))" by (rule LocalSnapshot_RegisterLocal)
  ultimately show ?thesis
    using ok by (fastforce simp: ipc_started_def spec_request_def spec_tunnel_def)
qed


definition start_args :: ipc_args where
  "start_args = \<lparr>ia_RemotePort = 0, ia_LocalIP = ''127.0.0.1'', ia_LocalPort = 8080, ia_HTTPHost = ''a.example.com''\<rparr>"

definition start_req :: ipcReq where
  "start_req = \<lparr>iq_Token = ''ab'', iq_Cmd = ''start'', iq_Name = ''site'', iq_Type = '''', iq_Args = [3]\<rparr>"

definition list_req :: ipcReq where
  "list_req = \<lparr>iq_Token = ''ab'', iq_Cmd = ''list'', iq_Name = '''', iq_Type = '''', iq_Args = []\<rparr>"

definition plain_ipc :: ipc_json where
  "plain_ipc = \<lparr>ij_encode = (\<lambda>r. if r = start_req then Some [1] else if r = list_req then Some [2] else None),
     ij_decode = (\<lambda>b. if b = [1] then Some start_req else if b = [2] then Some list_req else None),
     ij_args = (\<lambda>a. if a = start_args then Some [3] else None), ij_decode_args = (\<lambda>b. if b = [3] then Some start_args else None)\<rparr>"

definition connected_client :: CoreClient where
  "connected_client = idle_client\<lparr>cc_conn := True, cc_tun := Some \<lparr>cl_ServerAddr = '''', cl_rules = [], cl_tunnels = [], cl_dataConns = []\<rparr>\<rparr>"

theorem tunnel_start_listed_witness:
  "\<exists>sq c1. ipc_handle plain_ipc True ''ab'' (fst (met_Snapshot 0 met_NewRegistry)) [1] connected_client =
     (AwaitStart sq \<lparr>rt_Name = ''site'', rt_Type = ''tcp'', rt_RemotePort = 0, rt_Local = \<lparr>lt_IP = ''127.0.0.1'', lt_Port = 8080\<rparr>, rt_HTTP = None\<rparr>, c1)"
proof -
  let ?flags = "\<lparr>sf_local = ''127.0.0.1:8080'', sf_remotePort = 0, sf_httpHost = ''a.example.com''\<rparr>"
  let ?rr = "\<lparr>rr_TunnelID = ''t_1'', rr_OK = True, rr_Error = None, rr_Effective = Some 0\<rparr>"
  let ?dec = "\<lambda>_. Some (4000, ''ab'')"
  have split: "cmd_splitHostPort (sf_local ?flags) = Inr (''127.0.0.1'', 8080)" by code_simp
  have ne: "start_req \<noteq> list_req" by (simp add: start_req_def list_req_def)
  have start: "tunnel_start plain_ipc ?dec (Some []) ?flags ''site'' = Inr (4000, [1])"
    using split by (simp add: tunnel_start_def ipcCall_request_def loadIPCInfo_def plain_ipc_def start_args_def start_req_def)
  have list: "tunnel_list plain_ipc ?dec (Some []) = Inr (4000, [2])"
    using ne by (simp add: tunnel_list_def ipcCall_request_def loadIPCInfo_def plain_ipc_def list_req_def start_req_def)
  have laws: "\<forall>r body. ij_encode plain_ipc r = Some body \<longrightarrow> ij_decode plain_ipc body = Some r"
    "\<forall>a body. ij_args plain_ipc a = Some body \<longrightarrow> body \<noteq> [] \<and> ij_decode_args plain_ipc body = Some a"
    by (auto simp: plain_ipc_def split: if_splits)
  have c: "cc_conn connected_client" "cc_tun connected_client = Some \<lparr>cl_ServerAddr = '''', cl_rules = [], cl_tunnels = [], cl_dataConns = []\<rparr>"
    by (simp_all add: connected_client_def)
  from tunnel_start_listed [OF laws _ split start list c, of "''ab''" ?rr "fst (met_Snapshot 0 met_NewRegistry)"] show ?thesis by (auto simp: FindByName_def)
qed

end
