(* ===== verification/CoreApi.thy ===== *)
theory CoreApi
  imports ClientCommands Ipc
begin

text \<open>
  \<^verbatim>\<open>internal/coreapi/coreapi.go\<close>, the facade of the desktop application over the client core, with the
  start of \<^verbatim>\<open>cmd/desktop/main.go\<close> and the autostart entry of \<^verbatim>\<open>internal/platform/desktop\<close>. Every call
  of \<^verbatim>\<open>Start\<close> spawns a goroutine that lives until the client has stopped; such a run has a number, and
  its end is a step of its own. TOML and JSON encoders are arguments; JSON values that travel through
  \<^verbatim>\<open>map[string]any\<close> are trees, decoded with the field matching of \<^verbatim>\<open>encoding/json\<close>.
\<close>

section \<open>The facade's state\<close>

record api_status =
  su_Running :: bool
  su_State :: string
  su_ClientID :: string
  su_ServerAddr :: string

datatype api_event = StateEvent api_status | TunnelEvent string

text \<open>A run in progress: what it was started with, its client, and whether its context is cancelled.\<close>

record api_run =
  ru_setup :: client_setup
  ru_client :: CoreClient
  ru_cancelled :: bool

text \<open>
  \<open>a_client\<close> and \<open>a_cancel\<close> point to the run whose client and cancel function the facade holds; \<open>a_runs\<close>
  are the goroutines that have not ended. The channels are their unread contents.
\<close>

record API =
  a_configPath :: string
  a_statePath :: string
  a_secretsDir :: string
  a_backend :: BackendPref
  a_cfg :: ClientConfig
  a_client :: "nat option"
  a_cancel :: "nat option"
  a_runs :: "(nat, api_run) gomap"
  a_next :: nat
  a_runErr :: "cl_error option option"
  a_events :: "api_event list"

record toml_codec =
  tm_marshal :: "ClientConfig \<Rightarrow> string option"
  tm_unmarshal :: "string \<Rightarrow> ClientConfig option"

text \<open>The state file is a JSON object of strings.\<close>

record object_json =
  oj_marshal :: "(string \<times> string) list \<Rightarrow> string option"
  oj_unmarshal :: "string \<Rightarrow> (string \<times> string) list option"

datatype api_error =
    LoadConfigFailed
  | InvalidConfig string
  | AlreadyRunning
  | StateFailed
  | StateIncomplete
  | CAFailed
  | CertFailed
  | KeystoreFailed
  | KeyParseFailed
  | NotRunningApi
  | NotInConfig string
  | CoreError string
  | TunnelNameRequired
  | TunnelNotFound string
  | ServerAddrNotString
  | TunnelsInvalid
  | MarshalConfig
  | PersistFailed
  | TokenRequired
  | ServerAddrRequired
  | EnrollFailed enroll_client_error
  | IdentityFailed

section \<open>Construction and events\<close>

definition emit :: "api_event \<Rightarrow> API \<Rightarrow> API" where
  "emit e a = (if length (a_events a) < 128 then a\<lparr>a_events := a_events a @ [e]\<rparr> else a)"

definition stopped_status :: api_status where
  "stopped_status = \<lparr>su_Running = False, su_State = ''stopped'', su_ClientID = '''', su_ServerAddr = ''''\<rparr>"

text \<open>\<^verbatim>\<open>ValidateClient\<close> fills in defaults of the configuration it is given before it checks.\<close>

definition api_loadConfig :: "(string \<Rightarrow> string) \<Rightarrow> toml_codec \<Rightarrow> string \<Rightarrow> 'k device \<Rightarrow> api_error + ClientConfig" where
  "api_loadConfig ucase T path d =
     (case Option.bind (mget (dv_files d) path) (tm_unmarshal T) of None \<Rightarrow> Inl LoadConfigFailed
      | Some cfg \<Rightarrow> (case ValidateClient ucase cfg of Inl e \<Rightarrow> Inl (InvalidConfig e) | Inr c \<Rightarrow> Inr c))"

definition api_New ::
  "(string \<Rightarrow> string) \<Rightarrow> toml_codec \<Rightarrow> string \<Rightarrow> string \<Rightarrow> string \<Rightarrow> BackendPref \<Rightarrow> 'k device \<Rightarrow> api_error + API" where
  "api_New ucase T configPath statePath secretsDir backend d =
     (case api_loadConfig ucase T configPath d of Inl e \<Rightarrow> Inl e
      | Inr cfg \<Rightarrow> Inr \<lparr>a_configPath = configPath, a_statePath = statePath, a_secretsDir = secretsDir, a_backend = backend, a_cfg = cfg,
          a_client = None, a_cancel = None, a_runs = [], a_next = 0, a_runErr = None, a_events = []\<rparr>)"

section \<open>Identity files\<close>

record stateFile =
  sf_ClientID :: string
  sf_ServerAddr :: string
  sf_Name :: string
  sf_CertPath :: string
  sf_ExpiresAt :: string

definition field :: "(string \<times> string) list \<Rightarrow> string \<Rightarrow> string" where
  "field m k = (case mget m k of None \<Rightarrow> '''' | Some v \<Rightarrow> v)"

definition loadState :: "object_json \<Rightarrow> string \<Rightarrow> 'k device \<Rightarrow> api_error + stateFile" where
  "loadState J path d =
     (case Option.bind (mget (dv_files d) path) (oj_unmarshal J) of None \<Rightarrow> Inl StateFailed
      | Some m \<Rightarrow>
          (let st = \<lparr>sf_ClientID = field m ''client_id'', sf_ServerAddr = field m ''server_addr'', sf_Name = field m ''name'',
                     sf_CertPath = field m ''cert_path'', sf_ExpiresAt = field m ''expires_at''\<rparr>
           in if sf_ClientID st = '''' \<or> sf_CertPath st = '''' then Inl StateIncomplete else Inr st))"

text \<open>The directory part of a path, with its slash.\<close>

definition dir_of :: "string \<Rightarrow> string" where
  "dir_of path = rev (dropWhile (\<lambda>c. c \<noteq> CHR ''/'') (rev path))"

definition loadCA :: "x509_lib \<Rightarrow> string \<Rightarrow> 'k device \<Rightarrow> api_error + certificate" where
  "loadCA X statePath d =
     (case mget (dv_files d) (dir_of statePath @ ''ca.crt'') of None \<Rightarrow> Inl CAFailed
      | Some content \<Rightarrow> (case ParseCertificate X content of Inl _ \<Rightarrow> Inl CAFailed | Inr cert \<Rightarrow> Inr cert))"

definition loadKey :: "'k key_lib \<Rightarrow> string \<Rightarrow> BackendPref \<Rightarrow> 'k device \<Rightarrow> api_error + string" where
  "loadKey K secretsDir backend d =
     (let store = open_store K secretsDir backend
      in if store = OpenError then Inl KeystoreFailed
         else case kl_get K store secretsDir ''client-key'' (dv_keys d) of Inl _ \<Rightarrow> Inl KeystoreFailed | Inr pem \<Rightarrow> Inr pem)"

section \<open>Lifecycle\<close>

text \<open>The client core as \<^verbatim>\<open>Start\<close> builds it: not connected, nothing negotiated.\<close>

definition new_core :: "client_setup \<Rightarrow> CoreClient" where
  "new_core cs = \<lparr>cc_ServerAddr = cs_ServerAddr cs, cc_ClientID = cs_ClientID cs, cc_Name = cs_Name cs, cc_Note = '''', cc_Tunnels = cs_Tunnels cs,
     cc_Heartbeat = \<lparr>IntervalS = 0, TimeoutS = 0, MissThreshold = 0\<rparr>,
     cc_Policy = \<lparr>AllowedPorts = [], MaxTunnels = 0, MaxConns = 0, MaxConnsTunnel = 0, BandwidthBPS = 0, BandwidthTunnelBPS = 0,
        UDP = \<lparr>MaxSessions = 0, MaxPacket = 0, SessionIdleTimeout = ''''\<rparr>, AllowedTargets = []\<rparr>,
     cc_tun = None, cc_seq = 0, cc_missed = 0, cc_pending = [], cc_conn = False, cc_closedOnce = False\<rparr>"

definition api_Start :: "'k key_lib \<Rightarrow> x509_lib \<Rightarrow> object_json \<Rightarrow> 'k device \<Rightarrow> API \<Rightarrow> api_error option \<times> API" where
  "api_Start K X J d a =
     (if a_client a \<noteq> None then (Some AlreadyRunning, a)
      else case loadState J (a_statePath a) d of Inl e \<Rightarrow> (Some e, a)
      | Inr st \<Rightarrow>
     (case loadCA X (a_statePath a) d of Inl e \<Rightarrow> (Some e, a)
      | Inr caCert \<Rightarrow>
     (case mget (dv_files d) (sf_CertPath st) of None \<Rightarrow> (Some CertFailed, a)
      | Some certPEM \<Rightarrow>
     (case loadKey K (a_secretsDir a) (a_backend a) d of Inl e \<Rightarrow> (Some e, a)
      | Inr keyPEM \<Rightarrow>
     (case kl_parse K keyPEM of None \<Rightarrow> (Some KeyParseFailed, a)
      | Some _ \<Rightarrow>
          (let addr = (if ServerAddr (a_cfg a) = '''' then sf_ServerAddr st else ServerAddr (a_cfg a));
               cs = \<lparr>cs_ServerAddr = addr, cs_CA = caCert, cs_Cert = certPEM, cs_Key = keyPEM, cs_ClientID = sf_ClientID st, cs_Name = sf_Name st,
                     cs_Tunnels = tunnelsToSpecs (ClientConfig.cc_Tunnels (a_cfg a))\<rparr>;
               k = a_next a;
               a1 = a\<lparr>a_client := Some k, a_cancel := Some k, a_next := k + 1,
                      a_runs := mput k \<lparr>ru_setup = cs, ru_client = new_core cs, ru_cancelled = False\<rparr> (a_runs a)\<rparr>
           in (None, emit (StateEvent \<lparr>su_Running = True, su_State = ''connecting'', su_ClientID = sf_ClientID st, su_ServerAddr = addr\<rparr>) a1)))))))"

text \<open>The end of the goroutine of run \<open>k\<close>, with what the client's \<^verbatim>\<open>Run\<close> returned.\<close>

definition run_exit :: "nat \<Rightarrow> cl_error option \<Rightarrow> API \<Rightarrow> API" where
  "run_exit k err a =
     (let a1 = a\<lparr>a_client := None, a_cancel := None, a_runs := mdel k (a_runs a)\<rparr>;
          a2 = emit (StateEvent stopped_status) a1
      in if a_runErr a2 = None then a2\<lparr>a_runErr := Some err\<rparr> else a2)"

definition cancel_run :: "nat \<Rightarrow> API \<Rightarrow> API" where
  "cancel_run k a = (case mget (a_runs a) k of None \<Rightarrow> a | Some r \<Rightarrow> a\<lparr>a_runs := mput k (r\<lparr>ru_cancelled := True\<rparr>) (a_runs a)\<rparr>)"

definition api_Stop :: "API \<Rightarrow> API" where
  "api_Stop a =
     (if a_client a = None then a
      else (case a_cancel a of None \<Rightarrow> a | Some k \<Rightarrow> cancel_run k a)\<lparr>a_client := None, a_cancel := None\<rparr>)"

definition held_run :: "API \<Rightarrow> api_run option" where
  "held_run a = Option.bind (a_client a) (mget (a_runs a))"

definition api_Status :: "API \<Rightarrow> api_status" where
  "api_Status a =
     (case held_run a of None \<Rightarrow> stopped_status
      | Some r \<Rightarrow> \<lparr>su_Running = True, su_State = ''online'', su_ClientID = cc_ClientID (ru_client r), su_ServerAddr = cc_ServerAddr (ru_client r)\<rparr>)"

section \<open>Tunnels at run time\<close>

definition api_ListTunnels :: "API \<Rightarrow> LocalTunnel list" where
  "api_ListTunnels a = (case held_run a of None \<Rightarrow> [] | Some r \<Rightarrow> TunnelList (ru_client r))"

definition put_core :: "CoreClient \<Rightarrow> API \<Rightarrow> API" where
  "put_core c a =
     (case a_client a of None \<Rightarrow> a
      | Some k \<Rightarrow> (case mget (a_runs a) k of None \<Rightarrow> a | Some r \<Rightarrow> a\<lparr>a_runs := mput k (r\<lparr>ru_client := c\<rparr>) (a_runs a)\<rparr>))"

definition tunnelSpecByName :: "TunnelConfig list \<Rightarrow> string \<Rightarrow> TunnelSpec option" where
  "tunnelSpecByName ts name = map_option (\<lambda>t. hd (tunnelsToSpecs [t])) (find (\<lambda>t. tc_Name t = name) ts)"

text \<open>Both send their request; the facade's lock is held until the reply has come.\<close>

definition api_StartTunnel :: "bool \<Rightarrow> string \<Rightarrow> API \<Rightarrow> (api_error + (64 word \<times> register_tunnel)) \<times> API" where
  "api_StartTunnel wr name a =
     (case held_run a of None \<Rightarrow> (Inl NotRunningApi, a)
      | Some r \<Rightarrow>
          (case tunnelSpecByName (ClientConfig.cc_Tunnels (a_cfg a)) name of None \<Rightarrow> (Inl (NotInConfig name), a)
           | Some spec \<Rightarrow>
               (case RegisterTunnel wr (spec\<lparr>sp_Enabled := True\<rparr>) (ru_client r) of
                  (Inl e, c) \<Rightarrow> (Inl (CoreError e), put_core c a) | (Inr q, c) \<Rightarrow> (Inr q, put_core c a))))"

definition api_StopTunnel :: "bool \<Rightarrow> string \<Rightarrow> API \<Rightarrow> (api_error + (64 word \<times> string)) \<times> API" where
  "api_StopTunnel wr name a =
     (case held_run a of None \<Rightarrow> (Inl NotRunningApi, a)
      | Some r \<Rightarrow>
          (case UnregisterTunnel_send wr name (ru_client r) of
             (Inl e, c) \<Rightarrow> (Inl (CoreError e), put_core c a) | (Inr q, c) \<Rightarrow> (Inr q, put_core c a)))"

section \<open>Configuration\<close>

text \<open>JSON values, and \<^verbatim>\<open>json.Unmarshal\<close> into a slice of \<^verbatim>\<open>TunnelConfig\<close>, whose fields carry no JSON tags.\<close>

datatype jv = JNull | JBool bool | JNum int | JStr string | JArr "jv list" | JObj "(string \<times> jv) list"

definition same_field :: "string \<Rightarrow> string \<Rightarrow> bool" where
  "same_field key name \<longleftrightarrow> map ascii_lower key = map ascii_lower name"

definition set_str :: "jv \<Rightarrow> (string \<Rightarrow> TunnelConfig) \<Rightarrow> TunnelConfig \<Rightarrow> TunnelConfig option" where
  "set_str v f t = (case v of JStr s \<Rightarrow> Some (f s) | JNull \<Rightarrow> Some t | _ \<Rightarrow> None)"

definition set_int :: "jv \<Rightarrow> (int \<Rightarrow> TunnelConfig) \<Rightarrow> TunnelConfig \<Rightarrow> TunnelConfig option" where
  "set_int v f t = (case v of JNum n \<Rightarrow> if - (2 ^ 63) \<le> n \<and> n < 2 ^ 63 then Some (f n) else None | JNull \<Rightarrow> Some t | _ \<Rightarrow> None)"

definition set_bool :: "jv \<Rightarrow> (bool \<Rightarrow> TunnelConfig) \<Rightarrow> TunnelConfig \<Rightarrow> TunnelConfig option" where
  "set_bool v f t = (case v of JBool b \<Rightarrow> Some (f b) | JNull \<Rightarrow> Some t | _ \<Rightarrow> None)"

definition set_member :: "string \<Rightarrow> jv \<Rightarrow> TunnelConfig \<Rightarrow> TunnelConfig option" where
  "set_member key v t =
     (if same_field key ''Name'' then set_str v (\<lambda>s. t\<lparr>tc_Name := s\<rparr>) t
      else if same_field key ''Type'' then set_str v (\<lambda>s. t\<lparr>tc_Type := s\<rparr>) t
      else if same_field key ''RemotePort'' then set_int v (\<lambda>n. t\<lparr>tc_RemotePort := n\<rparr>) t
      else if same_field key ''LocalIP'' then set_str v (\<lambda>s. t\<lparr>tc_LocalIP := s\<rparr>) t
      else if same_field key ''LocalPort'' then set_int v (\<lambda>n. t\<lparr>tc_LocalPort := n\<rparr>) t
      else if same_field key ''HTTPHost'' then set_str v (\<lambda>s. t\<lparr>tc_HTTPHost := s\<rparr>) t
      else if same_field key ''Enabled'' then set_bool v (\<lambda>b. t\<lparr>tc_Enabled := b\<rparr>) t
      else if same_field key ''IdleTimeout'' then set_str v (\<lambda>s. t\<lparr>tc_IdleTimeout := s\<rparr>) t
      else Some t)"

fun set_members :: "(string \<times> jv) list \<Rightarrow> TunnelConfig \<Rightarrow> TunnelConfig option" where
  "set_members [] t = Some t"
| "set_members ((k, v) # m) t = (case set_member k v t of None \<Rightarrow> None | Some t1 \<Rightarrow> set_members m t1)"

definition decode_tunnel :: "jv \<Rightarrow> TunnelConfig option" where
  "decode_tunnel v = (case v of JObj m \<Rightarrow> set_members m zero_tunnel | JNull \<Rightarrow> Some zero_tunnel | _ \<Rightarrow> None)"

definition decode_tunnels :: "jv \<Rightarrow> TunnelConfig list option" where
  "decode_tunnels v = (case v of JArr vs \<Rightarrow> those (map decode_tunnel vs) | JNull \<Rightarrow> Some [] | _ \<Rightarrow> None)"

definition config_tunnel :: "TunnelConfig \<Rightarrow> jv" where
  "config_tunnel t = JObj [(''enabled'', JBool (tc_Enabled t)), (''http_host'', JStr (tc_HTTPHost t)), (''local_ip'', JStr (tc_LocalIP t)),
     (''local_port'', JNum (tc_LocalPort t)), (''name'', JStr (tc_Name t)), (''remote_port'', JNum (tc_RemotePort t)), (''type'', JStr (tc_Type t))]"

definition GetConfig :: "API \<Rightarrow> (string, jv) gomap" where
  "GetConfig a = [(''server_addr'', JStr (ServerAddr (a_cfg a))), (''tunnels'', JArr (map config_tunnel (ClientConfig.cc_Tunnels (a_cfg a))))]"

text \<open>The configuration is changed in place, so the second component holds also after an error.\<close>

definition applyPartial :: "(string, jv) gomap \<Rightarrow> ClientConfig \<Rightarrow> api_error option \<times> ClientConfig" where
  "applyPartial partial cfg =
     (case (case mget partial ''server_addr'' of None \<Rightarrow> Some cfg | Some (JStr s) \<Rightarrow> Some (cfg\<lparr>ServerAddr := s\<rparr>) | Some _ \<Rightarrow> None) of
        None \<Rightarrow> (Some ServerAddrNotString, cfg)
      | Some c1 \<Rightarrow>
          (case mget partial ''tunnels'' of None \<Rightarrow> (None, c1)
           | Some v \<Rightarrow> (case decode_tunnels v of None \<Rightarrow> (Some TunnelsInvalid, c1) | Some ts \<Rightarrow> (None, c1\<lparr>ClientConfig.cc_Tunnels := ts\<rparr>))))"

definition persistConfig :: "toml_codec \<Rightarrow> API \<Rightarrow> 'k device \<Rightarrow> api_error option \<times> 'k device" where
  "persistConfig T a d =
     (case tm_marshal T (a_cfg a) of None \<Rightarrow> (Some MarshalConfig, d)
      | Some content \<Rightarrow> (case os_WriteFile (a_configPath a) content d of (Some _, d1) \<Rightarrow> (Some PersistFailed, d1) | (None, d1) \<Rightarrow> (None, d1)))"

text \<open>Validation in place: the defaults are filled in whether or not the checks succeed.\<close>

definition validate_in_place :: "(string \<Rightarrow> string) \<Rightarrow> API \<Rightarrow> api_error option \<times> API" where
  "validate_in_place ucase a =
     (case ValidateClient ucase (a_cfg a) of Inl e \<Rightarrow> (Some (InvalidConfig e), a\<lparr>a_cfg := fill_client (a_cfg a)\<rparr>)
      | Inr c \<Rightarrow> (None, a\<lparr>a_cfg := c\<rparr>))"

definition UpdateConfig ::
  "(string \<Rightarrow> string) \<Rightarrow> toml_codec \<Rightarrow> (string, jv) gomap \<Rightarrow> API \<Rightarrow> 'k device \<Rightarrow> api_error option \<times> API \<times> 'k device" where
  "UpdateConfig ucase T partial a d =
     (case applyPartial partial (a_cfg a) of
        (Some e, cfg) \<Rightarrow> (Some e, a\<lparr>a_cfg := cfg\<rparr>, d)
      | (None, cfg) \<Rightarrow>
          (case validate_in_place ucase (a\<lparr>a_cfg := cfg\<rparr>) of
             (Some e, a1) \<Rightarrow> (Some e, a1, d)
           | (None, a1) \<Rightarrow> (case persistConfig T a1 d of (e, d1) \<Rightarrow> (e, a1, d1))))"

definition validateTunnel :: "(string \<Rightarrow> string) \<Rightarrow> ClientConfig \<Rightarrow> TunnelConfig \<Rightarrow> api_error option" where
  "validateTunnel ucase cfg t =
     (if tc_Name t = '''' then Some TunnelNameRequired
      else case ValidateClient ucase (cfg\<lparr>ClientConfig.cc_Tunnels := [t]\<rparr>) of Inl e \<Rightarrow> Some (InvalidConfig e) | Inr _ \<Rightarrow> None)"

text \<open>The first tunnel of that name is replaced, or the tunnel is appended.\<close>

fun upsert :: "TunnelConfig \<Rightarrow> TunnelConfig list \<Rightarrow> TunnelConfig list" where
  "upsert t [] = [t]"
| "upsert t (x # xs) = (if tc_Name x = tc_Name t then t # xs else x # upsert t xs)"

definition UpsertTunnel ::
  "(string \<Rightarrow> string) \<Rightarrow> toml_codec \<Rightarrow> TunnelConfig \<Rightarrow> API \<Rightarrow> 'k device \<Rightarrow> api_error option \<times> API \<times> 'k device" where
  "UpsertTunnel ucase T t a d =
     (case validateTunnel ucase (a_cfg a) t of Some e \<Rightarrow> (Some e, a, d)
      | None \<Rightarrow>
          (let cfg = (a_cfg a)\<lparr>ClientConfig.cc_Tunnels := upsert t (ClientConfig.cc_Tunnels (a_cfg a))\<rparr>
           in case validate_in_place ucase (a\<lparr>a_cfg := cfg\<rparr>) of
                (Some e, a1) \<Rightarrow> (Some e, a1, d)
              | (None, a1) \<Rightarrow>
                  (case persistConfig T a1 d of
                     (Some e, d1) \<Rightarrow> (Some e, a1, d1) | (None, d1) \<Rightarrow> (None, emit (TunnelEvent (tc_Name t)) a1, d1))))"

definition DeleteTunnel :: "toml_codec \<Rightarrow> string \<Rightarrow> API \<Rightarrow> 'k device \<Rightarrow> api_error option \<times> API \<times> 'k device" where
  "DeleteTunnel T name a d =
     (let ts = ClientConfig.cc_Tunnels (a_cfg a)
      in if \<not> list_ex (\<lambda>t. tc_Name t = name) ts then (Some (TunnelNotFound name), a, d)
         else let a1 = a\<lparr>a_cfg := (a_cfg a)\<lparr>ClientConfig.cc_Tunnels := filter (\<lambda>t. tc_Name t \<noteq> name) ts\<rparr>\<rparr>
              in case persistConfig T a1 d of
                   (Some e, d1) \<Rightarrow> (Some e, a1, d1) | (None, d1) \<Rightarrow> (None, emit (TunnelEvent name) a1, d1))"

section \<open>Identity\<close>

record IdentityInfo =
  ii_ClientID :: string
  ii_Name :: string
  ii_ServerAddr :: string
  ii_ExpiresAt :: string
  ii_Keystore :: string
  ii_Enrolled :: bool

definition GetIdentity :: "x509_lib \<Rightarrow> object_json \<Rightarrow> (instant \<Rightarrow> string) \<Rightarrow> API \<Rightarrow> 'k device \<Rightarrow> IdentityInfo" where
  "GetIdentity X J rfc3339 a d =
     (case loadState J (a_statePath a) d of
        Inl _ \<Rightarrow> \<lparr>ii_ClientID = '''', ii_Name = '''', ii_ServerAddr = '''', ii_ExpiresAt = '''', ii_Keystore = pref_String (a_backend a), ii_Enrolled = False\<rparr>
      | Inr st \<Rightarrow>
          (let info = \<lparr>ii_ClientID = sf_ClientID st, ii_Name = '''', ii_ServerAddr = sf_ServerAddr st, ii_ExpiresAt = sf_ExpiresAt st,
                       ii_Keystore = pref_String (a_backend a), ii_Enrolled = True\<rparr>
           in case mget (dv_files d) (sf_CertPath st) of None \<Rightarrow> info
              | Some pem \<Rightarrow>
                  (case ParseCertificate X pem of Inl _ \<Rightarrow> info
                   | Inr cert \<Rightarrow> info\<lparr>ii_ExpiresAt := rfc3339 (c_NotAfter cert), ii_Name := (case c_O cert of [] \<Rightarrow> '''' | n # _ \<Rightarrow> n)\<rparr>)))"

text \<open>
  \<open>mkdir_ok\<close> tells whether the directory of the state file can be created; the other arguments are as for
  the enrolment command.
\<close>

definition api_Enroll ::
  "'k key_lib \<Rightarrow> x509_lib \<Rightarrow> object_json \<Rightarrow> (instant \<Rightarrow> string) \<Rightarrow> bool \<Rightarrow> nat option \<Rightarrow> bytes option \<Rightarrow>
   (string \<Rightarrow> enroll_options \<Rightarrow> enroll_client_error + EnrollResult) \<Rightarrow> string \<Rightarrow> string \<Rightarrow> string \<Rightarrow> API \<Rightarrow> 'k device
   \<Rightarrow> (api_error + IdentityInfo) \<times> 'k device" where
  "api_Enroll K X J rfc3339 mkdir_ok kp rnd exchange token addr name a d =
     (if token = '''' then (Inl TokenRequired, d)
      else if addr = '''' then (Inl ServerAddrRequired, d)
      else if \<not> mkdir_ok then (Inl IdentityFailed, d)
      else let dir = dir_of (a_statePath a); store = open_store K (a_secretsDir a) (a_backend a)
      in if store = OpenError then (Inl KeystoreFailed, d)
      else case kp of None \<Rightarrow> (Inl IdentityFailed, d)
      | Some key \<Rightarrow>
     (case Pki.ClientID rnd of None \<Rightarrow> (Inl IdentityFailed, d)
      | Some cid \<Rightarrow>
     (case CreateCSR X key cid name of Inl _ \<Rightarrow> (Inl IdentityFailed, d)
      | Inr csr \<Rightarrow>
     (case exchange addr \<lparr>eo_Token = token, eo_CSR = csr, eo_Meta = \<lparr>me_Name = name, me_Note = '''', me_OS = '''', me_Arch = ''''\<rparr>,
               eo_CAFingerprint = '''', eo_ClientCert = '''', eo_ClientKey = None\<rparr> of
        Inl e \<Rightarrow> (Inl (EnrollFailed e), d)
      | Inr res \<Rightarrow>
     (case kl_marshal K key of None \<Rightarrow> (Inl IdentityFailed, d)
      | Some keyPEM \<Rightarrow>
     (case kl_set K store (a_secretsDir a) ''client-key'' keyPEM (dv_keys d) of
        (ks, Some _) \<Rightarrow> (Inl IdentityFailed, d\<lparr>dv_keys := ks\<rparr>)
      | (ks, None) \<Rightarrow>
     (case os_WriteFile (dir @ ''client.crt'') (er_ClientCertPEM res) (d\<lparr>dv_keys := ks\<rparr>) of
        (Some _, d1) \<Rightarrow> (Inl IdentityFailed, d1)
      | (None, d1) \<Rightarrow>
     (case os_WriteFile (dir @ ''ca.crt'') (er_CACertPEM res) d1 of
        (Some _, d2) \<Rightarrow> (Inl IdentityFailed, d2)
      | (None, d2) \<Rightarrow>
     (case oj_marshal J [(''ca_fingerprint'', er_CAFingerprint res), (''cert_path'', dir @ ''client.crt''), (''client_id'', er_ClientID res),
               (''expires_at'', rfc3339 (er_ExpiresAt res)), (''server_addr'', addr)] of
        None \<Rightarrow> (Inl IdentityFailed, d2)
      | Some content \<Rightarrow>
     (case os_WriteFile (a_statePath a) content d2 of
        (Some _, d3) \<Rightarrow> (Inl IdentityFailed, d3)
      | (None, d3) \<Rightarrow> (Inr (GetIdentity X J rfc3339 a d3), d3)))))))))))"

definition GetStats :: "(nat \<Rightarrow> MetSnapshot) \<Rightarrow> MetSnapshot \<Rightarrow> API \<Rightarrow> MetSnapshot" where
  "GetStats stats none a = (case a_client a of None \<Rightarrow> none | Some k \<Rightarrow> stats k)"

section \<open>The desktop program\<close>

text \<open>A missing configuration is created with the defaults; errors of writing it are ignored.\<close>

definition desktop_main :: "(string \<Rightarrow> string) \<Rightarrow> toml_codec \<Rightarrow> 'k device \<Rightarrow> (api_error + API) \<times> 'k device" where
  "desktop_main ucase T d =
     (let dir = user_dir d @ ''qoqtun/'';
          cfgPath = dir @ ''client.toml'';
          d1 = (if mget (dv_files d) cfgPath = None
                then (case tm_marshal T DefaultClientConfig of None \<Rightarrow> d | Some content \<Rightarrow> snd (os_WriteFile cfgPath content d))
                else d)
      in (api_New ucase T cfgPath (dir @ ''state.json'') (dir @ ''secrets'') BackendAuto d1, d1))"

definition commandString :: "string list \<Rightarrow> string" where
  "commandString cmd = fold (\<lambda>(i, c) out. out @ (if 0 < i then '' '' else []) @ (if CHR '' '' \<in> set c then CHR 0x22 # c @ [CHR 0x22] else c)) (enumerate 0 cmd) []"

text \<open>The autostart entry on Linux.\<close>

definition autostartPath :: "'k device \<Rightarrow> string" where
  "autostartPath d = user_dir d @ ''autostart/qoqtun-desktop.desktop''"

definition nl :: string where
  "nl = [CHR 0x0A]"

definition autostartInstall :: "string \<Rightarrow> string list \<Rightarrow> 'k device \<Rightarrow> bool \<times> 'k device" where
  "autostartInstall app cmd d =
     (if app = '''' \<or> cmd = [] then (False, d)
      else case os_WriteFile (autostartPath d) (''[Desktop Entry]'' @ nl @ ''Type=Application'' @ nl @ ''Name=qoqtun'' @ nl @ ''Exec='' @ commandString cmd @ nl @
                 ''X-GNOME-Autostart-enabled=true'' @ nl) d of (e, d1) \<Rightarrow> (e = None, d1))"

definition autostartRemove :: "'k device \<Rightarrow> 'k device" where
  "autostartRemove d = d\<lparr>dv_files := mdel (autostartPath d) (dv_files d)\<rparr>"

definition autostartEnabled :: "'k device \<Rightarrow> bool" where
  "autostartEnabled d \<longleftrightarrow> mget (dv_files d) (autostartPath d) \<noteq> None"

section \<open>Runs\<close>

text \<open>The facade's life: calls of Start and Stop, and runs that end.\<close>

inductive api_step :: "'k key_lib \<Rightarrow> x509_lib \<Rightarrow> object_json \<Rightarrow> API \<Rightarrow> API \<Rightarrow> bool" for K X J where
  call_start: "api_Start K X J d a = (e, a1) \<Longrightarrow> api_step K X J a a1"
| call_stop: "api_step K X J a (api_Stop a)"
| run_ends: "mget (a_runs a) k \<noteq> None \<Longrightarrow> api_step K X J a (run_exit k err a)"

inductive api_reach :: "'k key_lib \<Rightarrow> x509_lib \<Rightarrow> object_json \<Rightarrow> API \<Rightarrow> API \<Rightarrow> bool" for K X J where
  reach_here: "api_reach K X J a a"
| reach_step: "api_reach K X J a b \<Longrightarrow> api_step K X J b c \<Longrightarrow> api_reach K X J a c"

lemma emit_frame [simp]:
  "a_client (emit e a) = a_client a" "a_cancel (emit e a) = a_cancel a" "a_runs (emit e a) = a_runs a" "a_next (emit e a) = a_next a"
  "length (a_events a) \<le> 128 \<Longrightarrow> length (a_events (emit e a)) \<le> 128" "a_cfg (emit e a) = a_cfg a" "a_statePath (emit e a) = a_statePath a"
  "a_secretsDir (emit e a) = a_secretsDir a" "a_backend (emit e a) = a_backend a"
  by (simp_all add: emit_def)

definition api_inv :: "API \<Rightarrow> bool" where
  "api_inv a \<longleftrightarrow> a_cancel a = a_client a \<and> list_all (\<lambda>e. fst e < a_next a) (a_runs a) \<and> length (a_events a) \<le> 128 \<and>
     (case a_client a of None \<Rightarrow> True | Some k \<Rightarrow> (case mget (a_runs a) k of None \<Rightarrow> False | Some r \<Rightarrow> \<not> ru_cancelled r))"

lemma Start_ok:
  assumes "api_Start K X J d a = (None, a1)"
  shows "a_client a = None \<and> a_client a1 = Some (a_next a) \<and> a_cancel a1 = Some (a_next a) \<and> a_next a1 = a_next a + 1 \<and>
     (\<exists>r. a_runs a1 = mput (a_next a) r (a_runs a) \<and> \<not> ru_cancelled r)"
  using assms by (auto simp: api_Start_def Let_def split: if_splits sum.splits option.splits)

lemma Start_failed: "api_Start K X J d a = (Some e, a1) \<Longrightarrow> a1 = a"
  by (auto simp: api_Start_def Let_def split: if_splits sum.splits option.splits)

lemma Start_events: "api_Start K X J d a = (e, a1) \<Longrightarrow> length (a_events a) \<le> 128 \<Longrightarrow> length (a_events a1) \<le> 128"
  by (auto simp: api_Start_def Let_def split: if_splits sum.splits option.splits)

lemma list_all_mput: "list_all P m \<Longrightarrow> P (k, v) \<Longrightarrow> list_all P (mput k v m)"
  using set_mput_subset by (fastforce simp: list_all_iff)

lemma list_all_mdel: "list_all P m \<Longrightarrow> list_all P (mdel k m)"
  by (auto simp: list_all_iff AList.delete_eq)


lemma api_inv_step:
  assumes "api_step K X J a b" and "api_inv a"
  shows "api_inv b"
  using assms(1)
proof cases
  case (call_start d e)
  show ?thesis
  proof (cases e)
    case None
    with call_start Start_ok [of K X J d a b] Start_events [of K X J d a e b] assms(2) show ?thesis
      by (fastforce simp: api_inv_def list_all_iff dest!: set_mput_subset)
  next
    case (Some x)
    with call_start Start_failed assms(2) show ?thesis by blast
  qed
next
  case call_stop
  then show ?thesis using assms(2)
    by (fastforce simp: api_inv_def api_Stop_def cancel_run_def list_all_iff dest!: set_mput_subset dest: mget_in_set split: option.splits)
next
  case (run_ends k err)
  then show ?thesis using assms(2) by (auto simp: api_inv_def run_exit_def Let_def list_all_mdel)
qed

text \<open>
  C34: Whatever calls and endings follow each other after the facade was created, the client it holds is one
  whose run is in progress and not cancelled, its cancel function is that run's, run numbers are not
  reused and the event queue stays within its capacity.
\<close>

theorem api_run_invariant:
  assumes "api_New ucase T configPath statePath secretsDir backend d = Inr a" and "api_reach K X J a b"
  shows "a_cancel b = a_client b \<and> length (a_events b) \<le> 128 \<and> (\<forall>k r. mget (a_runs b) k = Some r \<longrightarrow> k < a_next b) \<and>
     (\<forall>k. a_client b = Some k \<longrightarrow> (\<exists>r. mget (a_runs b) k = Some r \<and> \<not> ru_cancelled r \<and> su_Running (api_Status b)))"
proof -
  from assms(1) have "api_inv a" by (auto simp: api_New_def api_inv_def split: sum.splits)
  from assms(2) this have "api_inv b" by (induction rule: api_reach.induct) (auto intro: api_inv_step)
  moreover have "k < a_next b" if "api_inv b" "mget (a_runs b) k = Some r" for k r
    using that mget_in_set [OF that(2)] by (force simp: api_inv_def list_all_iff)
  ultimately show ?thesis by (auto simp: api_inv_def api_Status_def held_run_def split: option.splits)
qed

text \<open>
  The end of a run clears the facade's client whichever run that is. When a stopped run ends only after
  the next one was started, the facade forgets the running client: the status says stopped, a further
  Stop does nothing, the client goes on uncancelled, and another Start is possible and starts a second
  client with the same identity.
\<close>

theorem stale_exit_forgets_client:
  assumes "api_Start K X J d a = (None, a1)" and "api_Start K X J d (api_Stop a1) = (None, a2)" and "a3 = run_exit (a_next a) err a2"
  shows "api_Status a3 = stopped_status \<and> api_Stop a3 = a3 \<and>
     (\<exists>r. mget (a_runs a3) (a_next a + 1) = Some r \<and> \<not> ru_cancelled r) \<and>
     (\<exists>a4. api_Start K X J d a3 = (None, a4) \<and> a_client a4 = Some (a_next a + 2) \<and>
        (\<exists>r. mget (a_runs a4) (a_next a + 1) = Some r \<and> \<not> ru_cancelled r))"
proof -
  have same: "api_Start K X J d a' = (None, b) \<Longrightarrow> a_client a'' = None \<Longrightarrow> a_statePath a'' = a_statePath a' \<Longrightarrow> a_secretsDir a'' = a_secretsDir a' \<Longrightarrow>
      a_backend a'' = a_backend a' \<Longrightarrow> \<exists>b'. api_Start K X J d a'' = (None, b')" for a' a'' b
    by (auto simp: api_Start_def Let_def split: if_splits sum.splits option.splits)
  note s1 = Start_ok [OF assms(1)] and s2 = Start_ok [OF assms(2)]
  have n: "a_next (api_Stop a1) = a_next a + 1" using s1 by (simp add: api_Stop_def cancel_run_def split: option.split)
  obtain r where r: "a_runs a2 = mput (a_next a + 1) r (a_runs (api_Stop a1))" "\<not> ru_cancelled r" using s2 n by auto
  have a3: "a_client a3 = None" "a_runs a3 = mdel (a_next a) (a_runs a2)" "a_next a3 = a_next a + 2"
    using s2 n by (simp_all add: assms(3) run_exit_def Let_def)
  have paths: "a_statePath a2 = a_statePath (api_Stop a1)" "a_secretsDir a2 = a_secretsDir (api_Stop a1)" "a_backend a2 = a_backend (api_Stop a1)"
    using assms(2) by (auto simp: api_Start_def Let_def split: if_splits sum.splits option.splits)
  have "a_statePath a3 = a_statePath a2" "a_secretsDir a3 = a_secretsDir a2" "a_backend a3 = a_backend a2"
    by (simp_all add: assms(3) run_exit_def Let_def)
  then obtain a4 where a4: "api_Start K X J d a3 = (None, a4)" using same [OF assms(2) a3(1)] paths by auto
  have live: "mget (a_runs a3) (a_next a + 1) = Some r" by (simp add: a3(2) r(1))
  then show ?thesis
    using a3 r(2) a4 Start_ok [OF a4] by (auto simp: api_Status_def held_run_def api_Stop_def)
qed


section \<open>The configuration given back\<close>

lemma decode_config_tunnel:
  "decode_tunnel (config_tunnel t) = Some (zero_tunnel\<lparr>tc_Name := tc_Name t, tc_Type := tc_Type t, tc_Enabled := tc_Enabled t\<rparr>)"
proof -
  have keys: "same_field ''enabled'' ''Enabled''" "same_field ''name'' ''Name''" "same_field ''type'' ''Type''"
    "\<forall>k\<in>{''http_host'', ''local_ip'', ''local_port'', ''remote_port''}.
       \<forall>f\<in>{''Name'', ''Type'', ''RemotePort'', ''LocalIP'', ''LocalPort'', ''HTTPHost'', ''Enabled'', ''IdleTimeout''}. \<not> same_field k f"
    "\<not> same_field ''enabled'' ''Name''" "\<not> same_field ''enabled'' ''Type''" "\<not> same_field ''enabled'' ''RemotePort''" "\<not> same_field ''enabled'' ''LocalIP''"
    "\<not> same_field ''enabled'' ''LocalPort''" "\<not> same_field ''enabled'' ''HTTPHost''" "\<not> same_field ''type'' ''Name''" by code_simp+
  then show ?thesis
    by (simp add: decode_tunnel_def config_tunnel_def set_member_def set_str_def set_int_def set_bool_def)
qed

lemma those_map_Some: "(\<And>x. f (g x) = Some (h x)) \<Longrightarrow> those (map f (map g xs)) = Some (map h xs)"
  by (induction xs) simp_all

lemma tunnels_bad_no_port:
  assumes "tc_LocalPort t = 0" and "t \<in> set ts"
  shows "tunnels_bad seen ts \<noteq> None"
proof
  assume "tunnels_bad seen ts = None"
  from tunnels_bad_None [OF this] assms(2) obtain s where "list_all fst (tunnel_checks s t)" by blast
  then show False using assms(1) by (auto simp: tunnel_checks_def checkRange_def)
qed

lemma fill_client_tunnels: "ClientConfig.cc_Tunnels (fill_client c) = ClientConfig.cc_Tunnels c"
  by (simp add: fill_client_def)

lemma bad_tunnels_refused:
  assumes "tunnels_bad [] (ClientConfig.cc_Tunnels c) \<noteq> None"
  shows "\<exists>x. ValidateClient ucase c = Inl x"
  using assms by (auto simp: ValidateClient_def Let_def fill_client_tunnels split: option.split)

text \<open>
  The configuration as the facade hands it out cannot be handed back: its tunnels name the ports, the
  address and the host by the keys of the file, which the decoder for an update does not know. An
  unchanged configuration with a tunnel is refused, and because the update works in place, the facade's
  own configuration has by then lost the ports, addresses and hosts of all tunnels, which the next
  successful change writes to the file.
\<close>

theorem config_given_back:
  assumes "ClientConfig.cc_Tunnels (a_cfg a) \<noteq> []" and "UpdateConfig ucase T (GetConfig a) a d = (e, a1, d1)"
  shows "e \<noteq> None \<and> d1 = d \<and> ClientConfig.cc_Tunnels (a_cfg a1) =
     map (\<lambda>t. zero_tunnel\<lparr>tc_Name := tc_Name t, tc_Type := tc_Type t, tc_Enabled := tc_Enabled t\<rparr>) (ClientConfig.cc_Tunnels (a_cfg a))"
proof -
  let ?lost = "\<lambda>t. zero_tunnel\<lparr>tc_Name := tc_Name t, tc_Type := tc_Type t, tc_Enabled := tc_Enabled t\<rparr>"
  let ?ts = "map ?lost (ClientConfig.cc_Tunnels (a_cfg a))"
  have "applyPartial (GetConfig a) (a_cfg a) = (None, (a_cfg a)\<lparr>ClientConfig.cc_Tunnels := ?ts\<rparr>)"
    using those_map_Some [of decode_tunnel config_tunnel, OF decode_config_tunnel]
    by (simp add: applyPartial_def GetConfig_def decode_tunnels_def)
  moreover obtain t ts where "ClientConfig.cc_Tunnels (a_cfg a) = t # ts" using assms(1) by (cases "ClientConfig.cc_Tunnels (a_cfg a)") auto
  then have "tunnels_bad [] ?ts \<noteq> None" using tunnels_bad_no_port [of "?lost t" ?ts "[]"] by (simp add: zero_tunnel_def)
  then have "\<exists>x. ValidateClient ucase ((a_cfg a)\<lparr>ClientConfig.cc_Tunnels := ?ts\<rparr>) = Inl x"
    by (intro bad_tunnels_refused) simp
  ultimately show ?thesis
    using assms(2) by (auto simp: UpdateConfig_def validate_in_place_def fill_client_tunnels)
qed

lemma desktop_main_result:
  "desktop_main ucase T d =
     (api_New ucase T (user_dir d @ ''qoqtun/client.toml'') (user_dir d @ ''qoqtun/state.json'') (user_dir d @ ''qoqtun/secrets'') BackendAuto
        (snd (desktop_main ucase T d)), snd (desktop_main ucase T d))"
  by (simp add: desktop_main_def Let_def)

text \<open>
  The desktop program cannot be started for the first time: the configuration it creates has no server
  address, which the validation of the facade then requires. It ends with an error, and so it does at
  every later start as long as nobody edits the file.
\<close>

theorem desktop_first_run_fails:
  assumes toml: "\<forall>c content. tm_marshal T c = Some content \<longrightarrow> tm_unmarshal T content = Some c"
    and fresh: "mget (dv_files d) (user_dir d @ ''qoqtun/client.toml'') = None"
  shows "\<exists>e d1. desktop_main ucase T d = (Inl e, d1) \<and> (\<exists>e2. desktop_main ucase T d1 = (Inl e2, d1))"
proof -
  let ?path = "user_dir d @ ''qoqtun/client.toml''"
  have bad: "\<exists>x. ValidateClient ucase DefaultClientConfig = Inl x"
    by (simp add: ValidateClient_def Let_def fill_client_def client_checks_def DefaultClientConfig_def)
  have fails: "\<exists>e. api_New ucase T ?path s k b d' = Inl e" if "mget (dv_files d') ?path = None \<or> (\<exists>content. mget (dv_files d') ?path = Some content \<and> tm_unmarshal T content = Some DefaultClientConfig)"
    for s k b and d' :: "'a device"
    using that bad by (auto simp: api_New_def api_loadConfig_def split: sum.splits)
  define d1 where "d1 = snd (desktop_main ucase T d)"
  have home: "user_dir d1 = user_dir d" by (auto simp: d1_def desktop_main_def os_WriteFile_def user_dir_def Let_def split: option.splits)
  have d1: "mget (dv_files d1) ?path = None \<and> d1 = d \<and> (tm_marshal T DefaultClientConfig = None \<or> \<not> dv_writable d ?path) \<or>
      (\<exists>content. mget (dv_files d1) ?path = Some content \<and> tm_unmarshal T content = Some DefaultClientConfig)"
    using fresh toml by (auto simp: d1_def desktop_main_def os_WriteFile_def Let_def split: option.splits)
  have d1_fails: "\<exists>e. api_New ucase T ?path s k b d1 = Inl e" for s k b using fails d1 by blast
  have "\<exists>e. desktop_main ucase T d = (Inl e, d1)"
    using d1_fails desktop_main_result [of ucase T d] unfolding d1_def [symmetric] by metis
  moreover have "snd (desktop_main ucase T d1) = d1"
    using d1 by (auto simp: desktop_main_def home os_WriteFile_def Let_def split: option.splits)
  then have "\<exists>e2. desktop_main ucase T d1 = (Inl e2, d1)"
    using d1_fails desktop_main_result [of ucase T d1] unfolding home by metis
  ultimately show ?thesis by blast
qed


section \<open>A sample desktop\<close>

definition good_cfg :: ClientConfig where
  "good_cfg = DefaultClientConfig\<lparr>ServerAddr := ''srv.example.com:7000'', ClientConfig.cc_Tunnels := [\<lparr>tc_Name = ''web'', tc_Type = ''tcp'', tc_RemotePort = 8080,
     tc_LocalIP = ''127.0.0.1'', tc_LocalPort = 80, tc_HTTPHost = '''', tc_Enabled = True, tc_IdleTimeout = ''''\<rparr>]\<rparr>"

definition two_configs :: toml_codec where
  "two_configs = \<lparr>tm_marshal = (\<lambda>c. if c = DefaultClientConfig then Some ''d'' else if c = good_cfg then Some ''g'' else None),
     tm_unmarshal = (\<lambda>s. if s = ''d'' then Some DefaultClientConfig else if s = ''g'' then Some good_cfg else None)\<rparr>"

definition one_object :: object_json where
  "one_object = \<lparr>oj_marshal = (\<lambda>_. None), oj_unmarshal = (\<lambda>_. Some [(''client_id'', ''cl_a''), (''cert_path'', ''/c/client.crt'')])\<rparr>"

definition enrolled_device :: "unit device" where
  "enrolled_device = \<lparr>dv_files = [(''/c/client.toml'', ''g''), (''/c/state.json'', ''s''), (''/c/ca.crt'', plain_pem ''CERTIFICATE'' [9]), (''/c/client.crt'', ''x'')],
     dv_keys = (), dv_home = Some ''/c'', dv_host = None, dv_writable = (\<lambda>_. True)\<rparr>"

abbreviation sample_New :: "api_error + API" where
  "sample_New \<equiv> api_New id two_configs ''/c/client.toml'' ''/c/state.json'' ''/c/secrets'' BackendAuto enrolled_device"

lemma sample_api: "\<exists>a. sample_New = Inr a \<and> ClientConfig.cc_Tunnels (a_cfg a) \<noteq> [] \<and> a_client a = None \<and> a_next a = 0 \<and> a_runs a = [] \<and> a_statePath a = ''/c/state.json'' \<and> a_backend a = BackendAuto"
proof -
  have "case ValidateClient id good_cfg of Inr c \<Rightarrow> ClientConfig.cc_Tunnels c \<noteq> [] | Inl _ \<Rightarrow> False" by code_simp
  moreover have "tm_unmarshal two_configs ''g'' = Some good_cfg" by (simp add: two_configs_def)
  ultimately show ?thesis by (auto simp: api_New_def api_loadConfig_def enrolled_device_def split: sum.splits)
qed

lemma sample_Start:
  assumes "a_client a = None" and "a_statePath a = ''/c/state.json''" and "a_backend a = BackendAuto"
  shows "\<exists>a1. api_Start one_key sample_x509 one_object enrolled_device a = (None, a1)"
proof -
  have "dir_of ''/c/state.json'' = ''/c/''" by code_simp
  then show ?thesis
    using assms by (simp add: api_Start_def loadState_def loadCA_def loadKey_def field_def one_object_def enrolled_device_def one_key_def granted_parsed
        open_store_def OpenWithPref_def Let_def)
qed

theorem api_run_invariant_witness:
  "\<exists>a b. sample_New = Inr a \<and> api_reach one_key sample_x509 one_object a b \<and> a_client b = Some 0 \<and> su_Running (api_Status b)"
proof -
  obtain a where a: "sample_New = Inr a" "a_client a = None" "a_statePath a = ''/c/state.json''" "a_backend a = BackendAuto" "a_next a = 0"
    using sample_api by blast
  obtain a1 where a1: "api_Start one_key sample_x509 one_object enrolled_device a = (None, a1)" using sample_Start [OF a(2-4)] by blast
  have r: "api_reach one_key sample_x509 one_object a a1" using reach_step [OF reach_here] call_start [OF a1] by blast
  from api_run_invariant [OF a(1) r] Start_ok [OF a1] a(1,5) r show ?thesis by auto
qed

theorem stale_exit_forgets_client_witness:
  "\<exists>a a1 a2 r. sample_New = Inr a \<and> api_Start one_key sample_x509 one_object enrolled_device a = (None, a1) \<and>
     api_Start one_key sample_x509 one_object enrolled_device (api_Stop a1) = (None, a2) \<and>
     api_Status (run_exit 0 None a2) = stopped_status \<and> mget (a_runs (run_exit 0 None a2)) 1 = Some r \<and> \<not> ru_cancelled r"
proof -
  obtain a where a: "sample_New = Inr a" "a_client a = None" "a_statePath a = ''/c/state.json''" "a_backend a = BackendAuto" "a_next a = 0"
    using sample_api by blast
  obtain a1 where a1: "api_Start one_key sample_x509 one_object enrolled_device a = (None, a1)" using sample_Start [OF a(2-4)] by blast
  have "a_client (api_Stop a1) = None" "a_statePath (api_Stop a1) = ''/c/state.json''" "a_backend (api_Stop a1) = BackendAuto"
    using a1 a(3,4) by (auto simp: api_Stop_def cancel_run_def api_Start_def Let_def split: if_splits sum.splits option.splits)
  then obtain a2 where a2: "api_Start one_key sample_x509 one_object enrolled_device (api_Stop a1) = (None, a2)" using sample_Start by blast
  from stale_exit_forgets_client [OF a1 a2 refl, of None] a(1,5) a1 a2 show ?thesis by auto
qed

theorem config_given_back_witness:
  "\<exists>a e a1 d1. sample_New = Inr a \<and> UpdateConfig id two_configs (GetConfig a) a enrolled_device = (e, a1, d1) \<and> e \<noteq> None \<and>
     ClientConfig.cc_Tunnels (a_cfg a1) \<noteq> ClientConfig.cc_Tunnels good_cfg"
proof -
  obtain a where a: "sample_New = Inr a" "ClientConfig.cc_Tunnels (a_cfg a) \<noteq> []" using sample_api by blast
  obtain e a1 d1 where r: "UpdateConfig id two_configs (GetConfig a) a enrolled_device = (e, a1, d1)" by (metis prod.collapse)
  from config_given_back [OF a(2) r] a(1) r show ?thesis
    by (auto simp: good_cfg_def zero_tunnel_def Cons_eq_map_conv)
qed

theorem desktop_first_run_fails_witness:
  "\<exists>e d1. desktop_main id two_configs (enrolled_device\<lparr>dv_files := []\<rparr>) = (Inl e, d1)"
proof -
  have "\<forall>c content. tm_marshal two_configs c = Some content \<longrightarrow> tm_unmarshal two_configs content = Some c" by (simp add: two_configs_def)
  from desktop_first_run_fails [OF this, of "enrolled_device\<lparr>dv_files := []\<rparr>" id] show ?thesis by auto
qed

end
