(* ===== verification/Platform.thy ===== *)
theory Platform
  imports CoreApi
begin

text \<open>
  The parts that differ between operating systems: the keyring backend of the key store
  (\<^verbatim>\<open>internal/platform/keystore/keyring.go\<close>), ownership and access lists on Windows (\<^verbatim>\<open>windows.go\<close>), and the
  autostart entry on the three systems (\<^verbatim>\<open>internal/platform/desktop\<close>). The keyring library and the
  Windows calls are arguments.

  The lemmas show that the keyring is a store in the sense of the part of the interface that the client
  uses, that a client's key survives exactly as long as the same backend is chosen again, and that the
  autostart entries of all systems follow one contract.
\<close>

section \<open>The keyring backend (keyring.go)\<close>

datatype goos = Windows | Darwin | Linux | OtherOS

datatype kr_backend = WinCredBackend | KeychainBackend | SecretServiceBackend

fun allowedBackends :: "goos \<Rightarrow> kr_backend list" where
  "allowedBackends Windows = [WinCredBackend]"
| "allowedBackends Darwin = [KeychainBackend]"
| "allowedBackends Linux = [SecretServiceBackend]"
| "allowedBackends OtherOS = []"

text \<open>\<open>opens\<close> is whether the library can open one of the backends.\<close>

definition openKeyring :: "goos \<Rightarrow> (kr_backend list \<Rightarrow> bool) \<Rightarrow> bool" where
  "openKeyring os opens = (case allowedBackends os of [] \<Rightarrow> False | backends \<Rightarrow> opens backends)"

record 'r keyring_lib =
  kr_Get :: "string \<Rightarrow> 'r \<Rightarrow> kr_error + bytes"
  kr_Set :: "string \<Rightarrow> bytes \<Rightarrow> 'r \<Rightarrow> 'r \<times> kr_error option"
  kr_Remove :: "string \<Rightarrow> 'r \<Rightarrow> 'r \<times> kr_error option"

definition krs_Get :: "'r keyring_lib \<Rightarrow> string \<Rightarrow> 'r \<Rightarrow> ks_error + bytes" where
  "krs_Get L i r =
     (if \<not> validID i then Inl InvalidStoreID
      else case kr_Get L i r of
             Inl e \<Rightarrow> if e = ErrKeyNotFound then Inl NotFound else Inl (KeyringFailed e)
           | Inr data \<Rightarrow> Inr data)"

definition krs_Set :: "'r keyring_lib \<Rightarrow> string \<Rightarrow> bytes \<Rightarrow> 'r \<Rightarrow> 'r \<times> ks_error option" where
  "krs_Set L i data r = (if \<not> validID i then (r, Some InvalidStoreID) else apsnd (map_option KeyringFailed) (kr_Set L i data r))"

definition krs_Delete :: "'r keyring_lib \<Rightarrow> string \<Rightarrow> 'r \<Rightarrow> 'r \<times> ks_error option" where
  "krs_Delete L i r = (if \<not> validID i then (r, Some InvalidStoreID) else apsnd (map_option KeyringFailed) (kr_Remove L i r))"

definition krs_List :: "'r \<Rightarrow> ks_error + string list" where
  "krs_List r = Inl ListUnsupported"

text \<open>
  What the library documents, over a view of the ring's items: reading or removing an item that is not
  there is \<^const>\<open>ErrKeyNotFound\<close>.
\<close>

definition keyring_law :: "'r keyring_lib \<Rightarrow> ('r \<Rightarrow> string \<Rightarrow> bytes option) \<Rightarrow> bool" where
  "keyring_law L view \<longleftrightarrow>
     (\<forall>i r. kr_Get L i r = (case view r i of None \<Rightarrow> Inl ErrKeyNotFound | Some data \<Rightarrow> Inr data)) \<and>
     (\<forall>i data r. snd (kr_Set L i data r) = None \<and> view (fst (kr_Set L i data r)) = (view r)(i \<mapsto> data)) \<and>
     (\<forall>i r. snd (kr_Remove L i r) = (if view r i = None then Some ErrKeyNotFound else None) \<and>
        view (fst (kr_Remove L i r)) = (view r)(i := None))"

lemma keyring_lawD:
  assumes "keyring_law L view"
  shows "kr_Get L i r = (case view r i of None \<Rightarrow> Inl ErrKeyNotFound | Some data \<Rightarrow> Inr data)"
    and "\<exists>r'. kr_Set L i data r = (r', None) \<and> view r' = (view r)(i \<mapsto> data)"
    and "\<exists>r'. kr_Remove L i r = (r', if view r i = None then Some ErrKeyNotFound else None) \<and> view r' = (view r)(i := None)"
proof -
  note law = assms [unfolded keyring_law_def]
  show "kr_Get L i r = (case view r i of None \<Rightarrow> Inl ErrKeyNotFound | Some data \<Rightarrow> Inr data)" using law [THEN conjunct1] by blast
  have "snd (kr_Set L i data r) = None \<and> view (fst (kr_Set L i data r)) = (view r)(i \<mapsto> data)"
    using law [THEN conjunct2, THEN conjunct1] by blast
  then show "\<exists>r'. kr_Set L i data r = (r', None) \<and> view r' = (view r)(i \<mapsto> data)" by (cases "kr_Set L i data r") simp
  have "snd (kr_Remove L i r) = (if view r i = None then Some ErrKeyNotFound else None) \<and> view (fst (kr_Remove L i r)) = (view r)(i := None)"
    using law [THEN conjunct2, THEN conjunct2] by blast
  then show "\<exists>r'. kr_Remove L i r = (r', if view r i = None then Some ErrKeyNotFound else None) \<and> view r' = (view r)(i := None)"
    by (cases "kr_Remove L i r") simp
qed

lemma keyring_slots:
  assumes "keyring_law L view"
  shows "key_slots (krs_Get L) (krs_Set L) (\<lambda>_. True) view"
proof
  fix r i data
  show "krs_Get L i r = (if \<not> validID i then Inl InvalidStoreID else case view r i of None \<Rightarrow> Inl NotFound | Some data \<Rightarrow> Inr data)"
    by (simp add: krs_Get_def keyring_lawD(1) [OF assms] split: option.split)
  show "krs_Set L i data r = (r, Some InvalidStoreID)" if "\<not> validID i" using that by (simp add: krs_Set_def)
  show "\<exists>r'. krs_Set L i data r = (r', None) \<and> True \<and> view r' = (view r)(i \<mapsto> data)" if "validID i"
    using that keyring_lawD(2) [OF assms, of i data r] by (auto simp: krs_Set_def)
qed

text \<open>The interface promises that deleting a missing entry is no error; the keyring backend reports one.\<close>

lemma keyring_delete_missing:
  "keyring_law L view \<Longrightarrow> validID i \<Longrightarrow> view r i = None \<Longrightarrow> snd (krs_Delete L i r) = Some (KeyringFailed ErrKeyNotFound)"
  using keyring_lawD(3) [of L view i r] by (auto simp: krs_Delete_def)

section \<open>The client's key\<close>

text \<open>Private keys are PEM texts for the commands and byte sequences for the stores.\<close>

definition octets :: "string \<Rightarrow> bytes" where
  "octets s = map (\<lambda>c. of_nat (code c)) s"

definition text_of :: "bytes \<Rightarrow> string" where
  "text_of bs = map (\<lambda>b. char_of (unat b)) bs"

lemma text_octets [simp]: "text_of (octets s) = s"
proof -
  have "char_of (unat (of_nat (code c) :: byte)) = c" for c
    using code_less [of c] by (simp add: unat_of_nat code_def)
  then show ?thesis by (induction s) (simp_all add: octets_def text_of_def)
qed

text \<open>The stores of one machine: the ring, and a directory for every path.\<close>

record 'r key_stores =
  ks_ring :: 'r
  ks_dir :: "string \<Rightarrow> folder"

definition stores_get :: "'r keyring_lib \<Rightarrow> opened_store \<Rightarrow> string \<Rightarrow> string \<Rightarrow> 'r key_stores \<Rightarrow> ks_error + string" where
  "stores_get L store dir i k =
     (case store of
        KeyringStore \<Rightarrow> map_sum id text_of (krs_Get L i (ks_ring k))
      | _ \<Rightarrow> map_sum id text_of (fs_Get all_well i (ks_dir k dir)))"

definition stores_set :: "'r keyring_lib \<Rightarrow> opened_store \<Rightarrow> string \<Rightarrow> string \<Rightarrow> string \<Rightarrow> 'r key_stores \<Rightarrow> 'r key_stores \<times> ks_error option" where
  "stores_set L store dir i pem k =
     (case store of
        KeyringStore \<Rightarrow> (let (r, e) = krs_Set L i (octets pem) (ks_ring k) in (k\<lparr>ks_ring := r\<rparr>, e))
      | _ \<Rightarrow> (let (d, e) = fs_Set all_well (long_tmp (ks_dir k dir)) i (octets pem) (ks_dir k dir) in (k\<lparr>ks_dir := (ks_dir k)(dir := d)\<rparr>, e)))"

definition stores_lib ::
  "'r keyring_lib \<Rightarrow> bool \<Rightarrow> (string \<Rightarrow> bool) \<Rightarrow> (nat \<Rightarrow> string option) \<Rightarrow> (string \<Rightarrow> nat option) \<Rightarrow> 'r key_stores key_lib" where
  "stores_lib L ring dirs marshal parse =
     \<lparr>kl_keyring = ring, kl_dir_ok = dirs, kl_get = stores_get L, kl_set = stores_set L, kl_marshal = marshal, kl_parse = parse\<rparr>"


lemma stores_other:
  assumes "stores_set L store dir i pem k = (k', e)" and "{store, store'} = {KeyringStore, HardenedFile}"
  shows "stores_get L store' dir' j k' = stores_get L store' dir' j k"
  using assms by (auto simp: stores_set_def stores_get_def doubleton_eq_iff split: prod.splits)

lemma stores_kept:
  assumes law: "keyring_law L view" and ok: "fs_ok (ks_dir k dir)" and run: "stores_set L store dir i pem k = (k', None)"
    and "store \<noteq> OpenError"
  shows "stores_get L store dir i k' = Inr pem"
proof (cases store)
  case KeyringStore
  obtain r where "krs_Set L i (octets pem) (ks_ring k) = (r, None)" "k' = k\<lparr>ks_ring := r\<rparr>"
    using run by (auto simp: stores_set_def KeyringStore split: prod.splits)
  then show ?thesis
    using key_slots.put_stored [OF keyring_slots [OF law], where s = "ks_ring k" and i = i and data = "octets pem" and s' = r] by (simp add: stores_get_def KeyringStore)
next
  case HardenedFile
  obtain f where "fs_Set all_well (long_tmp (ks_dir k dir)) i (octets pem) (ks_dir k dir) = (f, None)" "k' = k\<lparr>ks_dir := (ks_dir k)(dir := f)\<rparr>"
    using run by (auto simp: stores_set_def HardenedFile split: prod.splits)
  then show ?thesis using well.put_stored [OF ok, where i = i and data = "octets pem" and s' = f] by (simp add: stores_get_def HardenedFile)
qed (use assms(4) in simp)

lemma CertInit_stored:
  assumes "runCertInit K X (Some key) rnd name csrOut secretsDir pref d = (Inr cid, d1)" and "kl_marshal K key = Some pem"
    and "dir = (if secretsDir = '''' then defaultSecretsDir d else secretsDir)"
  shows "open_store K dir pref \<noteq> OpenError \<and> kl_set K (open_store K dir pref) dir ''client-key'' pem (dv_keys d) = (dv_keys d1, None)"
proof -
  obtain k e where ks: "kl_set K (open_store K dir pref) dir ''client-key'' pem (dv_keys d) = (k, e)" by fastforce
  show ?thesis
    using assms ks by (auto simp: runCertInit_def Let_def os_WriteFile_def split: option.splits if_splits sum.splits)
qed

text \<open>
  C24: The private key a client has made survives restarts as long as the same backend is opened: the run
  command then reads the very key that was stored, from the keyring as from the directory. When another
  backend is opened instead, which the automatic choice does without being asked when the keyring cannot
  be reached, the run sees what that backend held before the key was made: on a fresh device, no key.
\<close>

theorem client_key_survives:
  assumes law: "keyring_law L view" and dir: "dir = (if secretsDir = '''' then defaultSecretsDir d else secretsDir)"
    and ok: "fs_ok (ks_dir (dv_keys d) dir)" and key: "marshal key = Some pem"
    and made: "runCertInit (stores_lib L ring dirs marshal parse) X (Some key) rnd name csrOut secretsDir pref d = (Inr cid, d1)"
    and later: "dv_keys d2 = dv_keys d1" "dv_home d2 = dv_home d"
    and K: "K = stores_lib L ring' dirs' marshal parse" and usable: "open_store K dir pref' \<noteq> OpenError"
  shows "loadClientKey K secretsDir pref' d2 =
     (if open_store K dir pref' = open_store (stores_lib L ring dirs marshal parse) dir pref then Inr pem
      else loadClientKey K secretsDir pref' d)"
proof -
  let ?K = "stores_lib L ring dirs marshal parse"
  have lib: "kl_marshal ?K = marshal" "kl_set ?K = stores_set L" "kl_get K = stores_get L" by (simp_all add: stores_lib_def K)
  have st: "open_store ?K dir pref \<noteq> OpenError" "stores_set L (open_store ?K dir pref) dir ''client-key'' pem (dv_keys d) = (dv_keys d1, None)"
    using CertInit_stored [OF made _ dir, unfolded lib, OF key] by simp_all
  have dir2: "defaultSecretsDir d2 = defaultSecretsDir d" using later(2) by (simp add: defaultSecretsDir_def user_dir_def)
  have load: "loadClientKey K secretsDir pref' x = (case stores_get L (open_store K dir pref') dir ''client-key'' (dv_keys x) of Inl e \<Rightarrow> Inl (ReadKey e) | Inr pem \<Rightarrow> Inr pem)"
    if "x = d \<or> x = d2" for x
    using that usable by (auto simp: loadClientKey_def dir dir2 Let_def lib split: if_splits)
  show ?thesis
  proof (cases "open_store K dir pref' = open_store ?K dir pref")
    case True
    then show ?thesis using load [of d2] later(1) stores_kept [OF law ok st(2,1)] by simp
  next
    case False
    then have "{open_store ?K dir pref, open_store K dir pref'} = {KeyringStore, HardenedFile}"
      using usable st(1) by (cases "open_store ?K dir pref"; cases "open_store K dir pref'") auto
    then show ?thesis using False load [of d2] load [of d] later(1) stores_other [OF st(2)] by simp
  qed
qed


definition ring_lib :: "(string, bytes) gomap keyring_lib" where
  "ring_lib = \<lparr>kr_Get = (\<lambda>i r. case mget r i of None \<Rightarrow> Inl ErrKeyNotFound | Some data \<Rightarrow> Inr data),
     kr_Set = (\<lambda>i data r. (mput i data r, None)),
     kr_Remove = (\<lambda>i r. (mdel i r, if mget r i = None then Some ErrKeyNotFound else None))\<rparr>"

lemma ring_law: "keyring_law ring_lib mget"
  by (auto simp: keyring_law_def ring_lib_def fun_eq_iff)

definition csr_x509 :: x509_lib where
  "csr_x509 = sample_x509\<lparr>x_create_csr := (\<lambda>_. Some [1])\<rparr>"

definition new_device :: "(string, bytes) gomap key_stores device" where
  "new_device = \<lparr>dv_files = [], dv_keys = \<lparr>ks_ring = [], ks_dir = (\<lambda>_. [])\<rparr>, dv_home = Some ''/home/a/.config'', dv_host = None, dv_writable = (\<lambda>_. True)\<rparr>"

theorem client_key_survives_witness:
  "\<exists>cid d1. runCertInit (stores_lib ring_lib True (\<lambda>_. True) (\<lambda>_. Some ''k'') (\<lambda>_. None)) csr_x509 (Some 5) (Some (replicate 16 0)) ''laptop'' ''client.csr'' ''''
       BackendAuto new_device = (Inr cid, d1) \<and>
     loadClientKey (stores_lib ring_lib True (\<lambda>_. True) (\<lambda>_. Some ''k'') (\<lambda>_. None)) '''' BackendAuto d1 = Inr ''k'' \<and>
     loadClientKey (stores_lib ring_lib False (\<lambda>_. True) (\<lambda>_. Some ''k'') (\<lambda>_. None)) '''' BackendAuto d1 = Inl (ReadKey NotFound)"
proof -
  let ?K = "\<lambda>ring. stores_lib ring_lib ring (\<lambda>_. True) (\<lambda>_. Some ''k'') (\<lambda>_. None)"
  let ?r = "runCertInit (?K True) csr_x509 (Some 5) (Some (replicate 16 0)) ''laptop'' ''client.csr'' '''' BackendAuto new_device"
  have "case fst ?r of Inl _ \<Rightarrow> False | Inr _ \<Rightarrow> True" by code_simp
  then obtain cid d1 where made: "?r = (Inr cid, d1)" by (metis old.sum.simps(5) prod.collapse sum.exhaust)
  have ok: "fs_ok (ks_dir (dv_keys new_device) (defaultSecretsDir new_device))" by (simp add: new_device_def fs_ok_def)
  have home: "dv_home (snd ?r) = dv_home new_device" by code_simp
  have dir: "defaultSecretsDir new_device = (if '''' = '''' then defaultSecretsDir new_device else '''')" by simp
  have st: "open_store (?K True) x BackendAuto = KeyringStore" "open_store (?K False) x BackendAuto = HardenedFile" for x
    by (simp_all add: open_store_def OpenWithPref_def stores_lib_def)
  have old: "loadClientKey (?K False) '''' BackendAuto new_device = Inl (ReadKey NotFound)" by code_simp
  note kept = client_key_survives [where d = new_device and secretsDir = "''''" and L = ring_lib and view = mget and marshal = "\<lambda>_. Some ''k''" and key = 5
      and pem = "''k''" and ring = True and dirs = "\<lambda>_. True" and parse = "\<lambda>_. None" and X = csr_x509 and rnd = "Some (replicate 16 0)"
      and name = "''laptop''" and csrOut = "''client.csr''" and pref = BackendAuto and cid = cid and ?d1.0 = d1 and ?d2.0 = d1 and dirs' = "\<lambda>_. True"
      and pref' = BackendAuto, OF ring_law dir ok refl made refl _ refl]
  show ?thesis using made home st old kept [of True] kept [of False] by simp
qed


section \<open>Ownership and access on Windows (windows.go)\<close>

text \<open>
  The access list of every path: whether it is protected from inheritance, and who is granted what. The
  calls that can fail are arguments: the owner of the path and the current user as their identifiers.
\<close>

datatype access = GENERIC_ALL | OtherAccess

record win_paths =
  wp_owner :: "string \<Rightarrow> string option"
  wp_dacl :: "string \<Rightarrow> bool \<times> (string \<times> access) list"

datatype win_error = QueryOwner | QueryUser | NotOwnedByUser | OpenToken | TokenUser | BuildDACL | ApplyACL

definition win_checkOwner :: "string option \<Rightarrow> string \<Rightarrow> win_paths \<Rightarrow> win_error option" where
  "win_checkOwner me path w =
     (case wp_owner w path of None \<Rightarrow> Some QueryOwner
      | Some owner \<Rightarrow>
          (case me of None \<Rightarrow> Some QueryUser | Some u \<Rightarrow> if owner \<noteq> u then Some NotOwnedByUser else None))"

definition setOwnerOnlyACL ::
  "bool \<Rightarrow> string option \<Rightarrow> bool \<Rightarrow> bool \<Rightarrow> string \<Rightarrow> win_paths \<Rightarrow> win_paths \<times> win_error option" where
  "setOwnerOnlyACL token me build apply_ok path w =
     (if \<not> token then (w, Some OpenToken)
      else case me of None \<Rightarrow> (w, Some TokenUser)
      | Some u \<Rightarrow>
          (if \<not> build then (w, Some BuildDACL)
           else if \<not> apply_ok then (w, Some ApplyACL)
           else (w\<lparr>wp_dacl := (wp_dacl w)(path := (True, [(u, GENERIC_ALL)]))\<rparr>, None)))"

lemma owner_only_access:
  "setOwnerOnlyACL token me build apply_ok path w = (w', None) \<Longrightarrow>
     (\<exists>u. me = Some u \<and> wp_dacl w' path = (True, [(u, GENERIC_ALL)])) \<and> wp_owner w' = wp_owner w \<and>
     (\<forall>q. q \<noteq> path \<longrightarrow> wp_dacl w' q = wp_dacl w q)"
  by (auto simp: setOwnerOnlyACL_def split: if_splits option.splits)

section \<open>Autostart\<close>

text \<open>On macOS, the property list of a launch agent. The arguments are inserted as they are.\<close>

definition darwin_path :: "'k device \<Rightarrow> string" where
  "darwin_path d = user_dir d @ ''Library/LaunchAgents/com.qoqtun.desktop.plist''"

definition quoted :: "string \<Rightarrow> string" where
  "quoted s = CHR 0x22 # s @ [CHR 0x22]"

definition plist :: "string list \<Rightarrow> string" where
  "plist cmd =
     ''<?xml version='' @ quoted ''1.0'' @ '' encoding='' @ quoted ''UTF-8'' @ ''?>'' @ nl @
     ''<!DOCTYPE plist PUBLIC '' @ quoted ''-//Apple//DTD PLIST 1.0//EN'' @ '' '' @
       quoted ''http://www.apple.com/DTDs/PropertyList-1.0.dtd'' @ ''>'' @ nl @
     ''<plist version='' @ quoted ''1.0'' @ ''>'' @ nl @ ''<dict>'' @ nl @
     ''  <key>Label</key><string>com.qoqtun.desktop</string>'' @ nl @
     ''  <key>ProgramArguments</key>'' @ nl @ ''  <array>'' @ nl @
     concat (map (\<lambda>c. ''      <string>'' @ c @ ''</string>'' @ nl) cmd) @
     ''  </array>'' @ nl @ ''  <key>RunAtLoad</key><true/>'' @ nl @ ''</dict>'' @ nl @ ''</plist>'' @ nl"

definition darwin_install :: "string \<Rightarrow> string list \<Rightarrow> 'k device \<Rightarrow> bool \<times> 'k device" where
  "darwin_install app cmd d =
     (if app = '''' \<or> cmd = [] then (False, d) else case os_WriteFile (darwin_path d) (plist cmd) d of (e, d1) \<Rightarrow> (e = None, d1))"

definition darwin_remove :: "'k device \<Rightarrow> 'k device" where
  "darwin_remove d = d\<lparr>dv_files := mdel (darwin_path d) (dv_files d)\<rparr>"

definition darwin_enabled :: "'k device \<Rightarrow> bool" where
  "darwin_enabled d \<longleftrightarrow> mget (dv_files d) (darwin_path d) \<noteq> None"

text \<open>
  On Windows, a value of the Run key of the current user. \<open>opens\<close> is whether the key can be opened and
  \<open>sets\<close> whether the value can be written; removing a value that is not there is no error.
\<close>

type_synonym run_key = "(string, string) gomap"

definition win_install :: "bool \<Rightarrow> bool \<Rightarrow> string \<Rightarrow> string list \<Rightarrow> run_key \<Rightarrow> bool \<times> run_key" where
  "win_install opens sets app cmd k =
     (if app = '''' \<or> cmd = [] \<or> \<not> opens \<or> \<not> sets then (False, k) else (True, mput app (commandString cmd) k))"

definition win_remove :: "bool \<Rightarrow> string \<Rightarrow> run_key \<Rightarrow> bool \<times> run_key" where
  "win_remove opens app k = (if \<not> opens then (False, k) else (True, mdel app k))"

definition win_enabled :: "bool \<Rightarrow> string \<Rightarrow> run_key \<Rightarrow> bool option" where
  "win_enabled opens app k = (if \<not> opens then None else Some (mget k app \<noteq> None))"



text \<open>
  What the desktop program relies on, whatever the system: an entry that was installed is there, one that
  was removed is not, a failed installation changes nothing, and none is made without a name and a command.
\<close>

datatype switch = TurnOn "string list" | TurnOff

locale autostart =
  fixes install :: "string \<Rightarrow> string list \<Rightarrow> 's \<Rightarrow> bool \<times> 's"
    and remove :: "string \<Rightarrow> 's \<Rightarrow> 's"
    and enabled :: "string \<Rightarrow> 's \<Rightarrow> bool"
  assumes installed: "install app cmd s = (True, s') \<Longrightarrow> enabled app s'"
    and refused: "install app cmd s = (False, s') \<Longrightarrow> s' = s"
    and incomplete: "app = '''' \<or> cmd = [] \<Longrightarrow> \<not> fst (install app cmd s)"
    and removed: "\<not> enabled app (remove app s)"
begin

definition switched :: "string \<Rightarrow> switch \<Rightarrow> 's \<Rightarrow> 's" where
  "switched app x s = (case x of TurnOn cmd \<Rightarrow> snd (install app cmd s) | TurnOff \<Rightarrow> remove app s)"

lemma stays_off:
  "\<not> enabled app s \<Longrightarrow> list_all (\<lambda>x. x = TurnOn [] \<or> x = TurnOff) xs \<Longrightarrow> \<not> enabled app (fold (switched app) xs s)"
proof (induction xs arbitrary: s)
  case (Cons x xs)
  have "\<not> enabled app (switched app x s)"
    using Cons.prems incomplete [of app "[]" s] refused [of app "[]" s] removed [of app s]
    by (cases "install app [] s") (auto simp: switched_def)
  then show ?case using Cons by simp
qed simp

lemma last_switch:
  "enabled app (fold (switched app) (xs @ [x]) s) =
     (case x of TurnOff \<Rightarrow> False
      | TurnOn cmd \<Rightarrow> fst (install app cmd (fold (switched app) xs s)) \<or> enabled app (fold (switched app) xs s))"
proof (cases x)
  case (TurnOn cmd)
  let ?s = "fold (switched app) xs s"
  obtain ok s' where i: "install app cmd ?s = (ok, s')" by fastforce
  then show ?thesis using installed [of app cmd ?s s'] refused [of app cmd ?s s'] TurnOn by (cases ok) (auto simp: switched_def)
qed (simp add: switched_def removed)

end

interpretation linux: autostart autostartInstall "\<lambda>_. autostartRemove" "\<lambda>_. autostartEnabled"
  by unfold_locales
    (auto simp: autostartInstall_def autostartRemove_def autostartEnabled_def autostartPath_def user_dir_def os_WriteFile_def split: if_splits)

interpretation darwin: autostart darwin_install "\<lambda>_. darwin_remove" "\<lambda>_. darwin_enabled"
  by unfold_locales
    (auto simp: darwin_install_def darwin_remove_def darwin_enabled_def darwin_path_def user_dir_def os_WriteFile_def split: if_splits)

interpretation windows: autostart "win_install True sets" "\<lambda>app k. snd (win_remove True app k)" "\<lambda>app k. win_enabled True app k = Some True" for sets
  by unfold_locales (auto simp: win_install_def win_remove_def win_enabled_def split: if_splits)

text \<open>
  The autostart entry follows the last switch on every system: after any sequence of switches, turning it
  off leaves no entry, and turning it on leaves one if the installation succeeded, and otherwise
  what was there.
\<close>

theorem autostart_last_switch:
  shows "autostartEnabled (fold (linux.switched app) (xs @ [x]) d) =
      (case x of TurnOff \<Rightarrow> False | TurnOn cmd \<Rightarrow> fst (autostartInstall app cmd (fold (linux.switched app) xs d)) \<or> autostartEnabled (fold (linux.switched app) xs d)) \<and>
    darwin_enabled (fold (darwin.switched app) (xs @ [x]) d) =
      (case x of TurnOff \<Rightarrow> False | TurnOn cmd \<Rightarrow> fst (darwin_install app cmd (fold (darwin.switched app) xs d)) \<or> darwin_enabled (fold (darwin.switched app) xs d)) \<and>
    (win_enabled True app (fold (windows.switched True app) (xs @ [x]) k) = Some True) =
      (case x of TurnOff \<Rightarrow> False | TurnOn cmd \<Rightarrow> fst (win_install True True app cmd (fold (windows.switched True app) xs k)) \<or>
         win_enabled True app (fold (windows.switched True app) xs k) = Some True)"
  using linux.last_switch darwin.last_switch windows.last_switch by blast

end
