(* ===== verification/ClientProgram.thy ===== *)
theory ClientProgram
  imports Platform Logging
begin

text \<open>
  The client program as a whole (\<^verbatim>\<open>main\<close>, \<^verbatim>\<open>newRootCmd\<close> and its commands in \<^verbatim>\<open>cmd/client\<close>): an
  invocation, as it is after the flags have been parsed, is run on a device. The operations behind the
  commands are those of \<^verbatim>\<open>ClientCommands\<close>, \<^verbatim>\<open>ClientCore\<close> and \<^verbatim>\<open>Ipc\<close>; here the configuration, the
  logger and the status file join them. The status file is the only link between a running client and the
  tunnel commands, and the lemmas show that it works.
\<close>

section \<open>The running client and its status file\<close>

text \<open>\<^verbatim>\<open>Client.Run\<close>, \<^verbatim>\<open>Client.Status\<close> and \<^verbatim>\<open>Client.Metrics\<close>; without a registry the status is the zero snapshot.\<close>

definition client_Run :: "(string \<Rightarrow> string) \<Rightarrow> BackoffConfig \<Rightarrow> round list \<Rightarrow> run_trace" where
  "client_Run ucase B rs = mgr_Run ucase (if Initial B \<le> 0 then DefaultBackoff else B) rs"

definition client_Status :: "instant \<Rightarrow> Registry option \<Rightarrow> MetSnapshot \<times> Registry option" where
  "client_Status now m =
     (case m of None \<Rightarrow> (\<lparr>GlobalRxBytes = 0, GlobalTxBytes = 0, GlobalConns = 0, RateBPS = 0, AvgRateBPS = 0, Clients = []\<rparr>, None)
      | Some r \<Rightarrow> (let (sn, r1) = met_Snapshot (now div second) r in (sn, Some r1)))"

definition client_Metrics :: "Registry option \<Rightarrow> Registry" where
  "client_Metrics m = (case m of None \<Rightarrow> met_NewRegistry | Some r \<Rightarrow> r)"

definition state_flag :: "string \<Rightarrow> 'k device \<Rightarrow> string" where
  "state_flag state d = (if state = '''' then defaultStatePath d else state)"

definition status_path :: "string \<Rightarrow> 'k device \<Rightarrow> string" where
  "status_path state d = state_flag state d @ ''.status.json''"

text \<open>The status file as JSON: the port and token of the endpoint and the statistics.\<close>

type_synonym status_json = "int \<times> string \<times> MetSnapshot \<Rightarrow> string option"

definition client_tick :: "status_json \<Rightarrow> int \<times> string \<Rightarrow> string \<Rightarrow> instant \<times> Registry option \<Rightarrow> 'k device \<Rightarrow> 'k device" where
  "client_tick marshal ep path tick d =
     (case marshal (fst ep, snd ep, fst (client_Status (fst tick) (snd tick))) of
        None \<Rightarrow> d | Some content \<Rightarrow> snd (os_WriteFile path content d))"

section \<open>The commands\<close>

record 'k client_lib =
  cb_keys :: "'k key_lib"
  cb_x509 :: x509_lib
  cb_state :: state_json
  cb_rfc3339 :: "instant \<Rightarrow> string"
  cb_ucase :: "string \<Rightarrow> string"
  cb_float :: float_lib
  cb_toml :: toml_lib
  cb_ipc :: ipc_json
  cb_status :: status_json
  cb_endpoint :: "bytes \<Rightarrow> (int \<times> string) option"

text \<open>
  What the surroundings answer: clock, random bytes, environment, terminal, the enrolment server
  (\<open>ci_exchange\<close>), the sessions of a run, its ticks, each with the registry the sessions have filled by
  then, and the endpoint of a running client (\<open>ci_ask\<close>).
\<close>

record client_io =
  ci_now :: instant
  ci_env :: "string \<Rightarrow> string"
  ci_key :: "nat option"
  ci_rnd :: "bytes option"
  ci_stdin :: "string option"
  ci_meta :: Meta
  ci_exchange :: "string \<Rightarrow> enroll_options \<Rightarrow> enroll_client_error + EnrollResult"
  ci_logdir :: bool
  ci_logopen :: bool
  ci_port :: "int option"
  ci_rounds :: "round list"
  ci_ticks :: "(instant \<times> Registry option) list"
  ci_ask :: "int \<Rightarrow> bytes \<Rightarrow> ipcResp option"

record run_flags =
  rf_config :: string
  rf_state :: string
  rf_ca :: string
  rf_secretsDir :: string
  rf_backend :: string
  rf_serverAddr :: string

datatype client_cmd =
    CVersion
  | CRun run_flags
  | CCheckConfig string
  | CCertInit string string string string
  | CCertStatus string
  | CCertRenew enroll_flags string
  | CEnroll enroll_flags
  | CStatus string
  | CTunnelList string
  | CTunnelStart string start_flags string
  | CTunnelStop string string
  | CTunnelStatus string

datatype client_failure =
    BadConfiguration resolve_error
  | BadLogger log_error
  | Failed cmd_error
  | NoEndpointStarted string
  | NoStatus
  | TunnelFailed ipc_cmd_error
  | SessionFailed cl_error

datatype client_output =
    ShownVersion string
  | ShownConfig ClientConfig
  | ShownIdentity string
  | ShownState clientState
  | ShownValidity clientState duration bool
  | ShownStatus string
  | ShownData ipc_data
  | ShownNothing

datatype client_result = Ended client_output | EndedWith client_failure | Running

definition result_of :: "('a \<Rightarrow> client_output) \<Rightarrow> (cmd_error + 'a) \<times> 'k device \<Rightarrow> client_result \<times> 'k device" where
  "result_of out r = (case fst r of Inl e \<Rightarrow> EndedWith (Failed e) | Inr x \<Rightarrow> Ended (out x), snd r)"

definition file_bytes :: "string \<Rightarrow> 'k device \<Rightarrow> bytes option" where
  "file_bytes path d = map_option octets (mget (dv_files d) path)"

definition client_config :: "'k client_lib \<Rightarrow> client_io \<Rightarrow> string \<Rightarrow> 'k device \<Rightarrow> resolve_error + ClientConfig" where
  "client_config L v path d =
     loadClientConfig (cb_ucase L) (cb_float L) (cb_toml L) (if path = '''' then None else Some (file_bytes path d)) (ci_env v)"

text \<open>The second half of \<^verbatim>\<open>runClient\<close>, once the client is set up: the endpoint, the status loop and the run.\<close>

definition client_started :: "'k client_lib \<Rightarrow> client_io \<Rightarrow> string \<Rightarrow> 'k device \<Rightarrow> client_result \<times> 'k device" where
  "client_started L v statusPath d =
     (case NewIPC (ci_rnd v) (ci_port v) of Inl e \<Rightarrow> (EndedWith (NoEndpointStarted e), d)
      | Inr ep \<Rightarrow>
          (case tr_result (client_Run (cb_ucase L) \<lparr>Initial = 0, Max = 0, Jitter = 0\<rparr> (ci_rounds v)) of
             None \<Rightarrow> Running | Some None \<Rightarrow> Ended ShownNothing | Some (Some e) \<Rightarrow> EndedWith (SessionFailed e),
           fold (client_tick (cb_status L) ep statusPath) (ci_ticks v) d))"

definition run_client_cmd :: "'k client_lib \<Rightarrow> client_io \<Rightarrow> run_flags \<Rightarrow> 'k device \<Rightarrow> client_result \<times> 'k device" where
  "run_client_cmd L v fl d =
     (case client_config L v (rf_config fl) d of Inl e \<Rightarrow> (EndedWith (BadConfiguration e), d)
      | Inr cfg \<Rightarrow>
     (case log_New (cb_ucase L) (ci_logdir v) (ci_logopen v) (cl_Level cfg) (cl_Format cfg) (cl_File cfg) of Inl e \<Rightarrow> (EndedWith (BadLogger e), d)
      | Inr _ \<Rightarrow>
     (case run_cmd (cb_keys L) (cb_x509 L) (cb_state L) (ci_now v) cfg (rf_state fl) (rf_ca fl) (rf_secretsDir fl) (rf_backend fl) (rf_serverAddr fl) d of
        Inl e \<Rightarrow> (EndedWith (Failed e), d)
      | Inr _ \<Rightarrow> client_started L v (status_path (rf_state fl) d) d)))"

definition asked :: "client_io \<Rightarrow> ipc_cmd_error + (int \<times> bytes) \<Rightarrow> client_result" where
  "asked v req =
     (case req of Inl e \<Rightarrow> EndedWith (TunnelFailed e)
      | Inr (port, body) \<Rightarrow>
          (case ci_ask v port body of None \<Rightarrow> EndedWith (TunnelFailed ConnectFailed)
           | Some resp \<Rightarrow> (case ipcCall_result resp of Inl e \<Rightarrow> EndedWith (TunnelFailed e) | Inr x \<Rightarrow> Ended (ShownData x))))"

definition client_check_config :: "'k client_lib \<Rightarrow> client_io \<Rightarrow> string \<Rightarrow> 'k device \<Rightarrow> client_result" where
  "client_check_config L v path d =
     (case CheckClient (cb_ucase L) (cb_float L) (cb_toml L) (if path = '''' then None else Some (file_bytes path d)) [] (ci_env v) of
        Inl e \<Rightarrow> EndedWith (BadConfiguration e) | Inr cfg \<Rightarrow> Ended (ShownConfig cfg))"

definition client_cert_init :: "'k client_lib \<Rightarrow> client_io \<Rightarrow> string \<Rightarrow> string \<Rightarrow> string \<Rightarrow> string \<Rightarrow> 'k device \<Rightarrow> client_result \<times> 'k device" where
  "client_cert_init L v name csrOut secretsDir backend d =
     (case ParseBackendPref backend of None \<Rightarrow> (EndedWith (Failed BadBackend), d)
      | Some pref \<Rightarrow> result_of ShownIdentity (runCertInit (cb_keys L) (cb_x509 L) (ci_key v) (ci_rnd v) name csrOut secretsDir pref d))"

definition client_cert_status :: "'k client_lib \<Rightarrow> client_io \<Rightarrow> string \<Rightarrow> 'k device \<Rightarrow> client_result" where
  "client_cert_status L v state d =
     (case cert_status (cb_x509 L) (cb_state L) (ci_now v) state d of
        Inl e \<Rightarrow> EndedWith (Failed e) | Inr (st, left, expired) \<Rightarrow> Ended (ShownValidity st left expired))"

definition client_show_status :: "string \<Rightarrow> 'k device \<Rightarrow> client_result" where
  "client_show_status state d =
     (case mget (dv_files d) (status_path state d) of None \<Rightarrow> EndedWith NoStatus | Some content \<Rightarrow> Ended (ShownStatus content))"

definition tunnel_status :: "ipc_json \<Rightarrow> (bytes \<Rightarrow> (int \<times> string) option) \<Rightarrow> bytes option \<Rightarrow> ipc_cmd_error + (int \<times> bytes)" where
  "tunnel_status J dec status = ipcCall_request J dec status ''status'' '''' (Some [])"

fun client_main :: "'k client_lib \<Rightarrow> string \<Rightarrow> client_io \<Rightarrow> client_cmd \<Rightarrow> 'k device \<Rightarrow> client_result \<times> 'k device" where
  "client_main L version v CVersion d = (Ended (ShownVersion (''qoqtun-client '' @ version)), d)"
| "client_main L version v (CRun fl) d = run_client_cmd L v fl d"
| "client_main L version v (CCheckConfig path) d = (client_check_config L v path d, d)"
| "client_main L version v (CCertInit name csrOut secretsDir backend) d = client_cert_init L v name csrOut secretsDir backend d"
| "client_main L version v (CCertStatus state) d = (client_cert_status L v state d, d)"
| "client_main L version v (CCertRenew fl state) d = result_of ShownState (renew_cmd (cb_keys L) (cb_state L) (cb_rfc3339 L) (ci_exchange v) fl state d)"
| "client_main L version v (CEnroll fl) d =
     result_of ShownState (enroll_cmd (cb_keys L) (cb_state L) (cb_rfc3339 L) (ci_meta v) (ci_stdin v) (ci_exchange v) fl d)"
| "client_main L version v (CStatus state) d = (client_show_status state d, d)"
| "client_main L version v (CTunnelList state) d = (asked v (tunnel_list (cb_ipc L) (cb_endpoint L) (file_bytes (status_path state d) d)), d)"
| "client_main L version v (CTunnelStart state fl name) d =
     (asked v (tunnel_start (cb_ipc L) (cb_endpoint L) (file_bytes (status_path state d) d) fl name), d)"
| "client_main L version v (CTunnelStop state name) d = (asked v (tunnel_stop (cb_ipc L) (cb_endpoint L) (file_bytes (status_path state d) d) name), d)"
| "client_main L version v (CTunnelStatus state) d = (asked v (tunnel_status (cb_ipc L) (cb_endpoint L) (file_bytes (status_path state d) d)), d)"


section \<open>The tunnel commands find the running client\<close>

lemma tick_frame [simp]:
  "dv_home (fold (client_tick marshal ep path) ts d) = dv_home d" "dv_writable (fold (client_tick marshal ep path) ts d) = dv_writable d"
  by (induction ts arbitrary: d) (simp_all add: client_tick_def os_WriteFile_def split: option.split)

lemma ticks_write:
  assumes "\<And>sn. \<exists>content. marshal (port, tok, sn) = Some content \<and> P content" and "path \<noteq> ''''" and "dv_writable d path" and "ts \<noteq> []"
  shows "\<exists>content. mget (dv_files (fold (client_tick marshal (port, tok) path) ts d)) path = Some content \<and> P content"
proof -
  obtain ts' t where ts: "ts = ts' @ [t]" using assms(4) by (metis rev_exhaust)
  obtain content where "marshal (port, tok, fst (client_Status (fst t) (snd t))) = Some content" "P content" using assms(1) by blast
  then show ?thesis using assms(2,3)
    by (simp add: ts client_tick_def [of _ _ _ t] os_WriteFile_def)
qed

lemma run_leaves_status:
  assumes "run_client_cmd L v fl d = (Running, d')" and "NewIPC (ci_rnd v) (ci_port v) = Inr ep"
  shows "d' = fold (client_tick (cb_status L) ep (status_path (rf_state fl) d)) (ci_ticks v) d"
  using assms by (auto simp: run_client_cmd_def client_started_def split: sum.splits option.splits)

text \<open>
  C27: The tunnel commands find the running client: when the run command is running and has written its status file
  at least once, the list command with the same state flag reads the endpoint's port and token from that file,
  its request is accepted by the endpoint of that process, and what it shows are the tunnels of that client.
\<close>

theorem tunnel_commands_reach_client:
  assumes run: "client_main L ver v (CRun fl) d = (Running, d')" and ticks: "ci_ticks v \<noteq> []"
    and ep: "NewIPC (ci_rnd v) (ci_port v) = Inr (port, tok)" "port \<noteq> 0"
    and status_json: "\<forall>sn. \<exists>content. cb_status L (port, tok, sn) = Some content \<and> cb_endpoint L (octets content) = Some (port, tok)"
    and writable: "dv_writable d (status_path (rf_state fl) d)"
    and req_json: "\<forall>r body. ij_encode (cb_ipc L) r = Some body \<longrightarrow> ij_decode (cb_ipc L) body = Some r"
      "ij_encode (cb_ipc L) \<lparr>iq_Token = tok, iq_Cmd = ''list'', iq_Name = '''', iq_Type = '''', iq_Args = []\<rparr> \<noteq> None"
    and client: "\<forall>body. ci_ask v2 port body = (case ipc_handle (cb_ipc L) wr tok stats body c of (Respond r, _) \<Rightarrow> Some r | _ \<Rightarrow> None)"
  shows "client_main L ver v2 (CTunnelList (rf_state fl)) d' = (Ended (ShownData (TunnelsData (TunnelList c))), d')"
proof -
  let ?path = "status_path (rf_state fl) d"
  have d': "d' = fold (client_tick (cb_status L) (port, tok) ?path) (ci_ticks v) d" using run_leaves_status [OF _ ep(1)] run by simp
  have path: "status_path (rf_state fl) d' = ?path"
    unfolding d' by (simp add: status_path_def state_flag_def defaultStatePath_def user_dir_def)
  obtain content where content: "mget (dv_files d') ?path = Some content" "cb_endpoint L (octets content) = Some (port, tok)"
    using ticks_write [of "cb_status L" port tok "\<lambda>content. cb_endpoint L (octets content) = Some (port, tok)", OF _ _ writable ticks] status_json
    unfolding d' by (auto simp: status_path_def)
  obtain body where body: "ij_encode (cb_ipc L) \<lparr>iq_Token = tok, iq_Cmd = ''list'', iq_Name = '''', iq_Type = '''', iq_Args = []\<rparr> = Some body"
    using req_json(2) by blast
  then have "ci_ask v2 port body = Some (ipc_ok (TunnelsData (TunnelList c)))"
    using client req_json(1) by (simp add: ipc_handle_def)
  then show ?thesis
    using content body ep(2)
    by (simp add: path file_bytes_def asked_def tunnel_list_def ipcCall_request_def loadIPCInfo_def ipcCall_result_def ipc_ok_def)
qed


definition enrolled_device :: "unit device" where
  "enrolled_device = \<lparr>dv_files = [(''ca.crt'', plain_pem ''CERTIFICATE'' [9]), (''client.crt'', plain_pem ''CERTIFICATE'' [9]), (''id.json'', [CHR ''s'', CHR 0x0A])],
     dv_keys = (), dv_home = None, dv_host = Some ''laptop'', dv_writable = (\<lambda>_. True)\<rparr>"

definition sample_client_lib :: "unit client_lib" where
  "sample_client_lib = \<lparr>cb_keys = one_key, cb_x509 = sample_x509, cb_state = one_state, cb_rfc3339 = (\<lambda>_. ''''), cb_ucase = id, cb_float = plain_floats,
     cb_toml = \<lparr>to_server = (\<lambda>_. None), to_client = (\<lambda>_. None), to_table = (\<lambda>_. None)\<rparr>, cb_ipc = plain_ipc,
     cb_status = (\<lambda>_. Some ''status''), cb_endpoint = (\<lambda>_. Some (4000, ''ab''))\<rparr>"

definition client_answers :: "(int \<Rightarrow> bytes \<Rightarrow> ipcResp option) \<Rightarrow> client_io" where
  "client_answers ask = \<lparr>ci_now = 1, ci_env = (\<lambda>k. if k = ''QOQTUN_SERVER_ADDR'' then ''srv:7000'' else ''''), ci_key = None, ci_rnd = Some [0xab], ci_stdin = None,
     ci_meta = no_meta, ci_exchange = (\<lambda>_ _. Inl DialFailed), ci_logdir = True, ci_logopen = True, ci_port = Some 4000, ci_rounds = [],
     ci_ticks = [(2 * second, None)], ci_ask = ask\<rparr>"

definition state_here :: run_flags where
  "state_here = \<lparr>rf_config = '''', rf_state = ''id.json'', rf_ca = '''', rf_secretsDir = '''', rf_backend = ''auto'', rf_serverAddr = ''''\<rparr>"

abbreviation endpoint_answer :: "int \<Rightarrow> bytes \<Rightarrow> ipcResp option" where
  "endpoint_answer \<equiv> (\<lambda>_ body. case ipc_handle plain_ipc True ''ab'' (fst (client_Status 0 None)) body connected_client of (Respond r, _) \<Rightarrow> Some r | _ \<Rightarrow> None)"

theorem tunnel_commands_reach_client_witness:
  "fst (client_main sample_client_lib ''dev'' (client_answers endpoint_answer) (CTunnelList ''id.json'')
     (snd (client_main sample_client_lib ''dev'' (client_answers (\<lambda>_ _. None)) (CRun state_here) enrolled_device)))
   = Ended (ShownData (TunnelsData (TunnelList connected_client)))"
proof -
  let ?v = "client_answers (\<lambda>_ _. None)" and ?v2 = "client_answers endpoint_answer"
  let ?run = "client_main sample_client_lib ''dev'' ?v (CRun state_here) enrolled_device"
  have "fst ?run = Running" by code_simp
  then have run: "?run = (Running, snd ?run)" by (metis prod.collapse)
  have ticks: "ci_ticks ?v \<noteq> []" and ask: "\<forall>body. ci_ask ?v2 4000 body = (case ipc_handle (cb_ipc sample_client_lib) True ''ab'' (fst (client_Status 0 None)) body connected_client of (Respond r, _) \<Rightarrow> Some r | _ \<Rightarrow> None)"
    and json: "\<forall>sn. \<exists>content. cb_status sample_client_lib (4000, ''ab'', sn) = Some content \<and> cb_endpoint sample_client_lib (octets content) = Some (4000, ''ab'')"
    and wr: "dv_writable enrolled_device (status_path (rf_state state_here) enrolled_device)" and port: "(4000 :: int) \<noteq> 0"
    by (simp_all add: client_answers_def sample_client_lib_def enrolled_device_def)
  have ep: "NewIPC (ci_rnd ?v) (ci_port ?v) = Inr (4000, ''ab'')" by code_simp
  have ne: "start_req \<noteq> list_req" by (simp add: start_req_def list_req_def)
  have req: "\<forall>r body. ij_encode (cb_ipc sample_client_lib) r = Some body \<longrightarrow> ij_decode (cb_ipc sample_client_lib) body = Some r"
    "ij_encode (cb_ipc sample_client_lib) \<lparr>iq_Token = ''ab'', iq_Cmd = ''list'', iq_Name = '''', iq_Type = '''', iq_Args = []\<rparr> \<noteq> None"
    using ne by (auto simp: sample_client_lib_def plain_ipc_def list_req_def [symmetric])
  from tunnel_commands_reach_client [OF run ticks ep port json wr req ask] show ?thesis by (simp add: state_here_def)
qed

end
