(* ===== verification/Guards.thy ===== *)
theory Guards
  imports Commands
begin

text \<open>
  The parts of \<^verbatim>\<open>internal/security\<close> and \<^verbatim>\<open>internal/pki\<close> that depend on the platform and on key formats: the
  probes behind the start-up guards with their messages (\<^verbatim>\<open>guard.go\<close>, \<^verbatim>\<open>guard_unix.go\<close>,
  \<^verbatim>\<open>guard_windows.go\<close>), and private keys as PEM (\<^verbatim>\<open>parse.go\<close>). The lemmas show that the guards of a start
  never refuse on Windows and exactly when they should elsewhere, and that a key written is the key read,
  which is what the commands rely on.
\<close>

section \<open>Probes and messages\<close>

datatype build = UnixBuild nat "64 word option" | WindowsBuild

fun IsRoot :: "build \<Rightarrow> bool" where
  "IsRoot (UnixBuild euid _) \<longleftrightarrow> euid = 0"
| "IsRoot WindowsBuild \<longleftrightarrow> False"

fun CheckFDLimit :: "build \<Rightarrow> 64 word \<Rightarrow> FDCheck" where
  "CheckFDLimit (UnixBuild _ rl) estimated = platformCheckFDLimit rl estimated"
| "CheckFDLimit WindowsBuild estimated = \<lparr>Current = 0, Recommended = estimated, BelowLimit = False, Unsupported = True\<rparr>"

definition RootWarning :: "bool \<Rightarrow> string" where
  "RootWarning linux =
     ''running as root/administrator is not recommended for a network-facing service'' @
     (if linux then ''; grant only the required capabilities instead (e.g. setcap 'cap_net_bind_service=+ep' on the binary)'' else '''')"

definition ErrRootDenied :: "bool \<Rightarrow> string" where
  "ErrRootDenied linux = RootWarning linux @ '' (pass --allow-root to override)''"

definition ErrInsufficientFD :: "FDCheck \<Rightarrow> string" where
  "ErrInsufficientFD c = ''open-file limit '' @ nat_string (unat (Current c)) @ '' is below the recommended '' @ nat_string (unat (Recommended c)) @
     '' (pass --allow-low-fdlimit to override)''"

text \<open>A bucket grants without waiting; \<open>allow\<close> is the limiter of \<^verbatim>\<open>x/time/rate\<close>.\<close>

definition tb_AllowN :: "(int \<times> int \<Rightarrow> int \<Rightarrow> bool) \<Rightarrow> TokenBucket option \<Rightarrow> int \<Rightarrow> bool" where
  "tb_AllowN allow b n = (case Option.bind b lim of None \<Rightarrow> True | Some l \<Rightarrow> allow l n)"

section \<open>Starting on a platform\<close>

text \<open>The guards with the probes of the build: what \<^verbatim>\<open>run\<close> consults.\<close>

fun probe :: "build \<Rightarrow> 64 word option" where
  "probe (UnixBuild _ rl) = rl"
| "probe WindowsBuild = None"

lemma probe_same: "CheckFDLimit b est = platformCheckFDLimit (probe b) est"
  by (cases b) (simp_all add: platformCheckFDLimit_def)

lemma windows_never_refused: "applyStartupGuards (IsRoot WindowsBuild) (probe WindowsBuild) cfg allowRoot allowLowFD = None"
  by (simp add: applyStartupGuards_def platformCheckFDLimit_def Let_def)

lemma start_refused_iff:
  "applyStartupGuards (IsRoot b) (probe b) cfg allowRoot allowLowFD \<noteq> None \<longleftrightarrow>
     IsRoot b \<and> \<not> allowRoot \<or>
     \<not> allowLowFD \<and> (case probe b of None \<Rightarrow> False | Some cur \<Rightarrow> cur < EstimatedFDLimit (MaxConnsPerClient cfg) (MaxConnsPerTunnel cfg) 64)"
  by (auto simp: applyStartupGuards_def platformCheckFDLimit_def Let_def split: option.split)

section \<open>Private keys\<close>

text \<open>\<^verbatim>\<open>x509.MarshalPKCS8PrivateKey\<close> and \<^verbatim>\<open>ParsePKCS8PrivateKey\<close>; a parsed key is an Ed25519 key or another.\<close>

datatype any_key = Ed25519Key nat | OtherKey

record pkcs8_lib =
  p8_marshal :: "nat \<Rightarrow> bytes option"
  p8_parse :: "bytes \<Rightarrow> any_key option"

definition pkcs8_law :: "pkcs8_lib \<Rightarrow> bool" where
  "pkcs8_law P \<longleftrightarrow> (\<forall>k der. p8_marshal P k = Some der \<longrightarrow> p8_parse P der = Some (Ed25519Key k))"

datatype key_error = NoPEMBlock | ParseKeyFailed | UnsupportedKey

definition ParsePrivateKey :: "x509_lib \<Rightarrow> pkcs8_lib \<Rightarrow> string \<Rightarrow> key_error + nat" where
  "ParsePrivateKey X P pem =
     (case x_pem_decode X pem of None \<Rightarrow> Inl NoPEMBlock
      | Some (_, der) \<Rightarrow>
          (case p8_parse P der of None \<Rightarrow> Inl ParseKeyFailed
           | Some OtherKey \<Rightarrow> Inl UnsupportedKey
           | Some (Ed25519Key k) \<Rightarrow> Inr k))"

definition MarshalPrivateKey :: "x509_lib \<Rightarrow> pkcs8_lib \<Rightarrow> nat \<Rightarrow> string option" where
  "MarshalPrivateKey X P key = map_option (x_pem_encode X ''PRIVATE KEY'') (p8_marshal P key)"

text \<open>The two functions the commands are given have the property their lemmas assume of them.\<close>

lemma private_key_roundtrip:
  assumes "\<forall>t der. x_pem_decode X (x_pem_encode X t der) = Some (t, der)" and "pkcs8_law P" and "MarshalPrivateKey X P key = Some pem"
  shows "ParsePrivateKey X P pem = Inr key"
  using assms by (auto simp: ParsePrivateKey_def MarshalPrivateKey_def pkcs8_law_def)

definition key_functions :: "x509_lib \<Rightarrow> pkcs8_lib \<Rightarrow> cmd_lib \<Rightarrow> cmd_lib" where
  "key_functions X P L =
     L\<lparr>cl_x509 := X, cl_marshal_key := MarshalPrivateKey X P,
       cl_parse_key := (\<lambda>pem. case ParsePrivateKey X P pem of Inl _ \<Rightarrow> None | Inr k \<Rightarrow> Some k)\<rparr>"

lemma command_keys:
  assumes "x509_law X" and "pkcs8_law P" and "cl_marshal_key (key_functions X P L) k = Some pem"
  shows "cl_parse_key (key_functions X P L) pem = Some k"
  using private_key_roundtrip [OF _ assms(2), of X k pem] assms(1,3) by (simp add: key_functions_def x509_law_def)

end
