(* ===== verification/Spec2Isabelle.thy ===== *)
theory Spec2Isabelle
  imports ServerProgram ClientProgram Guards
begin

text \<open>
  \<^bold>\<open>Verification of qoqtun.\<close> The program is a reverse tunnel: a client behind a firewall keeps a control
  connection to a public server over mutually authenticated TLS and registers tunnels on it; the server
  listens on public ports (or routes by HTTP host on one shared port), announces every public connection
  to the client, the client opens a data connection back and both sides copy bytes. Clients get their
  certificates by an enrolment endpoint of the server, against one-time tokens. All paths below are
  relative to src/.

  \<^bold>\<open>The parts, and the theories that model them.\<close> A theory holds the records, datatypes and operations of its
  files in the order of the code, and then the lemmas about them.

  \<^item> \<^verbatim>\<open>Prelude\<close>: shared types (bytes, instants, Go maps as association lists), the rule collections and generic
    lemmas, and the locale \<^verbatim>\<open>kv_store\<close> of a map, interpreted on the association lists. \<^verbatim>\<open>GoStrings\<close> and
    \<^verbatim>\<open>GoNet\<close> write out the functions of the Go standard library the program relies on: trimming, splitting,
    number parsing and printing, IP addresses, prefixes, host and port pairs.
  \<^item> \<^verbatim>\<open>Protocol\<close> (internal/protocol): messages, error values, the length-prefixed frames and the validators. The
    locale \<^verbatim>\<open>framing\<close> states what a frame codec promises; it is interpreted on the control frames here, on the
    datagram frames in \<^verbatim>\<open>Udp\<close> and on the enrolment frames in \<^verbatim>\<open>Enroll\<close>.
  \<^item> \<^verbatim>\<open>Acl\<close> (tunnel/acl.go and the port lists), \<^verbatim>\<open>Session\<close> (session), \<^verbatim>\<open>Security\<close> (security: semaphore, IP
    gate, token buckets, with the locales \<^verbatim>\<open>quota\<close> and \<^verbatim>\<open>exact_quota\<close>), \<^verbatim>\<open>Sniff\<close> (tunnel/http_sniff.go),
    \<^verbatim>\<open>Vhost\<close> (tunnel/vhost.go), \<^verbatim>\<open>Udp\<close> (tunnel/udp_frame.go, udp_server.go), \<^verbatim>\<open>TunnelManager\<close>
    (tunnel/server.go), \<^verbatim>\<open>Config\<close> (config: records, defaults, validators), \<^verbatim>\<open>Resolve\<close> (config/resolve.go,
    check.go: files, environment and flags as overlays on a value tree).
  \<^item> \<^verbatim>\<open>Transport\<close> (transport): the TLS configuration, the verification of peers, accepting and dialling, and the
    accept loop of the control server on top. \<^verbatim>\<open>Control\<close> (control): the server record with its sessions, managers,
    semaphores, virtual hosts and metrics; admission, hello, session replacement, registration, data
    connections, heartbeats, draining and shutdown. \<^verbatim>\<open>Accounts\<close> (the status query and what a connection takes
    and gives back) and \<^verbatim>\<open>Lifecycle\<close> (the process from the first signal to its exit, with its goroutines as a
    step relation) build on it.
  \<^item> \<^verbatim>\<open>Snapshot\<close> (the sorted listings of three stores), \<^verbatim>\<open>Tokens\<close> (auth), \<^verbatim>\<open>Pki\<close> (pki), \<^verbatim>\<open>Enroll\<close>
    (enroll: limiter, request handlers and client), \<^verbatim>\<open>EnrollServe\<close> (the endpoint on TLS with its accept loop, and
    an exchange between both ends).
  \<^item> \<^verbatim>\<open>ClientTunnel\<close> (tunnel/client.go, udp_client.go, splice.go), \<^verbatim>\<open>ClientCore\<close> (clientcore: sessions,
    reconnection, requests), \<^verbatim>\<open>Ipc\<close> (clientcore/ipc.go and the tunnel commands of cmd/client/tunnels.go).
  \<^item> \<^verbatim>\<open>Metrics\<close> (metrics), \<^verbatim>\<open>Keystore\<close> (platform/atomicfile, platform/keystore: files and memory), \<^verbatim>\<open>Platform\<close>
    (platform/keystore: keyring and Windows access lists; platform/desktop: the autostart entry of the three
    systems), \<^verbatim>\<open>Guards\<close> (the probes and messages of security/guard.go, private keys of pki/parse.go),
    \<^verbatim>\<open>Logging\<close> (logging).
  \<^item> \<^verbatim>\<open>Commands\<close> (cmd/server), \<^verbatim>\<open>ClientCommands\<close> (cmd/client), \<^verbatim>\<open>CoreApi\<close> (coreapi and cmd/desktop): the
    operations behind the commands, on the files and keys of a machine. \<^verbatim>\<open>ServerProgram\<close> and \<^verbatim>\<open>ClientProgram\<close>:
    the two programs from their parsed command lines to their exit status, on a machine with configuration
    files, environment and several state directories.
  \<^item> This theory: the properties that span the server's and the client's components.

  \<^bold>\<open>How effects are modelled.\<close> State is passed explicitly, one record per Go struct; what a mutex protects is one
  step. Files, listeners, dials, clocks and random bytes are arguments or fields, so that every failure is a
  branch; errors are values of a datatype per component and a result is a sum or an option. Goroutines are
  explicit sequences of events, and a theorem that speaks of interleavings quantifies over them. Durations
  and counters are integers where the code compares them within range, and words of 64 bits where they wrap
  (the counters of \<^verbatim>\<open>Metrics\<close>, the ban delay of \<^verbatim>\<open>Enroll\<close>). Code outside the repository is an argument:
  encoding/json, go-toml, SHA-256, crypto/x509, the keyring, the Windows security calls and
  golang.org/x/time/rate, with the law the code relies on as a named hypothesis and an instance in the witness.

  \<^bold>\<open>What is shown.\<close>
  \<^item> Who gets in: a session belongs to a peer whose certificate was issued by the configured authority, is not
    revoked and carries the client id (\<^verbatim>\<open>Transport\<close>); a certificate is only issued against an unspent token or a
    current certificate (\<^verbatim>\<open>Enroll\<close>), whose key the peer proved to hold (\<^verbatim>\<open>EnrollServe\<close>), and a token only
    once (\<^verbatim>\<open>Tokens\<close>); nothing is registered against the policy
    (\<^verbatim>\<open>Control\<close>), and the client on its own dials only admitted origins (\<^verbatim>\<open>ClientTunnel\<close>), the two sides
    agreeing on the meaning of a list (here).
  \<^item> Data: frames read back what was written, a splice and a UDP channel deliver the bytes that went in, sniffing
    a host loses none, the most specific virtual host is chosen, and a public connection is paired with the data
    connection opened for it, once, and gives back what it took (\<^verbatim>\<open>Accounts\<close>).
  \<^item> The programs together: a token made by one command enrols a client at the endpoint another command
    starts, and a command changes only its own files (\<^verbatim>\<open>ServerProgram\<close>); the client takes on exactly what the
    endpoint grants (\<^verbatim>\<open>EnrollServe\<close>) and can run afterwards (\<^verbatim>\<open>ClientCommands\<close>); the tunnel commands find the
    running client (\<^verbatim>\<open>ClientProgram\<close>).
  \<^item> State: invariants of the manager's ports, of the UDP table, of the facade's runs and of the metrics, each over
    every reachable state; the quotas as an exact count of what is held; the file store as an implementation of
    the memory store (locales \<^verbatim>\<open>key_slots\<close>, \<^verbatim>\<open>key_store\<close>, \<^verbatim>\<open>two_stores\<close>, \<^verbatim>\<open>working_system\<close>), a key that survives
    restarts in whichever backend it was put (\<^verbatim>\<open>Platform\<close>), one contract for the autostart entries of three
    systems (locale \<^verbatim>\<open>autostart\<close>); the rate window as a
    refinement of the history of events; overlays keep the kind of every setting.
  \<^item> Progress: the client reconnects until it is stopped or refused for good, the drain ends, a registration
    comes before the first connection, the enrolment endpoint goes on serving, and the server exits by itself
    after a signal as long as no splice is running, and not before the last splice has ended.
  \<^item> What goes wrong is stated as well, where the code differs from its documentation: the accept loop that a
    single peer stops, tokens respent by two processes, a displaced session that removes its successor, an
    enrolment with the default flags, a configuration that cannot be given back.

  \<^bold>\<open>Bounds and fuel.\<close> Recursion is structural or has a termination proof by a measure (the rate window by the seconds
  to go, sniffing by the remaining budget, the polling loops of the drain and the shutdown by the time left to
  their deadline), or by fuel that is the length of the input, of which every round consumes some (parsing durations). Streams of events are finite lists of any length.

  \<^bold>\<open>Not modelled.\<close> Flag parsing, which is the cobra library; the layout of printed tables and the texts of log
  lines; the window toolkit and its assets, and the tray and notification stubs; hooks that only tests set; the
  cryptography itself; TLS below the order of its checks; the scheduler, in that a step is never interrupted
  inside what a mutex protects.
\<close>

section \<open>A public connection finds its way to the client and back\<close>

text \<open>
  C6: A public connection is relayed by both programs: when the server announces an accepted connection
  to the client, and the client, whose tunnel points to an admitted origin it can reach, opens its data
  connection in time, then the message the client sends on it makes the server pair it with exactly
  that public connection, for that tunnel.
\<close>
theorem public_connection_paired:
  assumes s1: "s1 = onOpen L E conn cid tid pub addr s"
    and announced: "(conn, MOpenConnection oc) \<in> set (sent s s1)"
    and rnd: "e_rnd E = Some bs" "length bs = 16" and "tid \<noteq> ''''"
    and server: "TunnelByID tid (managerFor cid s) = Some t" "t_ID t = tid" "t_Type t \<noteq> ''udp''"
    and client: "cl_Get tid c = Some tc" "checkACL (lc_LocalIP tc) (lc_LocalPort tc) c = None" "SplitHostPort (cl_ServerAddr c) \<noteq> None"
    and reach: "oe_dialLocal Ec" "oe_dialServer Ec = Some d" "oe_write Ec"
    and time: "now \<le> e_now E + 10 * second"
  shows "\<exists>od c' s2. HandleOpenConnection Ec oc c = (Inr d, [DialOrigin (lc_LocalIP tc) (lc_LocalPort tc), SendOpenData d od, StartSplice d], c') \<and>
     handleDataConn now sd cid (Some od) s1 = (Splicing (Some pub) tid, s2)"
proof -
  obtain connID where o: "NewConnID (e_rnd E) = Some connID" "oc_ConnID oc = connID" "oc_TunnelID oc = tid" "oc_Transport oc = ''''"
      and m: "mget (pending (managerFor cid s1)) connID = Some \<lparr>pc_conn = Some pub, pc_tunnelID = tid, pc_deadline = e_now E + 10 * second\<rparr>"
        "m_tunnels (managerFor cid s1) = m_tunnels (managerFor cid s)"
    using onOpen_sent announced unfolding s1 by blast
  have len: "length connID = 32" using o(1) rnd by (auto simp: NewConnID_def length_hex_encode)
  let ?od = "\<lparr>od_ConnID = connID, od_TunnelID = tid\<rparr>"
  have ip: "ParseIP (lc_LocalIP tc) \<noteq> None" using client(2) by (auto simp: checkACL_def split: option.splits)
  have "HandleOpenConnection Ec oc c = (Inr d, [DialOrigin (lc_LocalIP tc) (lc_LocalPort tc), SendOpenData d ?od, StartSplice d], trackData d c)"
    using client reach o len ip by (auto simp: HandleOpenConnection_def openTCP_def dialLocal_host_def Let_def)
  moreover have "fst (handleDataConn now sd cid (Some ?od) s1) = Splicing (Some pub) tid"
    using m server time len assms(5)
    by (auto simp: handleDataConn_def ValidateOpenData_def ClaimData_def TunnelByID_def Let_def)
  ultimately show ?thesis by (metis prod.collapse)
qed

theorem public_connection_paired_witness:
  "\<exists>od s2. handleDataConn 9 6 ''alice'' (Some od) announced_srv = (Splicing (Some 77) ''t_1'', s2)"
proof -
  have tun: "case TunnelByID ''t_1'' (managerFor ''alice'' online_srv) of None \<Rightarrow> False | Some t \<Rightarrow> t_ID t = ''t_1'' \<and> t_Type t \<noteq> ''udp''"
    by code_simp
  then obtain t where t: "TunnelByID ''t_1'' (managerFor ''alice'' online_srv) = Some t" "t_ID t = ''t_1''" "t_Type t \<noteq> ''udp''"
    by (auto split: option.splits)
  have cl: "case cl_Get ''t_1'' sample_client of None \<Rightarrow> False | Some tc \<Rightarrow> checkACL (lc_LocalIP tc) (lc_LocalPort tc) sample_client = None"
    by code_simp
  then obtain tc where tc: "cl_Get ''t_1'' sample_client = Some tc" "checkACL (lc_LocalIP tc) (lc_LocalPort tc) sample_client = None"
    by (auto split: option.splits)
  have addr: "SplitHostPort (cl_ServerAddr sample_client) \<noteq> None" by code_simp
  have env: "e_rnd full_answers = Some (replicate 16 7)" "length (replicate 16 (7::8 word)) = 16" "''t_1'' \<noteq> ''''"
    "oe_dialLocal willing" "oe_dialServer willing = Some 4" "oe_write willing" "9 \<le> e_now full_answers + 10 * second"
    by (simp_all add: full_answers_def willing_def)
  from public_connection_paired [OF announced_srv_def announced_sent env(1-3) t tc addr env(4-7), of 6] show ?thesis by blast
qed

section \<open>Server and client agree on the allowed targets\<close>



section \<open>A replaced client does not come back\<close>

lemma kick_sends:
  assumes "Get cid (s_sessions s) = Some a" and "mget (s_heap s) a = Some sess" and "Conn sess = Some old"
  shows "(old, MError 0 (NewError ErrCodeAuthFailed ''replaced by a newer session'' True)) \<in> set (sent s (kick_old cid s))"
  using assms by (simp add: kick_old_def sent_def send_def close_conn_def Let_def)

lemma start_sends_kick:
  assumes "Get cid (s_sessions s) = Some a" and "handleControlConn_start now conn cid arg s = (True, s')"
  shows "set (sent s (kick_old cid s)) \<subseteq> set (sent s s')"
proof -
  have reg: "Register conn \<lparr>session.ClientID = cid, Conn = Some conn, tunnels = 0, conns = 0, lastActive = now\<rparr> (s_sessions s) = Inl ErrExists"
    using assms(1) by (simp add: Register_def Get_def)
  have "\<exists>xs. s_out s' = s_out (kick_old cid s) @ xs"
    using assms(2) reg by (auto simp: handleControlConn_start_def Let_def put_manager_def split: option.splits sum.splits)
  then show ?thesis by (auto simp: sent_def dest: in_set_dropD)
qed

lemma classify_replaced:
  "Classify ucase (Some (Wrap ''clientcore: control connection lost'' (Leaf ''server fatal error: ERR_AUTH_FAILED: replaced by a newer session'')))
   = Some (ErrPermanent (Wrap ''clientcore: control connection lost'' (Leaf ''server fatal error: ERR_AUTH_FAILED: replaced by a newer session'')))"
  by code_simp

text \<open>
  C32: Two processes with the same identity do not displace each other for ever: when a second connection
  of a client comes online, the first one is sent a fatal error, and the client process that receives it
  as the next frame gives up with a permanent error instead of reconnecting.
\<close>
theorem replaced_client_stops:
  assumes first: "Get cid (s_sessions s) = Some a" "mget (s_heap s) a = Some sess" "Conn sess = Some old"
    and second: "handleControlConn_start now conn cid arg s = (True, s')"
    and stop: "ro_stop x = False" "session_step (EvFrame (FError (Some pe))) c = (Some (ro_session x), c')"
    and frame: "pe = NewError ErrCodeAuthFailed ''replaced by a newer session'' True"
    and before: "list_all (retryable ucase) pre"
  shows "(old, MError 0 pe) \<in> set (sent s s') \<and>
     (\<exists>e. tr_result (mgr_Run ucase B (pre @ x # post)) = Some (Some e) \<and> IsPermanent e)"
proof -
  have "ro_session x = Some (Wrap ''clientcore: control connection lost'' (Leaf ''server fatal error: ERR_AUTH_FAILED: replaced by a newer session''))"
    using stop(2) by (simp add: session_step_def frame NewError_def)
  then have cls: "Classify ucase (ro_session x) = Some (ErrPermanent (the (ro_session x)))"
    using classify_replaced by simp
  have "tr_result (mgr_Run ucase B (pre @ x # post)) = Some (Some (ErrPermanent (the (ro_session x))))"
    using mgr_loop_retries [OF before, of _ 0 "x # post"] stop(1) cls \<open>ro_session x = _\<close> by (simp add: mgr_Run_def)
  then show ?thesis using start_sends_kick [OF first(1) second] kick_sends [OF first] frame by auto
qed

definition replaced_run :: round where
  "replaced_run = \<lparr>ro_stop = False, ro_session = Some (Wrap ''clientcore: control connection lost''
     (Leaf ''server fatal error: ERR_AUTH_FAILED: replaced by a newer session'')), ro_rand = (0, True), ro_stopWait = False\<rparr>"

theorem replaced_client_stops_witness:
  "\<exists>s1 s2 e. handleControlConn_start 0 5 ''alice'' (Inr sample_hello) sample_srv = (True, s1) \<and>
     handleControlConn_start 9 6 ''alice'' (Inr sample_hello) s1 = (True, s2) \<and>
     (5, MError 0 (NewError ErrCodeAuthFailed ''replaced by a newer session'' True)) \<in> set (sent s1 s2) \<and>
     tr_result (mgr_Run id DefaultBackoff [replaced_run]) = Some (Some e) \<and> IsPermanent e"
proof -
  obtain s1 where s1: "handleControlConn_start 0 5 ''alice'' (Inr sample_hello) sample_srv = (True, s1)" using sample_start by blast
  obtain s2 where s2: "handleControlConn_start 9 6 ''alice'' (Inr sample_hello) s1 = (True, s2)" using sample_start by blast
  have on: "Get ''alice'' (s_sessions s1) = Some 5"
    "\<exists>sess. mget (s_heap s1) 5 = Some sess \<and> Conn sess = Some 5" using start_online [OF s1] s1 sample_hello_ok
    by (auto simp: handleControlConn_start_def Let_def put_manager_def send_def Get_def split: sum.splits)
  then obtain sess where sess: "mget (s_heap s1) 5 = Some sess" "Conn sess = Some 5" by blast
  have stop: "ro_stop replaced_run = False"
    "session_step (EvFrame (FError (Some (NewError ErrCodeAuthFailed ''replaced by a newer session'' True)))) idle_client = (Some (ro_session replaced_run), idle_client)"
    by (simp_all add: replaced_run_def session_step_def NewError_def)
  from replaced_client_stops [OF on(1) sess s2 stop refl, of id "[]" DefaultBackoff "[]"] s1 s2 show ?thesis by auto
qed

end
